(* ===== verification/Prelude.thy ===== *)
theory Prelude
  imports Main "HOL-Library.Word"
begin

text \<open>
  Shared vocabulary of the development: the machine types of the Go sources, the fragment of
  Go's standard library that several components use (fixed-width integers in byte order,
  \<^verbatim>\<open>io.ReadFull\<close>, \<^verbatim>\<open>time.Duration\<close> arithmetic, map iteration), and the
  generic facts on words, lists and maps the component proofs rest on.

  \<^item> \<open>word_nat\<close> collects the equations that move a word to \<open>nat\<close>.
  \<^item> \<open>wire_simps\<close> collects the equations that lay a value out as bytes and read it back.
  \<^item> The locale \<open>fixed_codec\<close> is the interface of a fixed-width byte encoding; the big and
    little endian encodings of \<^verbatim>\<open>encoding/binary\<close> interpret it.
\<close>

unbundle bit_operations_syntax

named_theorems word_nat \<open>reading words as natural numbers\<close>
named_theorems wire_simps \<open>byte layouts and their inverses\<close>

section \<open>Machine types\<close>

type_synonym byte = "8 word"
type_synonym u8 = "8 word"
type_synonym u16 = "16 word"
type_synonym u32 = "32 word"
type_synonym u64 = "64 word"
type_synonym i16 = "16 word"
type_synonym i32 = "32 word"
type_synonym i64 = "64 word"

text \<open>
  A Go \<^verbatim>\<open>string\<close> is a sequence of bytes, as is \<^typ>\<open>string\<close>; \<open>bytes_of\<close> and
  \<open>string_of\<close> are the conversions \<^verbatim>\<open>[]byte(s)\<close> and \<^verbatim>\<open>string(b)\<close>.
\<close>

definition bytes_of :: "string \<Rightarrow> byte list" where
  "bytes_of s = map of_char s"

definition string_of :: "byte list \<Rightarrow> string" where
  "string_of bs = map (\<lambda>b. char_of (unat b)) bs"

lemma length_bytes_of [simp]: "length (bytes_of s) = length s"
  by (simp add: bytes_of_def)

lemma length_string_of [simp]: "length (string_of bs) = length bs"
  by (simp add: string_of_def)

lemma of_char_less_256: "(of_char c :: nat) < 256"
proof -
  have "(of_char c :: nat) = of_char c mod 256"
    using of_char_of [of "of_char c :: nat"] by (simp only: char_of_char)
  also have "\<dots> < 256"
    by (rule mod_less_divisor) simp
  finally show ?thesis .
qed

lemma unat_of_char8 [simp]: "unat (of_char c :: byte) = of_char c"
proof -
  have "(of_char c :: byte) = of_nat (of_char c)"
    by (simp only: of_nat_of_char)
  then have "unat (of_char c :: byte) = unat (of_nat (of_char c) :: byte)"
    by simp
  also have "\<dots> = of_char c"
    using of_char_less_256 [of c] by (simp only: unat_of_nat) simp
  finally show ?thesis .
qed

lemma string_of_bytes_of [simp]: "string_of (bytes_of s) = s"
  by (simp add: string_of_def bytes_of_def o_def map_idI)

lemma of_char_char_of8 [simp]: "(of_char (char_of (unat (b::byte))) :: byte) = b"
proof -
  have "unat (of_char (char_of (unat b)) :: byte) = unat b"
    using unsigned_less [where ?'a = nat, of b] by simp
  then show ?thesis by (simp only: word_unat_eq_iff)
qed

lemma bytes_of_string_of [simp]: "bytes_of (string_of bs) = bs"
  by (simp add: string_of_def bytes_of_def o_def map_idI)

section \<open>Words\<close>

lemma unat_pow2 [word_nat]: "k < LENGTH('a) \<Longrightarrow> unat (2 ^ k :: 'a::len word) = 2 ^ k"
proof -
  assume k: "k < LENGTH('a)"
  have "unat (2 ^ k :: 'a word) = unat (of_nat (2 ^ k) :: 'a word)" by simp
  also have "\<dots> = take_bit LENGTH('a) (2 ^ k)" by (simp add: unsigned_of_nat del: of_nat_power)
  also have "\<dots> = 2 ^ k" using k by (intro take_bit_nat_eq_self) simp
  finally show ?thesis .
qed

lemma pow2_word_zero: "(2 ^ k :: 'a::len word) = 0 \<longleftrightarrow> LENGTH('a) \<le> k"
  by (simp add: exp_eq_zero_iff)

lemma unat_and_mask [word_nat]: "unat (x AND mask k) = unat x mod 2 ^ k"
proof -
  have "unat (x AND mask k) = take_bit k (unat x)"
    by (simp only: take_bit_eq_mask [symmetric] unsigned_take_bit_eq)
  then show ?thesis by (simp add: take_bit_eq_mod)
qed

lemma sint_of_nat32: "n < 2 ^ 31 \<Longrightarrow> sint (of_nat n :: i32) = int n"
  by (simp add: signed_of_nat signed_take_bit_int_eq_self)

lemma sint_of_nat64: "n < 2 ^ 63 \<Longrightarrow> sint (of_nat n :: i64) = int n"
  by (simp add: signed_of_nat signed_take_bit_int_eq_self)

lemma word_sint_eq: "sint v = sint w \<longleftrightarrow> v = w" for v w :: "'a::len word"
  by (rule word_eq_iff_signed [symmetric])

section \<open>Fixed-width integers as bytes\<close>

text \<open>
  \<^verbatim>\<open>binary.LittleEndian.PutUint\<close> stores the least significant byte first;
  \<^verbatim>\<open>binary.BigEndian.PutUint\<close> stores the most significant byte first. The decoders are
  defined for a list of exactly as many bytes as the type has.
\<close>

fun le_put :: "nat \<Rightarrow> 'a::len word \<Rightarrow> byte list" where
  "le_put 0 w = []"
| "le_put (Suc n) w = ucast w # le_put n (drop_bit 8 w)"

fun le_get :: "byte list \<Rightarrow> 'a::len word" where
  "le_get [] = 0"
| "le_get (b # bs) = ucast b OR push_bit 8 (le_get bs)"

definition be_put :: "nat \<Rightarrow> 'a::len word \<Rightarrow> byte list" where
  "be_put n w = rev (le_put n w)"

definition be_get :: "byte list \<Rightarrow> 'a::len word" where
  "be_get bs = le_get (rev bs)"

lemma length_le_put [simp]: "length (le_put n w) = n"
  by (induction n arbitrary: w) auto

lemma length_be_put [simp]: "length (be_put n w) = n"
  by (simp add: be_put_def)

lemma bit_le_get_Cons:
  "bit (le_get (b # bs) :: 'a::len word) k \<longleftrightarrow>
     k < LENGTH('a) \<and> (if k < 8 then bit b k else bit (le_get bs :: 'a word) (k - 8))"
  using bit_imp_le_length [of b k] by (auto simp: bit_simps)

lemma le_get_le_put: "le_get (le_put n w) = take_bit (8 * n) (w :: 'a::len word)"
proof (induction n arbitrary: w)
  case 0
  then show ?case by simp
next
  case (Suc n)
  show ?case
    by (rule bit_word_eqI)
      (simp add: bit_le_get_Cons Suc.IH bit_take_bit_iff bit_ucast_iff bit_drop_bit_eq less_diff_conv2 add.commute [of 8] del: le_get.simps)
qed

lemma le_put_cong:
  "take_bit (8 * n) x = take_bit (8 * n) y \<Longrightarrow> le_put n x = le_put n (y :: 'a::len word)"
proof (induction n arbitrary: x y)
  case 0
  then show ?case by simp
next
  case (Suc n)
  have eq: "bit x i = bit y i" if "i < 8 + 8 * n" for i
    using arg_cong [OF Suc.prems, of "\<lambda>w. bit w i"] that by (simp add: bit_take_bit_iff)
  have "ucast x = (ucast y :: byte)"
    by (rule bit_word_eqI) (simp add: bit_ucast_iff eq)
  moreover have "take_bit (8 * n) (drop_bit 8 x) = take_bit (8 * n) (drop_bit 8 y)"
    by (rule bit_word_eqI) (simp add: bit_take_bit_iff bit_drop_bit_eq eq cong: conj_cong)
  ultimately show ?case
    by (simp add: Suc.IH [of "drop_bit 8 x" "drop_bit 8 y"])
qed

lemma le_put_le_get:
  "length bs = n \<Longrightarrow> 8 * n \<le> LENGTH('a) \<Longrightarrow> le_put n (le_get bs :: 'a::len word) = bs"
proof (induction n arbitrary: bs)
  case 0
  then show ?case by simp
next
  case (Suc n)
  from Suc.prems(1) obtain b cs where bs: "bs = b # cs" and len: "length cs = n"
    by (cases bs) auto
  let ?v = "le_get cs :: 'a word"
  from Suc.prems(2) have wide: "8 + 8 * n \<le> LENGTH('a)" by simp
  have low: "ucast (le_get bs :: 'a word) = b"
    by (rule bit_word_eqI) (use wide in \<open>simp add: bs bit_ucast_iff bit_le_get_Cons del: le_get.simps\<close>)
  have "take_bit (8 * n) (drop_bit 8 (le_get bs :: 'a word)) = take_bit (8 * n) ?v"
    by (rule bit_word_eqI)
      (use wide in \<open>simp add: bs bit_take_bit_iff bit_drop_bit_eq bit_le_get_Cons cong: conj_cong del: le_get.simps\<close>)
  then have "le_put n (drop_bit 8 (le_get bs :: 'a word)) = le_put n ?v"
    by (rule le_put_cong)
  also have "\<dots> = cs"
    by (rule Suc.IH [OF len]) (use wide in linarith)
  finally show ?case
    by (simp only: le_put.simps low) (simp only: bs)
qed

text \<open>
  The interface of a fixed-width byte encoding: what the framing code of the wire protocols
  and of the write-ahead log relies on.
\<close>

locale fixed_codec =
  fixes put :: "'v \<Rightarrow> byte list"
    and get :: "byte list \<Rightarrow> 'v"
    and width :: nat
  assumes length_put: "length (put v) = width"
    and get_put: "get (put v) = v"
    and put_get: "length bs = width \<Longrightarrow> put (get bs) = bs"
begin

lemma put_inject: "put v = put w \<longleftrightarrow> v = w"
  by (metis get_put)

lemma get_prefix: "get (take width (put v @ rest)) = v"
  by (simp add: length_put get_put)

lemma drop_prefix: "drop width (put v @ rest) = rest"
  by (simp add: length_put)

lemma get_inject: "length bs = width \<Longrightarrow> length cs = width \<Longrightarrow> get bs = get cs \<longleftrightarrow> bs = cs"
  by (metis put_get)

end

lemma take_bit_length_word: "take_bit n (w :: 'a::len word) = w" if "LENGTH('a) \<le> n"
  by (rule bit_word_eqI) (use that in \<open>auto simp: bit_simps\<close>)

lemma be_get_be_put: "be_get (be_put n w) = take_bit (8 * n) w"
  by (simp add: be_get_def be_put_def le_get_le_put)

lemma be_put_be_get:
  "length bs = n \<Longrightarrow> 8 * n \<le> LENGTH('a) \<Longrightarrow> be_put n (be_get bs :: 'a::len word) = bs"
  by (simp add: be_get_def be_put_def le_put_le_get)

interpretation be16: fixed_codec "be_put 2 :: u16 \<Rightarrow> byte list" be_get 2
  by unfold_locales (simp_all add: be_get_be_put be_put_be_get take_bit_length_word)

interpretation be32: fixed_codec "be_put 4 :: u32 \<Rightarrow> byte list" be_get 4
  by unfold_locales (simp_all add: be_get_be_put be_put_be_get take_bit_length_word)

interpretation be64: fixed_codec "be_put 8 :: u64 \<Rightarrow> byte list" be_get 8
  by unfold_locales (simp_all add: be_get_be_put be_put_be_get take_bit_length_word)

interpretation le32: fixed_codec "le_put 4 :: u32 \<Rightarrow> byte list" le_get 4
  by unfold_locales (simp_all add: le_get_le_put le_put_le_get take_bit_length_word)

interpretation le64: fixed_codec "le_put 8 :: u64 \<Rightarrow> byte list" le_get 8
  by unfold_locales (simp_all add: le_get_le_put le_put_le_get take_bit_length_word)

lemmas [wire_simps] =
  be16.get_put be32.get_put be64.get_put le32.get_put le64.get_put


section \<open>Byte readers\<close>

text \<open>
  A reader is the list of bytes not yet read. \<^verbatim>\<open>io.ReadFull(r, buf)\<close> either fills the
  buffer or reports \<^verbatim>\<open>io.EOF\<close> (nothing was read) or \<^verbatim>\<open>io.ErrUnexpectedEOF\<close>
  (some bytes were read); in both error cases what was left is consumed.
\<close>

datatype io_error = EOF | ErrUnexpectedEOF

definition ReadFull :: "nat \<Rightarrow> byte list \<Rightarrow> (io_error + byte list) \<times> byte list" where
  "ReadFull n r =
     (if n \<le> length r then (Inr (take n r), drop n r)
      else (Inl (if r = [] then EOF else ErrUnexpectedEOF), []))"

lemma ReadFull_enough [wire_simps]: "length bs = n \<Longrightarrow> ReadFull n (bs @ rest) = (Inr bs, rest)"
  by (auto simp: ReadFull_def)

lemma ReadFull_short: "length r < n \<Longrightarrow> \<exists>e. ReadFull n r = (Inl e, [])"
  by (auto simp: ReadFull_def)

lemma ReadFull_Inr: "ReadFull n r = (Inr bs, rest) \<Longrightarrow> r = bs @ rest \<and> length bs = n"
  by (auto simp: ReadFull_def split: if_splits)

section \<open>Maps and their iteration\<close>

text \<open>
  \<^verbatim>\<open>for k, v := range m\<close> visits every key of a Go map once, in an order the language
  leaves open. An operation that iterates takes that order as an argument; \<open>range_order m ks\<close>
  says that \<open>ks\<close> is an order Go may choose.
\<close>

definition range_order :: "('k \<rightharpoonup> 'v) \<Rightarrow> 'k list \<Rightarrow> bool" where
  "range_order m ks \<longleftrightarrow> distinct ks \<and> set ks = dom m"

lemma range_orderD: "range_order m ks \<Longrightarrow> distinct ks" "range_order m ks \<Longrightarrow> set ks = dom m"
  by (simp_all add: range_order_def)

lemma range_order_exists: "finite (dom m) \<Longrightarrow> \<exists>ks. range_order m ks"
  unfolding range_order_def by (metis finite_distinct_list)

lemma range_order_length: "range_order m ks \<Longrightarrow> length ks = card (dom m)"
  by (metis distinct_card range_orderD)

lemma range_order_empty [simp]: "range_order Map.empty ks \<longleftrightarrow> ks = []"
  by (auto simp: range_order_def)

section \<open>Durations\<close>

text \<open>
  Instants and durations are counts of nanoseconds. \<^verbatim>\<open>t.Sub(u)\<close> saturates at the ends
  of \<^verbatim>\<open>time.Duration\<close>, a signed 64-bit count.
\<close>

type_synonym instant = int
type_synonym duration = int

definition maxDuration :: duration where
  "maxDuration = 2 ^ 63 - 1"

definition minDuration :: duration where
  "minDuration = - (2 ^ 63)"

definition time_sub :: "instant \<Rightarrow> instant \<Rightarrow> duration" where
  "time_sub t u = max minDuration (min maxDuration (t - u))"

definition Nanosecond :: duration where "Nanosecond = 1"
definition Microsecond :: duration where "Microsecond = 1000"
definition Millisecond :: duration where "Millisecond = 1000000"
definition Second :: duration where "Second = 1000000000"
definition Minute :: duration where "Minute = 60000000000"
definition Hour :: duration where "Hour = 3600000000000"

lemma time_sub_exact: "minDuration \<le> t - u \<Longrightarrow> t - u \<le> maxDuration \<Longrightarrow> time_sub t u = t - u"
  by (simp add: time_sub_def)

lemma time_sub_mono: "t \<le> t' \<Longrightarrow> time_sub t u \<le> time_sub t' u"
  by (auto simp: time_sub_def)

end
