(* ===== verification/Fifo.thy ===== *)
theory Fifo
  imports Prelude
begin

text \<open>
  The contract of a bounded first-in first-out queue, as the message bus and its workers rely on
  it. \<open>fifo_run\<close> is the specification: a list, appended to by a put while it is shorter than
  the capacity and shortened at the front by a get. The locale \<open>fifo_queue\<close> is what holds of
  every policy as long as there is room; \<open>bounded_queue\<close> adds that a put into a full queue is
  refused and changes nothing. Both are interpreted for the ring buffer in
  \<open>Lock_Free_Queue\<close>.
\<close>

section \<open>The specification\<close>

datatype 'a queue_op = Put 'a | Get

datatype 'a queue_res = PutRes bool | GetRes "'a option"

fun fifo_step :: "nat \<Rightarrow> 'a queue_op \<Rightarrow> 'a list \<Rightarrow> 'a queue_res \<times> 'a list" where
  "fifo_step c (Put x) xs = (if length xs < c then (PutRes True, xs @ [x]) else (PutRes False, xs))"
| "fifo_step c Get [] = (GetRes None, [])"
| "fifo_step c Get (x # xs) = (GetRes (Some x), xs)"

fun fifo_run :: "nat \<Rightarrow> 'a queue_op list \<Rightarrow> 'a list \<Rightarrow> 'a queue_res list \<times> 'a list" where
  "fifo_run c [] xs = ([], xs)"
| "fifo_run c (op # ops) xs =
     (let (r, ys) = fifo_step c op xs; (rs, zs) = fifo_run c ops ys in (r # rs, zs))"

text \<open>The items the puts of a run were told to be accepted, and the items its gets returned.\<close>

fun accepted :: "'a queue_op list \<Rightarrow> 'a queue_res list \<Rightarrow> 'a list" where
  "accepted (Put x # ops) (PutRes True # rs) = x # accepted ops rs"
| "accepted (_ # ops) (_ # rs) = accepted ops rs"
| "accepted _ _ = []"

fun received :: "'a queue_res list \<Rightarrow> 'a list" where
  "received (GetRes (Some x) # rs) = x # received rs"
| "received (_ # rs) = received rs"
| "received [] = []"

text \<open>Nothing is lost, duplicated or reordered.\<close>

lemma fifo_run_conserves:
  "fifo_run c ops xs = (rs, zs) \<Longrightarrow> received rs @ zs = xs @ accepted ops rs"
proof (induction ops arbitrary: xs rs zs)
  case (Cons op ops)
  then show ?case
    by (cases op; cases xs) (auto simp: Let_def split: prod.splits if_splits)
qed simp

lemma fifo_run_bounded:
  "fifo_run c ops xs = (rs, zs) \<Longrightarrow> length xs \<le> c \<Longrightarrow> length zs \<le> c"
proof (induction ops arbitrary: xs rs zs)
  case (Cons op ops)
  then show ?case
    by (cases op; cases xs) (fastforce simp: Let_def split: prod.splits if_splits)+
qed simp

section \<open>Running operations of an implementation\<close>

type_synonym ('q, 'a) enqueue_op = "'q \<Rightarrow> 'a \<Rightarrow> (bool \<times> 'q) option"
type_synonym ('q, 'a) dequeue_op = "'q \<Rightarrow> (('a \<times> bool) \<times> 'q) option"

fun queue_run ::
  "('q, 'a) enqueue_op \<Rightarrow> ('q, 'a) dequeue_op \<Rightarrow> 'a queue_op list \<Rightarrow> 'q \<Rightarrow> ('a queue_res list \<times> 'q) option" where
  "queue_run enq deq [] q = Some ([], q)"
| "queue_run enq deq (Put x # ops) q =
     (case enq q x of
        None \<Rightarrow> None
      | Some (b, q') \<Rightarrow> map_option (apfst (Cons (PutRes b))) (queue_run enq deq ops q'))"
| "queue_run enq deq (Get # ops) q =
     (case deq q of
        None \<Rightarrow> None
      | Some ((x, b), q') \<Rightarrow>
          map_option (apfst (Cons (GetRes (if b then Some x else None)))) (queue_run enq deq ops q'))"

text \<open>Taking items until the queue reports empty, at most \<open>n\<close> of them.\<close>

fun drain :: "('q, 'a) dequeue_op \<Rightarrow> nat \<Rightarrow> 'q \<Rightarrow> ('a list \<times> 'q) option" where
  "drain deq 0 q = Some ([], q)"
| "drain deq (Suc n) q =
     (case deq q of
        None \<Rightarrow> None
      | Some ((x, b), q') \<Rightarrow>
          if b then map_option (apfst (Cons x)) (drain deq n q') else Some ([], q'))"

section \<open>The contract\<close>

locale fifo_queue =
  fixes invar :: "'q \<Rightarrow> bool" and items :: "'q \<Rightarrow> 'a list" and cap :: "'q \<Rightarrow> nat"
    and enq :: "('q, 'a) enqueue_op" and deq :: "('q, 'a) dequeue_op" and nil :: 'a
  assumes bounded: "invar q \<Longrightarrow> length (items q) \<le> cap q"
    and enq_room: "invar q \<Longrightarrow> length (items q) < cap q \<Longrightarrow>
      \<exists>q'. enq q x = Some (True, q') \<and> invar q' \<and> cap q' = cap q \<and> items q' = items q @ [x]"
    and deq_empty: "invar q \<Longrightarrow> items q = [] \<Longrightarrow> deq q = Some ((nil, False), q)"
    and deq_Cons: "invar q \<Longrightarrow> items q = x # xs \<Longrightarrow>
      \<exists>q'. deq q = Some ((x, True), q') \<and> invar q' \<and> cap q' = cap q \<and> items q' = xs"
begin

lemma drain_take:
  "invar q \<Longrightarrow> \<exists>q'. drain deq n q = Some (take n (items q), q') \<and>
     invar q' \<and> cap q' = cap q \<and> items q' = drop n (items q)"
proof (induction n arbitrary: q)
  case (Suc n)
  show ?case
  proof (cases "items q")
    case Nil
    with Suc.prems show ?thesis by (simp add: deq_empty)
  next
    case (Cons x xs)
    from deq_Cons [OF Suc.prems this] obtain q'
      where q': "deq q = Some ((x, True), q')" "invar q'" "cap q' = cap q" "items q' = xs" by blast
    from Suc.IH [OF q'(2)] show ?thesis using q' Cons by auto
  qed
qed simp

lemma puts_room:
  "invar q \<Longrightarrow> length (items q) + length xs \<le> cap q \<Longrightarrow>
   \<exists>q'. queue_run enq deq (map Put xs) q = Some (map (\<lambda>_. PutRes True) xs, q') \<and>
     invar q' \<and> cap q' = cap q \<and> items q' = items q @ xs"
proof (induction xs arbitrary: q)
  case (Cons x xs)
  then have "length (items q) < cap q" by simp
  from enq_room [OF Cons.prems(1) this, of x] obtain q'
    where q': "enq q x = Some (True, q')" "invar q'" "cap q' = cap q" "items q' = items q @ [x]"
    by blast
  from Cons.IH [OF q'(2)] Cons.prems(2) show ?case using q' by auto
qed simp

text \<open>What was put comes back, oldest first, and leaves the queue as empty as it was.\<close>

lemma puts_then_drain:
  assumes "invar q" "items q = []" "length xs \<le> cap q" "length xs \<le> n"
  shows "\<exists>q1 q2. queue_run enq deq (map Put xs) q = Some (map (\<lambda>_. PutRes True) xs, q1) \<and>
     drain deq n q1 = Some (xs, q2) \<and> items q2 = []"
proof -
  from puts_room [of q xs] assms obtain q1
    where q1: "queue_run enq deq (map Put xs) q = Some (map (\<lambda>_. PutRes True) xs, q1)"
      "invar q1" "items q1 = xs" by auto
  with drain_take [OF q1(2), of n] assms(4) show ?thesis by auto
qed

end

locale bounded_queue = fifo_queue +
  assumes enq_full: "invar q \<Longrightarrow> length (items q) = cap q \<Longrightarrow>
      \<exists>q'. enq q x = Some (False, q') \<and> invar q' \<and> cap q' = cap q \<and> items q' = items q"
begin

lemma enq_step:
  assumes "invar q"
  shows "\<exists>b q'. enq q x = Some (b, q') \<and> invar q' \<and> cap q' = cap q \<and>
     fifo_step (cap q) (Put x) (items q) = (PutRes b, items q')"
  using enq_room [OF assms, of x] enq_full [OF assms, of x] bounded [OF assms]
  by (cases "length (items q) < cap q") auto

lemma deq_step:
  assumes "invar q"
  shows "\<exists>x b q'. deq q = Some ((x, b), q') \<and> invar q' \<and> cap q' = cap q \<and>
     fifo_step (cap q) Get (items q) = (GetRes (if b then Some x else None), items q')"
proof (cases "items q")
  case Nil
  with deq_empty [OF assms] assms show ?thesis by auto
next
  case (Cons x xs)
  with deq_Cons [OF assms] show ?thesis by fastforce
qed

lemma run_refines:
  "invar q \<Longrightarrow> \<exists>q'. queue_run enq deq ops q = Some (fst (fifo_run (cap q) ops (items q)), q') \<and>
     invar q' \<and> cap q' = cap q \<and> items q' = snd (fifo_run (cap q) ops (items q))"
proof (induction ops arbitrary: q)
  case (Cons op ops)
  show ?case
  proof (cases op)
    case (Put x)
    from enq_step [OF Cons.prems, of x] obtain b q'
      where q': "enq q x = Some (b, q')" "invar q'" "cap q' = cap q"
        "fifo_step (cap q) (Put x) (items q) = (PutRes b, items q')" by blast
    from Cons.IH [OF q'(2)] q' Put show ?thesis
      by (auto simp: Let_def case_prod_beta simp del: fifo_step.simps)
  next
    case Get
    from deq_step [OF Cons.prems] obtain x b q'
      where q': "deq q = Some ((x, b), q')" "invar q'" "cap q' = cap q"
        "fifo_step (cap q) Get (items q) = (GetRes (if b then Some x else None), items q')" by blast
    from Cons.IH [OF q'(2)] q' Get show ?thesis
      by (auto simp: Let_def case_prod_beta simp del: fifo_step.simps)
  qed
qed simp

end

end
