(* ===== verification/Lock_Free_Queue.thy ===== *)
theory Lock_Free_Queue
  imports Fifo
begin

text \<open>
  The ring buffer of \<^verbatim>\<open>src/pkg/queue/lockfree.go\<close>: \<^verbatim>\<open>LockFreeQueue\<close> with its
  constructor, \<^verbatim>\<open>Enqueue\<close>, \<^verbatim>\<open>Dequeue\<close>, the size queries and
  \<^verbatim>\<open>tryForceEnqueueDropOldest\<close>, as one caller sees them while no other goroutine touches
  the queue (each compare-and-swap then succeeds). Counters and positions are 64-bit words that
  wrap around. A call that indexes outside the buffer panics, which is the value \<open>None\<close>.

  \<open>q_inv\<close> is the ring invariant and \<open>q_items\<close> the sequence of items the queue holds;
  the lemmas show that the operations implement a bounded first-in first-out queue on
  \<open>q_items\<close> and, for the policy \<open>DropOldest\<close>, that an overflow leaves the queue unable
  to accept anything again.
\<close>

section \<open>Data\<close>

datatype DropPolicy = DropOldest | DropNewest | Block

text \<open>An \<^verbatim>\<open>unsafe.Pointer\<close> to an item: \<open>None\<close> is the nil pointer.\<close>

record 'a queueNode =
  n_sequence :: u64
  n_data :: "'a option"

record 'a LockFreeQueue =
  q_mask :: u64
  q_buffer :: "'a queueNode list"
  q_enqueuePos :: u64
  q_dequeuePos :: u64
  q_enqueueCount :: u64
  q_dequeueCount :: u64
  q_dropCount :: u64
  q_name :: string
  q_capacity :: i64
  q_dropPolicy :: DropPolicy

record QueueStats =
  qs_Name :: string
  qs_Capacity :: i64
  qs_Size :: i64
  qs_EnqueueCount :: u64
  qs_DequeueCount :: u64
  qs_DropCount :: u64

section \<open>Operations\<close>

definition nextPowerOf2 :: "u64 \<Rightarrow> u64" where
  "nextPowerOf2 n =
     (if n = 0 then 1
      else
        let n = n - 1;
            n = n OR drop_bit 1 n;
            n = n OR drop_bit 2 n;
            n = n OR drop_bit 4 n;
            n = n OR drop_bit 8 n;
            n = n OR drop_bit 16 n;
            n = n OR drop_bit 32 n
        in n + 1)"

text \<open>
  \<^verbatim>\<open>make([]queueNode, n)\<close> panics for a negative length and for one whose 16-byte
  elements exceed the address space the runtime can allocate (\<^verbatim>\<open>maxAlloc\<close>, 2 to the 48
  on 64-bit platforms).
\<close>

definition make_ok :: "i64 \<Rightarrow> bool" where
  "make_ok n \<longleftrightarrow> 0 \<le> sint n \<and> uint n * 16 \<le> 2 ^ 48"

definition NewLockFreeQueue :: "string \<Rightarrow> i64 \<Rightarrow> DropPolicy \<Rightarrow> 'a LockFreeQueue option" where
  "NewLockFreeQueue name cap policy =
     (let cap = (if cap AND (cap - 1) \<noteq> 0 then nextPowerOf2 cap else cap)
      in if make_ok cap
         then Some \<lparr>q_mask = cap - 1,
                q_buffer = map (\<lambda>i. \<lparr>n_sequence = of_nat i, n_data = None\<rparr>) [0..<unat cap],
                q_enqueuePos = 0, q_dequeuePos = 0,
                q_enqueueCount = 0, q_dequeueCount = 0, q_dropCount = 0,
                q_name = name, q_capacity = cap, q_dropPolicy = policy\<rparr>
         else None)"

definition maxRetries :: nat where
  "maxRetries = 1000"

text \<open>How the retry loops of \<^verbatim>\<open>Enqueue\<close> and \<^verbatim>\<open>Dequeue\<close> end.\<close>

datatype claim =
    Claimed u64   \<comment> \<open>\<^verbatim>\<open>break\<close> after a successful compare-and-swap of this position\<close>
  | Refused       \<comment> \<open>\<^verbatim>\<open>return\<close> from inside the loop\<close>
  | Exhausted     \<comment> \<open>\<^verbatim>\<open>retryCount >= maxRetries\<close>\<close>

definition slot_of :: "'a LockFreeQueue \<Rightarrow> u64 \<Rightarrow> nat" where
  "slot_of q pos = unat (pos AND q_mask q)"

function Enqueue_loop :: "nat \<Rightarrow> 'a LockFreeQueue \<Rightarrow> (claim \<times> 'a LockFreeQueue) option" where
  "Enqueue_loop retryCount q =
     (if retryCount < maxRetries then
        let pos = q_enqueuePos q; i = slot_of q pos
        in if length (q_buffer q) \<le> i then None
           else
             let seq = n_sequence (q_buffer q ! i); dif = sint (seq - pos)
             in if dif = 0 then Some (Claimed pos, q\<lparr>q_enqueuePos := pos + 1\<rparr>)
                else if dif < 0 then
                  (case q_dropPolicy q of
                     DropNewest \<Rightarrow> Some (Refused, q\<lparr>q_dropCount := q_dropCount q + 1\<rparr>)
                   | DropOldest \<Rightarrow>
                       Enqueue_loop (Suc retryCount) (q\<lparr>q_dequeuePos := pos - q_capacity q + 1\<rparr>)
                   | Block \<Rightarrow> Enqueue_loop (Suc retryCount) q)
                else Enqueue_loop (Suc retryCount) q
      else Some (Exhausted, q))"
  by pat_completeness auto
termination
  by (relation "measure (\<lambda>(r, q). maxRetries - r)") auto

declare Enqueue_loop.simps [simp del]

definition Enqueue :: "'a LockFreeQueue \<Rightarrow> 'a option \<Rightarrow> (bool \<times> 'a LockFreeQueue) option" where
  "Enqueue q item =
     (case Enqueue_loop 0 q of
        None \<Rightarrow> None
      | Some (Refused, q') \<Rightarrow> Some (False, q')
      | Some (Exhausted, q') \<Rightarrow> Some (False, q'\<lparr>q_dropCount := q_dropCount q' + 1\<rparr>)
      | Some (Claimed pos, q') \<Rightarrow>
          Some (True, q'\<lparr>q_buffer := (q_buffer q')[slot_of q' pos :=
                            \<lparr>n_sequence = pos + 1, n_data = item\<rparr>],
                         q_enqueueCount := q_enqueueCount q' + 1\<rparr>))"

function Dequeue_loop :: "nat \<Rightarrow> 'a LockFreeQueue \<Rightarrow> (claim \<times> 'a LockFreeQueue) option" where
  "Dequeue_loop retryCount q =
     (if retryCount < maxRetries then
        let pos = q_dequeuePos q; i = slot_of q pos
        in if length (q_buffer q) \<le> i then None
           else
             let seq = n_sequence (q_buffer q ! i); dif = sint (seq - (pos + 1))
             in if dif = 0 then Some (Claimed pos, q\<lparr>q_dequeuePos := pos + 1\<rparr>)
                else if dif < 0 then Some (Refused, q)
                else Dequeue_loop (Suc retryCount) q
      else Some (Exhausted, q))"
  by pat_completeness auto
termination
  by (relation "measure (\<lambda>(r, q). maxRetries - r)") auto

declare Dequeue_loop.simps [simp del]

definition Dequeue :: "'a LockFreeQueue \<Rightarrow> (('a option \<times> bool) \<times> 'a LockFreeQueue) option" where
  "Dequeue q =
     (case Dequeue_loop 0 q of
        None \<Rightarrow> None
      | Some (Refused, q') \<Rightarrow> Some ((None, False), q')
      | Some (Exhausted, q') \<Rightarrow> Some ((None, False), q')
      | Some (Claimed pos, q') \<Rightarrow>
          let i = slot_of q' pos; item = n_data (q_buffer q' ! i)
          in Some ((item, True),
               q'\<lparr>q_buffer := (q_buffer q')[i :=
                       \<lparr>n_sequence = pos + q_mask q' + 1, n_data = None\<rparr>],
                  q_dequeueCount := q_dequeueCount q' + 1\<rparr>))"

definition TryDequeue :: "'a LockFreeQueue \<Rightarrow> (('a option \<times> bool) \<times> 'a LockFreeQueue) option" where
  "TryDequeue q = Dequeue q"

definition Size :: "'a LockFreeQueue \<Rightarrow> i64" where
  "Size q = q_enqueuePos q - q_dequeuePos q"

definition IsEmpty :: "'a LockFreeQueue \<Rightarrow> bool" where
  "IsEmpty q \<longleftrightarrow> sint (Size q) \<le> 0"

definition IsFull :: "'a LockFreeQueue \<Rightarrow> bool" where
  "IsFull q \<longleftrightarrow> sint (q_capacity q) \<le> sint (Size q)"

definition Stats :: "'a LockFreeQueue \<Rightarrow> QueueStats" where
  "Stats q = \<lparr>qs_Name = q_name q, qs_Capacity = q_capacity q, qs_Size = Size q,
              qs_EnqueueCount = q_enqueueCount q, qs_DequeueCount = q_dequeueCount q,
              qs_DropCount = q_dropCount q\<rparr>"

definition tryForceEnqueueDropOldest ::
  "'a LockFreeQueue \<Rightarrow> 'a option \<Rightarrow> (bool \<times> 'a LockFreeQueue) option" where
  "tryForceEnqueueDropOldest q item =
     (if q_dropPolicy q \<noteq> DropOldest then Some (False, q)
      else case Dequeue q of
             None \<Rightarrow> None
           | Some (_, q') \<Rightarrow> Enqueue q' item)"

section \<open>Rounding up to a power of two\<close>

lemma bit_smear:
  assumes "\<And>i. bit x i \<longleftrightarrow> (\<exists>j<d. bit m (i + j))"
  shows "bit (x OR drop_bit d x) i \<longleftrightarrow> (\<exists>j<2 * d. bit (m :: u64) (i + j))"
proof -
  have "bit (x OR drop_bit d x) i \<longleftrightarrow> (\<exists>j<d. bit m (i + j)) \<or> (\<exists>j<d. bit m (i + (d + j)))"
    by (simp add: bit_or_iff bit_drop_bit_eq assms add.assoc add.left_commute)
  also have "\<dots> \<longleftrightarrow> (\<exists>j<2 * d. bit m (i + j))"
  proof
    assume "(\<exists>j<d. bit m (i + j)) \<or> (\<exists>j<d. bit m (i + (d + j)))"
    then show "\<exists>j<2 * d. bit m (i + j)"
    proof (elim disjE exE conjE)
      fix j assume "j < d" "bit m (i + j)"
      then show ?thesis by (intro exI [of _ j]) simp
    next
      fix j assume "j < d" "bit m (i + (d + j))"
      then show ?thesis by (intro exI [of _ "d + j"]) simp
    qed
  next
    assume "\<exists>j<2 * d. bit m (i + j)"
    then obtain j where j: "j < 2 * d" "bit m (i + j)" by blast
    then show "(\<exists>j<d. bit m (i + j)) \<or> (\<exists>j<d. bit m (i + (d + j)))"
      by (cases "j < d") (auto intro: exI [of _ "j - d"])
  qed
  finally show ?thesis .
qed

lemma nextPowerOf2_bits:
  assumes "n \<noteq> 0"
  shows "\<exists>r. nextPowerOf2 n = r + 1 \<and> (\<forall>i. bit r i \<longleftrightarrow> (\<exists>j<64. bit (n - 1) (i + j)))"
proof -
  let ?m = "n - 1"
  define r1 where "r1 = ?m OR drop_bit 1 ?m"
  define r2 where "r2 = r1 OR drop_bit 2 r1"
  define r3 where "r3 = r2 OR drop_bit 4 r2"
  define r4 where "r4 = r3 OR drop_bit 8 r3"
  define r5 where "r5 = r4 OR drop_bit 16 r4"
  define r6 where "r6 = r5 OR drop_bit 32 r5"
  have "bit ?m i \<longleftrightarrow> (\<exists>j<1. bit ?m (i + j))" for i by simp
  from bit_smear [OF this] have 1: "bit r1 i \<longleftrightarrow> (\<exists>j<2. bit ?m (i + j))" for i by (simp add: r1_def)
  from bit_smear [OF 1] have 2: "bit r2 i \<longleftrightarrow> (\<exists>j<4. bit ?m (i + j))" for i by (simp add: r2_def)
  from bit_smear [OF 2] have 3: "bit r3 i \<longleftrightarrow> (\<exists>j<8. bit ?m (i + j))" for i by (simp add: r3_def)
  from bit_smear [OF 3] have 4: "bit r4 i \<longleftrightarrow> (\<exists>j<16. bit ?m (i + j))" for i by (simp add: r4_def)
  from bit_smear [OF 4] have 5: "bit r5 i \<longleftrightarrow> (\<exists>j<32. bit ?m (i + j))" for i by (simp add: r5_def)
  from bit_smear [OF 5] have 6: "bit r6 i \<longleftrightarrow> (\<exists>j<64. bit ?m (i + j))" for i by (simp add: r6_def)
  have "nextPowerOf2 n = r6 + 1"
    using assms by (simp add: nextPowerOf2_def Let_def r1_def r2_def r3_def r4_def r5_def r6_def)
  with 6 show ?thesis by blast
qed

lemma highest_bit:
  assumes "(m :: u64) \<noteq> 0"
  obtains h where "h < 64" "bit m h" "\<And>i. bit m i \<Longrightarrow> i \<le> h"
proof -
  let ?S = "{i. bit m i}"
  have sub: "?S \<subseteq> {..<64}" using bit_imp_le_length [of m] by auto
  then have fin: "finite ?S" by (rule finite_subset) simp
  have "?S \<noteq> {}" using assms by (auto simp: bit_eq_iff)
  then have "Max ?S \<in> ?S" using fin by (intro Max_in)
  then show thesis
    using sub fin by (intro that [of "Max ?S"]) auto
qed

lemma unat_highest_bit:
  assumes "bit (m :: u64) h" "\<And>i. bit m i \<Longrightarrow> i \<le> h"
  shows "2 ^ h \<le> unat m" "unat m < 2 ^ Suc h"
proof -
  have "bit (unat m) h" using assms(1) by (simp add: bit_unsigned_iff)
  then have "odd (unat m div 2 ^ h)" by (simp add: bit_iff_odd)
  then have "unat m div 2 ^ h \<noteq> 0" by (intro notI) simp
  then show "2 ^ h \<le> unat m" by (metis div_less not_less)
  have "take_bit (Suc h) m = m"
    by (rule bit_word_eqI) (use assms(2) in \<open>auto simp: bit_take_bit_iff less_Suc_eq_le\<close>)
  then have "unat m = take_bit (Suc h) (unat m)" by (metis unsigned_take_bit_eq)
  then show "unat m < 2 ^ Suc h" by (metis take_bit_nat_less_exp)
qed

lemma nextPowerOf2_highest:
  assumes "n \<noteq> 0" and h: "h < 64" "bit (n - 1) h" "\<And>i. bit (n - 1) i \<Longrightarrow> i \<le> h"
  shows "nextPowerOf2 n = 2 ^ Suc h"
proof -
  obtain r where r: "nextPowerOf2 n = r + 1" "\<And>i. bit r i \<longleftrightarrow> (\<exists>j<64. bit (n - 1) (i + j))"
    using nextPowerOf2_bits [OF assms(1)] by blast
  have "r = mask (Suc h)"
  proof (rule bit_word_eqI)
    fix i assume "i < LENGTH(64)"
    have "bit r i \<longleftrightarrow> i \<le> h"
    proof
      assume "bit r i"
      then obtain j where "bit (n - 1) (i + j)" using r(2) by blast
      from h(3) [OF this] show "i \<le> h" by simp
    next
      assume "i \<le> h"
      with h(1,2) have "h - i < 64" "bit (n - 1) (i + (h - i))" by simp_all
      then show "bit r i" using r(2) by blast
    qed
    then show "bit r i = bit (mask (Suc h) :: u64) i"
      using \<open>i < LENGTH(64)\<close> by (simp add: bit_mask_iff less_Suc_eq_le)
  qed
  with r(1) show ?thesis by (simp add: mask_eq_exp_minus_1)
qed

lemma nextPowerOf2_least_aux:
  assumes "n \<noteq> 0" and "unat n \<le> 2 ^ 63"
  shows "\<exists>k\<le>63. nextPowerOf2 n = 2 ^ k \<and> unat n \<le> 2 ^ k \<and> 2 ^ k < 2 * unat n"
proof (cases "n = 1")
  case True
  have "nextPowerOf2 1 = 2 ^ 0" by (simp add: nextPowerOf2_def)
  with True show ?thesis by (intro exI [of _ 0]) simp
next
  case False
  then have "n - 1 \<noteq> 0" by simp
  then obtain h where h: "h < 64" "bit (n - 1) h" "\<And>i. bit (n - 1) i \<Longrightarrow> i \<le> h"
    by (rule highest_bit) blast
  note bounds = unat_highest_bit [OF h(2,3)] and res = nextPowerOf2_highest [OF assms(1) h]
  have um: "unat (n - 1) = unat n - 1" using assms(1) by (simp add: unat_minus_one)
  have un: "0 < unat n" using assms(1) by (simp add: unat_gt_0)
  have "2 ^ h < (2::nat) ^ 63" using bounds(1) um un assms(2) by linarith
  then have "h < 63" by (rule power_less_imp_less_exp [rotated]) simp
  with res bounds um un show ?thesis by (intro exI [of _ "Suc h"]) auto
qed

lemma nextPowerOf2_power:
  assumes "n \<noteq> 0"
  shows "\<exists>k. nextPowerOf2 n = 2 ^ k"
proof (cases "n = 1")
  case True
  then show ?thesis by (intro exI [of _ 0]) (simp add: nextPowerOf2_def)
next
  case False
  then have "n - 1 \<noteq> 0" by simp
  then show ?thesis using nextPowerOf2_highest [OF assms] highest_bit by metis
qed

section \<open>The ring invariant\<close>

definition q_len :: "'a LockFreeQueue \<Rightarrow> nat" where
  "q_len q = unat (q_enqueuePos q - q_dequeuePos q)"

definition q_node :: "'a LockFreeQueue \<Rightarrow> nat \<Rightarrow> 'a queueNode" where
  "q_node q j = q_buffer q ! slot_of q (q_dequeuePos q + of_nat j)"

definition q_items :: "'a LockFreeQueue \<Rightarrow> 'a option list" where
  "q_items q = map (\<lambda>j. n_data (q_node q j)) [0..<q_len q]"

definition q_ring :: "nat \<Rightarrow> 'a LockFreeQueue \<Rightarrow> bool" where
  "q_ring k q \<longleftrightarrow>
     1 \<le> k \<and> k \<le> 44 \<and> q_capacity q = 2 ^ k \<and> q_mask q = mask k \<and>
     length (q_buffer q) = 2 ^ k \<and> q_len q \<le> 2 ^ k \<and>
     (\<forall>j<2 ^ k. n_sequence (q_node q j) =
         q_dequeuePos q + of_nat j + (if j < q_len q then 1 else 0)) \<and>
     (\<forall>j<2 ^ k. q_len q \<le> j \<longrightarrow> n_data (q_node q j) = None)"

definition q_inv :: "'a LockFreeQueue \<Rightarrow> bool" where
  "q_inv q \<longleftrightarrow> (\<exists>k. q_ring k q)"

lemma length_q_items [simp]: "length (q_items q) = q_len q"
  by (simp add: q_items_def)

lemma nth_q_items: "j < q_len q \<Longrightarrow> q_items q ! j = n_data (q_node q j)"
  by (simp add: q_items_def)

lemma q_ringD:
  assumes "q_ring k q"
  shows "1 \<le> k" "k \<le> 44" "q_capacity q = 2 ^ k" "q_mask q = mask k"
    "length (q_buffer q) = 2 ^ k" "q_len q \<le> 2 ^ k"
    "\<And>j. j < 2 ^ k \<Longrightarrow> n_sequence (q_node q j) =
       q_dequeuePos q + of_nat j + (if j < q_len q then 1 else 0)"
    "\<And>j. j < 2 ^ k \<Longrightarrow> q_len q \<le> j \<Longrightarrow> n_data (q_node q j) = None"
  using assms unfolding q_ring_def by auto

lemma slot_of_mod:
  assumes "q_mask q = mask k" "k \<le> 64"
  shows "slot_of q (p + of_nat j) = (unat p + j) mod 2 ^ k"
proof -
  have dvd: "(2::nat) ^ k dvd 2 ^ 64"
    using assms(2) by (rule le_imp_power_dvd)
  have "slot_of q (p + of_nat j) = unat (p + of_nat j) mod 2 ^ k"
    by (simp only: slot_of_def assms(1) unat_and_mask)
  also have "unat (p + of_nat j) = (unat p + j) mod 2 ^ 64"
    by (simp add: unat_word_ariths unat_of_nat mod_simps)
  also have "(unat p + j) mod 2 ^ 64 mod 2 ^ k = (unat p + j) mod 2 ^ k"
    using dvd by (rule mod_mod_cancel)
  finally show ?thesis .
qed

lemma add_mod_inj:
  assumes "(a + i) mod n = (a + j) mod n" "i < n" "j < (n::nat)"
  shows "i = j"
proof -
  have le: "v \<le> u" if "(a + u) mod n = (a + v) mod n" "u < n" "v < n" for u v
  proof (rule ccontr)
    assume "\<not> v \<le> u"
    then have "a + u \<le> a + v" and pos: "0 < v - u" by simp_all
    from mod_eq_dvd_iff_nat [OF this(1), of n] that(1) have "n dvd v - u" by simp
    with pos have "n \<le> v - u" by (simp add: dvd_imp_le)
    with that(3) show False by simp
  qed
  from le [OF assms] le [OF assms(1) [symmetric] assms(3,2)] show ?thesis by simp
qed

lemma slot_of_inj:
  assumes "q_mask q = mask k" "k \<le> 64" "i < 2 ^ k" "j < 2 ^ k"
  shows "slot_of q (p + of_nat i) = slot_of q (p + of_nat j) \<longleftrightarrow> i = j"
  using assms by (auto simp: slot_of_mod dest: add_mod_inj)

lemma slot_of_wrap:
  assumes "q_mask q = mask k" "k \<le> 64"
  shows "slot_of q (p + 2 ^ k) = slot_of q p"
  using slot_of_mod [OF assms, of p "2 ^ k"] slot_of_mod [OF assms, of p 0] by simp

lemma slot_of_less:
  assumes "q_mask q = mask k" "k \<le> 64"
  shows "slot_of q p < 2 ^ k"
  using slot_of_mod [OF assms, of p 0] by simp

lemma enqueuePos_q_len: "q_enqueuePos q = q_dequeuePos q + of_nat (q_len q)"
  by (simp add: q_len_def)

lemma sint_of_int64:
  assumes "- (2 ^ 63) \<le> x" "x < 2 ^ 63"
  shows "sint (word_of_int x :: u64) = x"
proof -
  have "sint (word_of_int x :: u64) = (x + 2 ^ 63) mod 2 ^ 64 - 2 ^ 63"
    by (simp add: int_word_sint)
  also have "(x + 2 ^ 63) mod 2 ^ 64 = x + 2 ^ 63"
    by (rule mod_pos_pos_trivial) (use assms in simp_all)
  finally show ?thesis by simp
qed

lemma dif_full:
  assumes "1 \<le> k" "k \<le> 44"
  shows "sint (p + 1 - (p + 2 ^ k) :: u64) = 1 - 2 ^ k"
proof -
  have "(2::int) ^ k \<le> 2 ^ 44" by (rule power_increasing) (use assms in simp_all)
  moreover have "p + 1 - (p + 2 ^ k) = (word_of_int (1 - 2 ^ k) :: u64)"
    by simp
  moreover have "sint (word_of_int (1 - 2 ^ k) :: u64) = 1 - 2 ^ k"
  proof (rule sint_of_int64)
    have "(2::int) ^ k \<le> 2 ^ 44" by fact
    then show "- (2 ^ 63) \<le> 1 - (2::int) ^ k" by simp
    show "1 - (2::int) ^ k < 2 ^ 63" by (rule less_trans [of _ 1]) simp_all
  qed
  ultimately show ?thesis by simp
qed

lemma dif_empty: "sint (p - (p + 1) :: u64) = -1"
  by simp


lemma Enqueue_loop_free:
  assumes "q_ring k q" "q_len q < 2 ^ k"
  shows "Enqueue_loop 0 q = Some (Claimed (q_enqueuePos q), q\<lparr>q_enqueuePos := q_enqueuePos q + 1\<rparr>)"
proof -
  note R = q_ringD [OF assms(1)]
  have "slot_of q (q_enqueuePos q) < length (q_buffer q)"
    using R slot_of_less [of q k] by simp
  moreover have "n_sequence (q_buffer q ! slot_of q (q_enqueuePos q)) = q_enqueuePos q"
    using R(7) [OF assms(2)] by (simp add: q_node_def enqueuePos_q_len [symmetric])
  ultimately show ?thesis
    by (subst Enqueue_loop.simps) (simp add: maxRetries_def Let_def)
qed

lemma Enqueue_free:
  assumes "q_ring k q" "q_len q < 2 ^ k"
  shows "Enqueue q item = Some (True, q\<lparr>q_enqueuePos := q_enqueuePos q + 1,
      q_buffer := (q_buffer q)[slot_of q (q_enqueuePos q) :=
         \<lparr>n_sequence = q_enqueuePos q + 1, n_data = item\<rparr>],
      q_enqueueCount := q_enqueueCount q + 1\<rparr>)"
  using Enqueue_loop_free [OF assms] by (simp add: Enqueue_def slot_of_def)

lemma q_len_Suc:
  assumes "q_ring k q" "q_len q < 2 ^ k"
  shows "unat (q_enqueuePos q + 1 - q_dequeuePos q) = Suc (q_len q)"
proof -
  have "(2::nat) ^ k \<le> 2 ^ 44" by (rule power_increasing) (use q_ringD [OF assms(1)] in simp_all)
  then have lt: "Suc (q_len q) < 2 ^ 64" using assms(2) by simp
  have "q_enqueuePos q + 1 - q_dequeuePos q = of_nat (Suc (q_len q))"
    by (simp add: q_len_def)
  then show ?thesis using lt by (simp only: unat_of_nat) simp
qed

lemma Enqueue_ring:
  assumes "q_ring k q" "q_len q < 2 ^ k" "Enqueue q item = Some (b, q')"
  shows "b \<and> q_ring k q' \<and> q_items q' = q_items q @ [item]"
proof -
  note R = q_ringD [OF assms(1)]
  have k64: "k \<le> 64" using R(2) by simp
  have q': "b" "q' = q\<lparr>q_enqueuePos := q_enqueuePos q + 1,
      q_buffer := (q_buffer q)[slot_of q (q_enqueuePos q) :=
         \<lparr>n_sequence = q_enqueuePos q + 1, n_data = item\<rparr>],
      q_enqueueCount := q_enqueueCount q + 1\<rparr>"
    using Enqueue_free [OF assms(1,2), of item] assms(3) by simp_all
  have len: "q_len q' = Suc (q_len q)"
    using q_len_Suc [OF assms(1,2)] by (simp add: q_len_def q')
  have slot: "slot_of q' p = slot_of q p" for p by (simp add: q' slot_of_def)
  have node: "q_node q' j = (if j = q_len q then \<lparr>n_sequence = q_enqueuePos q + 1, n_data = item\<rparr>
      else q_node q j)" if "j < 2 ^ k" for j
  proof -
    have "slot_of q (q_dequeuePos q + of_nat j) = slot_of q (q_enqueuePos q) \<longleftrightarrow> j = q_len q"
      using slot_of_inj [OF R(4) k64 that assms(2)] by (simp add: enqueuePos_q_len)
    moreover have "slot_of q (q_enqueuePos q) < length (q_buffer q)"
      using R slot_of_less [OF R(4) k64] by simp
    moreover have "q_node q' j = (q_buffer q)[slot_of q (q_enqueuePos q) :=
        \<lparr>n_sequence = q_enqueuePos q + 1, n_data = item\<rparr>] ! slot_of q (q_dequeuePos q + of_nat j)"
      by (simp add: q_node_def slot) (simp add: q')
    ultimately show ?thesis
      by (cases "j = q_len q") (simp_all add: q_node_def)
  qed
  have "q_ring k q'"
    unfolding q_ring_def
  proof (intro conjI allI impI)
    fix j :: nat assume j: "j < 2 ^ k"
    show "n_sequence (q_node q' j) = q_dequeuePos q' + of_nat j + (if j < q_len q' then 1 else 0)"
      using R(7) [OF j] j by (auto simp: node len) (simp_all add: q' enqueuePos_q_len)
    assume "q_len q' \<le> j"
    then show "n_data (q_node q' j) = None"
      using R(8) [OF j] j by (simp add: node len)
  qed (use R assms(2) len in \<open>simp_all add: q'\<close>)
  moreover have "q_items q' = q_items q @ [item]"
    using assms(2) by (intro nth_equalityI) (auto simp: nth_q_items nth_append len node less_Suc_eq)
  ultimately show ?thesis using q'(1) by blast
qed


lemma Enqueue_loop_full:
  assumes "q_ring k q" "q_len q = 2 ^ k"
  shows "Enqueue_loop r q =
     (if r < maxRetries then
        (case q_dropPolicy q of
           DropNewest \<Rightarrow> Some (Refused, q\<lparr>q_dropCount := q_dropCount q + 1\<rparr>)
         | DropOldest \<Rightarrow> Enqueue_loop (Suc r) (q\<lparr>q_dequeuePos := q_dequeuePos q + 1\<rparr>)
         | Block \<Rightarrow> Enqueue_loop (Suc r) q)
      else Some (Exhausted, q))"
proof -
  note R = q_ringD [OF assms(1)]
  have k64: "k \<le> 64" using R(2) by simp
  have pos: "q_enqueuePos q = q_dequeuePos q + 2 ^ k"
    by (simp add: enqueuePos_q_len assms(2))
  have slot: "slot_of q (q_enqueuePos q) = slot_of q (q_dequeuePos q)"
    by (simp only: pos slot_of_wrap [OF R(4) k64])
  have "slot_of q (q_dequeuePos q) < length (q_buffer q)"
    using R slot_of_less [OF R(4) k64] by simp
  moreover have "n_sequence (q_buffer q ! slot_of q (q_dequeuePos q)) = q_dequeuePos q + 1"
    using R(7) [of 0] assms(2) by (simp add: q_node_def)
  moreover have neg: "sint (q_dequeuePos q + 1 - q_enqueuePos q) < 0"
  proof -
    have "(1::int) < 2 ^ k" using R(1) by (simp add: one_less_power)
    then show ?thesis using dif_full [OF R(1,2)] by (simp only: pos)
  qed
  moreover have "q_enqueuePos q - q_capacity q + 1 = q_dequeuePos q + 1"
    by (simp add: pos R(3))
  ultimately show ?thesis
    by (subst Enqueue_loop.simps) (simp add: slot Let_def split: DropPolicy.split)
qed

lemma Enqueue_loop_full_Block:
  assumes "q_ring k q" "q_len q = 2 ^ k" "q_dropPolicy q = Block"
  shows "Enqueue_loop r q = Some (Exhausted, q)"
proof (induction "maxRetries - r" arbitrary: r)
  case 0
  then show ?case by (simp add: Enqueue_loop_full [OF assms(1,2)])
next
  case (Suc n)
  then have "Enqueue_loop (Suc r) q = Some (Exhausted, q)" by simp
  then show ?case by (simp add: Enqueue_loop_full [OF assms(1,2), of r] assms(3))
qed

lemma Enqueue_full:
  assumes "q_ring k q" "q_len q = 2 ^ k" "q_dropPolicy q \<noteq> DropOldest"
  shows "Enqueue q item = Some (False, q\<lparr>q_dropCount := q_dropCount q + 1\<rparr>)"
proof (cases "q_dropPolicy q")
  case DropOldest
  with assms(3) show ?thesis by simp
next
  case DropNewest
  then show ?thesis
    using Enqueue_loop_full [OF assms(1,2), of 0] by (simp add: Enqueue_def maxRetries_def)
next
  case Block
  then show ?thesis
    using Enqueue_loop_full_Block [OF assms(1,2), of 0] by (simp add: Enqueue_def)
qed

lemma q_ring_dropCount: "q_ring k (q\<lparr>q_dropCount := n\<rparr>) = q_ring k q"
  "q_items (q\<lparr>q_dropCount := n\<rparr>) = q_items q"
  by (simp_all add: q_ring_def q_items_def q_len_def q_node_def slot_of_def)

lemma Dequeue_empty:
  assumes "q_ring k q" "q_len q = 0"
  shows "Dequeue q = Some ((None, False), q)"
proof -
  note R = q_ringD [OF assms(1)]
  have "slot_of q (q_dequeuePos q) < length (q_buffer q)"
    using R slot_of_less [OF R(4)] by simp
  moreover have "n_sequence (q_buffer q ! slot_of q (q_dequeuePos q)) = q_dequeuePos q"
    using R(7) [of 0] assms(2) by (simp add: q_node_def)
  ultimately have "Dequeue_loop 0 q = Some (Refused, q)"
    by (subst Dequeue_loop.simps) (simp add: maxRetries_def Let_def)
  then show ?thesis by (simp add: Dequeue_def)
qed

lemma Dequeue_avail:
  assumes "q_ring k q" "0 < q_len q"
  shows "Dequeue q = Some ((n_data (q_node q 0), True), q\<lparr>q_dequeuePos := q_dequeuePos q + 1,
      q_buffer := (q_buffer q)[slot_of q (q_dequeuePos q) :=
         \<lparr>n_sequence = q_dequeuePos q + 2 ^ k, n_data = None\<rparr>],
      q_dequeueCount := q_dequeueCount q + 1\<rparr>)"
proof -
  note R = q_ringD [OF assms(1)]
  have "slot_of q (q_dequeuePos q) < length (q_buffer q)"
    using R slot_of_less [OF R(4)] by simp
  moreover have "n_sequence (q_buffer q ! slot_of q (q_dequeuePos q)) = q_dequeuePos q + 1"
    using R(7) [of 0] assms(2) by (simp add: q_node_def)
  ultimately have "Dequeue_loop 0 q = Some (Claimed (q_dequeuePos q), q\<lparr>q_dequeuePos := q_dequeuePos q + 1\<rparr>)"
    by (subst Dequeue_loop.simps) (simp add: maxRetries_def Let_def)
  moreover have "q_mask q + 1 = 2 ^ k"
    by (simp add: R(4) mask_eq_exp_minus_1)
  ultimately show ?thesis
    by (simp add: Dequeue_def Let_def slot_of_def q_node_def add.assoc)
qed

lemma Dequeue_ring:
  assumes "q_ring k q" "0 < q_len q" "Dequeue q = Some ((item, b), q')"
  shows "b \<and> q_ring k q' \<and> q_items q = item # q_items q'"
proof -
  note R = q_ringD [OF assms(1)]
  have k64: "k \<le> 64" using R(2) by simp
  have q': "b" "item = n_data (q_node q 0)" "q' = q\<lparr>q_dequeuePos := q_dequeuePos q + 1,
      q_buffer := (q_buffer q)[slot_of q (q_dequeuePos q) :=
         \<lparr>n_sequence = q_dequeuePos q + 2 ^ k, n_data = None\<rparr>],
      q_dequeueCount := q_dequeueCount q + 1\<rparr>"
    using Dequeue_avail [OF assms(1,2)] assms(3) by simp_all
  have len: "Suc (q_len q') = q_len q"
  proof -
    have "q_len q' = unat ((q_enqueuePos q - q_dequeuePos q) - 1)"
      by (simp add: q_len_def q' diff_diff_add)
    moreover have "q_enqueuePos q - q_dequeuePos q \<noteq> 0"
      using assms(2) by (simp add: q_len_def unat_gt_0)
    ultimately show ?thesis
      using assms(2) by (simp add: q_len_def unat_minus_one)
  qed
  have slot: "slot_of q' p = slot_of q p" for p by (simp add: q' slot_of_def)
  have pos': "q_dequeuePos q' + of_nat j = q_dequeuePos q + of_nat (Suc j)" for j
    by (simp add: q')
  have in_buf: "slot_of q (q_dequeuePos q) < length (q_buffer q)"
    using R slot_of_less [OF R(4) k64] by simp
  have node: "q_node q' j = (if Suc j = 2 ^ k then \<lparr>n_sequence = q_dequeuePos q + 2 ^ k, n_data = None\<rparr>
      else q_node q (Suc j))" if "j < 2 ^ k" for j
  proof -
    have upd: "q_node q' j = (q_buffer q)[slot_of q (q_dequeuePos q) :=
        \<lparr>n_sequence = q_dequeuePos q + 2 ^ k, n_data = None\<rparr>] ! slot_of q (q_dequeuePos q + of_nat (Suc j))"
      by (simp only: q_node_def slot pos') (simp add: q')
    show ?thesis
    proof (cases "Suc j = 2 ^ k")
      case True
      then have "of_nat (Suc j) = (2 ^ k :: u64)" by (metis of_nat_numeral of_nat_power)
      then have "slot_of q (q_dequeuePos q + of_nat (Suc j)) = slot_of q (q_dequeuePos q)"
        by (simp only: slot_of_wrap [OF R(4) k64])
      with upd True in_buf show ?thesis by simp
    next
      case False
      with that have "Suc j < 2 ^ k" by simp
      from slot_of_inj [OF R(4) k64 this, of 0 "q_dequeuePos q"]
      have "slot_of q (q_dequeuePos q + of_nat (Suc j)) \<noteq> slot_of q (q_dequeuePos q)" by simp
      with upd False show ?thesis by (simp add: q_node_def)
    qed
  qed
  have "q_ring k q'"
    unfolding q_ring_def
  proof (intro conjI allI impI)
    fix j :: nat assume j: "j < 2 ^ k"
    show "n_sequence (q_node q' j) = q_dequeuePos q' + of_nat j + (if j < q_len q' then 1 else 0)"
    proof (cases "Suc j = 2 ^ k")
      case True
      then have "of_nat (Suc j) = (2 ^ k :: u64)" by (metis of_nat_numeral of_nat_power)
      then have "q_dequeuePos q' + of_nat j = q_dequeuePos q + 2 ^ k" by (simp only: pos')
      moreover have "\<not> j < q_len q'" using True len R(6) by simp
      ultimately show ?thesis by (simp add: node [OF j] True)
    next
      case False
      with j have "Suc j < 2 ^ k" by simp
      from R(7) [OF this] len False show ?thesis
        by (simp add: node [OF j] pos')
    qed
    assume "q_len q' \<le> j"
    then show "n_data (q_node q' j) = None"
      using R(8) [of "Suc j"] j len by (auto simp: node [OF j])
  qed (use R len in \<open>simp_all add: q'\<close>)
  moreover have "q_items q = item # q_items q'"
  proof (rule nth_equalityI)
    show "length (q_items q) = length (item # q_items q')" using len by simp
    fix i assume "i < length (q_items q)"
    then have i: "i < q_len q" by simp
    show "q_items q ! i = (item # q_items q') ! i"
    proof (cases i)
      case 0
      with i show ?thesis by (simp add: nth_q_items q'(2))
    next
      case (Suc j)
      then have "j < q_len q'" "j < 2 ^ k" "Suc j \<noteq> 2 ^ k" using i len R(6) by simp_all
      then show ?thesis using i Suc by (simp add: nth_q_items node)
    qed
  qed
  ultimately show ?thesis using q'(1) by blast
qed

lemma power2_of_and_pred:
  assumes "x AND (x - 1) = 0" "(x :: u64) \<noteq> 0"
  shows "\<exists>k<64. x = 2 ^ k"
proof -
  obtain h where h: "h < 64" "bit x h" "\<And>i. bit x i \<Longrightarrow> i \<le> h"
    using highest_bit [OF assms(2)] by blast
  note b = unat_highest_bit [OF h(2,3)]
  have "unat x = 2 ^ h"
  proof (rule ccontr)
    assume "unat x \<noteq> 2 ^ h"
    moreover have "unat (x - 1) = unat x - 1" using assms(2) by (simp add: unat_minus_one)
    ultimately have "2 ^ h \<le> unat (x - 1)" "unat (x - 1) < 2 ^ Suc h" using b by simp_all
    then have "unat (x - 1) div 2 ^ h = 1" by (intro div_nat_eqI) simp_all
    then have "bit (unat (x - 1)) h" by (simp add: bit_iff_odd)
    then have "bit (x AND (x - 1)) h" using h(2) by (simp add: bit_and_iff bit_unsigned_iff)
    with assms(1) show False by simp
  qed
  then have "x = of_nat (2 ^ h)" by (simp flip: \<open>unat x = 2 ^ h\<close>)
  with h(1) show ?thesis by auto
qed

lemma NewLockFreeQueue_capacity:
  assumes "NewLockFreeQueue name cap policy = Some q" and "1 < sint (q_capacity q)"
  shows "\<exists>k. 1 \<le> k \<and> k \<le> 44 \<and> q_capacity q = 2 ^ k"
proof -
  let ?c = "q_capacity q"
  from assms(1) have ok: "make_ok ?c"
    and c: "?c = (if cap AND (cap - 1) \<noteq> 0 then nextPowerOf2 cap else cap)"
    by (auto simp: NewLockFreeQueue_def Let_def split: if_splits)
  have nz: "?c \<noteq> 0" using assms(2) by auto
  have "\<exists>k. ?c = 2 ^ k"
  proof (cases "cap AND (cap - 1) = 0")
    case True
    with c nz power2_of_and_pred [of cap] show ?thesis by auto
  next
    case False
    then have "cap \<noteq> 0" by auto
    from nextPowerOf2_power [OF this] False c show ?thesis by auto
  qed
  then obtain k where k: "?c = 2 ^ k" by blast
  have "k < 64" using nz k pow2_word_zero [of k, where ?'a = 64] by auto
  then have "unat ?c = 2 ^ k" by (simp add: k unat_pow2)
  then have "uint ?c = 2 ^ k" by (metis of_nat_numeral of_nat_power uint_nat)
  with ok have "(2::int) ^ k * 16 \<le> 2 ^ 48" by (simp add: make_ok_def)
  then have "(2::int) ^ k \<le> 2 ^ 44" by simp
  then have "k \<le> 44" by (rule power_le_imp_le_exp [rotated]) simp
  moreover have "k \<noteq> 0" using assms(2) k by (intro notI) simp
  ultimately show ?thesis using k by (intro exI [of _ k]) simp
qed

lemma NewLockFreeQueue_ring:
  assumes "NewLockFreeQueue name cap policy = Some (q :: 'a LockFreeQueue)"
    and "1 < sint (q_capacity q)"
  shows "q_inv q \<and> q_items q = []"
proof -
  obtain k where k: "1 \<le> k" "k \<le> 44" "q_capacity q = 2 ^ k"
    using NewLockFreeQueue_capacity [OF assms] by blast
  let ?node = "\<lambda>i. \<lparr>n_sequence = of_nat i, n_data = None\<rparr>"
  from assms(1) have q: "q_mask q = q_capacity q - 1" "q_enqueuePos q = 0" "q_dequeuePos q = 0"
    "q_buffer q = map ?node [0..<unat (q_capacity q)]"
    by (auto simp: NewLockFreeQueue_def Let_def split: if_splits)
  have u: "unat (q_capacity q) = 2 ^ k" using k(2,3) by (simp add: unat_pow2)
  have mask: "q_mask q = mask k" by (simp add: q k(3) mask_eq_exp_minus_1)
  have node: "q_node q j = ?node j" if "j < 2 ^ k" for j
    using that k(2) slot_of_mod [OF mask, of 0 j] by (simp add: q_node_def q u)
  have len: "q_len q = 0" by (simp add: q_len_def q)
  have "q_ring k q"
    unfolding q_ring_def using k u by (simp add: mask node len) (simp add: q)
  then show ?thesis using len by (auto simp: q_inv_def q_items_def)
qed

section \<open>Overflow under DropOldest\<close>

text \<open>
  After a refused \<^verbatim>\<open>Enqueue\<close> the dequeue position lies one past the slot the next
  enqueue needs, so no dequeue ever frees that slot.
\<close>

definition wedged :: "nat \<Rightarrow> 'a LockFreeQueue \<Rightarrow> bool" where
  "wedged k q \<longleftrightarrow>
     1 \<le> k \<and> k \<le> 44 \<and> q_capacity q = 2 ^ k \<and> q_mask q = mask k \<and>
     length (q_buffer q) = 2 ^ k \<and> q_dropPolicy q = DropOldest \<and>
     n_sequence (q_buffer q ! slot_of q (q_enqueuePos q)) = q_enqueuePos q - 2 ^ k + 1 \<and>
     (\<exists>j<2 ^ k. q_dequeuePos q = q_enqueuePos q - 2 ^ k + 1 + of_nat j)"

lemma wedgedD:
  assumes "wedged k q"
  shows "1 \<le> k" "k \<le> 44" "q_capacity q = 2 ^ k" "q_mask q = mask k"
    "length (q_buffer q) = 2 ^ k" "q_dropPolicy q = DropOldest"
    "n_sequence (q_buffer q ! slot_of q (q_enqueuePos q)) = q_enqueuePos q - 2 ^ k + 1"
    "\<exists>j<2 ^ k. q_dequeuePos q = q_enqueuePos q - 2 ^ k + 1 + of_nat j"
  using assms unfolding wedged_def by auto

lemma wedged_dequeuePos:
  "wedged k q \<Longrightarrow> wedged k (q\<lparr>q_dequeuePos := q_enqueuePos q - 2 ^ k + 1\<rparr>)"
  by (auto simp: wedged_def slot_of_def intro: exI [of _ 0])

lemma wedged_counts:
  "wedged k (q\<lparr>q_dropCount := n\<rparr>) = wedged k q"
  by (simp add: wedged_def slot_of_def)

lemma Enqueue_loop_wedged_step:
  assumes "wedged k q"
  shows "Enqueue_loop r q =
     (if r < maxRetries
      then Enqueue_loop (Suc r) (q\<lparr>q_dequeuePos := q_enqueuePos q - 2 ^ k + 1\<rparr>)
      else Some (Exhausted, q))"
proof -
  note W = wedgedD [OF assms]
  have "slot_of q (q_enqueuePos q) < length (q_buffer q)"
    using W slot_of_less [OF W(4)] by simp
  moreover have "sint (q_enqueuePos q - 2 ^ k + 1 - q_enqueuePos q) < 0"
  proof -
    have "(1::int) < 2 ^ k" using W(1) by (simp add: one_less_power)
    then show ?thesis using dif_full [OF W(1,2), of "q_enqueuePos q - 2 ^ k"] by simp
  qed
  ultimately show ?thesis
    by (subst Enqueue_loop.simps) (simp add: Let_def W(3,6,7))
qed

lemma Enqueue_loop_wedged:
  assumes "wedged k q"
  shows "\<exists>q'. Enqueue_loop r q = Some (Exhausted, q') \<and> wedged k q'"
  using assms
proof (induction "maxRetries - r" arbitrary: r q)
  case 0
  then show ?case by (simp add: Enqueue_loop_wedged_step)
next
  case (Suc n)
  then have "r < maxRetries" "n = maxRetries - Suc r" by simp_all
  from Suc.hyps(1) [OF this(2) wedged_dequeuePos [OF Suc.prems]] this(1) Suc.prems
  show ?case by (simp add: Enqueue_loop_wedged_step)
qed

lemma Enqueue_wedged:
  assumes "wedged k q"
  shows "\<exists>q'. Enqueue q item = Some (False, q') \<and> wedged k q'"
  using Enqueue_loop_wedged [OF assms, of 0] by (auto simp: Enqueue_def wedged_counts)

lemma Dequeue_loop_spin:
  assumes "slot_of q (q_dequeuePos q) < length (q_buffer q)"
    "n_sequence (q_buffer q ! slot_of q (q_dequeuePos q)) \<noteq> q_dequeuePos q + 1"
  shows "Dequeue_loop r q \<in> {Some (Refused, q), Some (Exhausted, q)}"
proof (induction "maxRetries - r" arbitrary: r)
  case 0
  then show ?case by (subst Dequeue_loop.simps) simp
next
  case (Suc n)
  then have IH: "Dequeue_loop (Suc r) q \<in> {Some (Refused, q), Some (Exhausted, q)}" by simp
  have nz: "sint (n_sequence (q_buffer q ! slot_of q (q_dequeuePos q)) - (q_dequeuePos q + 1)) \<noteq> 0"
    using assms(2) by (simp add: signed_eq_0_iff)
  show ?case using IH nz assms(1) by (subst Dequeue_loop.simps) (auto simp: Let_def)
qed

lemma Dequeue_wedged:
  assumes "wedged k q"
  shows "\<exists>r q'. Dequeue q = Some (r, q') \<and> wedged k q'"
proof -
  note W = wedgedD [OF assms]
  have k64: "k \<le> 64" using W(2) by simp
  let ?i = "slot_of q (q_dequeuePos q)"
  have i: "?i < length (q_buffer q)" using W slot_of_less [OF W(4) k64] by simp
  show ?thesis
  proof (cases "n_sequence (q_buffer q ! ?i) = q_dequeuePos q + 1")
    case False
    from Dequeue_loop_spin [OF i False, of 0] assms show ?thesis by (auto simp: Dequeue_def)
  next
    case True
    then have D: "Dequeue_loop 0 q = Some (Claimed (q_dequeuePos q), q\<lparr>q_dequeuePos := q_dequeuePos q + 1\<rparr>)"
      using i by (subst Dequeue_loop.simps) (simp add: maxRetries_def Let_def)
    obtain j where j: "j < 2 ^ k" "q_dequeuePos q = q_enqueuePos q - 2 ^ k + 1 + of_nat j"
      using W(8) by blast
    have ne: "Suc j \<noteq> 2 ^ k"
    proof
      assume "Suc j = 2 ^ k"
      then have "of_nat (Suc j) = (2 ^ k :: u64)" by (metis of_nat_numeral of_nat_power)
      then have "q_dequeuePos q = q_enqueuePos q" by (simp add: j(2))
      with True W(7) have "(2 ^ k :: u64) = 0" by simp
      with W(2) show False by (simp add: pow2_word_zero)
    qed
    with j(1) have Suc_j: "Suc j < 2 ^ k" by simp
    have "slot_of q (q_enqueuePos q) = slot_of q (q_enqueuePos q - 2 ^ k)"
      using slot_of_wrap [OF W(4) k64, of "q_enqueuePos q - 2 ^ k"] by simp
    moreover have "slot_of q (q_enqueuePos q - 2 ^ k + of_nat (Suc j)) \<noteq>
        slot_of q (q_enqueuePos q - 2 ^ k + of_nat 0)"
      using slot_of_inj [OF W(4) k64 Suc_j, of 0] by simp
    moreover have "q_enqueuePos q - 2 ^ k + of_nat (Suc j) = q_dequeuePos q" by (simp add: j(2))
    ultimately have other: "slot_of q (q_enqueuePos q) \<noteq> ?i" by simp
    have "\<exists>i<2 ^ k. q_dequeuePos q + 1 = q_enqueuePos q - 2 ^ k + 1 + of_nat i"
      using Suc_j by (intro exI [of _ "Suc j"]) (simp add: j(2))
    then have "wedged k (snd (the (Dequeue q)))"
      unfolding wedged_def using W(1-7) other by (simp add: D Dequeue_def Let_def slot_of_def)
    then show ?thesis by (auto simp: D Dequeue_def Let_def)
  qed
qed

lemma Enqueue_full_DropOldest:
  assumes "q_ring k q" "q_len q = 2 ^ k" "q_dropPolicy q = DropOldest"
  shows "\<exists>q'. Enqueue q item = Some (False, q') \<and> wedged k q'"
proof -
  note R = q_ringD [OF assms(1)]
  have k64: "k \<le> 64" using R(2) by simp
  have pos: "q_enqueuePos q - 2 ^ k = q_dequeuePos q"
    by (simp add: enqueuePos_q_len assms(2))
  have slot: "slot_of q (q_enqueuePos q) = slot_of q (q_dequeuePos q)"
    using slot_of_wrap [OF R(4) k64, of "q_dequeuePos q"] by (simp add: enqueuePos_q_len assms(2))
  let ?q = "q\<lparr>q_dequeuePos := q_dequeuePos q + 1\<rparr>"
  have "wedged k ?q"
    using R(1-5) R(7) [of 0] assms(2,3) slot pos
    by (auto simp: wedged_def q_node_def slot_of_def intro: exI [of _ 0])
  moreover have "Enqueue_loop 0 q = Enqueue_loop 1 ?q"
    using Enqueue_loop_full [OF assms(1,2), of 0] assms(3) by (simp add: maxRetries_def)
  ultimately show ?thesis
    using Enqueue_loop_wedged [of k ?q 1] by (auto simp: Enqueue_def wedged_counts)
qed

section \<open>The contract\<close>

lemma q_ring_cap: "q_ring k q \<Longrightarrow> unat (q_capacity q) = 2 ^ k"
  using q_ringD(2,3) [of k q] by (simp add: unat_pow2)

lemma Enqueue_inv_room:
  assumes "q_inv q" "length (q_items q) < unat (q_capacity q)"
  shows "\<exists>q'. Enqueue q x = Some (True, q') \<and> q_inv q' \<and>
     q_capacity q' = q_capacity q \<and> q_dropPolicy q' = q_dropPolicy q \<and> q_items q' = q_items q @ [x]"
proof -
  obtain k where k: "q_ring k q" using assms(1) by (auto simp: q_inv_def)
  then have "q_len q < 2 ^ k" using assms(2) by (simp add: q_ring_cap)
  with Enqueue_free [OF k this, of x] Enqueue_ring [OF k this, of x] show ?thesis
    by (auto simp: q_inv_def)
qed

lemma Enqueue_inv_full:
  assumes "q_inv q" "length (q_items q) = unat (q_capacity q)" "q_dropPolicy q \<noteq> DropOldest"
  shows "\<exists>q'. Enqueue q x = Some (False, q') \<and> q_inv q' \<and>
     q_capacity q' = q_capacity q \<and> q_dropPolicy q' = q_dropPolicy q \<and> q_items q' = q_items q \<and>
     q_name q' = q_name q"
proof -
  obtain k where k: "q_ring k q" using assms(1) by (auto simp: q_inv_def)
  then have "q_len q = 2 ^ k" using assms(2) by (simp add: q_ring_cap)
  from Enqueue_full [OF k this assms(3), of x] show ?thesis
    using k by (auto simp: q_inv_def q_ring_dropCount)
qed

lemma Dequeue_inv_empty: "q_inv q \<Longrightarrow> q_items q = [] \<Longrightarrow> Dequeue q = Some ((None, False), q)"
  by (auto simp: q_inv_def simp flip: length_0_conv dest: Dequeue_empty)

lemma Dequeue_inv_Cons:
  assumes "q_inv q" "q_items q = x # xs"
  shows "\<exists>q'. Dequeue q = Some ((x, True), q') \<and> q_inv q' \<and>
     q_capacity q' = q_capacity q \<and> q_dropPolicy q' = q_dropPolicy q \<and> q_items q' = xs"
proof -
  obtain k where k: "q_ring k q" using assms(1) by (auto simp: q_inv_def)
  have "0 < q_len q" using assms(2) by (simp flip: length_q_items)
  with Dequeue_avail [OF k this] Dequeue_ring [OF k this] assms(2) show ?thesis
    by (auto simp: q_inv_def)
qed

lemma q_inv_bounded: "q_inv q \<Longrightarrow> length (q_items q) \<le> unat (q_capacity q)"
  by (auto simp: q_inv_def q_ring_cap dest: q_ringD(6))

interpretation ring: fifo_queue q_inv q_items "\<lambda>q. unat (q_capacity q)" Enqueue Dequeue None
  apply unfold_locales
  subgoal by (rule q_inv_bounded)
  subgoal for q x using Enqueue_inv_room [of q x] by auto
  subgoal by (rule Dequeue_inv_empty)
  subgoal for q x xs using Dequeue_inv_Cons [of q x xs] by auto
  done

interpretation strict: bounded_queue "\<lambda>q. q_inv q \<and> q_dropPolicy q \<noteq> DropOldest" q_items
    "\<lambda>q. unat (q_capacity q)" Enqueue Dequeue None
  apply unfold_locales
  subgoal by (simp add: q_inv_bounded del: length_q_items)
  subgoal for q x using Enqueue_inv_room [of q x] by (auto simp del: length_q_items)
  subgoal by (simp add: Dequeue_inv_empty)
  subgoal for q x xs using Dequeue_inv_Cons [of q x xs] by auto
  subgoal for q x using Enqueue_inv_full [of q x] by (auto simp del: length_q_items)
  done

section \<open>Counters\<close>

lemma Enqueue_loop_counts:
  "Enqueue_loop r q = Some (c, q') \<Longrightarrow>
     q_enqueueCount q' = q_enqueueCount q \<and> q_dequeueCount q' = q_dequeueCount q \<and>
     q_dropCount q' = q_dropCount q + (if c = Refused then 1 else 0)"
proof (induction r q rule: Enqueue_loop.induct)
  case (1 r q)
  show ?case using "1.prems" "1.IH"
    by (subst (asm) Enqueue_loop.simps) (fastforce simp: Let_def split: if_splits DropPolicy.splits)
qed

lemma Enqueue_counts:
  assumes "Enqueue q x = Some (b, q')"
  shows "q_enqueueCount q' = q_enqueueCount q + (if b then 1 else 0)"
    "q_dequeueCount q' = q_dequeueCount q"
    "q_dropCount q' = q_dropCount q + (if b then 0 else 1)"
  using assms by (auto simp: Enqueue_def split: option.splits claim.splits dest!: Enqueue_loop_counts)

lemma Dequeue_loop_counts:
  "Dequeue_loop r q = Some (c, q') \<Longrightarrow>
     q_enqueueCount q' = q_enqueueCount q \<and> q_dequeueCount q' = q_dequeueCount q \<and>
     q_dropCount q' = q_dropCount q"
proof (induction r q rule: Dequeue_loop.induct)
  case (1 r q)
  show ?case using "1.prems" "1.IH"
    by (subst (asm) Dequeue_loop.simps) (fastforce simp: Let_def split: if_splits)
qed

lemma Dequeue_counts:
  assumes "Dequeue q = Some ((x, b), q')"
  shows "q_enqueueCount q' = q_enqueueCount q"
    "q_dequeueCount q' = q_dequeueCount q + (if b then 1 else 0)"
    "q_dropCount q' = q_dropCount q"
  using assms
  by (auto simp: Dequeue_def Let_def split: option.splits claim.splits dest!: Dequeue_loop_counts)

lemma q_inv_Size: "q_inv q \<Longrightarrow> sint (Size q) = int (length (q_items q))"
proof -
  assume "q_inv q"
  then obtain k where k: "q_ring k q" by (auto simp: q_inv_def)
  have "(2::nat) ^ k \<le> 2 ^ 44" by (rule power_increasing) (use q_ringD [OF k] in simp_all)
  with q_ringD(6) [OF k] have "int (q_len q) < 2 ^ 63" by simp
  moreover have "Size q = word_of_int (int (q_len q))"
    by (simp add: Size_def q_len_def)
  ultimately show ?thesis using sint_of_int64 [of "int (q_len q)"] by simp
qed

lemma q_inv_capacity: "q_inv q \<Longrightarrow> sint (q_capacity q) = int (unat (q_capacity q))"
proof -
  assume "q_inv q"
  then obtain k where k: "q_ring k q" by (auto simp: q_inv_def)
  have "(2::int) ^ k \<le> 2 ^ 44" by (rule power_increasing) (use q_ringD [OF k] in simp_all)
  moreover have "q_capacity q = word_of_int (2 ^ k)" by (simp add: q_ringD(3) [OF k])
  ultimately show ?thesis
    using sint_of_int64 [of "2 ^ k"] q_ring_cap [OF k] order.trans [of "- (2 ^ 63)" 0 "(2::int) ^ k"]
    by simp
qed

lemma IsEmpty_iff: "q_inv q \<Longrightarrow> IsEmpty q \<longleftrightarrow> q_items q = []"
  by (simp add: IsEmpty_def q_inv_Size del: length_q_items)

lemma IsFull_iff: "q_inv q \<Longrightarrow> IsFull q \<longleftrightarrow> length (q_items q) = unat (q_capacity q)"
  using q_inv_bounded [of q]
  by (auto simp: IsFull_def q_inv_Size q_inv_capacity uint_nat simp del: length_q_items of_nat_unat)

lemma Enqueue_loop_seq:
  assumes "slot_of q (q_enqueuePos q) < length (q_buffer q)"
    "n_sequence (q_buffer q ! slot_of q (q_enqueuePos q)) = q_enqueuePos q"
  shows "Enqueue_loop 0 q = Some (Claimed (q_enqueuePos q), q\<lparr>q_enqueuePos := q_enqueuePos q + 1\<rparr>)"
  using assms by (subst Enqueue_loop.simps) (simp add: maxRetries_def Let_def)

lemma queue_counters_aux:
  "queue_run Enqueue Dequeue ops q = Some (rs, q') \<Longrightarrow>
     q_enqueueCount q' = q_enqueueCount q + of_nat (length (accepted ops rs)) \<and>
     q_dequeueCount q' = q_dequeueCount q + of_nat (length (received rs)) \<and>
     q_dropCount q' = q_dropCount q + of_nat (length (filter (\<lambda>r. r = PutRes False) rs))"
proof (induction ops arbitrary: q rs)
  case (Cons op ops)
  show ?case
  proof (cases op)
    case (Put x)
    with Cons.prems obtain b q1 rs1 where q1: "Enqueue q x = Some (b, q1)"
      "queue_run Enqueue Dequeue ops q1 = Some (rs1, q')" "rs = PutRes b # rs1"
      by (auto split: option.splits)
    from Cons.IH [OF q1(2)] Enqueue_counts [OF q1(1)] q1(3) Put show ?thesis by (cases b) simp_all
  next
    case Get
    with Cons.prems obtain x b q1 rs1 where q1: "Dequeue q = Some ((x, b), q1)"
      "queue_run Enqueue Dequeue ops q1 = Some (rs1, q')" "rs = GetRes (if b then Some x else None) # rs1"
      by (auto split: option.splits)
    from Cons.IH [OF q1(2)] Dequeue_counts [OF q1(1)] q1(3) Get show ?thesis by (cases b) simp_all
  qed
qed simp

lemma q_inv_wedges:
  assumes "q_inv q" "q_dropPolicy q = DropOldest" "length (q_items q) = unat (q_capacity q)"
  shows "\<exists>k q'. Enqueue q x = Some (False, q') \<and> wedged k q'"
proof -
  obtain k where k: "q_ring k q" using assms(1) by (auto simp: q_inv_def)
  with assms(3) have "q_len q = 2 ^ k" by (simp add: q_ring_cap)
  from Enqueue_full_DropOldest [OF k this assms(2)] show ?thesis by blast
qed

lemma wedged_run:
  "wedged k q \<Longrightarrow> \<exists>rs q'. queue_run Enqueue Dequeue ops q = Some (rs, q') \<and> wedged k q' \<and>
     accepted ops rs = []"
proof (induction ops arbitrary: q)
  case (Cons op ops)
  show ?case
  proof (cases op)
    case (Put x)
    from Enqueue_wedged [OF Cons.prems, of x] obtain q'
      where "Enqueue q x = Some (False, q')" "wedged k q'" by blast
    with Cons.IH [of q'] Put show ?thesis by auto
  next
    case Get
    from Dequeue_wedged [OF Cons.prems] obtain x b q'
      where "Dequeue q = Some ((x, b), q')" "wedged k q'" by auto
    with Cons.IH [of q'] Get show ?thesis by auto
  qed
qed simp

lemma tryForce_wedged:
  "wedged k q \<Longrightarrow> \<exists>q'. tryForceEnqueueDropOldest q x = Some (False, q') \<and> wedged k q'"
  using Dequeue_wedged [of k q] Enqueue_wedged [of k _ x] wedgedD(6) [of k q]
  by (fastforce simp: tryForceEnqueueDropOldest_def)

lemma full_queue_exists:
  "\<exists>q :: 'a LockFreeQueue. q_inv q \<and> q_dropPolicy q = policy \<and> q_items q = [x, y] \<and> IsFull q"
proof -
  define q0 :: "'a LockFreeQueue" where "q0 = the (NewLockFreeQueue ''w'' 2 policy)"
  have q0: "NewLockFreeQueue ''w'' 2 policy = Some q0" "q_capacity q0 = 2" "q_dropPolicy q0 = policy"
    by (simp_all add: q0_def NewLockFreeQueue_def make_ok_def)
  with NewLockFreeQueue_ring [OF q0(1)] have i0: "q_inv q0" "q_items q0 = []" by simp_all
  from Enqueue_inv_room [OF i0(1), of x] i0 q0 obtain q1
    where q1: "q_inv q1" "q_capacity q1 = 2" "q_dropPolicy q1 = policy" "q_items q1 = [x]"
    by (auto simp del: length_q_items)
  from Enqueue_inv_room [OF q1(1), of y] q1 obtain q
    where q: "q_inv q" "q_capacity q = 2" "q_dropPolicy q = policy" "q_items q = [x, y]"
    by (auto simp del: length_q_items)
  then have "IsFull q" by (simp add: IsFull_iff del: length_q_items)
  with q show ?thesis by blast
qed

section \<open>Properties\<close>

text \<open>
  C1. A queue with at least two slots and a policy other than \<open>DropOldest\<close> is a bounded FIFO
  queue: for every sequence of \<^verbatim>\<open>Enqueue\<close> and \<^verbatim>\<open>Dequeue\<close> calls
  the answers are those of the list specification, the items received followed by those still
  held are exactly the items accepted, in order, and the capacity is never exceeded.
\<close>

theorem queue_run_fifo:
  assumes "NewLockFreeQueue name cap policy = Some q" "1 < sint (q_capacity q)" "policy \<noteq> DropOldest"
  shows "\<exists>rs q'. queue_run Enqueue Dequeue ops q = Some (rs, q') \<and>
     fifo_run (unat (q_capacity q)) ops [] = (rs, q_items q') \<and>
     received rs @ q_items q' = accepted ops rs \<and>
     length (q_items q') \<le> unat (q_capacity q)"
proof -
  have "q_dropPolicy q = policy"
    using assms(1) by (auto simp: NewLockFreeQueue_def Let_def split: if_splits)
  with NewLockFreeQueue_ring [OF assms(1,2)] assms(3)
  have q: "q_inv q \<and> q_dropPolicy q \<noteq> DropOldest" "q_items q = []" by simp_all
  from strict.run_refines [OF q(1), of ops] q(2) obtain q'
    where q': "queue_run Enqueue Dequeue ops q = Some (fst (fifo_run (unat (q_capacity q)) ops []), q')"
      "q_items q' = snd (fifo_run (unat (q_capacity q)) ops [])" by auto
  let ?r = "fifo_run (unat (q_capacity q)) ops []"
  have "?r = (fst ?r, snd ?r)" by simp
  from fifo_run_conserves [OF this] fifo_run_bounded [OF this] q' show ?thesis
    by (simp del: length_q_items)
qed

theorem queue_run_fifo_witness:
  "\<exists>q rs q'. NewLockFreeQueue ''w'' 2 DropNewest = Some (q :: nat LockFreeQueue) \<and>
     queue_run Enqueue Dequeue [Put (Some 1), Put (Some 2), Put (Some 3), Get] q = Some (rs, q') \<and>
     rs = [PutRes True, PutRes True, PutRes False, GetRes (Some (Some 1))] \<and>
     q_items q' = [Some 2]"
proof -
  define q :: "nat LockFreeQueue" where "q = the (NewLockFreeQueue ''w'' 2 DropNewest)"
  have q: "NewLockFreeQueue ''w'' 2 DropNewest = Some q" "q_capacity q = 2"
    by (simp_all add: q_def NewLockFreeQueue_def make_ok_def)
  from queue_run_fifo [OF q(1), of "[Put (Some 1), Put (Some 2), Put (Some 3), Get]"] q
  show ?thesis by auto
qed

text \<open>
  Under \<open>DropOldest\<close> the first \<^verbatim>\<open>Enqueue\<close> into a full queue is refused,
  and from then on, whatever sequence of enqueues and dequeues follows, even after every item was
  taken out, no \<^verbatim>\<open>Enqueue\<close> and no \<^verbatim>\<open>tryForceEnqueueDropOldest\<close>
  ever succeeds again.
\<close>

theorem DropOldest_wedges:
  assumes "q_inv q" "q_dropPolicy q = DropOldest" "IsFull q"
  shows "\<exists>q'. Enqueue q x = Some (False, q') \<and>
     (\<forall>ops y. \<exists>rs q1 q2 q3. queue_run Enqueue Dequeue ops q' = Some (rs, q1) \<and> accepted ops rs = [] \<and>
        Enqueue q1 y = Some (False, q2) \<and> tryForceEnqueueDropOldest q1 y = Some (False, q3))"
proof -
  have "length (q_items q) = unat (q_capacity q)" using IsFull_iff assms(1,3) by blast
  from q_inv_wedges [OF assms(1,2) this, of x] obtain k q'
    where q': "Enqueue q x = Some (False, q')" "wedged k q'" by blast
  have "\<exists>rs q1 q2 q3. queue_run Enqueue Dequeue ops q' = Some (rs, q1) \<and> accepted ops rs = [] \<and>
        Enqueue q1 y = Some (False, q2) \<and> tryForceEnqueueDropOldest q1 y = Some (False, q3)" for ops y
    using wedged_run [OF q'(2), of ops] Enqueue_wedged [of k _ y] tryForce_wedged [of k _ y] by meson
  with q'(1) show ?thesis by blast
qed

theorem DropOldest_wedges_witness:
  "\<exists>q :: nat LockFreeQueue. IsFull q \<and> q_items q = [Some 1, Some 2] \<and>
     (\<exists>q'. Enqueue q (Some 3) = Some (False, q') \<and>
       (\<forall>ops y. \<exists>rs q1 q2 q3. queue_run Enqueue Dequeue ops q' = Some (rs, q1) \<and>
          accepted ops rs = [] \<and> Enqueue q1 y = Some (False, q2) \<and>
          tryForceEnqueueDropOldest q1 y = Some (False, q3)))"
proof -
  obtain q :: "nat LockFreeQueue" where q: "q_inv q" "q_dropPolicy q = DropOldest" "q_items q = [Some 1, Some 2]" "IsFull q"
    using full_queue_exists by blast
  with DropOldest_wedges [OF q(1,2,4), of "Some 3"] show ?thesis by blast
qed

text \<open>
  \<^verbatim>\<open>nextPowerOf2\<close> returns the least power of two that is at least its argument,
  for every argument between 1 and 2 to the 63.
\<close>

theorem nextPowerOf2_least:
  assumes "n \<noteq> 0" and "unat n \<le> 2 ^ 63"
  shows "\<exists>k\<le>63. nextPowerOf2 n = 2 ^ k \<and> unat n \<le> 2 ^ k \<and> 2 ^ k < 2 * unat n"
  using nextPowerOf2_least_aux [OF assms] .

theorem nextPowerOf2_least_witness:
  "nextPowerOf2 1000 = 1024 \<and>
   (\<exists>k\<le>63. nextPowerOf2 1000 = 2 ^ k \<and> unat (1000 :: u64) \<le> 2 ^ k \<and> 2 ^ k < 2 * unat (1000 :: u64))"
  using nextPowerOf2_least [of 1000] by (simp add: nextPowerOf2_def)

text \<open>
  The counters are exact under every policy: over any run they grow by the number of accepted
  items, of received items and of refused enqueues.
\<close>

theorem queue_counters:
  assumes "queue_run Enqueue Dequeue ops q = Some (rs, q')"
  shows "qs_EnqueueCount (Stats q') = qs_EnqueueCount (Stats q) + of_nat (length (accepted ops rs)) \<and>
     qs_DequeueCount (Stats q') = qs_DequeueCount (Stats q) + of_nat (length (received rs)) \<and>
     qs_DropCount (Stats q') = qs_DropCount (Stats q) + of_nat (length (filter (\<lambda>r. r = PutRes False) rs))"
  using queue_counters_aux [OF assms] by (simp add: Stats_def)

theorem queue_counters_witness:
  "\<exists>q rs q'. NewLockFreeQueue ''w'' 2 DropOldest = Some (q :: nat LockFreeQueue) \<and>
     queue_run Enqueue Dequeue [Put (Some 1), Get, Get] q = Some (rs, q') \<and>
     qs_EnqueueCount (Stats q') = 1 \<and> qs_DequeueCount (Stats q') = 1 \<and> qs_DropCount (Stats q') = 0"
proof -
  define q :: "nat LockFreeQueue" where "q = the (NewLockFreeQueue ''w'' 2 DropOldest)"
  have q: "NewLockFreeQueue ''w'' 2 DropOldest = Some q" "q_capacity q = 2"
    "qs_EnqueueCount (Stats q) = 0" "qs_DequeueCount (Stats q) = 0" "qs_DropCount (Stats q) = 0"
    by (simp_all add: q_def NewLockFreeQueue_def make_ok_def Stats_def)
  have "queue_run Enqueue Dequeue [Put (Some 1), Get, Get] q =
      Some ([PutRes True, GetRes (Some (Some 1)), GetRes None],
        snd (the (queue_run Enqueue Dequeue [Put (Some 1), Get, Get] q)))" (is "?r = Some (?rs, ?q')")
    unfolding q_def by code_simp
  with queue_counters [OF this] q show ?thesis by (intro exI [of _ q] exI [of _ ?rs] exI [of _ ?q']) simp
qed

text \<open>
  While the ring invariant holds, the size queries are exact: \<^verbatim>\<open>Size\<close> is the
  number of items held, \<^verbatim>\<open>IsEmpty\<close> and \<^verbatim>\<open>IsFull\<close> decide emptiness
  and fullness.
\<close>

theorem queue_sizes:
  assumes "q_inv q"
  shows "sint (Size q) = int (length (q_items q)) \<and> (IsEmpty q \<longleftrightarrow> q_items q = []) \<and>
     (IsFull q \<longleftrightarrow> length (q_items q) = unat (q_capacity q))"
  using q_inv_Size [OF assms] IsEmpty_iff [OF assms] IsFull_iff [OF assms] by blast

theorem queue_sizes_witness:
  "\<exists>q :: nat LockFreeQueue. NewLockFreeQueue ''w'' 3 Block = Some q \<and> sint (Size q) = 0 \<and>
     IsEmpty q \<and> \<not> IsFull q \<and> q_capacity q = 4"
proof -
  define q :: "nat LockFreeQueue" where "q = the (NewLockFreeQueue ''w'' 3 Block)"
  have q: "NewLockFreeQueue ''w'' 3 Block = Some q" "q_capacity q = 4"
    by (simp_all add: q_def NewLockFreeQueue_def make_ok_def nextPowerOf2_def)
  with NewLockFreeQueue_ring [OF q(1)] have i: "q_inv q" "q_items q = []" by simp_all
  from queue_sizes [OF i(1)] i(2) q show ?thesis by (auto simp del: length_q_items)
qed

text \<open>
  A queue built with capacity 1 is broken under every policy: a second item is accepted and
  overwrites the first, and the dequeue that follows reports an empty queue although the size is 2.
\<close>

theorem capacity_one_loses:
  "\<exists>q q1 q2 q3. NewLockFreeQueue name 1 policy = Some q \<and>
     Enqueue q x = Some (True, q1) \<and> Enqueue q1 y = Some (True, q2) \<and>
     Dequeue q2 = Some ((None, False), q3) \<and> sint (Size q3) = 2"
proof -
  define q :: "'a LockFreeQueue" where "q = the (NewLockFreeQueue name 1 policy)"
  let ?q = "\<lambda>i y. q\<lparr>q_buffer := [\<lparr>n_sequence = i, n_data = y\<rparr>], q_enqueuePos := i, q_enqueueCount := i\<rparr>"
  have q: "NewLockFreeQueue name 1 policy = Some q" "q = ?q 0 None"
    by (simp_all add: q_def NewLockFreeQueue_def make_ok_def)
  have f: "q_mask q = 0" "q_dequeuePos q = 0" by (simp_all add: q_def NewLockFreeQueue_def make_ok_def)
  have enq: "Enqueue (?q i z) y = Some (True, ?q (i + 1) y)" for i y z
    using Enqueue_loop_seq [of "?q i z"] by (simp add: Enqueue_def slot_of_def f)
  have "Dequeue_loop 0 (?q 2 y) \<in> {Some (Refused, ?q 2 y), Some (Exhausted, ?q 2 y)}"
    by (rule Dequeue_loop_spin) (simp_all add: slot_of_def f)
  then have deq: "Dequeue (?q 2 y) = Some ((None, False), ?q 2 y)" by (auto simp: Dequeue_def)
  have "sint (Size (?q 2 y)) = 2" by (simp add: Size_def f)
  with q enq [of 0 None x] enq [of 1 x y] deq show ?thesis by (metis add_0 one_add_one)
qed

end
