(* ===== verification/Errors.thy ===== *)
theory Errors
  imports Prelude "HOL-Library.AList"
begin

text \<open>
  \<^verbatim>\<open>src/pkg/types/errors.go\<close>: the error codes, the structured error
  \<^verbatim>\<open>PortaskError\<close> with its constructors and classification, and the
  \<^verbatim>\<open>ErrorCollector\<close>. The time of creation is an argument of the constructors. A value
  of type \<^verbatim>\<open>interface{}\<close> is a \<open>dynval\<close>, which names the dynamic types the
  source switches on; a map is an association list with distinct keys.
\<close>

section \<open>Dynamic values\<close>

datatype dynval =
    AnyNil
  | AnyString string
  | AnyBytes "byte list"
  | AnyInt i64         \<comment> \<open>\<^verbatim>\<open>int, int8, int16, int32, int64\<close>\<close>
  | AnyUint u64        \<comment> \<open>\<^verbatim>\<open>uint, uint8, uint16, uint32, uint64\<close>\<close>
  | AnyFloat32 u32     \<comment> \<open>its bit pattern\<close>
  | AnyFloat64 u64     \<comment> \<open>its bit pattern\<close>
  | AnyBool bool
  | AnyOther string    \<comment> \<open>a value of another type, by its \<^verbatim>\<open>%v\<close> rendering\<close>

type_synonym 'v go_map = "(string \<times> 'v) list"

section \<open>Error codes\<close>

type_synonym ErrorCode = string

definition ErrCodeInvalidMessage :: ErrorCode where "ErrCodeInvalidMessage = ''INVALID_MESSAGE''"
definition ErrCodeMessageExpired :: ErrorCode where "ErrCodeMessageExpired = ''MESSAGE_EXPIRED''"
definition ErrCodeMessageTooLarge :: ErrorCode where "ErrCodeMessageTooLarge = ''MESSAGE_TOO_LARGE''"
definition ErrCodeMessageNotFound :: ErrorCode where "ErrCodeMessageNotFound = ''MESSAGE_NOT_FOUND''"
definition ErrCodeDuplicateMessage :: ErrorCode where "ErrCodeDuplicateMessage = ''DUPLICATE_MESSAGE''"
definition ErrCodeTopicNotFound :: ErrorCode where "ErrCodeTopicNotFound = ''TOPIC_NOT_FOUND''"
definition ErrCodeTopicExists :: ErrorCode where "ErrCodeTopicExists = ''TOPIC_EXISTS''"
definition ErrCodeInvalidTopic :: ErrorCode where "ErrCodeInvalidTopic = ''INVALID_TOPIC''"
definition ErrCodePartitionNotFound :: ErrorCode where "ErrCodePartitionNotFound = ''PARTITION_NOT_FOUND''"
definition ErrCodeConsumerNotFound :: ErrorCode where "ErrCodeConsumerNotFound = ''CONSUMER_NOT_FOUND''"
definition ErrCodeConsumerExists :: ErrorCode where "ErrCodeConsumerExists = ''CONSUMER_EXISTS''"
definition ErrCodeInvalidConsumer :: ErrorCode where "ErrCodeInvalidConsumer = ''INVALID_CONSUMER''"
definition ErrCodeConsumerTimeout :: ErrorCode where "ErrCodeConsumerTimeout = ''CONSUMER_TIMEOUT''"
definition ErrCodeStorageError :: ErrorCode where "ErrCodeStorageError = ''STORAGE_ERROR''"
definition ErrCodeStorageTimeout :: ErrorCode where "ErrCodeStorageTimeout = ''STORAGE_TIMEOUT''"
definition ErrCodeStorageFull :: ErrorCode where "ErrCodeStorageFull = ''STORAGE_FULL''"
definition ErrCodeStorageCorrupted :: ErrorCode where "ErrCodeStorageCorrupted = ''STORAGE_CORRUPTED''"
definition ErrCodeNetworkError :: ErrorCode where "ErrCodeNetworkError = ''NETWORK_ERROR''"
definition ErrCodeConnectionLost :: ErrorCode where "ErrCodeConnectionLost = ''CONNECTION_LOST''"
definition ErrCodeTimeout :: ErrorCode where "ErrCodeTimeout = ''TIMEOUT''"
definition ErrCodeInvalidProtocol :: ErrorCode where "ErrCodeInvalidProtocol = ''INVALID_PROTOCOL''"
definition ErrCodeSerializationError :: ErrorCode where "ErrCodeSerializationError = ''SERIALIZATION_ERROR''"
definition ErrCodeDeserializationError :: ErrorCode where "ErrCodeDeserializationError = ''DESERIALIZATION_ERROR''"
definition ErrCodeCompressionError :: ErrorCode where "ErrCodeCompressionError = ''COMPRESSION_ERROR''"
definition ErrCodeDecompressionError :: ErrorCode where "ErrCodeDecompressionError = ''DECOMPRESSION_ERROR''"
definition ErrCodeInvalidConfig :: ErrorCode where "ErrCodeInvalidConfig = ''INVALID_CONFIG''"
definition ErrCodeConfigNotFound :: ErrorCode where "ErrCodeConfigNotFound = ''CONFIG_NOT_FOUND''"
definition ErrCodeUnauthorized :: ErrorCode where "ErrCodeUnauthorized = ''UNAUTHORIZED''"
definition ErrCodeForbidden :: ErrorCode where "ErrCodeForbidden = ''FORBIDDEN''"
definition ErrCodeInvalidCredentials :: ErrorCode where "ErrCodeInvalidCredentials = ''INVALID_CREDENTIALS''"
definition ErrCodeSystemError :: ErrorCode where "ErrCodeSystemError = ''SYSTEM_ERROR''"
definition ErrCodeMemoryError :: ErrorCode where "ErrCodeMemoryError = ''MEMORY_ERROR''"
definition ErrCodeResourceExhausted :: ErrorCode where "ErrCodeResourceExhausted = ''RESOURCE_EXHAUSTED''"
definition ErrCodeInvalidULID :: ErrorCode where "ErrCodeInvalidULID = ''INVALID_ULID''"
definition ErrCodeInvalidID :: ErrorCode where "ErrCodeInvalidID = ''INVALID_ID''"

definition error_codes :: "ErrorCode list" where
  "error_codes =
     [ErrCodeInvalidMessage, ErrCodeMessageExpired, ErrCodeMessageTooLarge,
      ErrCodeMessageNotFound, ErrCodeDuplicateMessage, ErrCodeTopicNotFound,
      ErrCodeTopicExists, ErrCodeInvalidTopic, ErrCodePartitionNotFound,
      ErrCodeConsumerNotFound, ErrCodeConsumerExists, ErrCodeInvalidConsumer,
      ErrCodeConsumerTimeout, ErrCodeStorageError, ErrCodeStorageTimeout,
      ErrCodeStorageFull, ErrCodeStorageCorrupted, ErrCodeNetworkError,
      ErrCodeConnectionLost, ErrCodeTimeout, ErrCodeInvalidProtocol,
      ErrCodeSerializationError, ErrCodeDeserializationError, ErrCodeCompressionError,
      ErrCodeDecompressionError, ErrCodeInvalidConfig, ErrCodeConfigNotFound,
      ErrCodeUnauthorized, ErrCodeForbidden, ErrCodeInvalidCredentials, ErrCodeSystemError,
      ErrCodeMemoryError, ErrCodeResourceExhausted, ErrCodeInvalidULID, ErrCodeInvalidID]"

lemmas code_defs =
  ErrCodeInvalidMessage_def ErrCodeMessageExpired_def ErrCodeMessageTooLarge_def
  ErrCodeMessageNotFound_def ErrCodeDuplicateMessage_def ErrCodeTopicNotFound_def
  ErrCodeTopicExists_def ErrCodeInvalidTopic_def ErrCodePartitionNotFound_def
  ErrCodeConsumerNotFound_def ErrCodeConsumerExists_def ErrCodeInvalidConsumer_def
  ErrCodeConsumerTimeout_def ErrCodeStorageError_def ErrCodeStorageTimeout_def
  ErrCodeStorageFull_def ErrCodeStorageCorrupted_def ErrCodeNetworkError_def
  ErrCodeConnectionLost_def ErrCodeTimeout_def ErrCodeInvalidProtocol_def
  ErrCodeSerializationError_def ErrCodeDeserializationError_def ErrCodeCompressionError_def
  ErrCodeDecompressionError_def ErrCodeInvalidConfig_def ErrCodeConfigNotFound_def
  ErrCodeUnauthorized_def ErrCodeForbidden_def ErrCodeInvalidCredentials_def
  ErrCodeSystemError_def ErrCodeMemoryError_def ErrCodeResourceExhausted_def
  ErrCodeInvalidULID_def ErrCodeInvalidID_def

section \<open>Structured errors\<close>

text \<open>An \<^verbatim>\<open>error\<close> is a \<^verbatim>\<open>*PortaskError\<close>, a collector, or an error of another package,
  known by its text.\<close>

datatype PortaskError =
  PortaskError (pe_Code: ErrorCode) (pe_Message: string) (pe_Details: "dynval go_map")
    (pe_Timestamp: instant) (pe_Stack: string) (pe_Cause: "go_error option")
and go_error =
    Portask PortaskError
  | Collected "go_error list"
  | Foreign string

definition NewPortaskError :: "instant \<Rightarrow> ErrorCode \<Rightarrow> string \<Rightarrow> PortaskError" where
  "NewPortaskError now code message = PortaskError code message [] now [] None"

definition NewPortaskErrorWithCause ::
  "instant \<Rightarrow> ErrorCode \<Rightarrow> string \<Rightarrow> go_error option \<Rightarrow> PortaskError" where
  "NewPortaskErrorWithCause now code message cause =
     (case NewPortaskError now code message of
        PortaskError c m d t s _ \<Rightarrow> PortaskError c m d t s cause)"

fun WithDetail :: "PortaskError \<Rightarrow> string \<Rightarrow> dynval \<Rightarrow> PortaskError" where
  "WithDetail (PortaskError c m d t s cause) key v = PortaskError c m (AList.update key v d) t s cause"

fun WithStack :: "PortaskError \<Rightarrow> string \<Rightarrow> PortaskError" where
  "WithStack (PortaskError c m d t _ cause) stack = PortaskError c m d t stack cause"

text \<open>\<^verbatim>\<open>fmt.Sprintf("%d", n)\<close> of a non-negative number.\<close>

fun dec :: "nat \<Rightarrow> string" where
  "dec n = (if n < 10 then [char_of (48 + n)] else dec (n div 10) @ [char_of (48 + n mod 10)])"

declare dec.simps [simp del]

text \<open>The same of any integer.\<close>

definition dec_int :: "int \<Rightarrow> string" where
  "dec_int i = (if i < 0 then CHR ''-'' # dec (nat (- i)) else dec (nat i))"

text \<open>The \<^verbatim>\<open>Error()\<close> methods; the lines of a collector are numbered from 1.\<close>

fun pe_Error :: "PortaskError \<Rightarrow> string" and error_text :: "go_error \<Rightarrow> string"
  and error_lines :: "nat \<Rightarrow> go_error list \<Rightarrow> string" where
  "pe_Error (PortaskError code message d t s cause) =
     (case cause of
        Some e \<Rightarrow> ''['' @ code @ ''] '' @ message @ '': '' @ error_text e
      | None \<Rightarrow> ''['' @ code @ ''] '' @ message)"
| "error_text (Portask p) = pe_Error p"
| "error_text (Foreign s) = s"
| "error_text (Collected []) = []"
| "error_text (Collected [e]) = error_text e"
| "error_text (Collected es) =
     ''multiple errors ('' @ dec (length es) @ ''):'' @ error_lines 1 es"
| "error_lines i [] = []"
| "error_lines i (e # es) =
     CHR 0x0A # ''  '' @ dec i @ '': '' @ error_text e @ error_lines (Suc i) es"

fun Unwrap :: "PortaskError \<Rightarrow> go_error option" where
  "Unwrap p = pe_Cause p"

definition IsCode :: "PortaskError \<Rightarrow> ErrorCode \<Rightarrow> bool" where
  "IsCode e code \<longleftrightarrow> pe_Code e = code"

fun Is :: "PortaskError \<Rightarrow> go_error \<Rightarrow> bool" where
  "Is e (Portask pe) \<longleftrightarrow> pe_Code e = pe_Code pe"
| "Is e _ \<longleftrightarrow> False"

definition IsRetryable :: "PortaskError \<Rightarrow> bool" where
  "IsRetryable e \<longleftrightarrow>
     pe_Code e \<in> {ErrCodeStorageTimeout, ErrCodeNetworkError, ErrCodeConnectionLost, ErrCodeTimeout}"

definition IsPermanent :: "PortaskError \<Rightarrow> bool" where
  "IsPermanent e \<longleftrightarrow>
     pe_Code e \<in> {ErrCodeInvalidMessage, ErrCodeInvalidTopic, ErrCodeInvalidConsumer,
       ErrCodeInvalidProtocol, ErrCodeInvalidConfig, ErrCodeUnauthorized,
       ErrCodeForbidden, ErrCodeInvalidCredentials, ErrCodeInvalidULID, ErrCodeInvalidID}"

section \<open>Constructors\<close>

definition ErrInvalidMessage :: "instant \<Rightarrow> string \<Rightarrow> PortaskError" where
  "ErrInvalidMessage now details =
     WithDetail (NewPortaskError now ErrCodeInvalidMessage ''invalid message'') ''details'' (AnyString details)"

definition ErrMessageExpired :: "instant \<Rightarrow> string \<Rightarrow> PortaskError" where
  "ErrMessageExpired now messageID =
     WithDetail (NewPortaskError now ErrCodeMessageExpired ''message has expired'')
       ''message_id'' (AnyOther messageID)"

definition ErrMessageTooLarge :: "instant \<Rightarrow> i64 \<Rightarrow> i64 \<Rightarrow> PortaskError" where
  "ErrMessageTooLarge now sz maxSize =
     WithDetail (WithDetail (NewPortaskError now ErrCodeMessageTooLarge ''message size exceeds limit'')
       ''size'' (AnyInt sz)) ''max_size'' (AnyInt maxSize)"

definition ErrTopicNotFound :: "instant \<Rightarrow> string \<Rightarrow> PortaskError" where
  "ErrTopicNotFound now topic =
     WithDetail (NewPortaskError now ErrCodeTopicNotFound ''topic not found'') ''topic'' (AnyOther topic)"

definition ErrConsumerNotFound :: "instant \<Rightarrow> string \<Rightarrow> PortaskError" where
  "ErrConsumerNotFound now consumerID =
     WithDetail (NewPortaskError now ErrCodeConsumerNotFound ''consumer not found'')
       ''consumer_id'' (AnyOther consumerID)"

definition ErrStorageError :: "instant \<Rightarrow> string \<Rightarrow> go_error option \<Rightarrow> PortaskError" where
  "ErrStorageError now operation cause =
     NewPortaskErrorWithCause now ErrCodeStorageError (''storage operation failed: '' @ operation) cause"

definition ErrSerializationError :: "instant \<Rightarrow> string \<Rightarrow> go_error option \<Rightarrow> PortaskError" where
  "ErrSerializationError now format cause =
     WithDetail (NewPortaskErrorWithCause now ErrCodeSerializationError
       (''serialization failed for format: '' @ format) cause) ''format'' (AnyString format)"

definition ErrDeserializationError :: "instant \<Rightarrow> string \<Rightarrow> go_error option \<Rightarrow> PortaskError" where
  "ErrDeserializationError now format cause =
     WithDetail (NewPortaskErrorWithCause now ErrCodeDeserializationError
       (''deserialization failed for format: '' @ format) cause) ''format'' (AnyString format)"

definition ErrCompressionError :: "instant \<Rightarrow> string \<Rightarrow> go_error option \<Rightarrow> PortaskError" where
  "ErrCompressionError now algorithm cause =
     WithDetail (NewPortaskErrorWithCause now ErrCodeCompressionError
       (''compression failed for algorithm: '' @ algorithm) cause) ''algorithm'' (AnyString algorithm)"

definition ErrDecompressionError :: "instant \<Rightarrow> string \<Rightarrow> go_error option \<Rightarrow> PortaskError" where
  "ErrDecompressionError now algorithm cause =
     WithDetail (NewPortaskErrorWithCause now ErrCodeDecompressionError
       (''decompression failed for algorithm: '' @ algorithm) cause) ''algorithm'' (AnyString algorithm)"

definition ErrNetworkError :: "instant \<Rightarrow> string \<Rightarrow> go_error option \<Rightarrow> PortaskError" where
  "ErrNetworkError now operation cause =
     WithDetail (NewPortaskErrorWithCause now ErrCodeNetworkError
       (''network operation failed: '' @ operation) cause) ''operation'' (AnyString operation)"

text \<open>\<^verbatim>\<open>timeout.String()\<close> is passed in rendered.\<close>

definition ErrTimeout :: "instant \<Rightarrow> string \<Rightarrow> string \<Rightarrow> PortaskError" where
  "ErrTimeout now operation timeout =
     WithDetail (WithDetail (NewPortaskError now ErrCodeTimeout (''operation timed out: '' @ operation))
       ''operation'' (AnyString operation)) ''timeout'' (AnyString timeout)"

definition ErrUnauthorized :: "instant \<Rightarrow> string \<Rightarrow> PortaskError" where
  "ErrUnauthorized now resource =
     WithDetail (NewPortaskError now ErrCodeUnauthorized ''access denied'') ''resource'' (AnyString resource)"

definition ErrResourceExhausted :: "instant \<Rightarrow> string \<Rightarrow> dynval \<Rightarrow> PortaskError" where
  "ErrResourceExhausted now resource limit =
     WithDetail (WithDetail (NewPortaskError now ErrCodeResourceExhausted (''resource exhausted: '' @ resource))
       ''resource'' (AnyString resource)) ''limit'' limit"

section \<open>Collector\<close>

record ErrorCollector =
  ec_Errors :: "go_error list"

definition NewErrorCollector :: ErrorCollector where
  "NewErrorCollector = \<lparr>ec_Errors = []\<rparr>"

definition ec_Add :: "ErrorCollector \<Rightarrow> go_error option \<Rightarrow> ErrorCollector" where
  "ec_Add ec err = (case err of None \<Rightarrow> ec | Some e \<Rightarrow> ec\<lparr>ec_Errors := ec_Errors ec @ [e]\<rparr>)"

definition HasErrors :: "ErrorCollector \<Rightarrow> bool" where
  "HasErrors ec \<longleftrightarrow> ec_Errors ec \<noteq> []"

definition ec_Error :: "ErrorCollector \<Rightarrow> string" where
  "ec_Error ec = error_text (Collected (ec_Errors ec))"

definition ToError :: "ErrorCollector \<Rightarrow> go_error option" where
  "ToError ec = (if \<not> HasErrors ec then None else Some (Collected (ec_Errors ec)))"

definition ec_Clear :: "ErrorCollector \<Rightarrow> ErrorCollector" where
  "ec_Clear ec = ec\<lparr>ec_Errors := []\<rparr>"

section \<open>Lemmas\<close>

lemma distinct_error_codes: "distinct error_codes"
  by (simp add: error_codes_def code_defs)

lemma code_WithDetail [simp]: "pe_Code (WithDetail e k v) = pe_Code e"
  by (cases e) simp

lemma code_New [simp]: "pe_Code (NewPortaskError now c m) = c"
  "pe_Code (NewPortaskErrorWithCause now c m e) = c"
  by (simp_all add: NewPortaskError_def NewPortaskErrorWithCause_def)

lemma WithDetail_lookup:
  "map_of (pe_Details (WithDetail e k v)) = (map_of (pe_Details e))(k \<mapsto> v)"
  by (cases e) (simp add: update_conv')

lemma retryable_not_permanent: "IsRetryable e \<Longrightarrow> \<not> IsPermanent e"
  by (auto simp: IsRetryable_def IsPermanent_def code_defs)

lemma Is_symmetric: "Is e (Portask e') \<longleftrightarrow> Is e' (Portask e)"
  by auto

lemma Is_transitive: "Is a (Portask b) \<Longrightarrow> Is b c \<Longrightarrow> Is a c"
  by (cases c) auto

text \<open>The decimal numerals: their value, and that they are injective.\<close>

definition undec :: "string \<Rightarrow> nat" where
  "undec s = foldl (\<lambda>n c. 10 * n + (of_char c - 48)) 0 s"

lemma undec_snoc: "undec (s @ [c]) = 10 * undec s + (of_char c - 48)"
  by (simp add: undec_def)

lemma of_char_digit: "d < 10 \<Longrightarrow> of_char (char_of (48 + d :: nat)) = 48 + d"
  by (simp add: of_char_of)

lemma undec_dec: "undec (dec n) = n"
proof (induction n rule: dec.induct)
  case (1 n)
  show ?case
  proof (cases "n < 10")
    case True
    then show ?thesis
      by (subst dec.simps) (simp add: undec_def of_char_digit)
  next
    case False
    then show ?thesis
      using 1 by (subst dec.simps) (simp add: undec_snoc of_char_digit)
  qed
qed

lemma dec_inject [simp]: "dec m = dec n \<longleftrightarrow> m = n"
  using undec_dec by metis

lemma dec_not_Nil [simp]: "dec n \<noteq> []"
  by (subst dec.simps) simp

lemma dec_chars: "c \<in> set (dec n) \<Longrightarrow> 48 \<le> (of_char c :: nat) \<and> (of_char c :: nat) \<le> 57"
proof (induction n rule: dec.induct)
  case (1 n)
  show ?case using 1 by (subst (asm) (2) dec.simps) (auto simp: of_char_digit split: if_splits)
qed

lemma minus_notin_dec [simp]: "CHR ''-'' \<notin> set (dec n)"
  using dec_chars [of "CHR ''-''" n] by auto

lemma dec_int_inject [simp]: "dec_int i = dec_int j \<longleftrightarrow> i = j"
proof -
  have "CHR ''-'' # dec m \<noteq> dec n" for m n
    by (metis list.set_intros(1) minus_notin_dec)
  then show ?thesis
    by (auto simp: dec_int_def) (metis)+
qed

lemma dec_int_chars: "c \<in> set (dec_int i) \<Longrightarrow> c = CHR ''-'' \<or> 48 \<le> (of_char c :: nat) \<and> (of_char c :: nat) \<le> 57"
  by (auto simp: dec_int_def dest: dec_chars split: if_splits)

end
