(* ===== verification/Ids.thy ===== *)
theory Ids
  imports Errors "HOL-Library.List_Lexorder" "HOL-Library.Char_ord"
begin

text \<open>
  \<^verbatim>\<open>src/pkg/types/ulid.go\<close>: ULIDs, short and numeric identifiers. The clock is an
  argument (\<open>ms\<close>, the milliseconds since the epoch) and so is the outcome of
  \<^verbatim>\<open>rand.Read\<close>: the bytes it delivered, or \<open>None\<close> for a failure, after which
  \<^verbatim>\<open>fastRand\<close> is used. \<^verbatim>\<open>encoding/base32\<close> without padding is written out
  on bit lists. A \<^verbatim>\<open>string\<close> comparison of Go is the lexicographic order on
  characters.
\<close>

section \<open>Base32\<close>

definition alphabet :: string where
  "alphabet = ''0123456789ABCDEFGHJKMNPQRSTVWXYZ''"

text \<open>The bits of a byte string, most significant first, and the value of a bit group.\<close>

definition byte_bits :: "byte \<Rightarrow> bool list" where
  "byte_bits b = map (bit b) [7, 6, 5, 4, 3, 2, 1, 0]"

fun bits_val :: "bool list \<Rightarrow> nat" where
  "bits_val [] = 0"
| "bits_val (b # bs) = (if b then 2 ^ length bs else 0) + bits_val bs"

function groups5 :: "bool list \<Rightarrow> nat list" where
  "groups5 bs =
     (if bs = [] then []
      else bits_val (take 5 bs @ replicate (5 - length bs) False) # groups5 (drop 5 bs))"
  by pat_completeness auto
termination
  by (relation "measure length") auto

declare groups5.simps [simp del]

definition EncodeToString :: "byte list \<Rightarrow> string" where
  "EncodeToString bs = map (nth alphabet) (groups5 (concat (map byte_bits bs)))"

text \<open>
  \<^verbatim>\<open>DecodeString\<close>: newlines are stripped, a character outside the alphabet (and, without
  padding, \<^verbatim>\<open>=\<close> is one) is a \<open>CorruptInputError\<close> with its position, the bytes are
  those completely covered by whole groups of eight characters and, in the last group, by 2, 4, 5
  or 7 characters (other lengths of the last group yield nothing for it).
\<close>

definition char_val :: "char \<Rightarrow> nat option" where
  "char_val c = (let i = length (takeWhile (\<lambda>d. d \<noteq> c) alphabet) in if i < length alphabet then Some i else None)"

fun decode_vals :: "nat \<Rightarrow> string \<Rightarrow> nat + nat list" where
  "decode_vals i [] = Inr []"
| "decode_vals i (c # cs) =
     (case char_val c of
        None \<Rightarrow> Inl i
      | Some v \<Rightarrow> (case decode_vals (Suc i) cs of Inl e \<Rightarrow> Inl e | Inr vs \<Rightarrow> Inr (v # vs)))"

definition val_bits :: "nat \<Rightarrow> bool list" where
  "val_bits v = map (\<lambda>i. odd (v div 2 ^ i)) [4, 3, 2, 1, 0]"

fun bytes8 :: "bool list \<Rightarrow> byte list" where
  "bytes8 (a # b # c # d # e # f # g # h # bs) =
     of_nat (bits_val [a, b, c, d, e, f, g, h]) # bytes8 bs"
| "bytes8 _ = []"

definition DecodeString :: "string \<Rightarrow> nat + byte list" where
  "DecodeString s =
     (case decode_vals 0 (filter (\<lambda>c. c \<noteq> CHR 0x0A \<and> c \<noteq> CHR 0x0D) s) of
        Inl i \<Rightarrow> Inl i
      | Inr vs \<Rightarrow>
          let whole = 8 * (length vs div 8);
              vs = (if length vs - whole \<in> {2, 4, 5, 7} then vs else take whole vs)
          in Inr (bytes8 (concat (map val_bits vs))))"

section \<open>Generators\<close>

text \<open>\<^verbatim>\<open>byte(now >> 40), ..., byte(now)\<close>\<close>

definition timestamp_bytes :: "i64 \<Rightarrow> byte list" where
  "timestamp_bytes ms = map (\<lambda>s. ucast (signed_drop_bit s ms)) [40, 32, 24, 16, 8, 0]"

definition fastRand :: "u64 \<Rightarrow> u64 \<times> u64" where
  "fastRand randState = (let randState = randState * 1103515245 + 12345 in (randState, randState))"

fun fastRand_fill :: "nat \<Rightarrow> u64 \<Rightarrow> byte list \<times> u64" where
  "fastRand_fill 0 st = ([], st)"
| "fastRand_fill (Suc n) st =
     (let (r, st) = fastRand st; (bs, st) = fastRand_fill n st in (ucast r # bs, st))"

definition entropy_bytes :: "nat \<Rightarrow> byte list option \<Rightarrow> u64 \<Rightarrow> byte list \<times> u64" where
  "entropy_bytes n rand st =
     (case rand of Some bs \<Rightarrow> (bs, st) | None \<Rightarrow> fastRand_fill n st)"

definition generateULID :: "i64 \<Rightarrow> byte list option \<Rightarrow> u64 \<Rightarrow> string \<times> u64" where
  "generateULID now rand st =
     (let (entropy, st) = entropy_bytes 10 rand st
      in (EncodeToString (timestamp_bytes now @ entropy), st))"

definition generateShortID :: "byte list option \<Rightarrow> u64 \<Rightarrow> string \<times> u64" where
  "generateShortID rand st =
     (let (entropy, st) = entropy_bytes 6 rand st in (EncodeToString entropy, st))"

definition ULID_GenerateWithTimestamp :: "i64 \<Rightarrow> byte list option \<Rightarrow> u64 \<Rightarrow> string \<times> u64" where
  "ULID_GenerateWithTimestamp ms rand st =
     (let (entropy, st) = entropy_bytes 10 rand st
      in (EncodeToString (timestamp_bytes ms @ entropy), st))"

datatype ulid_error = ErrInvalidULID | CorruptInputError nat

text \<open>\<^verbatim>\<open>s[:10]\<close> panics on a shorter string; the length test comes first.\<close>

definition parseULIDTimestamp :: "string \<Rightarrow> ulid_error + i64" where
  "parseULIDTimestamp ulid =
     (if length ulid \<noteq> 26 then Inl ErrInvalidULID
      else case DecodeString (take 10 ulid @ ''======'') of
             Inl i \<Rightarrow> Inl (CorruptInputError i)
           | Inr bs \<Rightarrow>
               if length bs < 6 then Inl ErrInvalidULID
               else Inr (push_bit 40 (ucast (bs ! 0)) OR push_bit 32 (ucast (bs ! 1)) OR
                         push_bit 24 (ucast (bs ! 2)) OR push_bit 16 (ucast (bs ! 3)) OR
                         push_bit 8 (ucast (bs ! 4)) OR ucast (bs ! 5)))"

text \<open>\<^verbatim>\<open>itoa\<close>: the loop writes digits from the end of a 20 byte buffer; writing below
  index 0 would panic.\<close>

function itoa_loop :: "nat \<Rightarrow> byte list \<Rightarrow> u64 \<Rightarrow> (nat \<times> byte list) option" where
  "itoa_loop i buf n =
     (if n = 0 then Some (i, buf)
      else if i = 0 then None
      else itoa_loop (i - 1) (buf[i - 1 := ucast (n mod 10) + 48]) (n div 10))"
  by pat_completeness auto
termination
  by (relation "measure (\<lambda>(i, buf, n). i)") auto

declare itoa_loop.simps [simp del]

definition itoa :: "u64 \<Rightarrow> string option" where
  "itoa n =
     (if n = 0 then Some ''0''
      else map_option (\<lambda>(i, buf). string_of (drop i buf)) (itoa_loop 20 (replicate 20 0) n))"

record NumericIDGenerator =
  g_counter :: u64

definition Numeric_Generate :: "NumericIDGenerator \<Rightarrow> string option \<times> NumericIDGenerator" where
  "Numeric_Generate g = (let g = g\<lparr>g_counter := g_counter g + 1\<rparr> in (itoa (g_counter g), g))"

definition Numeric_GenerateWithTimestamp ::
  "i64 \<Rightarrow> NumericIDGenerator \<Rightarrow> string option \<times> NumericIDGenerator" where
  "Numeric_GenerateWithTimestamp t g = Numeric_Generate g"

definition ULID_Generate :: "i64 \<Rightarrow> byte list option \<Rightarrow> u64 \<Rightarrow> string \<times> u64" where
  "ULID_Generate now rand st = generateULID now rand st"

definition Short_Generate :: "byte list option \<Rightarrow> u64 \<Rightarrow> string \<times> u64" where
  "Short_Generate rand st = generateShortID rand st"

definition Short_GenerateWithTimestamp :: "i64 \<Rightarrow> byte list option \<Rightarrow> u64 \<Rightarrow> string \<times> u64" where
  "Short_GenerateWithTimestamp t rand st = generateShortID rand st"

section \<open>Base32 lemmas\<close>

lemma bits_val_less_pow: "bits_val bs < 2 ^ length bs"
  by (induction bs) auto

lemma bits_val_less_iff:
  "length xs = length ys \<Longrightarrow> bits_val xs < bits_val ys \<longleftrightarrow> xs < ys"
proof (induction xs ys rule: list_induct2)
  case (Cons x xs y ys)
  then show ?case
    using bits_val_less_pow [of xs] bits_val_less_pow [of ys] by (cases x; cases y) auto
qed simp

lemma append_less_append:
  "length xs = length ys \<Longrightarrow>
     xs @ us < ys @ (vs :: 'a::linorder list) \<longleftrightarrow> xs < ys \<or> xs = ys \<and> us < vs"
  by (induction xs ys rule: list_induct2) auto

lemma map_less_map:
  fixes f :: "'b::linorder \<Rightarrow> 'a::linorder"
  shows "length xs = length ys \<Longrightarrow> (\<And>x y. x \<in> set xs \<Longrightarrow> y \<in> set ys \<Longrightarrow> x < y \<Longrightarrow> f x < f y) \<Longrightarrow>
     xs < ys \<Longrightarrow> map f xs < map f ys"
  by (induction xs ys rule: list_induct2) auto

lemma div5_step:
  assumes "1 \<le> n"
  shows "Suc ((n - 5 + 4) div 5) = (n + 4) div (5::nat)"
proof (cases "5 \<le> n")
  case True
  then obtain m where "n = m + 5" by (metis le_add_diff_inverse2)
  moreover have "(m + 4 + 5) div 5 = Suc ((m + 4) div 5)" by simp
  ultimately show ?thesis by (simp add: add.commute)
next
  case False
  with assms have "n = 1 \<or> n = 2 \<or> n = 3 \<or> n = 4" by linarith
  then show ?thesis by auto
qed

lemma length_groups5: "length (groups5 bs) = (length bs + 4) div 5"
proof (induction bs rule: groups5.induct)
  case (1 bs)
  show ?case
  proof (cases "bs = []")
    case False
    then have "length (groups5 bs) = Suc ((length bs - 5 + 4) div 5)"
      using 1 by (subst groups5.simps) simp
    moreover have "1 \<le> length bs" using False by (simp add: Suc_le_eq)
    ultimately show ?thesis using div5_step by simp
  qed (simp add: groups5.simps)
qed

lemma groups5_less_32: "v \<in> set (groups5 bs) \<Longrightarrow> v < 32"
proof (induction bs rule: groups5.induct)
  case (1 bs)
  show ?case
    using "1.prems" "1.IH" bits_val_less_pow [of "take 5 bs @ replicate (5 - length bs) False"]
    by (subst (asm) (1) groups5.simps) (auto simp: min_def split: if_splits)
qed

lemma groups5_mono: "length xs = length ys \<Longrightarrow> xs < ys \<Longrightarrow> groups5 xs < groups5 ys"
proof (induction xs arbitrary: ys rule: groups5.induct)
  case (1 xs)
  let ?p = "replicate (5 - length xs) False"
  from "1.prems" have ne: "xs \<noteq> []" "ys \<noteq> []" by auto
  have "take 5 xs @ drop 5 xs < take 5 ys @ drop 5 ys" using "1.prems"(2) by simp
  then have split: "take 5 xs < take 5 ys \<or> take 5 xs = take 5 ys \<and> drop 5 xs < drop 5 ys"
    using "1.prems"(1) by (subst (asm) append_less_append) auto
  have "bits_val (take 5 xs @ ?p) < bits_val (take 5 ys @ ?p)" if "take 5 xs < take 5 ys"
    using that "1.prems"(1) by (simp add: bits_val_less_iff append_less_append)
  moreover have "groups5 (drop 5 xs) < groups5 (drop 5 ys)" if "drop 5 xs < drop 5 ys"
    using "1.IH" [of "drop 5 ys"] ne that "1.prems"(1) by simp
  ultimately show ?case
    using split ne "1.prems"(1) by (subst (1 2) groups5.simps) auto
qed

lemma alphabet_mono: "i < j \<Longrightarrow> j < 32 \<Longrightarrow> alphabet ! i < alphabet ! j"
proof -
  have "sorted_wrt (<) alphabet" "length alphabet = 32" by (simp_all add: alphabet_def less_char_def)
  then show "i < j \<Longrightarrow> j < 32 \<Longrightarrow> alphabet ! i < alphabet ! j" by (simp add: sorted_wrt_nth_less)
qed

lemma length_byte_bits [simp]: "length (byte_bits b) = 8"
  by (simp add: byte_bits_def)

lemma length_concat_byte_bits [simp]: "length (concat (map byte_bits bs)) = 8 * length bs"
  by (induction bs) simp_all

lemma length_EncodeToString: "length (EncodeToString bs) = (8 * length bs + 4) div 5"
  by (simp add: EncodeToString_def length_groups5)

lemma EncodeToString_mono:
  assumes "length xs = length ys" "concat (map byte_bits xs) < concat (map byte_bits ys)"
  shows "EncodeToString xs < EncodeToString ys"
  unfolding EncodeToString_def
proof (rule map_less_map)
  show "groups5 (concat (map byte_bits xs)) < groups5 (concat (map byte_bits ys))"
    using assms by (intro groups5_mono) simp_all
qed (auto simp: length_groups5 assms(1) intro: alphabet_mono dest: groups5_less_32)

lemma bits_val_bits: "bits_val (map (bit x) (rev [0..<n])) = take_bit n x" for x :: nat
  by (induction n) (simp_all add: take_bit_Suc_from_most)

lemma rev_upt_48: "rev [0..<48] =
    [47, 46, 45, 44, 43, 42, 41, 40, 39, 38, 37, 36, 35, 34, 33, 32, 31, 30, 29, 28, 27, 26, 25, 24,
     23, 22, 21, 20, 19, 18, 17, 16, 15, 14, 13, 12, 11, 10, 9, 8, 7, 6, 5, 4, 3, 2, 1, 0]"
  by code_simp

lemma timestamp_bits:
  "concat (map byte_bits (timestamp_bytes ms)) = map (bit (unat ms)) (rev [0..<48])"
  by (simp add: timestamp_bytes_def byte_bits_def bit_simps rev_upt_48)

lemma timestamp_mono:
  assumes "unat a < unat b" "unat b < 2 ^ 48"
  shows "concat (map byte_bits (timestamp_bytes a)) < concat (map byte_bits (timestamp_bytes b))"
  using assms
  by (simp add: timestamp_bits bits_val_bits take_bit_nat_eq_self flip: bits_val_less_iff del: upt.simps)

lemma length_fastRand_fill: "length (fst (fastRand_fill n st)) = n"
  by (induction n arbitrary: st) (simp_all add: Let_def case_prod_beta)

lemma char_val_pad: "char_val CHR ''='' = None"
  by (simp add: char_val_def alphabet_def)

lemma decode_vals_pad: "CHR ''='' \<in> set s \<Longrightarrow> \<exists>i. decode_vals k s = Inl i"
proof (induction s arbitrary: k)
  case (Cons c s)
  show ?case
  proof (cases "c = CHR ''=''")
    case True
    then show ?thesis by (simp add: char_val_pad)
  next
    case False
    with Cons obtain i where "decode_vals (Suc k) s = Inl i" by auto
    then show ?thesis by (simp split: option.split)
  qed
qed simp

section \<open>Decimal conversion\<close>

lemma string_of_append: "string_of (xs @ ys) = string_of xs @ string_of ys"
  by (simp add: string_of_def)

lemma digit_byte: "string_of [ucast (n mod 10) + 48] = [char_of (48 + unat (n :: u64) mod 10)]"
proof -
  have "unat (ucast (n mod 10) + 48 :: byte) = 48 + unat n mod 10"
    by (simp add: unat_word_ariths unsigned_ucast_eq take_bit_eq_mod unat_mod)
  then show ?thesis by (simp add: string_of_def)
qed

lemma drop_list_update: "i < length buf \<Longrightarrow> drop i (buf[i := x]) = x # drop (Suc i) buf"
  by (metis Cons_nth_drop_Suc drop_update_cancel length_list_update lessI nth_list_update_eq)

text \<open>The digits \<^verbatim>\<open>itoa\<close> writes, with nothing for zero.\<close>

definition dec0 :: "nat \<Rightarrow> string" where
  "dec0 n = (if n = 0 then [] else dec n)"

lemma dec0_step: "0 < n \<Longrightarrow> dec0 n = dec0 (n div 10) @ [char_of (48 + n mod 10)]"
  by (auto simp: dec0_def dec.simps [of n])

lemma itoa_loop_dec:
  "unat n < 10 ^ i \<Longrightarrow> i \<le> length buf \<Longrightarrow>
     \<exists>j buf'. itoa_loop i buf n = Some (j, buf') \<and>
       string_of (drop j buf') = dec0 (unat n) @ string_of (drop i buf)"
proof (induction i buf n rule: itoa_loop.induct)
  case (1 i buf n)
  show ?case
  proof (cases "n = 0")
    case True
    then show ?thesis by (subst itoa_loop.simps) (simp add: dec0_def)
  next
    case False
    then have pos: "0 < unat n" by (simp add: unat_gt_0)
    with "1.prems" obtain i' where i: "i = Suc i'" by (cases i) auto
    let ?buf = "buf[i' := ucast (n mod 10) + 48]"
    have d: "unat (n div 10) = unat n div 10" by (simp add: unat_div)
    have "unat n div 10 < 10 ^ i'"
      using "1.prems"(1) i by (intro less_mult_imp_div_less) (simp add: mult.commute)
    with "1.IH" [OF False] i "1.prems"(2) d
    obtain j buf' where j: "itoa_loop i' ?buf (n div 10) = Some (j, buf')"
      "string_of (drop j buf') = dec0 (unat n div 10) @ string_of (drop i' ?buf)"
      by (auto simp: Suc_le_eq less_imp_le)
    have "drop i' ?buf = [ucast (n mod 10) + 48] @ drop i buf"
      using i "1.prems"(2) by (simp add: drop_list_update)
    then have "string_of (drop j buf') = dec0 (unat n) @ string_of (drop i buf)"
      by (simp only: j(2) string_of_append digit_byte dec0_step [OF pos] append_assoc)
    moreover have "itoa_loop i buf n = Some (j, buf')"
      using False i j(1) by (subst itoa_loop.simps) simp
    ultimately show ?thesis by blast
  qed
qed

lemma itoa_dec: "itoa n = Some (dec (unat n))"
proof (cases "n = 0")
  case True
  moreover have "dec 0 = ''0''" by code_simp
  ultimately show ?thesis by (simp add: itoa_def)
next
  case False
  have "unat n < 2 ^ 64" using unsigned_less [where ?'a = nat, of n] by simp
  then have "unat n < 10 ^ 20" by (rule less_trans) simp
  from itoa_loop_dec [OF this, of "replicate 20 0"] obtain j buf'
    where "itoa_loop 20 (replicate 20 0) n = Some (j, buf')" "string_of (drop j buf') = dec0 (unat n)"
    by (auto simp: string_of_def)
  then show ?thesis using False by (simp add: itoa_def dec0_def unat_eq_0)
qed

text \<open>A sequence of calls of the numeric generator.\<close>

fun Generate_many :: "nat \<Rightarrow> NumericIDGenerator \<Rightarrow> string option list" where
  "Generate_many 0 g = []"
| "Generate_many (Suc n) g = (let (s, g') = Numeric_Generate g in s # Generate_many n g')"

lemma Generate_many_map:
  "Generate_many n g = map (\<lambda>i. Some (dec (unat (g_counter g + of_nat (Suc i))))) [0..<n]"
proof (induction n arbitrary: g)
  case (Suc n)
  have "[0..<Suc n] = 0 # map Suc [0..<n]" by (simp add: map_Suc_upt upt_conv_Cons del: upt_Suc)
  then show ?case
    by (simp add: Numeric_Generate_def Let_def itoa_dec Suc ac_simps del: upt_Suc)
qed simp

lemma of_nat_inj64: "i < 2 ^ 64 \<Longrightarrow> j < 2 ^ 64 \<Longrightarrow> (of_nat i :: u64) = of_nat j \<longleftrightarrow> i = j"
  by (auto simp: word_of_nat_eq_iff take_bit_nat_eq_self)

section \<open>Properties\<close>

text \<open>\<^verbatim>\<open>rand.Read\<close> fills the whole slice when it reports no error.\<close>

definition fills :: "nat \<Rightarrow> byte list option \<Rightarrow> bool" where
  "fills n r \<longleftrightarrow> (case r of Some bs \<Rightarrow> length bs = n | None \<Rightarrow> True)"

lemma length_entropy: "fills n r \<Longrightarrow> length (fst (entropy_bytes n r st)) = n"
  by (simp add: fills_def entropy_bytes_def length_fastRand_fill split: option.splits)

lemma generateULID_eq:
  "fst (generateULID ms r st) = EncodeToString (timestamp_bytes ms @ fst (entropy_bytes 10 r st))"
  by (simp add: generateULID_def Let_def case_prod_beta)

lemma length_timestamp_bytes [simp]: "length (timestamp_bytes ms) = 6"
  by (simp add: timestamp_bytes_def)

text \<open>
  Every ULID has 26 characters, and ULIDs of different milliseconds before the year 10889
  (2 to the 48) sort as strings the way their timestamps do, whatever the entropy.
\<close>

theorem ulid_sortable:
  assumes "unat a < unat b" "unat b < 2 ^ 48" "fills 10 r" "fills 10 r'"
  shows "length (fst (generateULID a r st)) = 26 \<and>
     fst (generateULID a r st) < fst (generateULID b r' st')"
proof
  note len = length_entropy [OF assms(3), of st] length_entropy [OF assms(4), of st']
  show "length (fst (generateULID a r st)) = 26"
    by (simp add: generateULID_eq length_EncodeToString len)
  have "concat (map byte_bits (timestamp_bytes a)) @ us < concat (map byte_bits (timestamp_bytes b)) @ vs" for us vs
    using timestamp_mono [OF assms(1,2)] by (subst append_less_append) simp_all
  then show "fst (generateULID a r st) < fst (generateULID b r' st')"
    unfolding generateULID_eq by (intro EncodeToString_mono) (simp_all add: len)
qed

theorem ulid_sortable_witness:
  "length (fst (generateULID 1700000000000 (Some (replicate 10 255)) 0)) = 26 \<and>
   fst (generateULID 1700000000000 (Some (replicate 10 255)) 0) < fst (generateULID 1700000000001 None 7)"
  using ulid_sortable [of 1700000000000 1700000000001 "Some (replicate 10 255)" None 0 7]
  by (simp add: fills_def)

text \<open>
  \<^verbatim>\<open>parseULIDTimestamp\<close> fails on every string: the \<^verbatim>\<open>=\<close>
  characters it appends are corrupt input for an encoding without padding.
\<close>

theorem parseULIDTimestamp_fails: "\<exists>e. parseULIDTimestamp s = Inl e"
proof (cases "length s = 26")
  case True
  have "CHR ''='' \<in> set (filter (\<lambda>c. c \<noteq> CHR 0x0A \<and> c \<noteq> CHR 0x0D) (take 10 s @ ''======''))"
    by simp
  from decode_vals_pad [OF this, of 0] obtain i
    where "DecodeString (take 10 s @ ''======'') = Inl i" by (auto simp: DecodeString_def)
  with True show ?thesis by (simp add: parseULIDTimestamp_def)
qed (simp add: parseULIDTimestamp_def)

text \<open>
  \<^verbatim>\<open>itoa\<close> never writes outside its buffer, it is the decimal numeral of its
  argument, and the numeric generator never panics and repeats no identifier within 2 to the 64
  calls.
\<close>

theorem numeric_ids_unique:
  assumes "n \<le> 2 ^ 64"
  shows "distinct (Generate_many n g) \<and> None \<notin> set (Generate_many n g) \<and>
     (\<forall>i. itoa i = Some (dec (unat i)))"
proof (intro conjI allI)
  have "i = j" if "i < n" "j < n" "(of_nat (Suc i) :: u64) = of_nat (Suc j)" for i j
  proof -
    from that(3) have "(of_nat i :: u64) = of_nat j" by simp
    with that(1,2) assms show ?thesis using of_nat_inj64 [of i j] by simp
  qed
  then show "distinct (Generate_many n g)"
    by (auto simp: Generate_many_map distinct_map inj_on_def simp del: of_nat_Suc simp flip: word_unat_eq_iff)
qed (auto simp: Generate_many_map itoa_dec)

theorem numeric_ids_unique_witness:
  "distinct (Generate_many 3 \<lparr>g_counter = 18446744073709551614\<rparr>) \<and>
   None \<notin> set (Generate_many 3 \<lparr>g_counter = 18446744073709551614\<rparr>) \<and>
   itoa 1024 = Some ''1024''"
proof -
  have "dec 1024 = ''1024''" by code_simp
  then show ?thesis
    using numeric_ids_unique [of 3 "\<lparr>g_counter = 18446744073709551614\<rparr>"] by simp
qed

end
