(* ===== verification/Message.thy ===== *)
theory Message
  imports Ids
begin

text \<open>
  \<^verbatim>\<open>src/pkg/types/message.go\<close>: the message record with its builders, expiry, retry
  counter, size estimate and life-cycle marks, and message batches. The clock is an argument
  (\<open>now\<close>, Unix nanoseconds); a zero \<^verbatim>\<open>time.Time\<close> is \<open>None\<close>. Methods
  that change the message return it. Sizes of objects in memory are mathematical integers. The
  capacity a re-used slice keeps is not represented.
\<close>

section \<open>Data\<close>

type_synonym MessageID = string
type_synonym TopicName = string
type_synonym ConsumerID = string
type_synonym MessagePriority = u8

definition PriorityLow :: MessagePriority where "PriorityLow = 1"
definition PriorityNormal :: MessagePriority where "PriorityNormal = 5"
definition PriorityHigh :: MessagePriority where "PriorityHigh = 9"

datatype MessageStatus =
  StatusPending | StatusProcessing | StatusAcknowledged | StatusFailed | StatusExpired

type_synonym MessageHeaders = "dynval go_map option"

record FetchRequest =
  fr_Topic :: TopicName
  fr_Partition :: i32
  fr_Offset :: i64
  fr_Limit :: i64

record message_internal =
  mi_ReceivedAt :: "instant option"
  mi_ProcessedAt :: "instant option"
  mi_AcknowledgedAt :: "instant option"
  mi_Size :: int
  mi_CompressedSize :: int
  mi_SerializedData :: "byte list option"

record PortaskMessage =
  m_ID :: MessageID
  m_Topic :: TopicName
  m_Payload :: "byte list"
  m_Timestamp :: i64
  m_Headers :: MessageHeaders
  m_Metadata :: "string go_map option"
  m_Priority :: MessagePriority
  m_Status :: MessageStatus
  m_Partition :: i32
  m_Key :: string
  m_PartitionKey :: string
  m_ReplyTo :: TopicName
  m_ExpiresAt :: i64
  m_TTL :: i64
  m_Offset :: i64
  m_Attempts :: u8
  m_MaxRetry :: u8
  m_CorrelationID :: string
  m_TraceID :: string
  m_internal :: message_internal

definition zero_internal :: message_internal where
  "zero_internal = \<lparr>mi_ReceivedAt = None, mi_ProcessedAt = None, mi_AcknowledgedAt = None,
     mi_Size = 0, mi_CompressedSize = 0, mi_SerializedData = None\<rparr>"

text \<open>The zero value, \<^verbatim>\<open>PortaskMessage{}\<close>.\<close>

definition zero_message :: PortaskMessage where
  "zero_message =
     \<lparr>m_ID = [], m_Topic = [], m_Payload = [], m_Timestamp = 0, m_Headers = None, m_Metadata = None,
      m_Priority = 0, m_Status = StatusPending, m_Partition = 0, m_Key = [], m_PartitionKey = [],
      m_ReplyTo = [], m_ExpiresAt = 0, m_TTL = 0, m_Offset = 0, m_Attempts = 0, m_MaxRetry = 0,
      m_CorrelationID = [], m_TraceID = [], m_internal = zero_internal\<rparr>"

section \<open>Builders\<close>

text \<open>\<^verbatim>\<open>generateMessageID\<close> is \<^verbatim>\<open>generateULID\<close>; the identifier it made is passed in.\<close>

definition NewMessage :: "i64 \<Rightarrow> MessageID \<Rightarrow> TopicName \<Rightarrow> byte list \<Rightarrow> PortaskMessage" where
  "NewMessage now newID topic payload =
     zero_message\<lparr>m_ID := newID, m_Topic := topic, m_Payload := payload, m_Timestamp := now,
       m_Priority := PriorityNormal, m_Status := StatusPending, m_Headers := Some [],
       m_TTL := of_int (24 * Hour)\<rparr>"

definition WithHeader :: "PortaskMessage \<Rightarrow> string \<Rightarrow> dynval \<Rightarrow> PortaskMessage" where
  "WithHeader m key v =
     (let h = (case m_Headers m of None \<Rightarrow> [] | Some h \<Rightarrow> h)
      in m\<lparr>m_Headers := Some (AList.update key v h)\<rparr>)"

definition WithPriority :: "PortaskMessage \<Rightarrow> MessagePriority \<Rightarrow> PortaskMessage" where
  "WithPriority m priority = m\<lparr>m_Priority := priority\<rparr>"

definition WithTTL :: "PortaskMessage \<Rightarrow> i64 \<Rightarrow> PortaskMessage" where
  "WithTTL m ttl = m\<lparr>m_TTL := ttl, m_ExpiresAt := m_Timestamp m + ttl\<rparr>"

definition Reset :: "PortaskMessage \<Rightarrow> PortaskMessage" where
  "Reset m =
     m\<lparr>m_ID := [], m_Topic := [], m_Payload := take 0 (m_Payload m), m_Timestamp := 0,
       m_Headers := Some [], m_Metadata := Some [],
       m_Priority := PriorityNormal, m_Status := StatusPending, m_Partition := 0,
       m_Key := [], m_PartitionKey := [], m_ReplyTo := [],
       m_ExpiresAt := 0, m_TTL := 0, m_Offset := 0, m_Attempts := 0, m_MaxRetry := 0,
       m_CorrelationID := [], m_TraceID := [],
       m_internal := (m_internal m)\<lparr>mi_ReceivedAt := None, mi_ProcessedAt := None,
         mi_AcknowledgedAt := None, mi_Size := 0, mi_CompressedSize := 0, mi_SerializedData := None\<rparr>\<rparr>"

definition WithPartitionKey :: "PortaskMessage \<Rightarrow> string \<Rightarrow> PortaskMessage" where
  "WithPartitionKey m key = m\<lparr>m_PartitionKey := key\<rparr>"

definition WithReplyTo :: "PortaskMessage \<Rightarrow> TopicName \<Rightarrow> PortaskMessage" where
  "WithReplyTo m topic = m\<lparr>m_ReplyTo := topic\<rparr>"

definition WithCorrelationID :: "PortaskMessage \<Rightarrow> string \<Rightarrow> PortaskMessage" where
  "WithCorrelationID m i = m\<lparr>m_CorrelationID := i\<rparr>"

definition WithTraceID :: "PortaskMessage \<Rightarrow> string \<Rightarrow> PortaskMessage" where
  "WithTraceID m i = m\<lparr>m_TraceID := i\<rparr>"

section \<open>Queries and marks\<close>

definition IsExpired :: "i64 \<Rightarrow> PortaskMessage \<Rightarrow> bool" where
  "IsExpired now m \<longleftrightarrow> (if m_ExpiresAt m = 0 then False else sint now > sint (m_ExpiresAt m))"

definition CanRetry :: "PortaskMessage \<Rightarrow> bool" where
  "CanRetry m \<longleftrightarrow> m_Attempts m < m_MaxRetry m"

definition IncrementAttempts :: "PortaskMessage \<Rightarrow> PortaskMessage" where
  "IncrementAttempts m = m\<lparr>m_Attempts := m_Attempts m + 1\<rparr>"

definition GetHeader :: "PortaskMessage \<Rightarrow> string \<Rightarrow> dynval \<times> bool" where
  "GetHeader m key =
     (case m_Headers m of
        None \<Rightarrow> (AnyNil, False)
      | Some h \<Rightarrow> (case map_of h key of None \<Rightarrow> (AnyNil, False) | Some v \<Rightarrow> (v, True)))"

definition GetStringHeader :: "PortaskMessage \<Rightarrow> string \<Rightarrow> string \<times> bool" where
  "GetStringHeader m key =
     (case GetHeader m key of (AnyString s, True) \<Rightarrow> (s, True) | _ \<Rightarrow> ([], False))"

fun estimateValueSize :: "dynval \<Rightarrow> int" where
  "estimateValueSize (AnyString s) = int (length s)"
| "estimateValueSize (AnyBytes bs) = int (length bs)"
| "estimateValueSize (AnyInt _) = 8"
| "estimateValueSize (AnyUint _) = 8"
| "estimateValueSize (AnyFloat32 _) = 4"
| "estimateValueSize (AnyFloat64 _) = 8"
| "estimateValueSize (AnyBool _) = 1"
| "estimateValueSize _ = 16"

definition estimated_size :: "PortaskMessage \<Rightarrow> int" where
  "estimated_size m =
     int (length (m_Payload m)) + int (length (m_ID m)) + int (length (m_Topic m)) +
     int (length (m_PartitionKey m)) + int (length (m_ReplyTo m)) +
     int (length (m_CorrelationID m)) + int (length (m_TraceID m)) +
     sum_list (map (\<lambda>(k, v). int (length k) + estimateValueSize v)
       (case m_Headers m of None \<Rightarrow> [] | Some h \<Rightarrow> h)) + 128"

definition GetSize :: "PortaskMessage \<Rightarrow> int \<times> PortaskMessage" where
  "GetSize m =
     (if mi_Size (m_internal m) > 0 then (mi_Size (m_internal m), m)
      else let size = estimated_size m
           in (size, m\<lparr>m_internal := (m_internal m)\<lparr>mi_Size := size\<rparr>\<rparr>))"

definition GetCompressedSize :: "PortaskMessage \<Rightarrow> int" where
  "GetCompressedSize m = mi_CompressedSize (m_internal m)"

definition SetCompressedSize :: "PortaskMessage \<Rightarrow> int \<Rightarrow> PortaskMessage" where
  "SetCompressedSize m sz = m\<lparr>m_internal := (m_internal m)\<lparr>mi_CompressedSize := sz\<rparr>\<rparr>"

definition SetSerializedData :: "PortaskMessage \<Rightarrow> byte list option \<Rightarrow> PortaskMessage" where
  "SetSerializedData m data = m\<lparr>m_internal := (m_internal m)\<lparr>mi_SerializedData := data\<rparr>\<rparr>"

definition GetSerializedData :: "PortaskMessage \<Rightarrow> byte list option" where
  "GetSerializedData m = mi_SerializedData (m_internal m)"

definition ClearSerializedData :: "PortaskMessage \<Rightarrow> PortaskMessage" where
  "ClearSerializedData m = m\<lparr>m_internal := (m_internal m)\<lparr>mi_SerializedData := None\<rparr>\<rparr>"

definition markReceived :: "instant \<Rightarrow> PortaskMessage \<Rightarrow> PortaskMessage" where
  "markReceived now m = m\<lparr>m_internal := (m_internal m)\<lparr>mi_ReceivedAt := Some now\<rparr>\<rparr>"

definition markProcessed :: "instant \<Rightarrow> PortaskMessage \<Rightarrow> PortaskMessage" where
  "markProcessed now m =
     m\<lparr>m_internal := (m_internal m)\<lparr>mi_ProcessedAt := Some now\<rparr>, m_Status := StatusProcessing\<rparr>"

definition markAcknowledged :: "instant \<Rightarrow> PortaskMessage \<Rightarrow> PortaskMessage" where
  "markAcknowledged now m =
     m\<lparr>m_internal := (m_internal m)\<lparr>mi_AcknowledgedAt := Some now\<rparr>, m_Status := StatusAcknowledged\<rparr>"

definition markFailed :: "PortaskMessage \<Rightarrow> PortaskMessage" where
  "markFailed m = m\<lparr>m_Status := StatusFailed\<rparr>"

definition GetProcessingTime :: "PortaskMessage \<Rightarrow> duration" where
  "GetProcessingTime m =
     (case (mi_ReceivedAt (m_internal m), mi_ProcessedAt (m_internal m)) of
        (Some r, Some p) \<Rightarrow> time_sub p r
      | _ \<Rightarrow> 0)"

definition GetTotalTime :: "PortaskMessage \<Rightarrow> duration" where
  "GetTotalTime m =
     (case (mi_ReceivedAt (m_internal m), mi_AcknowledgedAt (m_internal m)) of
        (Some r, Some a) \<Rightarrow> time_sub a r
      | _ \<Rightarrow> 0)"

section \<open>Batches and metadata records\<close>

record MessageBatch =
  b_Messages :: "PortaskMessage list"
  b_BatchID :: string
  b_CreatedAt :: i64
  b_TotalSize :: int
  b_CompressedSize :: int
  b_SerializedData :: "byte list option"

definition NewMessageBatch :: "i64 \<Rightarrow> string \<Rightarrow> PortaskMessage list \<Rightarrow> MessageBatch" where
  "NewMessageBatch now newID messages =
     \<lparr>b_Messages = messages, b_BatchID = newID, b_CreatedAt = now, b_TotalSize = 0,
      b_CompressedSize = 0, b_SerializedData = None\<rparr>"

definition b_Add :: "MessageBatch \<Rightarrow> PortaskMessage \<Rightarrow> MessageBatch" where
  "b_Add b message =
     (let (size, message) = GetSize message
      in b\<lparr>b_Messages := b_Messages b @ [message], b_TotalSize := b_TotalSize b + size\<rparr>)"

definition b_Len :: "MessageBatch \<Rightarrow> nat" where
  "b_Len b = length (b_Messages b)"

definition GetTotalSize :: "MessageBatch \<Rightarrow> int \<times> MessageBatch" where
  "GetTotalSize b =
     (if b_TotalSize b > 0 then (b_TotalSize b, b)
      else let sized = map GetSize (b_Messages b); total = sum_list (map fst sized)
           in (total, b\<lparr>b_Messages := map snd sized, b_TotalSize := total\<rparr>))"

definition b_GetCompressedSize :: "MessageBatch \<Rightarrow> int" where
  "b_GetCompressedSize b = b_CompressedSize b"

definition b_SetCompressedSize :: "MessageBatch \<Rightarrow> int \<Rightarrow> MessageBatch" where
  "b_SetCompressedSize b sz = b\<lparr>b_CompressedSize := sz\<rparr>"

record ConsumerOffset =
  co_ConsumerID :: ConsumerID
  co_Topic :: TopicName
  co_Partition :: i32
  co_Offset :: i64
  co_Timestamp :: i64
  co_Metadata :: string

record TopicInfo =
  ti_Name :: TopicName
  ti_Partitions :: i32
  ti_ReplicationFactor :: i16
  ti_Config :: "string go_map option"
  ti_CreatedAt :: i64

record PartitionInfo =
  pi_Topic :: TopicName
  pi_Partition :: i32
  pi_Leader :: string
  pi_Replicas :: "string list"
  pi_ISR :: "string list"

section \<open>Lemmas\<close>

lemma sint_add64:
  assumes "- (2 ^ 63) \<le> sint a + sint b" "sint a + sint b < 2 ^ 63"
  shows "sint (a + b :: i64) = sint a + sint b"
proof -
  have "sint (a + b) = (sint a + sint b + 2 ^ 63) mod 2 ^ 64 - 2 ^ 63"
    by (simp add: sint_word_ariths signed_take_bit_eq_take_bit_shift take_bit_eq_mod)
  also have "(sint a + sint b + 2 ^ 63) mod 2 ^ 64 = sint a + sint b + 2 ^ 63"
    by (rule mod_pos_pos_trivial) (use assms in simp_all)
  finally show ?thesis by simp
qed

lemma estimated_size_pos: "0 < estimated_size m"
proof -
  have "0 \<le> estimateValueSize v" for v by (cases v) simp_all
  then have "0 \<le> sum_list (map (\<lambda>(k, v). int (length k) + estimateValueSize v) h)" for h
    by (intro sum_list_nonneg) auto
  from this [of "case m_Headers m of None \<Rightarrow> [] | Some h \<Rightarrow> h"] show ?thesis
    unfolding estimated_size_def by linarith
qed

lemma GetSize_pos: "0 < fst (GetSize m)"
  by (simp add: GetSize_def Let_def estimated_size_pos)

lemma GetSize_cached: "fst (GetSize (snd (GetSize m))) = fst (GetSize m)"
  using estimated_size_pos [of m] by (simp add: GetSize_def Let_def)

lemma Reset_uniform: "Reset m = Reset m'"
  by (simp add: Reset_def)

lemma GetHeader_WithHeader:
  "GetHeader (WithHeader m k v) k' = (if k' = k then (v, True) else GetHeader m k')"
  by (auto simp: GetHeader_def WithHeader_def Let_def update_conv' split: option.splits)

lemma b_Add_fold:
  "b_TotalSize (foldl b_Add b ms) = b_TotalSize b + sum_list (map (fst \<circ> GetSize) ms)"
  by (induction ms arbitrary: b) (simp_all add: b_Add_def Let_def case_prod_beta)

text \<open>How often a message that fails every time is tried again.\<close>

function retries :: "PortaskMessage \<Rightarrow> nat" where
  "retries m = (if CanRetry m then Suc (retries (IncrementAttempts m)) else 0)"
  by pat_completeness auto

lemma Attempts_Increment:
  "CanRetry m \<Longrightarrow> unat (m_Attempts (IncrementAttempts m)) = Suc (unat (m_Attempts m))"
proof -
  assume "CanRetry m"
  then have "unat (m_Attempts m) < unat (m_MaxRetry m)" by (simp add: CanRetry_def word_less_nat_alt)
  moreover have "unat (m_MaxRetry m) < 2 ^ 8" using unsigned_less [where ?'a = nat, of "m_MaxRetry m"] by simp
  ultimately show ?thesis by (simp add: IncrementAttempts_def unat_word_ariths)
qed

lemma MaxRetry_Increment [simp]: "m_MaxRetry (IncrementAttempts m) = m_MaxRetry m"
  by (simp add: IncrementAttempts_def)

termination retries
proof (relation "measure (\<lambda>m. unat (m_MaxRetry m) - unat (m_Attempts m))")
  fix m assume "CanRetry m"
  then show "(IncrementAttempts m, m) \<in> measure (\<lambda>m. unat (m_MaxRetry m) - unat (m_Attempts m))"
    using Attempts_Increment [of m] by (simp add: CanRetry_def word_less_nat_alt)
qed simp

declare retries.simps [simp del]

lemma retries_eq: "retries m = unat (m_MaxRetry m) - unat (m_Attempts m)"
proof (induction m rule: retries.induct)
  case (1 m)
  show ?case
  proof (cases "CanRetry m")
    case True
    with 1 Attempts_Increment [OF True] show ?thesis
      by (subst retries.simps) (simp add: CanRetry_def word_less_nat_alt Suc_diff_Suc)
  next
    case False
    then show ?thesis by (subst retries.simps) (simp add: CanRetry_def word_less_nat_alt)
  qed
qed

section \<open>Properties\<close>

text \<open>
  A message from \<^verbatim>\<open>NewMessage\<close> carries a TTL of 24 hours and yet never expires,
  because the expiry time stays unset; one whose TTL is set by \<^verbatim>\<open>WithTTL\<close> expires
  exactly when the clock passes its timestamp plus the TTL, provided that sum neither overflows nor
  is the Unix epoch itself.
\<close>

theorem message_expiry:
  "m_TTL (NewMessage now newID topic payload) = 86400000000000 \<and>
   \<not> IsExpired t (NewMessage now newID topic payload) \<and>
   (sint (m_Timestamp m) + sint ttl \<in> {- (2 ^ 63)..<2 ^ 63} - {0} \<longrightarrow>
     (IsExpired t (WithTTL m ttl) \<longleftrightarrow> sint (m_Timestamp m) + sint ttl < sint t))"
proof (intro conjI impI)
  show "m_TTL (NewMessage now newID topic payload) = 86400000000000"
    by (simp add: NewMessage_def Hour_def Minute_def Second_def Millisecond_def Microsecond_def Nanosecond_def)
  show "\<not> IsExpired t (NewMessage now newID topic payload)"
    by (simp add: IsExpired_def NewMessage_def zero_message_def)
  assume *: "sint (m_Timestamp m) + sint ttl \<in> {- (2 ^ 63)..<2 ^ 63} - {0}"
  then have "sint (m_Timestamp m + ttl) = sint (m_Timestamp m) + sint ttl"
    by (intro sint_add64) auto
  with * show "IsExpired t (WithTTL m ttl) \<longleftrightarrow> sint (m_Timestamp m) + sint ttl < sint t"
    by (auto simp: IsExpired_def WithTTL_def)
qed

theorem message_expiry_witness:
  "\<not> IsExpired 2000 (WithTTL (NewMessage 1000 ''id'' ''t'' []) 1000) \<and>
   IsExpired 2001 (WithTTL (NewMessage 1000 ''id'' ''t'' []) 1000)"
proof -
  let ?m = "NewMessage 1000 ''id'' ''t'' []"
  have "m_Timestamp ?m = 1000" by (simp add: NewMessage_def)
  with message_expiry [of 1000 "''id''" "''t''" "[]" 2000 ?m 1000]
    message_expiry [of 1000 "''id''" "''t''" "[]" 2001 ?m 1000]
  show ?thesis by simp
qed

text \<open>
  Retrying while \<^verbatim>\<open>CanRetry\<close> holds, counting each attempt with
  \<^verbatim>\<open>IncrementAttempts\<close>, ends, and after exactly the attempts that were left: the
  8-bit counter does not wrap under that guard.
\<close>

theorem retry_budget: "retries m = unat (m_MaxRetry m) - unat (m_Attempts m)"
  by (rule retries_eq)

text \<open>
  The size of a batch is exact when its messages were all added to an empty batch. A batch
  created with messages and then added to forgets those it was created with: its size is that of
  the added message alone.
\<close>

theorem batch_size:
  "fst (GetTotalSize (foldl b_Add (NewMessageBatch now newID []) ms)) = sum_list (map (fst \<circ> GetSize) ms) \<and>
   fst (GetTotalSize (b_Add (NewMessageBatch now newID ms) m)) = fst (GetSize m)"
proof
  have "b_Messages (foldl b_Add (NewMessageBatch now newID []) []) = []" by (simp add: NewMessageBatch_def)
  moreover have "0 < sum_list (map (fst \<circ> GetSize) ms)" if "ms \<noteq> []"
    using that GetSize_pos by (induction ms rule: list_nonempty_induct) (auto intro: add_pos_pos)
  ultimately show "fst (GetTotalSize (foldl b_Add (NewMessageBatch now newID []) ms)) =
      sum_list (map (fst \<circ> GetSize) ms)"
    by (cases "ms = []") (simp_all add: GetTotalSize_def b_Add_fold Let_def NewMessageBatch_def)
  show "fst (GetTotalSize (b_Add (NewMessageBatch now newID ms) m)) = fst (GetSize m)"
    using GetSize_pos [of m]
    by (simp add: GetTotalSize_def b_Add_def NewMessageBatch_def Let_def case_prod_beta)
qed

end
