(* ===== verification/Message_Bus.thy ===== *)
theory Message_Bus
  imports Lock_Free_Queue Message "HOL-Library.Signed_Division" "HOL-Library.Multiset"
begin

text \<open>
  The message bus, its workers and its worker pool of \<^verbatim>\<open>src/pkg/queue/lockfree.go\<close>.
  Publishing and processing are state transformers on the \<open>MessageBus\<close> record. A panic is
  \<open>None\<close>. The message processor the configuration supplies is an argument \<open>process\<close>
  that transforms a state of its own and reports the error, the time spent and the time of
  completion. A context is represented by whether it is cancelled; a notification channel by the
  number of tokens in it. The order in which a map is iterated is an argument. The rates
  \<^verbatim>\<open>statsCollector\<close> derives in floating point are not represented.
\<close>

section \<open>Data\<close>

type_synonym mqueue = "PortaskMessage LockFreeQueue"

record WorkerStats =
  ws_ID :: nat
  ws_MessagesProcessed :: u64
  ws_ErrorCount :: u64
  ws_AvgProcessingTime :: duration
  ws_LastActivity :: "instant option"
  ws_Status :: string

record Worker =
  w_id :: nat
  w_stats :: WorkerStats
  w_ctx_cancelled :: "bool option"   \<comment> \<open>\<open>None\<close> before the first start\<close>
  w_running :: bool
  w_notify :: nat

record WorkerPoolConfig =
  wc_WorkerCount :: i64
  wc_BatchSize :: i64
  wc_BatchTimeout :: duration
  wc_EnableProfiling :: bool

record WorkerPool =
  wp_workers :: "Worker list"
  wp_config :: WorkerPoolConfig
  wp_running :: bool

record MessageBusConfig =
  mc_HighPriorityQueueSize :: i64
  mc_NormalPriorityQueueSize :: i64
  mc_LowPriorityQueueSize :: i64
  mc_DropPolicy :: DropPolicy
  mc_WorkerPoolConfig :: WorkerPoolConfig
  mc_EnableTopicQueues :: bool

record BusStats =
  bs_TotalMessages :: u64
  bs_TotalBytes :: u64
  bs_QueueStats :: "string \<rightharpoonup> QueueStats"
  bs_WorkerStats :: "WorkerStats list"
  bs_TopicStats :: "string \<rightharpoonup> u64"
  bs_LastUpdate :: instant

record MessageBus =
  mb_highPriorityQueue :: mqueue
  mb_normalPriorityQueue :: mqueue
  mb_lowPriorityQueue :: mqueue
  mb_workers :: "nat list"           \<comment> \<open>positions in the pool\<close>
  mb_workerPool :: WorkerPool
  mb_topicQueues :: "TopicName \<rightharpoonup> mqueue"
  mb_stats :: BusStats
  mb_ctx_cancelled :: bool
  mb_running :: bool
  mb_workerNotify :: nat

type_synonym bus_result = "(go_error option \<times> MessageBus) option"

section \<open>Workers and their pool\<close>

definition new_worker :: "nat \<Rightarrow> Worker" where
  "new_worker i =
     \<lparr>w_id = i,
      w_stats = \<lparr>ws_ID = i, ws_MessagesProcessed = 0, ws_ErrorCount = 0, ws_AvgProcessingTime = 0,
                 ws_LastActivity = None, ws_Status = ''created''\<rparr>,
      w_ctx_cancelled = None, w_running = False, w_notify = 0\<rparr>"

definition NewWorkerPool :: "WorkerPoolConfig \<Rightarrow> WorkerPool option" where
  "NewWorkerPool config =
     (if sint (wc_WorkerCount config) < 0 then None
      else Some \<lparr>wp_workers = map new_worker [0..<nat (sint (wc_WorkerCount config))],
                 wp_config = config, wp_running = False\<rparr>)"

definition Worker_Start :: "instant \<Rightarrow> bool \<Rightarrow> Worker \<Rightarrow> go_error option \<times> Worker" where
  "Worker_Start now parentCancelled w =
     (if w_running w
      then (Some (Portask (NewPortaskError now ErrCodeSystemError ''worker already running'')), w)
      else (None, w\<lparr>w_running := True, w_ctx_cancelled := Some parentCancelled,
                    w_stats := (w_stats w)\<lparr>ws_Status := ''running''\<rparr>\<rparr>))"

definition Worker_Stop :: "Worker \<Rightarrow> Worker" where
  "Worker_Stop w =
     (if w_running w
      then w\<lparr>w_running := False, w_ctx_cancelled := Some True,
             w_stats := (w_stats w)\<lparr>ws_Status := ''stopped''\<rparr>\<rparr>
      else w)"

fun start_workers :: "instant \<Rightarrow> bool \<Rightarrow> Worker list \<Rightarrow> go_error option \<times> Worker list" where
  "start_workers now c [] = (None, [])"
| "start_workers now c (w # ws) =
     (case Worker_Start now c w of
        (Some e, w') \<Rightarrow> (Some e, w' # ws)
      | (None, w') \<Rightarrow> (let (e, ws') = start_workers now c ws in (e, w' # ws')))"

definition WorkerPool_Start :: "instant \<Rightarrow> bool \<Rightarrow> WorkerPool \<Rightarrow> go_error option \<times> WorkerPool" where
  "WorkerPool_Start now c wp =
     (if wp_running wp
      then (Some (Portask (NewPortaskError now ErrCodeSystemError ''worker pool already running'')), wp)
      else let (e, ws) = start_workers now c (wp_workers wp)
           in (e, wp\<lparr>wp_running := True, wp_workers := ws\<rparr>))"

definition WorkerPool_Stop :: "WorkerPool \<Rightarrow> WorkerPool" where
  "WorkerPool_Stop wp =
     (if \<not> wp_running wp then wp
      else wp\<lparr>wp_running := False, wp_workers := map Worker_Stop (wp_workers wp)\<rparr>)"

definition WorkerPool_GetStats :: "WorkerPool \<Rightarrow> WorkerStats list" where
  "WorkerPool_GetStats wp = map w_stats (wp_workers wp)"

section \<open>The bus\<close>

definition NewMessageBus :: "instant \<Rightarrow> MessageBusConfig \<Rightarrow> MessageBus option" where
  "NewMessageBus now config =
     (case (NewLockFreeQueue ''high-priority'' (mc_HighPriorityQueueSize config) (mc_DropPolicy config),
            NewLockFreeQueue ''normal-priority'' (mc_NormalPriorityQueueSize config) (mc_DropPolicy config),
            NewLockFreeQueue ''low-priority'' (mc_LowPriorityQueueSize config) (mc_DropPolicy config),
            NewWorkerPool (mc_WorkerPoolConfig config)) of
        (Some h, Some n, Some l, Some wp) \<Rightarrow>
          Some \<lparr>mb_highPriorityQueue = h, mb_normalPriorityQueue = n, mb_lowPriorityQueue = l,
                mb_workers = [], mb_workerPool = wp, mb_topicQueues = Map.empty,
                mb_stats = \<lparr>bs_TotalMessages = 0, bs_TotalBytes = 0, bs_QueueStats = Map.empty,
                            bs_WorkerStats = [], bs_TopicStats = Map.empty, bs_LastUpdate = now\<rparr>,
                mb_ctx_cancelled = False, mb_running = False, mb_workerNotify = 0\<rparr>
      | _ \<Rightarrow> None)"

definition Start :: "instant \<Rightarrow> MessageBus \<Rightarrow> go_error option \<times> MessageBus" where
  "Start now mb =
     (if mb_running mb
      then (Some (Portask (NewPortaskError now ErrCodeSystemError ''message bus already running'')), mb)
      else let (e, wp) = WorkerPool_Start now (mb_ctx_cancelled mb) (mb_workerPool mb)
           in (e, mb\<lparr>mb_running := True, mb_workerPool := wp\<rparr>))"

text \<open>Cancelling the bus's context cancels the contexts the workers derived from it.\<close>

definition cancel_workers :: "WorkerPool \<Rightarrow> WorkerPool" where
  "cancel_workers wp =
     wp\<lparr>wp_workers := map (\<lambda>w. w\<lparr>w_ctx_cancelled := map_option (\<lambda>_. True) (w_ctx_cancelled w)\<rparr>) (wp_workers wp)\<rparr>"

definition Stop :: "MessageBus \<Rightarrow> go_error option \<times> MessageBus" where
  "Stop mb =
     (if \<not> mb_running mb then (None, mb)
      else (None, mb\<lparr>mb_running := False, mb_ctx_cancelled := True,
                     mb_workerPool := WorkerPool_Stop (cancel_workers (mb_workerPool mb))\<rparr>))"

definition prio_queue :: "MessagePriority \<Rightarrow> MessageBus \<Rightarrow> mqueue" where
  "prio_queue p mb =
     (if p = PriorityHigh then mb_highPriorityQueue mb
      else if p = PriorityLow then mb_lowPriorityQueue mb
      else mb_normalPriorityQueue mb)"

definition set_prio_queue :: "MessagePriority \<Rightarrow> mqueue \<Rightarrow> MessageBus \<Rightarrow> MessageBus" where
  "set_prio_queue p q mb =
     (if p = PriorityHigh then mb\<lparr>mb_highPriorityQueue := q\<rparr>
      else if p = PriorityLow then mb\<lparr>mb_lowPriorityQueue := q\<rparr>
      else mb\<lparr>mb_normalPriorityQueue := q\<rparr>)"

definition count_message :: "int \<Rightarrow> MessageBus \<Rightarrow> MessageBus" where
  "count_message sz mb =
     mb\<lparr>mb_stats := (mb_stats mb)\<lparr>bs_TotalMessages := bs_TotalMessages (mb_stats mb) + 1,
                      bs_TotalBytes := bs_TotalBytes (mb_stats mb) + of_int sz\<rparr>\<rparr>"

text \<open>A non-blocking send into the one-element channel of each listed worker, then one into the
  channel of the bus, which holds 1000.\<close>

definition notifyWorkers :: "MessageBus \<Rightarrow> MessageBus" where
  "notifyWorkers mb =
     mb\<lparr>mb_workerPool := (mb_workerPool mb)\<lparr>wp_workers :=
            foldl (\<lambda>ws i. ws[i := (ws ! i)\<lparr>w_notify := 1\<rparr>]) (wp_workers (mb_workerPool mb)) (mb_workers mb)\<rparr>,
        mb_workerNotify := (if mb_workerNotify mb < 1000 then mb_workerNotify mb + 1 else mb_workerNotify mb)\<rparr>"

definition not_running :: "instant \<Rightarrow> go_error" where
  "not_running now = Portask (NewPortaskError now ErrCodeSystemError ''message bus not running'')"

definition queue_full :: "instant \<Rightarrow> mqueue \<Rightarrow> MessagePriority \<Rightarrow> go_error" where
  "queue_full now q p =
     Portask (WithDetail (WithDetail (NewPortaskError now ErrCodeResourceExhausted ''queue full'')
       ''queue'' (AnyString (q_name q))) ''priority'' (AnyOther (dec (unat p))))"

text \<open>
  The common part of the two publishing operations after the counters were updated: the enqueue,
  and what the policy does on a refusal. The flag says whether the first enqueue succeeded.
\<close>

definition enqueue_or_drop ::
  "instant \<Rightarrow> MessagePriority \<Rightarrow> PortaskMessage \<Rightarrow> MessageBus \<Rightarrow> (bool \<times> go_error option \<times> MessageBus) option" where
  "enqueue_or_drop now p message mb =
     (case Enqueue (prio_queue p mb) (Some message) of
        None \<Rightarrow> None
      | Some (True, q) \<Rightarrow> Some (True, None, set_prio_queue p q mb)
      | Some (False, q) \<Rightarrow>
          if q_dropPolicy q = DropOldest then
            (case tryForceEnqueueDropOldest q (Some message) of
               None \<Rightarrow> None
             | Some (True, q) \<Rightarrow> Some (False, None, set_prio_queue p q mb)
             | Some (False, q) \<Rightarrow>
                 Some (False, None, set_prio_queue p (q\<lparr>q_dropCount := q_dropCount q + 1\<rparr>) mb))
          else Some (False, Some (queue_full now q p), set_prio_queue p q mb))"

definition Publish :: "instant \<Rightarrow> PortaskMessage \<Rightarrow> MessageBus \<Rightarrow> bus_result" where
  "Publish now message mb =
     (if \<not> mb_running mb then Some (Some (not_running now), mb)
      else let (sz, message) = GetSize message; mb = count_message sz mb
           in case enqueue_or_drop now (m_Priority message) message mb of
                None \<Rightarrow> None
              | Some (enqueued, e, mb) \<Rightarrow> Some (e, if enqueued then notifyWorkers mb else mb))"

definition PublishToPriority :: "instant \<Rightarrow> PortaskMessage \<Rightarrow> MessagePriority \<Rightarrow> MessageBus \<Rightarrow> bus_result" where
  "PublishToPriority now message priority mb =
     (if \<not> mb_running mb then Some (Some (not_running now), mb)
      else let message = message\<lparr>m_Priority := priority\<rparr>;
               (sz, message) = GetSize message; mb = count_message sz mb
           in case enqueue_or_drop now priority message mb of
                None \<Rightarrow> None
              | Some (_, e, mb) \<Rightarrow> Some (e, mb))"

definition getOrCreateTopicQueue :: "TopicName \<Rightarrow> MessageBus \<Rightarrow> (mqueue \<times> MessageBus) option" where
  "getOrCreateTopicQueue topic mb =
     (case mb_topicQueues mb topic of
        Some q \<Rightarrow> Some (q, mb)
      | None \<Rightarrow>
          (case NewLockFreeQueue topic 1000 DropOldest of
             None \<Rightarrow> None
           | Some q \<Rightarrow> Some (q, mb\<lparr>mb_topicQueues := (mb_topicQueues mb)(topic \<mapsto> q)\<rparr>)))"

definition count_topic :: "TopicName \<Rightarrow> MessageBus \<Rightarrow> MessageBus" where
  "count_topic topic mb =
     mb\<lparr>mb_stats := (mb_stats mb)\<lparr>bs_TopicStats := (bs_TopicStats (mb_stats mb))(topic \<mapsto>
          (case bs_TopicStats (mb_stats mb) topic of Some n \<Rightarrow> n + 1 | None \<Rightarrow> 1))\<rparr>\<rparr>"

definition topic_full :: "instant \<Rightarrow> TopicName \<Rightarrow> go_error" where
  "topic_full now topic =
     Portask (WithDetail (NewPortaskError now ErrCodeResourceExhausted ''topic queue full'') ''topic'' (AnyOther topic))"

definition PublishToTopic :: "instant \<Rightarrow> PortaskMessage \<Rightarrow> MessageBus \<Rightarrow> bus_result" where
  "PublishToTopic now message mb =
     (if \<not> mb_running mb then Some (Some (not_running now), mb)
      else case getOrCreateTopicQueue (m_Topic message) mb of
             None \<Rightarrow> None
           | Some (q, mb) \<Rightarrow>
               let (sz, message) = GetSize message;
                   mb = count_topic (m_Topic message) (count_message sz mb)
               in case Enqueue q (Some message) of
                    None \<Rightarrow> None
                  | Some (ok, q) \<Rightarrow>
                      Some (if ok then None else Some (topic_full now (m_Topic message)),
                            mb\<lparr>mb_topicQueues := (mb_topicQueues mb)(m_Topic message \<mapsto> q)\<rparr>))"

definition GetStats :: "instant \<Rightarrow> MessageBus \<Rightarrow> BusStats" where
  "GetStats now mb =
     \<lparr>bs_TotalMessages = bs_TotalMessages (mb_stats mb), bs_TotalBytes = bs_TotalBytes (mb_stats mb),
      bs_QueueStats =
        [''high-priority'' \<mapsto> Stats (mb_highPriorityQueue mb),
         ''normal-priority'' \<mapsto> Stats (mb_normalPriorityQueue mb),
         ''low-priority'' \<mapsto> Stats (mb_lowPriorityQueue mb)] ++ (map_option Stats \<circ> mb_topicQueues mb),
      bs_WorkerStats = WorkerPool_GetStats (mb_workerPool mb),
      bs_TopicStats = bs_TopicStats (mb_stats mb), bs_LastUpdate = now\<rparr>"

section \<open>Processing\<close>

type_synonym 's processor = "PortaskMessage option \<Rightarrow> 's \<Rightarrow> (go_error option \<times> duration \<times> instant) \<times> 's"

text \<open>The statistics update after a message; the division truncates.\<close>

definition record_processed :: "go_error option \<Rightarrow> duration \<Rightarrow> instant \<Rightarrow> WorkerStats \<Rightarrow> WorkerStats" where
  "record_processed err dur now st =
     st\<lparr>ws_MessagesProcessed := ws_MessagesProcessed st + 1,
        ws_ErrorCount := ws_ErrorCount st + (if err \<noteq> None then 1 else 0),
        ws_AvgProcessingTime :=
          (if ws_AvgProcessingTime st = 0 then dur else (ws_AvgProcessingTime st + dur) sdiv 2),
        ws_LastActivity := Some now\<rparr>"

text \<open>\<open>processFromQueue\<close> works on the queue, the worker's statistics and the processor's state.\<close>

definition processFromQueue ::
  "'s processor \<Rightarrow> mqueue \<Rightarrow> WorkerStats \<times> 's \<Rightarrow> (bool \<times> mqueue \<times> WorkerStats \<times> 's) option" where
  "processFromQueue process q st =
     (case TryDequeue q of
        None \<Rightarrow> None
      | Some ((_, False), q) \<Rightarrow> Some (False, q, st)
      | Some ((message, True), q) \<Rightarrow>
          let ((err, dur, now), s) = process message (snd st)
          in Some (True, q, record_processed err dur now (fst st), s))"

text \<open>The inner loops: at most \<open>n\<close> messages of one queue; the count of those processed.\<close>

fun process_up_to ::
  "'s processor \<Rightarrow> nat \<Rightarrow> mqueue \<Rightarrow> WorkerStats \<times> 's \<Rightarrow> (nat \<times> mqueue \<times> WorkerStats \<times> 's) option" where
  "process_up_to process 0 q st = Some (0, q, st)"
| "process_up_to process (Suc n) q st =
     (case processFromQueue process q st of
        None \<Rightarrow> None
      | Some (False, q, st) \<Rightarrow> Some (0, q, st)
      | Some (True, q, st) \<Rightarrow>
          (case process_up_to process n q st of
             None \<Rightarrow> None
           | Some (k, q, st) \<Rightarrow> Some (Suc k, q, st)))"

text \<open>The loop over the topic queues, in the order \<open>ks\<close> the map iteration takes.\<close>

fun process_topics ::
  "'s processor \<Rightarrow> TopicName list \<Rightarrow> (TopicName \<rightharpoonup> mqueue) \<Rightarrow> WorkerStats \<times> 's \<Rightarrow>
     (nat \<times> (TopicName \<rightharpoonup> mqueue) \<times> WorkerStats \<times> 's) option" where
  "process_topics process [] tq st = Some (0, tq, st)"
| "process_topics process (t # ts) tq st =
     (case tq t of
        None \<Rightarrow> process_topics process ts tq st
      | Some q \<Rightarrow>
          (case process_up_to process 50 q st of
             None \<Rightarrow> None
           | Some (k, q, st) \<Rightarrow>
               (case process_topics process ts (tq(t \<mapsto> q)) st of
                  None \<Rightarrow> None
                | Some (k', tq, st) \<Rightarrow> Some (k + k', tq, st))))"

text \<open>One batch: \<^verbatim>\<open>messagesInBatch\<close> is the number processed, \<^verbatim>\<open>batchProcessed\<close> that it is not 0.\<close>

definition process_batch ::
  "'s processor \<Rightarrow> TopicName list \<Rightarrow> MessageBus \<Rightarrow> WorkerStats \<times> 's \<Rightarrow> (nat \<times> MessageBus \<times> WorkerStats \<times> 's) option" where
  "process_batch process ks mb st =
     (case process_up_to process 50 (mb_highPriorityQueue mb) st of None \<Rightarrow> None | Some (h, hq, st) \<Rightarrow>
     (case process_up_to process 100 (mb_normalPriorityQueue mb) st of None \<Rightarrow> None | Some (n, nq, st) \<Rightarrow>
     (case process_up_to process 25 (mb_lowPriorityQueue mb) st of None \<Rightarrow> None | Some (l, lq, st) \<Rightarrow>
     (case process_topics process ks (mb_topicQueues mb) st of None \<Rightarrow> None | Some (t, tq, st) \<Rightarrow>
        Some (h + n + l + t,
          mb\<lparr>mb_highPriorityQueue := hq, mb_normalPriorityQueue := nq, mb_lowPriorityQueue := lq,
             mb_topicQueues := tq\<rparr>, st)))))"

definition maxBatches :: nat where "maxBatches = 100"

text \<open>\<open>order b\<close> is the iteration order of the topic map in batch \<open>b\<close>.\<close>

function mega_loop ::
  "'s processor \<Rightarrow> (nat \<Rightarrow> TopicName list) \<Rightarrow> nat \<Rightarrow> bool \<Rightarrow> MessageBus \<Rightarrow> WorkerStats \<times> 's \<Rightarrow>
     (bool \<times> MessageBus \<times> WorkerStats \<times> 's) option" where
  "mega_loop process order batchCount processedAny mb st =
     (if batchCount < maxBatches then
        (case process_batch process (order batchCount) mb st of
           None \<Rightarrow> None
         | Some (k, mb, st) \<Rightarrow>
             if k = 0 then Some (processedAny, mb, st)
             else mega_loop process order (Suc batchCount) True mb st)
      else Some (processedAny, mb, st))"
  by pat_completeness auto
termination
  by (relation "measure (\<lambda>(p, ord, b, a, mb, st). maxBatches - b)") auto

declare mega_loop.simps [simp del]

definition megaProcessAllAvailableMessages ::
  "'s processor \<Rightarrow> (nat \<Rightarrow> TopicName list) \<Rightarrow> MessageBus \<Rightarrow> WorkerStats \<times> 's \<Rightarrow>
     (bool \<times> MessageBus \<times> WorkerStats \<times> 's) option" where
  "megaProcessAllAvailableMessages process order mb st = mega_loop process order 0 False mb st"

section \<open>Lemmas on processing\<close>

fun handle :: "'s processor \<Rightarrow> PortaskMessage option list \<Rightarrow> WorkerStats \<times> 's \<Rightarrow> WorkerStats \<times> 's" where
  "handle process [] st = st"
| "handle process (m # ms) st =
     handle process ms (let ((err, dur, now), s) = process m (snd st) in (record_processed err dur now (fst st), s))"

lemma handle_append: "handle process (xs @ ys) st = handle process ys (handle process xs st)"
  by (induction xs arbitrary: st) simp_all

lemma process_up_to_drain:
  "process_up_to process n q st =
     map_option (\<lambda>(xs, q'). (length xs, q', handle process xs st)) (drain Dequeue n q)"
proof (induction n arbitrary: q st)
  case (Suc n)
  show ?case
    by (auto simp: processFromQueue_def TryDequeue_def Suc Let_def case_prod_beta option.map_comp comp_def
        split: option.splits prod.splits bool.splits)
qed simp

lemma process_up_to_spec:
  assumes "q_inv q"
  shows "\<exists>q'. process_up_to process n q st =
       Some (length (take n (q_items q)), q', handle process (take n (q_items q)) st) \<and>
     q_inv q' \<and> q_items q' = drop n (q_items q)"
  using ring.drain_take [OF assms, of n] by (auto simp: process_up_to_drain)

text \<open>The places messages wait in, what a batch takes from each, and what they hold.\<close>

datatype place = High | Normal | Low | Topic TopicName

fun quota :: "place \<Rightarrow> nat" where
  "quota High = 50" | "quota Normal = 100" | "quota Low = 25" | "quota (Topic _) = 50"

fun content :: "MessageBus \<Rightarrow> place \<Rightarrow> PortaskMessage option list" where
  "content mb High = q_items (mb_highPriorityQueue mb)"
| "content mb Normal = q_items (mb_normalPriorityQueue mb)"
| "content mb Low = q_items (mb_lowPriorityQueue mb)"
| "content mb (Topic t) = (case mb_topicQueues mb t of None \<Rightarrow> [] | Some q \<Rightarrow> q_items q)"

definition bus_inv :: "MessageBus \<Rightarrow> bool" where
  "bus_inv mb \<longleftrightarrow> q_inv (mb_highPriorityQueue mb) \<and> q_inv (mb_normalPriorityQueue mb) \<and>
     q_inv (mb_lowPriorityQueue mb) \<and> (\<forall>t q. mb_topicQueues mb t = Some q \<longrightarrow> q_inv q)"

definition places :: "TopicName list \<Rightarrow> place list" where
  "places ks = [High, Normal, Low] @ map Topic ks"

definition batch :: "TopicName list \<Rightarrow> (place \<Rightarrow> PortaskMessage option list) \<Rightarrow> PortaskMessage option list" where
  "batch ks c = concat (map (\<lambda>p. take (quota p) (c p)) (places ks))"

definition tcontent :: "(TopicName \<rightharpoonup> mqueue) \<Rightarrow> TopicName \<Rightarrow> PortaskMessage option list" where
  "tcontent tq t = (case tq t of None \<Rightarrow> [] | Some q \<Rightarrow> q_items q)"

lemma process_topics_spec:
  assumes "distinct ks" "\<And>t q. tq t = Some q \<Longrightarrow> q_inv q"
  shows "\<exists>tq'. process_topics process ks tq st =
       Some (length (concat (map (\<lambda>t. take 50 (tcontent tq t)) ks)), tq',
         handle process (concat (map (\<lambda>t. take 50 (tcontent tq t)) ks)) st) \<and>
     dom tq' = dom tq \<and> (\<forall>t q. tq' t = Some q \<longrightarrow> q_inv q) \<and>
     (\<forall>t. tcontent tq' t = (if t \<in> set ks then drop 50 (tcontent tq t) else tcontent tq t))"
  using assms
proof (induction ks arbitrary: tq st)
  case Nil
  then show ?case by auto
next
  case (Cons t ts)
  show ?case
  proof (cases "tq t")
    case None
    with Cons.IH [of tq st] Cons.prems show ?thesis
      by (auto simp: tcontent_def)
  next
    case (Some q)
    from process_up_to_spec [OF Cons.prems(2) [OF Some], of process 50 st] obtain q'
      where q': "process_up_to process 50 q st =
          Some (length (take 50 (q_items q)), q', handle process (take 50 (q_items q)) st)"
        "q_inv q'" "q_items q' = drop 50 (q_items q)" by blast
    define tq1 where "tq1 = tq(t \<mapsto> q')"
    let ?st = "handle process (take 50 (q_items q)) st"
    have inv: "q_inv r" if "tq1 s = Some r" for s r
      using that Cons.prems(2) q'(2) by (auto simp: tq1_def split: if_splits)
    have c1: "tcontent tq1 s = (if s = t then drop 50 (tcontent tq t) else tcontent tq s)" for s
      using q'(3) Some by (simp add: tcontent_def tq1_def)
    have same: "map (\<lambda>t. take 50 (tcontent tq1 t)) ts = map (\<lambda>t. take 50 (tcontent tq t)) ts"
      using Cons.prems(1) by (auto simp: c1)
    have "distinct ts" using Cons.prems(1) by simp
    from Cons.IH [of tq1 ?st, OF this] inv obtain tq'
      where tq': "process_topics process ts tq1 ?st =
          Some (length (concat (map (\<lambda>t. take 50 (tcontent tq t)) ts)), tq',
            handle process (concat (map (\<lambda>t. take 50 (tcontent tq t)) ts)) ?st)"
        "dom tq' = dom tq1" "\<forall>t q. tq' t = Some q \<longrightarrow> q_inv q"
        "\<forall>s. tcontent tq' s = (if s \<in> set ts then drop 50 (tcontent tq1 s) else tcontent tq1 s)"
      unfolding same by blast
    have "dom tq1 = dom tq" using Some by (auto simp: tq1_def)
    then show ?thesis
      using tq' q'(1) Some Cons.prems(1)
      by (auto simp: c1 handle_append tcontent_def [of tq t] simp flip: tq1_def)
  qed
qed

lemma process_batch_spec:
  assumes "bus_inv mb" "range_order (mb_topicQueues mb) ks"
  shows "\<exists>mb'. process_batch process ks mb st =
       Some (length (batch ks (content mb)), mb', handle process (batch ks (content mb)) st) \<and>
     bus_inv mb' \<and> dom (mb_topicQueues mb') = dom (mb_topicQueues mb) \<and>
     (\<forall>p. content mb' p = drop (quota p) (content mb p))"
proof -
  have ks: "distinct ks" "set ks = dom (mb_topicQueues mb)" using assms(2) by (auto simp: range_order_def)
  note inv = assms(1) [unfolded bus_inv_def]
  let ?x = "\<lambda>p. take (quota p) (content mb p)"
  let ?s1 = "handle process (?x High) st"
  let ?s2 = "handle process (?x Normal) ?s1"
  let ?s3 = "handle process (?x Low) ?s2"
  from process_up_to_spec [of "mb_highPriorityQueue mb" process 50 st] inv obtain hq
    where h: "process_up_to process 50 (mb_highPriorityQueue mb) st = Some (length (?x High), hq, ?s1)"
      "q_inv hq" "q_items hq = drop 50 (content mb High)" by auto
  from process_up_to_spec [of "mb_normalPriorityQueue mb" process 100 ?s1] inv obtain nq
    where n: "process_up_to process 100 (mb_normalPriorityQueue mb) ?s1 = Some (length (?x Normal), nq, ?s2)"
      "q_inv nq" "q_items nq = drop 100 (content mb Normal)" by auto
  from process_up_to_spec [of "mb_lowPriorityQueue mb" process 25 ?s2] inv obtain lq
    where l: "process_up_to process 25 (mb_lowPriorityQueue mb) ?s2 = Some (length (?x Low), lq, ?s3)"
      "q_inv lq" "q_items lq = drop 25 (content mb Low)" by auto
  let ?ts = "concat (map (\<lambda>t. take 50 (tcontent (mb_topicQueues mb) t)) ks)"
  from process_topics_spec [OF ks(1), of "mb_topicQueues mb" process ?s3] inv obtain tq
    where t: "process_topics process ks (mb_topicQueues mb) ?s3 = Some (length ?ts, tq, handle process ?ts ?s3)"
      "dom tq = dom (mb_topicQueues mb)" "\<forall>t q. tq t = Some q \<longrightarrow> q_inv q"
      "\<forall>t. tcontent tq t = (if t \<in> set ks then drop 50 (tcontent (mb_topicQueues mb) t)
        else tcontent (mb_topicQueues mb) t)" by blast
  let ?mb = "mb\<lparr>mb_highPriorityQueue := hq, mb_normalPriorityQueue := nq, mb_lowPriorityQueue := lq,
             mb_topicQueues := tq\<rparr>"
  have b: "batch ks (content mb) = ?x High @ ?x Normal @ ?x Low @ ?ts"
    by (simp add: batch_def places_def comp_def tcontent_def)
  have "process_batch process ks mb st =
      Some (length (batch ks (content mb)), ?mb, handle process (batch ks (content mb)) st)"
    unfolding process_batch_def h(1) n(1) l(1) t(1) option.case prod.case b handle_append by simp
  moreover have "bus_inv ?mb" using h(2) n(2) l(2) t(3) by (simp add: bus_inv_def)
  moreover have "content ?mb p = drop (quota p) (content mb p)" for p
  proof (cases p)
    case (Topic s)
    have "tcontent tq s = drop 50 (tcontent (mb_topicQueues mb) s)"
    proof (cases "s \<in> set ks")
      case False
      then have "tcontent (mb_topicQueues mb) s = []" using ks(2) by (simp add: tcontent_def domIff)
      with False t(4) show ?thesis by simp
    qed (use t(4) in simp)
    then show ?thesis using Topic by (simp add: tcontent_def)
  qed (use h(3) n(3) l(3) in simp_all)
  ultimately show ?thesis using t(2) by (intro exI [of _ ?mb]) simp
qed

text \<open>The batches of a whole run: batch \<open>i\<close> takes from each place the messages after the
  \<open>i\<close> quotas taken before.\<close>

definition batches :: "(nat \<Rightarrow> TopicName list) \<Rightarrow> nat \<Rightarrow> (place \<Rightarrow> PortaskMessage option list) \<Rightarrow> PortaskMessage option list" where
  "batches order n c = concat (map (\<lambda>i. batch (order i) (\<lambda>p. drop (quota p * i) (c p))) [0..<n])"

lemma batches_Suc:
  "batches order (Suc n) c = batch (order 0) c @ batches (order \<circ> Suc) n (\<lambda>p. drop (quota p) (c p))"
proof -
  have "[0..<Suc n] = 0 # map Suc [0..<n]" by (simp add: map_Suc_upt upt_conv_Cons del: upt_Suc)
  then show ?thesis by (simp add: batches_def comp_def drop_drop add.commute del: upt_Suc)
qed

lemma batch_empty:
  "(\<And>p. c p = []) \<Longrightarrow> batch ks c = []"
  by (simp add: batch_def)

lemma batch_NilD:
  assumes "batch ks (content mb) = []" "range_order (mb_topicQueues mb) ks"
  shows "content mb p = []"
proof (cases "p \<in> set (places ks)")
  case True
  with assms(1) have "take (quota p) (content mb p) = []" by (simp add: batch_def)
  moreover have "0 < quota p" by (cases p) simp_all
  ultimately show ?thesis by simp
next
  case False
  then show ?thesis
    using assms(2) by (cases p) (auto simp: places_def range_order_def domIff split: option.splits)
qed

lemma batches_empty: "(\<And>p. c p = []) \<Longrightarrow> batches order n c = []"
  by (simp add: batches_def batch_empty)

lemma mega_loop_spec:
  assumes "bus_inv mb" "\<And>i. range_order (mb_topicQueues mb) (order i)" "b \<le> maxBatches"
  shows "\<exists>mb'. mega_loop process order b any mb st =
       Some (any \<or> batches (\<lambda>i. order (b + i)) (maxBatches - b) (content mb) \<noteq> [], mb',
         handle process (batches (\<lambda>i. order (b + i)) (maxBatches - b) (content mb)) st) \<and>
     bus_inv mb' \<and> (\<forall>p. content mb' p = drop (quota p * (maxBatches - b)) (content mb p))"
  using assms
proof (induction "maxBatches - b" arbitrary: b any mb st)
  case 0
  then show ?case by (subst mega_loop.simps) (simp add: batches_def)
next
  case (Suc n)
  then have b: "b < maxBatches" "n = maxBatches - Suc b" "Suc b \<le> maxBatches" "maxBatches - b = Suc n" by simp_all
  let ?x = "batch (order b) (content mb)"
  from process_batch_spec [OF Suc.prems(1) Suc.prems(2) [of b], of process st] obtain mb1
    where mb1: "process_batch process (order b) mb st = Some (length ?x, mb1, handle process ?x st)"
      "bus_inv mb1" "dom (mb_topicQueues mb1) = dom (mb_topicQueues mb)"
      "\<forall>p. content mb1 p = drop (quota p) (content mb p)" by blast
  have split: "batches (\<lambda>i. order (b + i)) (Suc n) (content mb) =
      ?x @ batches (\<lambda>i. order (Suc b + i)) n (content mb1)"
    using mb1(4) by (simp add: batches_Suc comp_def) (metis (no_types, lifting) ext)
  show ?case
  proof (cases "?x = []")
    case True
    then have e: "content mb p = []" for p by (rule batch_NilD) (rule Suc.prems(2))
    then have "batches (\<lambda>i. order (b + i)) (Suc n) (content mb) = []" by (rule batches_empty)
    then show ?thesis using True b mb1 e by (subst mega_loop.simps) simp
  next
    case False
    have ord: "range_order (mb_topicQueues mb1) (order i)" for i
      using Suc.prems(2) mb1(3) by (simp add: range_order_def)
    from Suc.hyps(1) [OF b(2) mb1(2) ord b(3), of True "handle process ?x st"] obtain mb'
      where mb': "mega_loop process order (Suc b) True mb1 (handle process ?x st) =
          Some (True, mb', handle process (batches (\<lambda>i. order (Suc b + i)) n (content mb1)) (handle process ?x st))"
        "bus_inv mb'" "\<forall>p. content mb' p = drop (quota p * n) (content mb1 p)"
      unfolding b(2) [symmetric] by auto
    have "mega_loop process order b any mb st =
        mega_loop process order (Suc b) True mb1 (handle process ?x st)"
      using b(1) mb1(1) False by (subst mega_loop.simps) simp
    moreover have "\<forall>p. content mb' p = drop (quota p * Suc n) (content mb p)"
      using mb'(3) mb1(4) by (simp add: add.commute)
    ultimately show ?thesis
      using mb'(1,2) False unfolding b(4) split handle_append by simp
  qed
qed

section \<open>Lemmas on publishing\<close>

definition place_of :: "MessagePriority \<Rightarrow> place" where
  "place_of p = (if p = PriorityHigh then High else if p = PriorityLow then Low else Normal)"

lemmas prio_defs = place_of_def prio_queue_def set_prio_queue_def

lemma content_place_of: "content mb (place_of p) = q_items (prio_queue p mb)"
  by (simp add: prio_defs)

lemma prio_queue_set: "prio_queue p' (set_prio_queue p q mb) = (if place_of p' = place_of p then q else prio_queue p' mb)"
  by (simp add: prio_defs)

lemma prio_queue_cong: "place_of p = place_of p' \<Longrightarrow> prio_queue p mb = prio_queue p' mb"
  by (auto simp: prio_defs split: if_splits)

lemma content_set: "content (set_prio_queue p q mb) = (content mb)(place_of p := q_items q)"
proof
  fix s show "content (set_prio_queue p q mb) s = ((content mb)(place_of p := q_items q)) s"
    by (cases s) (simp_all add: prio_defs PriorityHigh_def PriorityLow_def)
qed

lemma set_prio_simps [simp]:
  "mb_running (set_prio_queue p q mb) = mb_running mb"
  "mb_topicQueues (set_prio_queue p q mb) = mb_topicQueues mb"
  "mb_stats (set_prio_queue p q mb) = mb_stats mb"
  by (simp_all add: set_prio_queue_def)

lemma bus_inv_set: "bus_inv mb \<Longrightarrow> q_inv q \<Longrightarrow> bus_inv (set_prio_queue p q mb)"
  by (auto simp: bus_inv_def set_prio_queue_def)

lemma bus_inv_prio: "bus_inv mb \<Longrightarrow> q_inv (prio_queue p mb)"
  by (simp add: bus_inv_def prio_queue_def)

lemma count_message_simps [simp]:
  "prio_queue p (count_message n mb) = prio_queue p mb"
  "content (count_message n mb) = content mb"
  "bus_inv (count_message n mb) = bus_inv mb"
  "mb_running (count_message n mb) = mb_running mb"
  "mb_topicQueues (count_message n mb) = mb_topicQueues mb"
proof -
  show "content (count_message n mb) = content mb"
  proof
    fix s show "content (count_message n mb) s = content mb s" by (cases s) (simp_all add: count_message_def)
  qed
qed (simp_all add: count_message_def prio_queue_def bus_inv_def)

lemma notifyWorkers_simps [simp]:
  "prio_queue p (notifyWorkers mb) = prio_queue p mb"
  "content (notifyWorkers mb) = content mb"
  "bus_inv (notifyWorkers mb) = bus_inv mb"
  "mb_running (notifyWorkers mb) = mb_running mb"
  "mb_topicQueues (notifyWorkers mb) = mb_topicQueues mb"
  "mb_stats (notifyWorkers mb) = mb_stats mb"
proof -
  show "content (notifyWorkers mb) = content mb"
  proof
    fix s show "content (notifyWorkers mb) s = content mb s" by (cases s) (simp_all add: notifyWorkers_def)
  qed
qed (simp_all add: notifyWorkers_def prio_queue_def bus_inv_def)

text \<open>What a publication stores: the message with its size cached.\<close>

definition stored :: "PortaskMessage \<Rightarrow> PortaskMessage" where
  "stored m = snd (GetSize m)"

lemma Priority_stored [simp]: "m_Priority (stored m) = m_Priority m"
  by (simp add: stored_def GetSize_def Let_def)

definition has_room :: "MessagePriority \<Rightarrow> MessageBus \<Rightarrow> bool" where
  "has_room p mb \<longleftrightarrow> length (q_items (prio_queue p mb)) < unat (q_capacity (prio_queue p mb))"

lemma Publish_eq:
  "mb_running mb \<Longrightarrow> Publish now m mb =
     (case enqueue_or_drop now (m_Priority m) (stored m) (count_message (fst (GetSize m)) mb) of
        None \<Rightarrow> None
      | Some (enqueued, e, mb) \<Rightarrow> Some (e, if enqueued then notifyWorkers mb else mb))"
  using Priority_stored [of m]
  by (simp add: Publish_def Let_def case_prod_beta stored_def)

lemma Publish_room:
  assumes "bus_inv mb" "mb_running mb" "has_room (m_Priority m) mb"
  shows "\<exists>mb'. Publish now m mb = Some (None, mb') \<and> bus_inv mb' \<and> mb_running mb' \<and>
     content mb' = (content mb)(place_of (m_Priority m) := content mb (place_of (m_Priority m)) @ [Some (stored m)]) \<and>
     (\<forall>p. q_capacity (prio_queue p mb') = q_capacity (prio_queue p mb)) \<and>
     mb_topicQueues mb' = mb_topicQueues mb \<and> mb_stats mb' = mb_stats (count_message (fst (GetSize m)) mb)"
proof -
  let ?p = "m_Priority m" and ?mb = "count_message (fst (GetSize m)) mb"
  from Enqueue_inv_room [OF bus_inv_prio [OF assms(1), of ?p], of "Some (stored m)"] assms(3) obtain q
    where q: "Enqueue (prio_queue ?p mb) (Some (stored m)) = Some (True, q)" "q_inv q"
      "q_capacity q = q_capacity (prio_queue ?p mb)" "q_items q = q_items (prio_queue ?p mb) @ [Some (stored m)]"
    unfolding has_room_def by auto
  have "Publish now m mb = Some (None, notifyWorkers (set_prio_queue ?p q ?mb))"
    using q(1) by (simp add: Publish_eq [OF assms(2)] enqueue_or_drop_def)
  moreover have "q_capacity (prio_queue p (set_prio_queue ?p q ?mb)) = q_capacity (prio_queue p mb)" for p
    using q(3) prio_queue_cong [of p ?p mb] by (simp add: prio_queue_set)
  ultimately show ?thesis
    using assms(1,2) q(2,4) by (simp add: content_set content_place_of bus_inv_set)
qed

lemma Publish_full:
  assumes "bus_inv mb" "mb_running mb" "\<not> has_room (m_Priority m) mb"
    "q_dropPolicy (prio_queue (m_Priority m) mb) \<noteq> DropOldest"
  shows "\<exists>mb'. Publish now m mb =
       Some (Some (queue_full now (prio_queue (m_Priority m) mb) (m_Priority m)), mb') \<and> bus_inv mb' \<and>
     mb_running mb' \<and> content mb' = content mb \<and> mb_topicQueues mb' = mb_topicQueues mb"
proof -
  let ?p = "m_Priority m" and ?mb = "count_message (fst (GetSize m)) mb"
  have "length (q_items (prio_queue ?p mb)) = unat (q_capacity (prio_queue ?p mb))"
    using assms(3) q_inv_bounded [OF bus_inv_prio [OF assms(1), of ?p]] by (simp add: has_room_def)
  from Enqueue_inv_full [OF bus_inv_prio [OF assms(1)] this assms(4), of "Some (stored m)"] obtain q
    where q: "Enqueue (prio_queue ?p mb) (Some (stored m)) = Some (False, q)" "q_inv q"
      "q_dropPolicy q = q_dropPolicy (prio_queue ?p mb)" "q_items q = q_items (prio_queue ?p mb)"
      "q_name q = q_name (prio_queue ?p mb)" by auto
  have "Publish now m mb = Some (Some (queue_full now (prio_queue ?p mb) ?p), set_prio_queue ?p q ?mb)"
    using q(1,3,5) assms(4) by (simp add: Publish_eq [OF assms(2)] enqueue_or_drop_def queue_full_def)
  moreover have "content (set_prio_queue ?p q ?mb) = content mb"
    by (simp add: content_set q(4) fun_upd_idem content_place_of)
  ultimately show ?thesis using assms(1,2) q(2) by (simp add: bus_inv_set)
qed

text \<open>A sequence of publications, collecting their results.\<close>

fun Publish_all :: "instant \<Rightarrow> PortaskMessage list \<Rightarrow> MessageBus \<Rightarrow> (go_error option list \<times> MessageBus) option" where
  "Publish_all now [] mb = Some ([], mb)"
| "Publish_all now (m # ms) mb =
     (case Publish now m mb of
        None \<Rightarrow> None
      | Some (e, mb) \<Rightarrow> map_option (apfst (Cons e)) (Publish_all now ms mb))"

definition at_place :: "place \<Rightarrow> PortaskMessage \<Rightarrow> bool" where
  "at_place s m \<longleftrightarrow> place_of (m_Priority m) = s"

lemma Publish_all_room:
  assumes "bus_inv mb" "mb_running mb"
    "\<And>p. length (q_items (prio_queue p mb)) + length ms \<le> unat (q_capacity (prio_queue p mb))"
  shows "\<exists>mb'. Publish_all now ms mb = Some (replicate (length ms) None, mb') \<and> bus_inv mb' \<and>
     (\<forall>s. content mb' s = content mb s @ map (Some \<circ> stored) (filter (at_place s) ms)) \<and>
     mb_topicQueues mb' = mb_topicQueues mb"
  using assms
proof (induction ms arbitrary: mb)
  case (Cons m ms)
  have "has_room (m_Priority m) mb" using Cons.prems(3) [of "m_Priority m"] by (simp add: has_room_def)
  from Publish_room [OF Cons.prems(1,2) this, of now] obtain mb1
    where mb1: "Publish now m mb = Some (None, mb1)" "bus_inv mb1" "mb_running mb1"
      "content mb1 = (content mb)(place_of (m_Priority m) := content mb (place_of (m_Priority m)) @ [Some (stored m)])"
      "\<forall>p. q_capacity (prio_queue p mb1) = q_capacity (prio_queue p mb)"
      "mb_topicQueues mb1 = mb_topicQueues mb" by blast
  have "length (q_items (prio_queue p mb1)) \<le> Suc (length (q_items (prio_queue p mb)))" for p
    using mb1(4) by (simp flip: content_place_of)
  then have room: "length (q_items (prio_queue p mb1)) + length ms \<le> unat (q_capacity (prio_queue p mb1))" for p
    using Cons.prems(3) [of p] mb1(5) by (metis (no_types, lifting) add_Suc_right add_Suc add_le_mono1 length_Cons order.trans)
  from Cons.IH [OF mb1(2,3) room] mb1(1,4,6) show ?case
    by (auto simp: at_place_def)
qed simp

section \<open>Lemmas on delivery\<close>

fun item_place :: "PortaskMessage option \<Rightarrow> place" where
  "item_place (Some m) = place_of (m_Priority m)"
| "item_place None = Normal"

lemma filter_take_all: "(\<And>x. x \<in> set xs \<Longrightarrow> P x) \<Longrightarrow> filter P (take n xs) = take n xs"
  by (auto simp: filter_id_conv dest: in_set_takeD)

lemma filter_take_none: "(\<And>x. x \<in> set xs \<Longrightarrow> \<not> P x) \<Longrightarrow> filter P (take n xs) = []"
  by (auto simp: filter_empty_conv dest: in_set_takeD)

lemma filter_batch:
  assumes "distinct ks" "\<And>p x. x \<in> set (c p) \<Longrightarrow> item_place x = p"
    "\<And>t. t \<notin> set ks \<Longrightarrow> c (Topic t) = []"
  shows "filter (\<lambda>x. item_place x = s) (batch ks c) = take (quota s) (c s)"
proof -
  have part: "filter (\<lambda>x. item_place x = s) (take n (c p)) = (if p = s then take n (c p) else [])" for n p
    using assms(2) [of _ p] by (auto intro!: filter_take_all filter_take_none)
  have "distinct ps \<Longrightarrow> concat (map (\<lambda>p. if p = s then take (quota p) (c p) else []) ps) =
      (if s \<in> set ps then take (quota s) (c s) else [])" for ps
    by (induction ps) auto
  moreover have "distinct (places ks)"
    using assms(1) by (auto simp: places_def distinct_map inj_on_def)
  moreover have "c s = []" if "s \<notin> set (places ks)"
    using that assms(3) by (cases s) (auto simp: places_def)
  ultimately show ?thesis by (auto simp: batch_def filter_concat comp_def part)
qed

lemma concat_take_drop: "concat (map (\<lambda>i. take k (drop (k * i) xs)) [0..<n]) = take (k * n) xs"
proof (induction n)
  case (Suc n)
  have "k * Suc n = k * n + k" by simp
  with Suc show ?case by (simp only: take_add upt_Suc_append map_append concat_append) simp
qed simp

lemma filter_batches:
  assumes "\<And>i. distinct (order i)" "\<And>p x. x \<in> set (c p) \<Longrightarrow> item_place x = p"
    "\<And>i t. t \<notin> set (order i) \<Longrightarrow> c (Topic t) = []"
  shows "filter (\<lambda>x. item_place x = s) (batches order n c) = take (quota s * n) (c s)"
proof -
  have "filter (\<lambda>x. item_place x = s) (batch (order i) (\<lambda>p. drop (quota p * i) (c p))) =
      take (quota s) (drop (quota s * i) (c s))" for i
    by (rule filter_batch) (use assms in \<open>auto dest: in_set_dropD\<close>)
  then show ?thesis by (simp add: batches_def filter_concat comp_def concat_take_drop)
qed

lemma mset_eq_of_filters:
  fixes f :: "'a \<Rightarrow> 'b"
  assumes "\<And>s. filter (\<lambda>x. f x = s) xs = filter (\<lambda>x. f x = s) ys"
  shows "mset xs = mset ys"
proof (rule multiset_eqI)
  fix a
  have *: "count (mset zs) a = count (mset (filter (\<lambda>x. f x = f a) zs)) a" for zs :: "'a list"
    by (induction zs) auto
  show "count (mset xs) a = count (mset ys) a" using * [of xs] * [of ys] assms by metis
qed

section \<open>Properties\<close>

text \<open>
  \<^verbatim>\<open>Publish\<close> on a running bus whose queues do not use \<open>DropOldest\<close>: if the
  queue of the message's priority has room the call succeeds, the message is appended to that
  queue and every other queue is left alone; if it is full the call reports
  \<open>RESOURCE_EXHAUSTED\<close> for that queue and no queue changes. On a bus that is not running it
  reports an error and changes nothing.
\<close>

theorem publish_routes:
  assumes "bus_inv mb" "q_dropPolicy (prio_queue (m_Priority m) mb) \<noteq> DropOldest"
  shows "if \<not> mb_running mb then Publish now m mb = Some (Some (not_running now), mb)
     else \<exists>mb'. bus_inv mb' \<and>
       (if has_room (m_Priority m) mb
        then Publish now m mb = Some (None, mb') \<and>
          content mb' = (content mb)(place_of (m_Priority m) :=
             content mb (place_of (m_Priority m)) @ [Some (stored m)])
        else Publish now m mb = Some (Some (queue_full now (prio_queue (m_Priority m) mb) (m_Priority m)), mb') \<and>
          content mb' = content mb)"
  using Publish_room [OF assms(1), of m now] Publish_full [OF assms(1) _ _ assms(2), of now]
  by (cases "mb_running mb"; cases "has_room (m_Priority m) mb") (auto simp: Publish_def)

text \<open>
  One call of \<^verbatim>\<open>megaProcessAllAvailableMessages\<close> hands the processor exactly the
  messages of up to 100 batches, each batch taking in this order at most 50 high, 100 normal and 25
  low priority messages and 50 of every topic, oldest first; it reports whether there were any, and
  leaves every queue with the messages beyond those quotas.
\<close>

theorem mega_processes:
  assumes "bus_inv mb" "\<And>i. range_order (mb_topicQueues mb) (order i)"
  shows "\<exists>mb'. megaProcessAllAvailableMessages process order mb st =
       Some (batches order 100 (content mb) \<noteq> [], mb', handle process (batches order 100 (content mb)) st) \<and>
     bus_inv mb' \<and> (\<forall>p. content mb' p = drop (quota p * 100) (content mb p))"
  using mega_loop_spec [where order = order, OF assms, where b = 0 and process = process and any = False and st = st]
  by (simp add: megaProcessAllAvailableMessages_def maxBatches_def)

text \<open>
  C2. End to end: messages published to a running bus with empty queues, no more than each priority
  queue holds and than 100 batches take, are all accepted, and one call of
  \<^verbatim>\<open>megaProcessAllAvailableMessages\<close> hands each of them to the processor exactly once,
  those of one priority in the order they were published, and leaves the bus empty.
\<close>

theorem bus_delivers:
  assumes "bus_inv mb" "mb_running mb" "\<And>p. content mb p = []"
    "\<And>p. length ms \<le> unat (q_capacity (prio_queue p mb))" "length ms \<le> 2500"
    "\<And>i. range_order (mb_topicQueues mb) (order i)"
  shows "\<exists>mb1 mb2 xs. Publish_all now ms mb = Some (replicate (length ms) None, mb1) \<and>
     megaProcessAllAvailableMessages process order mb1 st = Some (ms \<noteq> [], mb2, handle process xs st) \<and>
     mset xs = mset (map (Some \<circ> stored) ms) \<and>
     (\<forall>s. filter (\<lambda>x. item_place x = s) xs = map (Some \<circ> stored) (filter (at_place s) ms)) \<and>
     (\<forall>p. content mb2 p = [])"
proof -
  have "q_items (prio_queue p mb) = []" for p using assms(3) by (simp flip: content_place_of)
  with Publish_all_room [OF assms(1,2), of ms now] assms(3,4) obtain mb1
    where mb1: "Publish_all now ms mb = Some (replicate (length ms) None, mb1)" "bus_inv mb1"
      "\<And>s. content mb1 s = map (Some \<circ> stored) (filter (at_place s) ms)"
      "mb_topicQueues mb1 = mb_topicQueues mb" by auto
  let ?xs = "batches order 100 (content mb1)"
  have ord: "range_order (mb_topicQueues mb1) (order i)" for i using assms(6) mb1(4) by simp
  from mega_loop_spec [where order = order, OF mb1(2) ord, where b = 0 and process = process and any = False and st = st] obtain mb2
    where mb2: "megaProcessAllAvailableMessages process order mb1 st = Some (?xs \<noteq> [], mb2, handle process ?xs st)"
      "\<And>p. content mb2 p = drop (quota p * 100) (content mb1 p)"
    by (auto simp: megaProcessAllAvailableMessages_def maxBatches_def)
  have "2500 \<le> quota p * 100" for p by (cases p) simp_all
  then have short: "length (content mb1 p) \<le> quota p * 100" for p
    using length_filter_le [of "at_place p" ms] assms(5) unfolding mb1(3) length_map by (meson order.trans)
  have fil: "filter (\<lambda>x. item_place x = s) ?xs = map (Some \<circ> stored) (filter (at_place s) ms)" for s
  proof -
    have "filter (\<lambda>x. item_place x = s) ?xs = take (quota s * 100) (content mb1 s)"
    proof (rule filter_batches)
      show "item_place x = p" if "x \<in> set (content mb1 p)" for p x
        using that by (auto simp: mb1(3) at_place_def)
      show "content mb1 (Topic t) = []" if "t \<notin> set (order i)" for i t
        using that ord [of i] by (auto simp: range_order_def domIff split: option.splits)
    qed (use ord in \<open>simp add: range_order_def\<close>)
    with short show ?thesis by (simp add: mb1(3))
  qed
  have "mset ?xs = mset (map (Some \<circ> stored) ms)"
    by (rule mset_eq_of_filters [where f = item_place])
      (simp add: fil filter_map comp_def at_place_def [abs_def])
  moreover from this have "?xs \<noteq> [] \<longleftrightarrow> ms \<noteq> []" by auto
  moreover have "content mb2 p = []" for p using short by (simp add: mb2(2))
  ultimately show ?thesis
    using mb1(1) mb2(1) fil by (intro exI [of _ mb1] exI [of _ mb2] exI [of _ ?xs]) simp
qed

lemma NewMessageBus_inv:
  assumes "NewMessageBus now cfg = Some mb" "\<And>p. 1 < sint (q_capacity (prio_queue p mb))"
  shows "bus_inv mb" "content mb s = []" "mb_topicQueues mb = Map.empty"
proof -
  have q: "\<exists>name c. NewLockFreeQueue name c (mc_DropPolicy cfg) = Some (prio_queue p mb)" for p
    using assms(1) by (auto simp: NewMessageBus_def prio_queue_def split: option.splits) blast+
  have inv: "q_inv (prio_queue p mb) \<and> q_items (prio_queue p mb) = []" for p
    using q [of p] NewLockFreeQueue_ring assms(2) by blast
  show t: "mb_topicQueues mb = Map.empty"
    using assms(1) by (auto simp: NewMessageBus_def split: option.splits)
  have "PriorityNormal \<noteq> PriorityHigh" "PriorityNormal \<noteq> PriorityLow" "PriorityLow \<noteq> PriorityHigh"
    by (simp_all add: PriorityHigh_def PriorityLow_def PriorityNormal_def)
  with inv [of PriorityHigh] inv [of PriorityNormal] inv [of PriorityLow] t
  show "bus_inv mb" "content mb s = []"
    by (auto simp: bus_inv_def prio_queue_def, cases s, auto)
qed

lemma Start_simps [simp]:
  "bus_inv (snd (Start now mb)) = bus_inv mb"
  "prio_queue p (snd (Start now mb)) = prio_queue p mb"
  "content (snd (Start now mb)) s = content mb s"
  "mb_topicQueues (snd (Start now mb)) = mb_topicQueues mb"
  "mb_running (snd (Start now mb))"
  by (cases s; simp add: Start_def bus_inv_def prio_queue_def Let_def case_prod_beta)+

text \<open>A small bus, for the examples.\<close>

definition small_config :: "DropPolicy \<Rightarrow> MessageBusConfig" where
  "small_config policy =
     \<lparr>mc_HighPriorityQueueSize = 2, mc_NormalPriorityQueueSize = 2, mc_LowPriorityQueueSize = 2,
      mc_DropPolicy = policy,
      mc_WorkerPoolConfig = \<lparr>wc_WorkerCount = 2, wc_BatchSize = 1, wc_BatchTimeout = 0, wc_EnableProfiling = False\<rparr>,
      mc_EnableTopicQueues = False\<rparr>"

definition small_bus :: "DropPolicy \<Rightarrow> MessageBus" where
  "small_bus policy = snd (Start 0 (the (NewMessageBus 0 (small_config policy))))"

lemma small_bus:
  "bus_inv (small_bus policy)" "content (small_bus policy) s = []" "mb_running (small_bus policy)"
  "mb_topicQueues (small_bus policy) = Map.empty"
  "q_capacity (prio_queue p (small_bus policy)) = 2" "q_dropPolicy (prio_queue p (small_bus policy)) = policy"
proof -
  obtain mb where mb: "NewMessageBus 0 (small_config policy) = Some mb"
    "\<And>p. q_capacity (prio_queue p mb) = 2" "\<And>p. q_dropPolicy (prio_queue p mb) = policy"
    by (simp add: NewMessageBus_def NewLockFreeQueue_def make_ok_def NewWorkerPool_def small_config_def prio_queue_def)
  from NewMessageBus_inv [OF mb(1)] mb show "bus_inv (small_bus policy)" "content (small_bus policy) s = []"
    "mb_running (small_bus policy)" "mb_topicQueues (small_bus policy) = Map.empty"
    "q_capacity (prio_queue p (small_bus policy)) = 2" "q_dropPolicy (prio_queue p (small_bus policy)) = policy"
    by (simp_all add: small_bus_def)
qed

theorem publish_routes_witness:
  "\<exists>mb'. Publish 0 (NewMessage 0 ''a'' ''t'' []) (small_bus Block) = Some (None, mb') \<and>
     content mb' Normal = [Some (stored (NewMessage 0 ''a'' ''t'' []))] \<and> content mb' High = []"
proof -
  have p: "m_Priority (NewMessage 0 ''a'' ''t'' []) = PriorityNormal" "place_of PriorityNormal = Normal"
    by (simp_all add: NewMessage_def place_of_def PriorityHigh_def PriorityLow_def PriorityNormal_def)
  have "has_room PriorityNormal (small_bus Block)"
    using small_bus(2) [of Block "place_of PriorityNormal"] small_bus(5) [where p = PriorityNormal and policy = Block]
    by (simp add: has_room_def flip: content_place_of)
  with publish_routes [OF small_bus(1) [of Block], of "NewMessage 0 ''a'' ''t'' []" 0] small_bus [where policy = Block] p
  show ?thesis by (auto simp del: content.simps)
qed

theorem mega_processes_witness:
  "\<exists>mb'. megaProcessAllAvailableMessages (\<lambda>m s. ((None, 0, 0), m # s)) (\<lambda>_. []) (small_bus Block)
       (w_stats (new_worker 0), []) = Some (False, mb', w_stats (new_worker 0), []) \<and> bus_inv mb'"
proof -
  have "batches (\<lambda>_. []) 100 (content (small_bus Block)) = []" by (rule batches_empty) (rule small_bus)
  with mega_processes [of "small_bus Block" "\<lambda>_. []" "\<lambda>m s. ((None, 0, 0), m # s)" "(w_stats (new_worker 0), [])"]
    small_bus(1,4) [of Block] show ?thesis by auto
qed

theorem bus_delivers_witness:
  "\<exists>mb1 mb2 st. Publish_all 0 [NewMessage 1 ''a'' ''t'' [], WithPriority (NewMessage 2 ''b'' ''t'' []) 9] (small_bus DropNewest) =
       Some ([None, None], mb1) \<and>
     megaProcessAllAvailableMessages (\<lambda>m s. ((None, 0, 0), s + 1)) (\<lambda>_. []) mb1 (w_stats (new_worker 0), 0 :: nat) =
       Some (True, mb2, st) \<and> (\<forall>p. content mb2 p = [])"
proof -
  let ?ms = "[NewMessage 1 ''a'' ''t'' [], WithPriority (NewMessage 2 ''b'' ''t'' []) 9]"
  let ?p = "\<lambda>m s. ((None, 0, 0), s + 1)" and ?st = "(w_stats (new_worker 0), 0 :: nat)"
  have "\<exists>mb1 mb2 xs. Publish_all 0 ?ms (small_bus DropNewest) = Some (replicate (length ?ms) None, mb1) \<and>
     megaProcessAllAvailableMessages ?p (\<lambda>_. []) mb1 ?st = Some (?ms \<noteq> [], mb2, handle ?p xs ?st) \<and>
     mset xs = mset (map (Some \<circ> stored) ?ms) \<and>
     (\<forall>s. filter (\<lambda>x. item_place x = s) xs = map (Some \<circ> stored) (filter (at_place s) ?ms)) \<and>
     (\<forall>p. content mb2 p = [])"
    by (rule bus_delivers) (simp_all add: small_bus)
  then obtain mb1 mb2 xs where "Publish_all 0 ?ms (small_bus DropNewest) = Some ([None, None], mb1)"
    "megaProcessAllAvailableMessages ?p (\<lambda>_. []) mb1 ?st = Some (True, mb2, handle ?p xs ?st)"
    "\<forall>p. content mb2 p = []" by (simp only: list.size replicate.simps) auto
  then show ?thesis by blast
qed

text \<open>
  Under \<open>DropOldest\<close> a publication that meets a full queue reports success although the
  message was not enqueued: the queue has accepted nothing (its enqueue counter is unchanged), the
  drop is only counted, and the queue is left in the state from which no later enqueue succeeds.
\<close>

theorem publish_drops_silently:
  assumes "bus_inv mb" "mb_running mb" "q_dropPolicy (prio_queue (m_Priority m) mb) = DropOldest"
    "IsFull (prio_queue (m_Priority m) mb)"
  shows "\<exists>mb'. Publish now m mb = Some (None, mb') \<and>
     q_enqueueCount (prio_queue (m_Priority m) mb') = q_enqueueCount (prio_queue (m_Priority m) mb) \<and>
     q_dropCount (prio_queue (m_Priority m) mb') = q_dropCount (prio_queue (m_Priority m) mb) + 3 \<and>
     (\<exists>k. wedged k (prio_queue (m_Priority m) mb'))"
proof -
  let ?p = "m_Priority m" and ?q = "prio_queue (m_Priority m) mb" and ?x = "Some (stored m)"
  note inv = bus_inv_prio [OF assms(1), of ?p]
  from q_inv_wedges [OF inv assms(3), of ?x] assms(4) IsFull_iff [OF inv] obtain k q1
    where q1: "Enqueue ?q ?x = Some (False, q1)" "wedged k q1" by auto
  from Dequeue_wedged [OF q1(2)] obtain y b q2 where q2: "Dequeue q1 = Some ((y, b), q2)" "wedged k q2" by auto
  from Enqueue_wedged [OF q2(2), of ?x] obtain q3 where q3: "Enqueue q2 ?x = Some (False, q3)" "wedged k q3" by auto
  let ?q' = "q3\<lparr>q_dropCount := q_dropCount q3 + 1\<rparr>"
  have pol: "q_dropPolicy q1 = DropOldest" by (rule wedgedD(6) [OF q1(2)])
  have "Publish now m mb = Some (None, set_prio_queue ?p ?q' (count_message (fst (GetSize m)) mb))"
    using q1(1) q2(1) q3(1) pol
    by (simp add: Publish_eq [OF assms(2)] enqueue_or_drop_def tryForceEnqueueDropOldest_def)
  moreover have "wedged k ?q'" using q3(2) by (simp add: wedged_counts)
  ultimately show ?thesis
    using Enqueue_counts [OF q1(1)] Dequeue_counts [OF q2(1)] Enqueue_counts [OF q3(1)]
    by (auto simp: prio_queue_set)
qed

theorem publish_drops_silently_witness:
  "\<exists>mb mb'. IsFull (prio_queue PriorityNormal mb) \<and>
     Publish 0 (NewMessage 3 ''c'' ''t'' []) mb = Some (None, mb') \<and>
     q_enqueueCount (prio_queue PriorityNormal mb') = q_enqueueCount (prio_queue PriorityNormal mb)"
proof -
  let ?c = "NewMessage 3 ''c'' ''t'' []"
  have p: "m_Priority ?c = PriorityNormal" by (simp add: NewMessage_def)
  obtain q where q: "q_inv q" "q_dropPolicy q = DropOldest" "q_items q = [Some ?c, Some ?c]" "IsFull q"
    using full_queue_exists by blast
  let ?mb = "set_prio_queue PriorityNormal q (small_bus DropOldest)"
  have "bus_inv ?mb" "mb_running ?mb" "prio_queue PriorityNormal ?mb = q"
    using q(1) by (simp_all add: small_bus bus_inv_set prio_queue_set)
  moreover from publish_drops_silently [of ?mb ?c 0] this q(2,4) p obtain mb'
    where "Publish 0 ?c ?mb = Some (None, mb')"
      "q_enqueueCount (prio_queue PriorityNormal mb') = q_enqueueCount q" by auto
  ultimately show ?thesis using q(4) by metis
qed

lemma start_workers_idle:
  "(\<And>w. w \<in> set ws \<Longrightarrow> \<not> w_running w) \<Longrightarrow>
     start_workers now c ws = (None, map (\<lambda>w. snd (Worker_Start now c w)) ws)"
  by (induction ws) (simp_all add: Worker_Start_def Let_def)

text \<open>
  A bus that is stopped and started again reports success and accepts messages, but the
  context of every worker is already cancelled: the workers of the first start run, those of the
  second exit at once and nothing is processed any more.
\<close>

theorem restart_is_dead:
  assumes "NewMessageBus now cfg = Some mb"
  shows "\<exists>mb1 mb2 mb3. Start t1 mb = (None, mb1) \<and> Stop mb1 = (None, mb2) \<and> Start t2 mb2 = (None, mb3) \<and>
     (\<forall>w \<in> set (wp_workers (mb_workerPool mb1)). w_running w \<and> w_ctx_cancelled w = Some False) \<and>
     mb_running mb3 \<and>
     (\<forall>w \<in> set (wp_workers (mb_workerPool mb3)). w_running w \<and> w_ctx_cancelled w = Some True)"
proof -
  have mb: "\<not> mb_running mb" "\<not> mb_ctx_cancelled mb" "\<not> wp_running (mb_workerPool mb)"
    "\<And>w. w \<in> set (wp_workers (mb_workerPool mb)) \<Longrightarrow> \<not> w_running w"
    using assms by (auto simp: NewMessageBus_def NewWorkerPool_def new_worker_def split: option.splits if_splits)
  let ?up = "\<lambda>now c. map (\<lambda>w. snd (Worker_Start now c w))"
  let ?w = "wp_workers (mb_workerPool mb)"
  let ?mb1 = "mb\<lparr>mb_running := True, mb_workerPool := (mb_workerPool mb)\<lparr>wp_running := True, wp_workers := ?up t1 False ?w\<rparr>\<rparr>"
  define w2 where "w2 = map Worker_Stop
    (map (\<lambda>w. w\<lparr>w_ctx_cancelled := map_option (\<lambda>_. True) (w_ctx_cancelled w)\<rparr>) (?up t1 False ?w))"
  let ?mb2 = "?mb1\<lparr>mb_running := False, mb_ctx_cancelled := True,
      mb_workerPool := (mb_workerPool ?mb1)\<lparr>wp_running := False, wp_workers := w2\<rparr>\<rparr>"
  let ?mb3 = "?mb2\<lparr>mb_running := True,
      mb_workerPool := (mb_workerPool ?mb2)\<lparr>wp_running := True, wp_workers := ?up t2 True w2\<rparr>\<rparr>"
  have idle2: "\<not> w_running w" if "w \<in> set w2" for w using that by (auto simp: w2_def Worker_Stop_def)
  have "Start t1 mb = (None, ?mb1)"
    using mb start_workers_idle [of ?w t1 False] by (simp add: Start_def WorkerPool_Start_def)
  moreover have "Stop ?mb1 = (None, ?mb2)"
    by (simp add: Stop_def WorkerPool_Stop_def cancel_workers_def w2_def)
  moreover have "Start t2 ?mb2 = (None, ?mb3)"
    using start_workers_idle [of w2 t2 True, OF idle2] by (simp add: Start_def WorkerPool_Start_def)
  moreover have "\<forall>w \<in> set (?up t1 False ?w). w_running w \<and> w_ctx_cancelled w = Some False"
    using mb(4) by (auto simp: Worker_Start_def)
  moreover have "\<forall>w \<in> set (?up t2 True w2). w_running w \<and> w_ctx_cancelled w = Some True"
    using idle2 by (auto simp: Worker_Start_def)
  ultimately show ?thesis by (intro exI [of _ ?mb1] exI [of _ ?mb2] exI [of _ ?mb3]) simp
qed

theorem restart_is_dead_witness:
  "\<exists>mb mb1 mb2 mb3. NewMessageBus 0 (small_config Block) = Some mb \<and> Start 1 mb = (None, mb1) \<and>
     Stop mb1 = (None, mb2) \<and> Start 2 mb2 = (None, mb3) \<and>
     (\<forall>w \<in> set (wp_workers (mb_workerPool mb3)). w_ctx_cancelled w = Some True)"
proof -
  have "NewMessageBus 0 (small_config Block) \<noteq> None"
    by (simp add: NewMessageBus_def NewLockFreeQueue_def make_ok_def NewWorkerPool_def small_config_def)
  then obtain mb where mb: "NewMessageBus 0 (small_config Block) = Some mb" by blast
  from restart_is_dead [OF mb, of 1 2] mb show ?thesis by blast
qed

end
