(* ===== verification/Crc32.thy ===== *)
theory Crc32
  imports Prelude
begin

text \<open>
  The CRC-32 of \<^verbatim>\<open>crc32Checksum\<close> in \<^verbatim>\<open>src/pkg/storage/wal.go\<close>, which is
  also \<^verbatim>\<open>crc32.ChecksumIEEE\<close> of the Go library that the wire protocol uses: the
  reflected polynomial \<^verbatim>\<open>0xEDB88320\<close>, all bits set at the start and inverted at the end.
  Two inputs that differ only within four consecutive bytes have different checksums.
\<close>

section \<open>Checksum\<close>

definition crc_bit :: "u32 \<Rightarrow> u32" where
  "crc_bit crc = (if crc AND 1 = 1 then drop_bit 1 crc XOR 0xEDB88320 else drop_bit 1 crc)"

definition crc_byte :: "u32 \<Rightarrow> byte \<Rightarrow> u32" where
  "crc_byte crc b = (crc_bit ^^ 8) (crc XOR ucast b)"

definition crc32Checksum :: "byte list \<Rightarrow> u32" where
  "crc32Checksum data = NOT (foldl crc_byte 0xFFFFFFFF data)"

section \<open>The checksum detects short bursts\<close>

lemma crc_bit_alt: "crc_bit x = (if bit x 0 then drop_bit 1 x XOR 0xEDB88320 else drop_bit 1 x)"
  by (simp add: crc_bit_def and_one_eq mod_2_eq_odd bit_0)

lemma crc_bit_linear: "crc_bit (x XOR y) = crc_bit x XOR crc_bit y"
  by (cases "bit x 0"; cases "bit y 0") (simp_all add: crc_bit_alt bit_xor_iff drop_bit_xor ac_simps)

lemma crc_bit_top: "bit (crc_bit x) 31 \<longleftrightarrow> bit x 0"
proof -
  have "\<not> bit (drop_bit 1 x) 31" using bit_imp_le_length [of x 32] by (auto simp: bit_drop_bit_eq)
  moreover have "bit (0xEDB88320 :: u32) 31" by simp
  ultimately show ?thesis by (simp add: crc_bit_alt bit_xor_iff)
qed

lemma crc_bit_zero: "crc_bit x = 0 \<Longrightarrow> x = 0"
proof -
  assume z: "crc_bit x = 0"
  then have b0: "\<not> bit x 0" using crc_bit_top [of x] by simp
  with z have d: "drop_bit 1 x = 0" by (simp add: crc_bit_alt)
  show "x = 0"
  proof (rule bit_word_eqI)
    fix n
    have "\<not> bit x n"
    proof (cases n)
      case 0 with b0 show ?thesis by simp
    next
      case (Suc m)
      from d have "\<not> bit (drop_bit 1 x) m" by simp
      with Suc show ?thesis by (simp add: bit_drop_bit_eq)
    qed
    then show "bit x n = bit (0 :: u32) n" by simp
  qed
qed

lemma crc_bits_linear: "(crc_bit ^^ n) (x XOR y) = (crc_bit ^^ n) x XOR (crc_bit ^^ n) y"
  by (induction n) (simp_all add: crc_bit_linear)

lemma crc_bits_zero: "(crc_bit ^^ n) x = 0 \<Longrightarrow> x = 0"
  by (induction n) (auto dest: crc_bit_zero)

lemma xor_eq_0: "x XOR y = 0 \<longleftrightarrow> x = (y :: u32)"
  by (auto simp: bit_eq_iff bit_xor_iff)

lemma xor_cancel_left: "c XOR x = c XOR y \<longleftrightarrow> x = (y :: u32)"
  by (metis xor.assoc xor_self_eq xor.left_neutral)

lemma crc_bits_inject: "(crc_bit ^^ n) x = (crc_bit ^^ n) y \<longleftrightarrow> x = y"
  using crc_bits_zero [of n "x XOR y"] by (auto simp: crc_bits_linear xor_eq_0)

lemma crc_bits_shift:
  "(\<And>i. 32 - k \<le> i \<Longrightarrow> \<not> bit w i) \<Longrightarrow> (crc_bit ^^ k) (push_bit k w) = w"
proof (induction k)
  case (Suc k)
  have "drop_bit 1 (push_bit (Suc k) w) = push_bit k w"
  proof (rule bit_word_eqI)
    fix i assume i: "i < LENGTH(32)"
    then show "bit (drop_bit 1 (push_bit (Suc k) w)) i = bit (push_bit k w) i"
      using Suc.prems [of "i - k"]
      by (cases "i < 31") (auto simp: bit_drop_bit_eq bit_push_bit_iff simp del: push_bit_Suc)
  qed
  moreover have "\<not> bit (push_bit (Suc k) w) 0" by (simp add: bit_push_bit_iff del: push_bit_Suc)
  ultimately have "crc_bit (push_bit (Suc k) w) = push_bit k w" by (simp add: crc_bit_alt del: push_bit_Suc)
  then show ?case using Suc by (simp add: funpow_Suc_right del: funpow.simps push_bit_Suc)
qed simp

text \<open>Feeding at most four bytes is one exclusive or followed by the shifts.\<close>

lemma crc_block:
  "length u \<le> 4 \<Longrightarrow> foldl crc_byte c u = (crc_bit ^^ (8 * length u)) (c XOR le_get u)"
proof (induction u arbitrary: c)
  case (Cons b u)
  have top: "\<not> bit (le_get u :: u32) i" if "24 \<le> i" for i
  proof -
    have "le_get (le_put (length u) (le_get u :: u32)) = (le_get u :: u32)"
      using Cons.prems by (subst le_put_le_get) auto
    then have "take_bit (8 * length u) (le_get u :: u32) = le_get u" by (simp add: le_get_le_put)
    then have "bit (le_get u :: u32) i \<Longrightarrow> i < 8 * length u" by (metis bit_take_bit_iff)
    with Cons.prems that show ?thesis by auto
  qed
  have "foldl crc_byte c (b # u) = (crc_bit ^^ (8 * length u)) (crc_byte c b XOR le_get u)"
    using Cons by simp
  also have "crc_byte c b XOR le_get u = (crc_bit ^^ 8) (c XOR ucast b) XOR (crc_bit ^^ 8) (push_bit 8 (le_get u))"
    using top by (subst crc_bits_shift) (simp_all add: crc_byte_def)
  also have "\<dots> = (crc_bit ^^ 8) (c XOR (ucast b XOR push_bit 8 (le_get u)))"
    by (simp add: crc_bits_linear ac_simps)
  also have "ucast b XOR push_bit 8 (le_get u) = (le_get (b # u) :: u32)"
  proof (rule bit_word_eqI)
    fix i
    show "bit (ucast b XOR push_bit 8 (le_get u) :: u32) i = bit (le_get (b # u) :: u32) i"
      using bit_imp_le_length [of b i] by (auto simp: bit_simps)
  qed
  finally have "foldl crc_byte c (b # u) = (crc_bit ^^ (8 * length u)) ((crc_bit ^^ 8) (c XOR le_get (b # u)))" .
  moreover have "8 * length (b # u) = 8 * length u + 8" by simp
  ultimately show ?case by (simp only: funpow_add comp_apply)
qed simp

lemma le_get_inject32:
  assumes "length u = length v" "length u \<le> 4"
  shows "(le_get u :: u32) = le_get v \<longleftrightarrow> u = v"
proof -
  have "le_put (length u) (le_get u :: u32) = u" "le_put (length u) (le_get v :: u32) = v"
    using assms by (simp_all add: le_put_le_get)
  then show ?thesis by metis
qed

lemma crc_foldl_inject: "foldl crc_byte c xs = foldl crc_byte d xs \<longleftrightarrow> c = d"
proof (induction xs arbitrary: c d)
  case (Cons b xs)
  have "c XOR ucast b = d XOR ucast b \<longleftrightarrow> c = d"
    by (metis xor.commute xor_cancel_left)
  with Cons show ?case by (simp add: crc_byte_def crc_bits_inject)
qed simp

lemma crc_burst:
  assumes "length u = length v" "length u \<le> 4" "u \<noteq> v"
  shows "crc32Checksum (p @ u @ s) \<noteq> crc32Checksum (p @ v @ s)"
proof -
  have "c XOR le_get u \<noteq> (c XOR le_get v :: u32)" for c
    using le_get_inject32 [OF assms(1,2)] assms(3) by (metis xor_cancel_left)
  then have "foldl crc_byte c u \<noteq> foldl crc_byte c v" for c
    using assms(1,2) by (simp add: crc_block crc_bits_inject)
  then show ?thesis by (simp add: crc32Checksum_def crc_foldl_inject)
qed

end
