(* ===== verification/Wal.thy ===== *)
theory Wal
  imports Errors Crc32 "HOL-Library.Sublist"
begin

text \<open>
  The write-ahead log of \<^verbatim>\<open>src/pkg/storage/wal.go\<close>: the entry format, the
  writer with its segment rotation and syncing, and the reader.

  The directory of the log is a map from file names to files. A file has its bytes and the length
  of the prefix that is known to be on stable storage, which \<^verbatim>\<open>fsync\<close> extends to the
  whole file and a crash cuts the file back to at worst. Opening, writing and syncing consume one outcome of
  the script \<open>fs_script\<close>, success when the script is exhausted; a failing write may leave a
  prefix of its bytes. Timestamps are arguments. File sizes and offsets are mathematical integers.
\<close>

section \<open>Files\<close>

record wfile =
  f_bytes :: "byte list"
  f_durable :: nat

datatype outcome = Okay | Fail nat

record wfs =
  fs_files :: "string \<rightharpoonup> wfile"
  fs_script :: "outcome list"

definition next_outcome :: "wfs \<Rightarrow> outcome \<times> wfs" where
  "next_outcome fs = (case fs_script fs of [] \<Rightarrow> (Okay, fs) | x # r \<Rightarrow> (x, fs\<lparr>fs_script := r\<rparr>))"

definition file_bytes :: "wfs \<Rightarrow> string \<Rightarrow> byte list" where
  "file_bytes fs name = (case fs_files fs name of None \<Rightarrow> [] | Some f \<Rightarrow> f_bytes f)"

text \<open>\<^verbatim>\<open>os.OpenFile(name, O_CREATE|O_WRONLY|O_APPEND)\<close> keeps what the file holds.\<close>

definition open_append :: "string \<Rightarrow> wfs \<Rightarrow> bool \<times> wfs" where
  "open_append name fs =
     (case next_outcome fs of
        (Fail _, fs) \<Rightarrow> (False, fs)
      | (Okay, fs) \<Rightarrow>
          (True, case fs_files fs name of
                   Some _ \<Rightarrow> fs
                 | None \<Rightarrow> fs\<lparr>fs_files := (fs_files fs)(name \<mapsto> \<lparr>f_bytes = [], f_durable = 0\<rparr>)\<rparr>))"

definition append_bytes :: "string \<Rightarrow> byte list \<Rightarrow> wfs \<Rightarrow> wfs" where
  "append_bytes name bs fs =
     (case fs_files fs name of
        None \<Rightarrow> fs
      | Some f \<Rightarrow> fs\<lparr>fs_files := (fs_files fs)(name \<mapsto> f\<lparr>f_bytes := f_bytes f @ bs\<rparr>)\<rparr>)"

definition file_write :: "string \<Rightarrow> byte list \<Rightarrow> wfs \<Rightarrow> bool \<times> wfs" where
  "file_write name bs fs =
     (case next_outcome fs of
        (Okay, fs) \<Rightarrow> (True, append_bytes name bs fs)
      | (Fail n, fs) \<Rightarrow> (False, append_bytes name (take n bs) fs))"

definition file_sync :: "string \<Rightarrow> wfs \<Rightarrow> bool \<times> wfs" where
  "file_sync name fs =
     (case next_outcome fs of
        (Fail _, fs) \<Rightarrow> (False, fs)
      | (Okay, fs) \<Rightarrow>
          (True, case fs_files fs name of
                   None \<Rightarrow> fs
                 | Some f \<Rightarrow> fs\<lparr>fs_files := (fs_files fs)(name \<mapsto> f\<lparr>f_durable := length (f_bytes f)\<rparr>)\<rparr>))"

section \<open>Data\<close>

record WALEntry =
  e_Timestamp :: i64
  e_Size :: u32
  e_Checksum :: u32
  e_Data :: "byte list"

text \<open>A segment's \<^verbatim>\<open>*os.File\<close> is the name it was opened under.\<close>

record WALSegment =
  s_ID :: u64
  s_File :: string
  s_Size :: int
  s_Synced :: bool

record WALConfig =
  c_MaxSegmentSize :: int
  c_SyncInterval :: duration

definition DefaultWALConfig :: WALConfig where
  "DefaultWALConfig = \<lparr>c_MaxSegmentSize = 64 * 1024 * 1024, c_SyncInterval = 100 * Millisecond\<rparr>"

text \<open>\<^verbatim>\<open>currentSegment\<close> is a pointer to an element of \<^verbatim>\<open>segments\<close>; it is
  represented by its key.\<close>

record WALWriter =
  w_maxSegmentSize :: int
  w_syncInterval :: duration
  w_currentSegment :: u64
  w_segments :: "u64 \<rightharpoonup> WALSegment"
  w_nextSegmentID :: u64

datatype wal_error =
    FailedInitialSegment | FailedRotate | FailedWriteHeader | FailedWriteData | FailedSync
  | SegmentNotFound u64 | FailedSeek | FailedReadHeader io_error | FailedReadData io_error
  | ChecksumMismatch

section \<open>Writer\<close>

text \<open>\<^verbatim>\<open>fmt.Sprintf("segment-%06d.wal", id)\<close>\<close>

definition pad6 :: "nat \<Rightarrow> string" where
  "pad6 n = replicate (6 - length (dec n)) CHR ''0'' @ dec n"

definition segment_name :: "u64 \<Rightarrow> string" where
  "segment_name i = ''segment-'' @ pad6 (unat i) @ ''.wal''"

definition rotateSegment :: "WALWriter \<Rightarrow> wfs \<Rightarrow> bool \<times> WALWriter \<times> wfs" where
  "rotateSegment w fs =
     (let segmentID = w_nextSegmentID w;
          w = w\<lparr>w_nextSegmentID := segmentID + 1\<rparr>;
          (ok, fs) = open_append (segment_name segmentID) fs
      in if \<not> ok then (False, w, fs)
         else (True, w\<lparr>w_segments := (w_segments w)(segmentID \<mapsto>
                  \<lparr>s_ID = segmentID, s_File = segment_name segmentID, s_Size = 0, s_Synced = True\<rparr>),
                w_currentSegment := segmentID\<rparr>, fs))"

definition NewWALWriter :: "WALConfig \<Rightarrow> wfs \<Rightarrow> (wal_error + WALWriter) \<times> wfs" where
  "NewWALWriter config fs =
     (let w = \<lparr>w_maxSegmentSize = c_MaxSegmentSize config, w_syncInterval = c_SyncInterval config,
               w_currentSegment = 0, w_segments = Map.empty, w_nextSegmentID = 0\<rparr>
      in case rotateSegment w fs of
           (False, _, fs) \<Rightarrow> (Inl FailedInitialSegment, fs)
         | (True, w, fs) \<Rightarrow> (Inr w, fs))"

definition current :: "WALWriter \<Rightarrow> WALSegment" where
  "current w = the (w_segments w (w_currentSegment w))"

definition set_current :: "WALSegment \<Rightarrow> WALWriter \<Rightarrow> WALWriter" where
  "set_current s w = w\<lparr>w_segments := (w_segments w)(w_currentSegment w \<mapsto> s)\<rparr>"

definition entry_header :: "i64 \<Rightarrow> byte list \<Rightarrow> byte list" where
  "entry_header ts data =
     le_put 8 ts @ le_put 4 (of_nat (length data) :: u32) @ le_put 4 (crc32Checksum data)"

text \<open>The part \<^verbatim>\<open>Write\<close> and \<^verbatim>\<open>WriteBatch\<close> share: header, data, new size.\<close>

definition write_entry :: "i64 \<Rightarrow> byte list \<Rightarrow> WALWriter \<Rightarrow> wfs \<Rightarrow> (wal_error + int) \<times> WALWriter \<times> wfs" where
  "write_entry ts data w fs =
     (let off = s_Size (current w);
          (ok, fs) = file_write (s_File (current w)) (entry_header ts data) fs
      in if \<not> ok then (Inl FailedWriteHeader, w, fs)
         else let (ok, fs) = file_write (s_File (current w)) data fs
              in if \<not> ok then (Inl FailedWriteData, w, fs)
                 else (Inr off, set_current ((current w)\<lparr>s_Size := off + int (16 + length data)\<rparr>) w, fs))"

definition unsynced :: "WALWriter \<Rightarrow> WALWriter" where
  "unsynced w = set_current ((current w)\<lparr>s_Synced := False\<rparr>) w"

definition Write :: "i64 \<Rightarrow> byte list \<Rightarrow> WALWriter \<Rightarrow> wfs \<Rightarrow> (wal_error + int) \<times> WALWriter \<times> wfs" where
  "Write ts data w fs =
     (let (ok, w, fs) =
        (if s_Size (current w) \<ge> w_maxSegmentSize w then rotateSegment w fs else (True, w, fs))
      in if \<not> ok then (Inl FailedRotate, w, fs)
         else case write_entry ts data w fs of
                (Inl e, w, fs) \<Rightarrow> (Inl e, w, fs)
              | (Inr off, w, fs) \<Rightarrow> (Inr off, unsynced w, fs))"

fun write_entries ::
  "(i64 \<times> byte list) list \<Rightarrow> WALWriter \<Rightarrow> wfs \<Rightarrow> (wal_error + int list) \<times> WALWriter \<times> wfs" where
  "write_entries [] w fs = (Inr [], w, fs)"
| "write_entries ((ts, data) # es) w fs =
     (case write_entry ts data w fs of
        (Inl e, w, fs) \<Rightarrow> (Inl e, w, fs)
      | (Inr off, w, fs) \<Rightarrow>
          (case write_entries es w fs of
             (Inl e, w, fs) \<Rightarrow> (Inl e, w, fs)
           | (Inr offs, w, fs) \<Rightarrow> (Inr (off # offs), w, fs)))"

definition WriteBatch ::
  "(i64 \<times> byte list) list \<Rightarrow> WALWriter \<Rightarrow> wfs \<Rightarrow> (wal_error + int list) \<times> WALWriter \<times> wfs" where
  "WriteBatch es w fs =
     (let totalSize = sum_list (map (\<lambda>(_, data). int (16 + length data)) es);
          (ok, w, fs) =
        (if s_Size (current w) + totalSize \<ge> w_maxSegmentSize w then rotateSegment w fs else (True, w, fs))
      in if \<not> ok then (Inl FailedRotate, w, fs)
         else case write_entries es w fs of
                (Inl e, w, fs) \<Rightarrow> (Inl e, w, fs)
              | (Inr offs, w, fs) \<Rightarrow> (Inr offs, unsynced w, fs))"

definition Sync :: "WALWriter \<Rightarrow> wfs \<Rightarrow> wal_error option \<times> WALWriter \<times> wfs" where
  "Sync w fs =
     (case file_sync (s_File (current w)) fs of
        (False, fs) \<Rightarrow> (Some FailedSync, w, fs)
      | (True, fs) \<Rightarrow> (None, set_current ((current w)\<lparr>s_Synced := True\<rparr>) w, fs))"

text \<open>\<^verbatim>\<open>Close\<close> iterates over the segments in the order \<open>ks\<close> and ignores the result of
  the final syncs.\<close>

definition WALWriter_Close :: "u64 list \<Rightarrow> WALWriter \<Rightarrow> wfs \<Rightarrow> wfs" where
  "WALWriter_Close ks w fs =
     foldl (\<lambda>fs k. case w_segments w k of
              None \<Rightarrow> fs
            | Some s \<Rightarrow> if s_Synced s then fs else snd (file_sync (s_File s) fs)) fs ks"

section \<open>Reader\<close>

record WALReader =
  r_segments :: "u64 \<rightharpoonup> WALSegment"

text \<open>
  \<^verbatim>\<open>fmt.Sscanf(name, "segment-%06d.wal", &segmentID)\<close>: white space before the number is
  skipped, the number has at most six digits, and what follows the format is ignored.
\<close>

definition is_digit :: "char \<Rightarrow> bool" where
  "is_digit c \<longleftrightarrow> 48 \<le> (of_char c :: nat) \<and> (of_char c :: nat) \<le> 57"

definition is_blank :: "char \<Rightarrow> bool" where
  "is_blank c \<longleftrightarrow> c \<in> {CHR 0x09, CHR 0x0B, CHR 0x0C, CHR 0x0D, CHR 0x20}"

definition parse_segment_name :: "string \<Rightarrow> u64 option" where
  "parse_segment_name name =
     (if take 8 name \<noteq> ''segment-'' then None
      else let r = dropWhile is_blank (drop 8 name);
               ds = takeWhile is_digit (take 6 r)
           in if ds = [] \<or> take 4 (drop (length ds) r) \<noteq> ''.wal'' then None
              else Some (of_nat (undec ds)))"

text \<open>\<^verbatim>\<open>loadSegments\<close>; \<open>names\<close> is the directory listing. An error of opening or of
  \<^verbatim>\<open>Stat\<close> ends the loading.\<close>

fun loadSegments :: "string list \<Rightarrow> (u64 \<rightharpoonup> WALSegment) \<Rightarrow> wfs \<Rightarrow> ((u64 \<rightharpoonup> WALSegment) option) \<times> wfs" where
  "loadSegments [] segs fs = (Some segs, fs)"
| "loadSegments (name # names) segs fs =
     (case parse_segment_name name of
        None \<Rightarrow> loadSegments names segs fs
      | Some i \<Rightarrow>
          (case next_outcome fs of
             (Fail _, fs) \<Rightarrow> (None, fs)
           | (Okay, fs) \<Rightarrow>
               (case next_outcome fs of
                  (Fail _, fs) \<Rightarrow> (None, fs)
                | (Okay, fs) \<Rightarrow>
                    loadSegments names (segs(i \<mapsto>
                      \<lparr>s_ID = i, s_File = name, s_Size = int (length (file_bytes fs name)), s_Synced = True\<rparr>)) fs)))"

definition NewWALReader :: "string list \<Rightarrow> wfs \<Rightarrow> WALReader option \<times> wfs" where
  "NewWALReader names fs =
     (case loadSegments names Map.empty fs of
        (None, fs) \<Rightarrow> (None, fs)
      | (Some segs, fs) \<Rightarrow> (Some \<lparr>r_segments = segs\<rparr>, fs))"

text \<open>Reading the bytes of a file from an offset; an entry is decoded from them.\<close>

definition decode_entry :: "byte list \<Rightarrow> wal_error + WALEntry" where
  "decode_entry bs =
     (case ReadFull 16 bs of
        (Inl e, _) \<Rightarrow> Inl (FailedReadHeader e)
      | (Inr header, bs) \<Rightarrow>
          let timestamp = le_get (take 8 header); sz = le_get (take 4 (drop 8 header)) :: u32;
              checksum = le_get (take 4 (drop 12 header))
          in case ReadFull (unat sz) bs of
               (Inl e, _) \<Rightarrow> Inl (FailedReadData e)
             | (Inr data, _) \<Rightarrow>
                 if crc32Checksum data \<noteq> checksum then Inl ChecksumMismatch
                 else Inr \<lparr>e_Timestamp = timestamp, e_Size = sz, e_Checksum = checksum, e_Data = data\<rparr>)"

definition ReadEntry :: "WALReader \<Rightarrow> wfs \<Rightarrow> u64 \<Rightarrow> int \<Rightarrow> wal_error + WALEntry" where
  "ReadEntry r fs segmentID off =
     (case r_segments r segmentID of
        None \<Rightarrow> Inl (SegmentNotFound segmentID)
      | Some s \<Rightarrow>
          if off < 0 then Inl FailedSeek
          else decode_entry (drop (nat off) (file_bytes fs (s_File s))))"

section \<open>Entries\<close>

definition entry_of :: "i64 \<Rightarrow> byte list \<Rightarrow> WALEntry" where
  "entry_of ts data =
     \<lparr>e_Timestamp = ts, e_Size = of_nat (length data), e_Checksum = crc32Checksum data, e_Data = data\<rparr>"

lemma length_entry_header [simp]: "length (entry_header ts data) = 16"
  by (simp add: entry_header_def)

lemma decode_entry_header:
  assumes "length data < 2 ^ 32" "length body = length data"
  shows "decode_entry (entry_header ts data @ body @ rest) =
     (if crc32Checksum body = crc32Checksum data then Inr (entry_of ts data\<lparr>e_Data := body\<rparr>) else Inl ChecksumMismatch)"
proof -
  have u: "unat (of_nat (length data) :: u32) = length body"
    using assms by (simp add: unat_of_nat)
  have h: "take 8 (entry_header ts data) = le_put 8 ts" "take 4 (drop 8 (entry_header ts data)) = le_put 4 (of_nat (length data) :: u32)"
    "take 4 (drop 12 (entry_header ts data)) = le_put 4 (crc32Checksum data)"
    by (simp_all add: entry_header_def)
  show ?thesis
    by (simp add: decode_entry_def ReadFull_enough Let_def h le64.get_put le32.get_put u entry_of_def)
qed

lemma decode_entry_of:
  "length data < 2 ^ 32 \<Longrightarrow> decode_entry (entry_header ts data @ data @ rest) = Inr (entry_of ts data)"
  by (simp add: decode_entry_header entry_of_def)

section \<open>Segment names\<close>

lemma undec_zeros: "undec (replicate n CHR ''0'' @ s) = undec s"
  by (induction n) (simp_all add: undec_def)

lemma undec_pad6: "undec (pad6 n) = n"
  by (simp add: pad6_def undec_zeros undec_dec)

lemma segment_name_inject [simp]: "segment_name i = segment_name j \<longleftrightarrow> i = j"
proof
  assume "segment_name i = segment_name j"
  then have "pad6 (unat i) = pad6 (unat j)" by (simp add: segment_name_def)
  then show "i = j" by (metis undec_pad6 word_unat_eq_iff)
qed simp

lemma dec_digits: "c \<in> set (dec n) \<Longrightarrow> is_digit c"
  by (simp add: is_digit_def dec_chars)

lemma length_dec: "n < 10 ^ Suc k \<Longrightarrow> length (dec n) \<le> Suc k"
proof (induction k arbitrary: n)
  case 0
  then show ?case by (subst dec.simps) simp
next
  case (Suc k)
  then have "length (dec (n div 10)) \<le> Suc k" by (intro Suc.IH) (simp add: less_mult_imp_div_less)
  then show ?case by (subst dec.simps) simp
qed

lemma parse_segment_name_inverse:
  assumes "unat i < 10 ^ 6"
  shows "parse_segment_name (segment_name i) = Some i"
proof -
  let ?p = "pad6 (unat i)"
  have "length (dec (unat i)) \<le> 6" using length_dec [of "unat i" 5] assms by simp
  then have len: "length ?p = 6" by (simp add: pad6_def)
  have dig: "\<forall>c \<in> set ?p. is_digit c" using dec_digits by (auto simp: pad6_def is_digit_def)
  then have tw: "takeWhile is_digit ?p = ?p" by (simp add: takeWhile_eq_all_conv)
  obtain c cs where p: "?p = c # cs" using len by (metis length_0_conv neq_Nil_conv zero_neq_numeral)
  have "\<not> is_blank c" using dig p by (auto simp: is_blank_def is_digit_def)
  then have db: "dropWhile is_blank (?p @ ''.wal'') = ?p @ ''.wal''" using p by simp
  have "?p \<noteq> []" using p by simp
  then show ?thesis
    using len by (simp add: parse_segment_name_def segment_name_def db tw Let_def undec_pad6)
qed

section \<open>The writer's invariant\<close>

definition file_exists :: "wfs \<Rightarrow> string \<Rightarrow> bool" where
  "file_exists fs name \<longleftrightarrow> fs_files fs name \<noteq> None"

definition wal_inv :: "WALWriter \<Rightarrow> wfs \<Rightarrow> bool" where
  "wal_inv w fs \<longleftrightarrow> fs_script fs = [] \<and>
     (\<exists>s. w_segments w (w_currentSegment w) = Some s \<and> s_File s = segment_name (w_currentSegment w) \<and>
        s_Size s = int (length (file_bytes fs (segment_name (w_currentSegment w))))) \<and>
     w_currentSegment w < w_nextSegmentID w \<and>
     (\<forall>name. file_exists fs name \<longleftrightarrow> (\<exists>i < w_nextSegmentID w. name = segment_name i))"

definition grows :: "wfs \<Rightarrow> wfs \<Rightarrow> bool" where
  "grows fs fs' \<longleftrightarrow> (\<forall>name. prefix (file_bytes fs name) (file_bytes fs' name))"

lemma grows_refl [simp]: "grows fs fs"
  by (simp add: grows_def)

lemma grows_trans [trans]: "grows a b \<Longrightarrow> grows b c \<Longrightarrow> grows a c"
  unfolding grows_def by (meson prefix_order.trans)

lemma file_write_ok:
  "fs_script fs = [] \<Longrightarrow> file_write name bs fs = (True, append_bytes name bs fs)"
  by (simp add: file_write_def next_outcome_def)

lemma append_bytes_simps [simp]:
  "fs_script (append_bytes name bs fs) = fs_script fs"
  "file_exists (append_bytes name bs fs) n \<longleftrightarrow> file_exists fs n"
  "file_exists fs name \<Longrightarrow> file_bytes (append_bytes name bs fs) n =
     (if n = name then file_bytes fs name @ bs else file_bytes fs n)"
  by (auto simp: append_bytes_def file_bytes_def file_exists_def split: option.splits)

lemma grows_append: "grows fs (append_bytes name bs fs)"
  by (auto simp: grows_def append_bytes_def file_bytes_def split: option.splits)

lemma current_wal_inv:
  assumes "wal_inv w fs"
  shows "s_File (current w) = segment_name (w_currentSegment w)"
    "s_Size (current w) = int (length (file_bytes fs (segment_name (w_currentSegment w))))"
    "file_exists fs (segment_name (w_currentSegment w))" "fs_script fs = []"
  using assms unfolding wal_inv_def current_def by auto

lemma write_entry_inv:
  assumes "wal_inv w fs"
  defines "name \<equiv> segment_name (w_currentSegment w)"
  shows "\<exists>w' fs'. write_entry ts data w fs = (Inr (int (length (file_bytes fs name))), w', fs') \<and>
     wal_inv w' fs' \<and> grows fs fs' \<and> w_currentSegment w' = w_currentSegment w \<and>
     w_nextSegmentID w' = w_nextSegmentID w \<and> w_maxSegmentSize w' = w_maxSegmentSize w \<and>
     file_bytes fs' name = file_bytes fs name @ entry_header ts data @ data"
proof -
  note c = current_wal_inv [OF assms(1), folded name_def]
  let ?fs1 = "append_bytes name (entry_header ts data) fs" and ?fs2 = "append_bytes name data (append_bytes name (entry_header ts data) fs)"
  let ?s = "(current w)\<lparr>s_Size := int (length (file_bytes fs name)) + int (16 + length data)\<rparr>"
  have w: "write_entry ts data w fs = (Inr (int (length (file_bytes fs name))), set_current ?s w, ?fs2)"
    using c by (simp add: write_entry_def file_write_ok Let_def)
  have b: "file_bytes ?fs2 name = file_bytes fs name @ entry_header ts data @ data" using c(3) by simp
  have "wal_inv (set_current ?s w) ?fs2"
    using assms(1) b unfolding wal_inv_def name_def by (auto simp: set_current_def current_def)
  moreover have "grows fs ?fs2" by (rule grows_trans [OF grows_append grows_append])
  ultimately show ?thesis using w b by (auto simp: set_current_def)
qed

lemma unsynced_inv [simp]:
  "wal_inv w fs \<Longrightarrow> wal_inv (unsynced w) fs" "w_currentSegment (unsynced w) = w_currentSegment w"
  "w_nextSegmentID (unsynced w) = w_nextSegmentID w" "w_maxSegmentSize (unsynced w) = w_maxSegmentSize w"
  by (auto simp: wal_inv_def unsynced_def set_current_def current_def)

section \<open>Operations preserve the invariant\<close>

lemma open_append_ok:
  "fs_script fs = [] \<Longrightarrow> \<exists>fs'. open_append name fs = (True, fs') \<and> fs_script fs' = [] \<and>
     (\<forall>n. file_exists fs' n \<longleftrightarrow> file_exists fs n \<or> n = name) \<and> (\<forall>n. file_bytes fs' n = file_bytes fs n)"
  by (auto simp: open_append_def next_outcome_def file_exists_def file_bytes_def split: option.splits)

lemma unat_Suc64: "unat x < 2 ^ 64 - 1 \<Longrightarrow> unat (x + 1 :: u64) = Suc (unat x)"
  by (simp add: unat_word_ariths)

lemma word_less_add1: "unat x < 2 ^ 64 - 1 \<Longrightarrow> (i :: u64) < x + 1 \<longleftrightarrow> i < x \<or> i = x"
  by (auto simp: word_less_nat_alt word_unat_eq_iff unat_Suc64)

lemma rotateSegment_inv:
  assumes "wal_inv w fs" "unat (w_nextSegmentID w) < 2 ^ 64 - 1"
  shows "\<exists>w' fs'. rotateSegment w fs = (True, w', fs') \<and> wal_inv w' fs' \<and> grows fs fs' \<and>
     w_currentSegment w' = w_nextSegmentID w \<and> w_nextSegmentID w' = w_nextSegmentID w + 1 \<and>
     w_maxSegmentSize w' = w_maxSegmentSize w \<and> file_bytes fs' (segment_name (w_nextSegmentID w)) = []"
proof -
  let ?i = "w_nextSegmentID w"
  have s: "fs_script fs = []" and ex: "\<And>name. file_exists fs name \<longleftrightarrow> (\<exists>i < ?i. name = segment_name i)"
    using assms(1) by (auto simp: wal_inv_def)
  from open_append_ok [OF s, of "segment_name ?i"] obtain fs'
    where fs': "open_append (segment_name ?i) fs = (True, fs')" "fs_script fs' = []"
      "\<And>n. file_exists fs' n \<longleftrightarrow> file_exists fs n \<or> n = segment_name ?i"
      "\<And>n. file_bytes fs' n = file_bytes fs n" by blast
  have "\<not> file_exists fs (segment_name ?i)" by (simp add: ex)
  then have new: "file_bytes fs' (segment_name ?i) = []"
    by (simp add: fs'(4)) (simp add: file_exists_def file_bytes_def)
  let ?w = "w\<lparr>w_nextSegmentID := ?i + 1, w_segments := (w_segments w)(?i \<mapsto>
      \<lparr>s_ID = ?i, s_File = segment_name ?i, s_Size = 0, s_Synced = True\<rparr>), w_currentSegment := ?i\<rparr>"
  have "rotateSegment w fs = (True, ?w, fs')" using fs'(1) by (simp add: rotateSegment_def Let_def)
  moreover have "wal_inv ?w fs'"
    using fs'(2,3) new ex by (auto simp: wal_inv_def word_less_add1 [OF assms(2)])
  moreover have "grows fs fs'" by (simp add: grows_def fs'(4))
  ultimately show ?thesis using new by auto
qed

definition placed :: "wfs \<Rightarrow> u64 \<times> int \<times> i64 \<times> byte list \<Rightarrow> bool" where
  "placed fs x = (case x of (i, off, ts, data) \<Rightarrow>
     0 \<le> off \<and> file_exists fs (segment_name i) \<and>
     prefix (entry_header ts data @ data) (drop (nat off) (file_bytes fs (segment_name i))))"

definition keeps :: "wfs \<Rightarrow> wfs \<Rightarrow> bool" where
  "keeps fs fs' \<longleftrightarrow> grows fs fs' \<and> (\<forall>n. file_exists fs n \<longrightarrow> file_exists fs' n)"

lemma placed_keeps: "placed fs x \<Longrightarrow> keeps fs fs' \<Longrightarrow> placed fs' x"
  by (auto simp: placed_def keeps_def grows_def prefix_def split: prod.splits)
    (metis append.assoc drop_append order.trans)

lemma wal_inv_keeps:
  assumes "wal_inv w fs" "wal_inv w' fs'" "grows fs fs'" "unat (w_nextSegmentID w) \<le> unat (w_nextSegmentID w')"
  shows "keeps fs fs'"
  using assms by (auto simp: keeps_def wal_inv_def word_less_nat_alt)

text \<open>An operation of the log and what it reports: segment, offset, time and data of every entry.\<close>

datatype wal_op = OpWrite i64 "byte list" | OpBatch "(i64 \<times> byte list) list" | OpSync

fun entries_of :: "wal_op \<Rightarrow> (i64 \<times> byte list) list" where
  "entries_of (OpWrite ts data) = [(ts, data)]"
| "entries_of (OpBatch es) = es"
| "entries_of OpSync = []"

type_synonym log_entry = "u64 \<times> int \<times> i64 \<times> byte list"

fun wal_step :: "wal_op \<Rightarrow> WALWriter \<times> wfs \<Rightarrow> log_entry list \<times> WALWriter \<times> wfs" where
  "wal_step (OpWrite ts data) (w, fs) =
     (case Write ts data w fs of
        (Inl _, w, fs) \<Rightarrow> ([], w, fs)
      | (Inr off, w, fs) \<Rightarrow> ([(w_currentSegment w, off, ts, data)], w, fs))"
| "wal_step (OpBatch es) (w, fs) =
     (case WriteBatch es w fs of
        (Inl _, w, fs) \<Rightarrow> ([], w, fs)
      | (Inr offs, w, fs) \<Rightarrow> (map (\<lambda>(off, ts, data). (w_currentSegment w, off, ts, data)) (zip offs es), w, fs))"
| "wal_step OpSync (w, fs) = (case Sync w fs of (_, w, fs) \<Rightarrow> ([], w, fs))"

fun wal_run :: "wal_op list \<Rightarrow> WALWriter \<times> wfs \<Rightarrow> log_entry list \<times> WALWriter \<times> wfs" where
  "wal_run [] st = ([], st)"
| "wal_run (op # ops) st =
     (let (l, st) = wal_step op st; (l', st) = wal_run ops st in (l @ l', st))"

lemma placed_new:
  "file_bytes fs' (segment_name i) = file_bytes fs (segment_name i) @ entry_header ts data @ data \<Longrightarrow>
   file_exists fs' (segment_name i) \<Longrightarrow> placed fs' (i, int (length (file_bytes fs (segment_name i))), ts, data)"
  by (simp add: placed_def)

lemma write_entries_inv:
  "wal_inv w fs \<Longrightarrow> \<exists>offs w' fs'. write_entries es w fs = (Inr offs, w', fs') \<and> length offs = length es \<and>
     wal_inv w' fs' \<and> grows fs fs' \<and> w_currentSegment w' = w_currentSegment w \<and>
     w_nextSegmentID w' = w_nextSegmentID w \<and>
     (\<forall>x \<in> set (map (\<lambda>(off, ts, data). (w_currentSegment w, off, ts, data)) (zip offs es)). placed fs' x)"
proof (induction es arbitrary: w fs)
  case (Cons e es)
  obtain ts data where e: "e = (ts, data)" by fastforce
  let ?n = "segment_name (w_currentSegment w)"
  from write_entry_inv [OF Cons.prems, of ts data] obtain w1 fs1
    where 1: "write_entry ts data w fs = (Inr (int (length (file_bytes fs ?n))), w1, fs1)"
      "wal_inv w1 fs1" "grows fs fs1" "w_currentSegment w1 = w_currentSegment w"
      "w_nextSegmentID w1 = w_nextSegmentID w"
      "file_bytes fs1 ?n = file_bytes fs ?n @ entry_header ts data @ data" by blast
  from Cons.IH [OF 1(2)] obtain offs w' fs'
    where 2: "write_entries es w1 fs1 = (Inr offs, w', fs')" "length offs = length es" "wal_inv w' fs'"
      "grows fs1 fs'" "w_currentSegment w' = w_currentSegment w1" "w_nextSegmentID w' = w_nextSegmentID w1"
      "\<forall>x \<in> set (map (\<lambda>(off, ts, data). (w_currentSegment w1, off, ts, data)) (zip offs es)). placed fs' x" by blast
  have "placed fs1 (w_currentSegment w, int (length (file_bytes fs ?n)), ts, data)"
    by (rule placed_new [OF 1(6)]) (use current_wal_inv(3) [OF 1(2)] 1(4) in simp)
  moreover have "keeps fs1 fs'" by (rule wal_inv_keeps [OF 1(2) 2(3,4)]) (simp add: 2(6))
  ultimately have new: "placed fs' (w_currentSegment w, int (length (file_bytes fs ?n)), ts, data)"
    by (rule placed_keeps)
  have "write_entries (e # es) w fs = (Inr (int (length (file_bytes fs ?n)) # offs), w', fs')"
    by (simp add: e 1(1) 2(1))
  then show ?case
    using new 2 1(4,5) grows_trans [OF 1(3) 2(4)] e by simp
qed simp

lemma rotate_if_inv:
  assumes "wal_inv w fs" "unat (w_nextSegmentID w) < 2 ^ 64 - 1"
  obtains w1 fs1 where "(if c then rotateSegment w fs else (True, w, fs)) = (True, w1, fs1)" "wal_inv w1 fs1"
    "grows fs fs1" "unat (w_nextSegmentID w) \<le> unat (w_nextSegmentID w1)"
    "unat (w_nextSegmentID w1) \<le> Suc (unat (w_nextSegmentID w))"
proof (cases c)
  case True
  with rotateSegment_inv [OF assms] unat_Suc64 [OF assms(2)] that show ?thesis by fastforce
next
  case False
  with assms that show ?thesis by simp
qed

lemma batch_step_inv:
  assumes "wal_inv w fs" "unat (w_nextSegmentID w) < 2 ^ 64 - 1"
  shows "\<exists>offs w' fs'. (let (ok, w, fs) = (if c then rotateSegment w fs else (True, w, fs))
      in if \<not> ok then (Inl FailedRotate, w, fs)
         else case write_entries es w fs of
                (Inl e, w, fs) \<Rightarrow> (Inl e, w, fs)
              | (Inr offs, w, fs) \<Rightarrow> (Inr offs, unsynced w, fs)) = (Inr offs, w', fs') \<and>
     length offs = length es \<and> wal_inv w' fs' \<and> keeps fs fs' \<and>
     unat (w_nextSegmentID w) \<le> unat (w_nextSegmentID w') \<and>
     unat (w_nextSegmentID w') \<le> Suc (unat (w_nextSegmentID w)) \<and>
     (\<forall>x \<in> set (map (\<lambda>(off, ts, data). (w_currentSegment w', off, ts, data)) (zip offs es)). placed fs' x)"
proof -
  from rotate_if_inv [OF assms, of c] obtain w1 fs1
    where 1: "(if c then rotateSegment w fs else (True, w, fs)) = (True, w1, fs1)" "wal_inv w1 fs1"
    "grows fs fs1" "unat (w_nextSegmentID w) \<le> unat (w_nextSegmentID w1)"
    "unat (w_nextSegmentID w1) \<le> Suc (unat (w_nextSegmentID w))" by blast
  from write_entries_inv [OF 1(2), of es] obtain offs w2 fs2
    where 2: "write_entries es w1 fs1 = (Inr offs, w2, fs2)" "length offs = length es" "wal_inv w2 fs2"
      "grows fs1 fs2" "w_currentSegment w2 = w_currentSegment w1" "w_nextSegmentID w2 = w_nextSegmentID w1"
      "\<forall>x \<in> set (map (\<lambda>(off, ts, data). (w_currentSegment w1, off, ts, data)) (zip offs es)). placed fs2 x" by blast
  have "keeps fs fs2"
    by (rule wal_inv_keeps [OF assms(1) 2(3) grows_trans [OF 1(3) 2(4)]]) (use 1(4) 2(6) in simp)
  with 1 2 show ?thesis
    unfolding Let_def 1(1) prod.case 2(1) sum.case by (intro exI [of _ offs] exI [of _ "unsynced w2"] exI [of _ fs2]) simp
qed

lemma Write_as_batch:
  "Write ts data w fs =
     (let (r, w, fs) = (let (ok, w, fs) =
        (if s_Size (current w) \<ge> w_maxSegmentSize w then rotateSegment w fs else (True, w, fs))
      in if \<not> ok then (Inl FailedRotate, w, fs)
         else case write_entries [(ts, data)] w fs of
                (Inl e, w, fs) \<Rightarrow> (Inl e, w, fs)
              | (Inr offs, w, fs) \<Rightarrow> (Inr offs, unsynced w, fs)) in (map_sum id hd r, w, fs))"
  by (auto simp: Write_def Let_def split: prod.splits sum.splits)

lemma Sync_inv:
  assumes "wal_inv w fs"
  shows "\<exists>w' fs'. Sync w fs = (None, w', fs') \<and> wal_inv w' fs' \<and> keeps fs fs' \<and> w_nextSegmentID w' = w_nextSegmentID w"
proof -
  note c = current_wal_inv [OF assms]
  let ?n = "segment_name (w_currentSegment w)"
  obtain f where f: "fs_files fs ?n = Some f" using c(3) by (auto simp: file_exists_def)
  let ?fs = "fs\<lparr>fs_files := (fs_files fs)(?n \<mapsto> f\<lparr>f_durable := length (f_bytes f)\<rparr>)\<rparr>"
  let ?w = "set_current ((current w)\<lparr>s_Synced := True\<rparr>) w"
  have same: "file_bytes ?fs n = file_bytes fs n" "file_exists ?fs n = file_exists fs n" for n
    using f by (auto simp: file_bytes_def file_exists_def)
  have "Sync w fs = (None, ?w, ?fs)"
    using c f by (simp add: Sync_def file_sync_def next_outcome_def)
  moreover have "wal_inv ?w ?fs"
    using assms same unfolding wal_inv_def by (auto simp: set_current_def current_def)
  moreover have "keeps fs ?fs" by (simp add: keeps_def grows_def same)
  ultimately show ?thesis by (auto simp: set_current_def)
qed

lemma wal_step_inv:
  assumes "wal_inv w fs" "unat (w_nextSegmentID w) < 2 ^ 64 - 1"
  shows "\<exists>l w' fs'. wal_step op (w, fs) = (l, w', fs') \<and> wal_inv w' fs' \<and> keeps fs fs' \<and>
     unat (w_nextSegmentID w) \<le> unat (w_nextSegmentID w') \<and>
     unat (w_nextSegmentID w') \<le> Suc (unat (w_nextSegmentID w)) \<and>
     (\<forall>x \<in> set l. placed fs' x) \<and> map (snd \<circ> snd) l = entries_of op"
proof (cases op)
  case (OpWrite ts data)
  from batch_step_inv [OF assms, of "s_Size (current w) \<ge> w_maxSegmentSize w" "[(ts, data)]"] obtain offs w' fs'
    where 1: "Write ts data w fs = (map_sum id hd (Inr offs :: wal_error + int list), w', fs')" "length offs = 1" "wal_inv w' fs'" "keeps fs fs'"
      "unat (w_nextSegmentID w) \<le> unat (w_nextSegmentID w')"
      "unat (w_nextSegmentID w') \<le> Suc (unat (w_nextSegmentID w))"
      "\<forall>x \<in> set (map (\<lambda>(off, ts, data). (w_currentSegment w', off, ts, data)) (zip offs [(ts, data)])). placed fs' x"
    unfolding Write_as_batch by fastforce
  then obtain off where "offs = [off]" by (cases offs) auto
  with 1 OpWrite show ?thesis by auto
next
  case (OpBatch es)
  from batch_step_inv [OF assms, of "s_Size (current w) + sum_list (map (\<lambda>(_, data). int (16 + length data)) es) \<ge> w_maxSegmentSize w" es]
  obtain offs w' fs'
    where 1: "WriteBatch es w fs = (Inr offs, w', fs')" "length offs = length es" "wal_inv w' fs'" "keeps fs fs'"
      "unat (w_nextSegmentID w) \<le> unat (w_nextSegmentID w')"
      "unat (w_nextSegmentID w') \<le> Suc (unat (w_nextSegmentID w))"
      "\<forall>x \<in> set (map (\<lambda>(off, ts, data). (w_currentSegment w', off, ts, data)) (zip offs es)). placed fs' x"
    unfolding WriteBatch_def Let_def by blast
  have "map (snd \<circ> snd) (map (\<lambda>(off, ts, data). (w_currentSegment w', off, ts, data)) (zip offs es)) = es"
    using 1(2) by (simp add: comp_def case_prod_beta)
  with 1 OpBatch show ?thesis by simp
next
  case OpSync
  with Sync_inv [OF assms(1)] show ?thesis by auto
qed

lemma keeps_trans: "keeps a b \<Longrightarrow> keeps b c \<Longrightarrow> keeps a c"
  unfolding keeps_def using grows_trans by blast

lemma keeps_refl: "keeps fs fs"
  by (simp add: keeps_def)

lemma wal_run_inv:
  "wal_inv w fs \<Longrightarrow> unat (w_nextSegmentID w) + length ops < 2 ^ 64 \<Longrightarrow>
   \<exists>l w' fs'. wal_run ops (w, fs) = (l, w', fs') \<and> wal_inv w' fs' \<and> keeps fs fs' \<and>
     unat (w_nextSegmentID w') \<le> unat (w_nextSegmentID w) + length ops \<and>
     (\<forall>x \<in> set l. placed fs' x) \<and> map (snd \<circ> snd) l = concat (map entries_of ops)"
proof (induction ops arbitrary: w fs)
  case Nil
  then show ?case by (simp add: keeps_refl)
next
  case (Cons op ops)
  then have "unat (w_nextSegmentID w) < 2 ^ 64 - 1" by simp
  from wal_step_inv [OF Cons.prems(1) this, of op] obtain l1 w1 fs1
    where 1: "wal_step op (w, fs) = (l1, w1, fs1)" "wal_inv w1 fs1" "keeps fs fs1"
      "unat (w_nextSegmentID w1) \<le> Suc (unat (w_nextSegmentID w))"
      "\<forall>x \<in> set l1. placed fs1 x" "map (snd \<circ> snd) l1 = entries_of op" by blast
  have "unat (w_nextSegmentID w1) + length ops < 2 ^ 64" using 1(4) Cons.prems(2) by simp
  from Cons.IH [OF 1(2) this] obtain l2 w2 fs2
    where 2: "wal_run ops (w1, fs1) = (l2, w2, fs2)" "wal_inv w2 fs2" "keeps fs1 fs2"
      "unat (w_nextSegmentID w2) \<le> unat (w_nextSegmentID w1) + length ops"
      "\<forall>x \<in> set l2. placed fs2 x" "map (snd \<circ> snd) l2 = concat (map entries_of ops)" by blast
  have "\<forall>x \<in> set (l1 @ l2). placed fs2 x" using 1(5) 2(3,5) placed_keeps by auto
  moreover have "wal_run (op # ops) (w, fs) = (l1 @ l2, w2, fs2)" by (simp add: 1(1) 2(1))
  moreover have "map (snd \<circ> snd) (l1 @ l2) = concat (map entries_of (op # ops))"
    by (simp only: map_append 1(6) 2(6) list.map concat.simps)
  moreover have "unat (w_nextSegmentID w2) \<le> unat (w_nextSegmentID w) + length (op # ops)"
    using 1(4) 2(4) by simp
  ultimately show ?case using 2(2) keeps_trans [OF 1(3) 2(3)] by blast
qed

lemma loadSegments_ok:
  assumes "fs_script fs = []" "\<And>name. name \<in> set names \<Longrightarrow> \<exists>i. unat i < 10 ^ 6 \<and> name = segment_name i"
  shows "\<exists>segs'. loadSegments names segs fs = (Some segs', fs) \<and>
     (\<forall>i. segment_name i \<in> set names \<longrightarrow> (\<exists>s. segs' i = Some s \<and> s_File s = segment_name i)) \<and>
     (\<forall>i. segment_name i \<notin> set names \<longrightarrow> segs' i = segs i)"
  using assms(2)
proof (induction names arbitrary: segs)
  case (Cons name names)
  from Cons.prems [of name] obtain i where i: "unat i < 10 ^ 6" "name = segment_name i" by auto
  let ?s = "\<lparr>s_ID = i, s_File = name, s_Size = int (length (file_bytes fs name)), s_Synced = True\<rparr>"
  have "loadSegments (name # names) segs fs = loadSegments names (segs(i \<mapsto> ?s)) fs"
    using assms(1) i by (simp add: parse_segment_name_inverse next_outcome_def)
  moreover from Cons.IH [of "segs(i \<mapsto> ?s)"] Cons.prems obtain segs' where segs':
    "loadSegments names (segs(i \<mapsto> ?s)) fs = (Some segs', fs)"
    "\<forall>i. segment_name i \<in> set names \<longrightarrow> (\<exists>s. segs' i = Some s \<and> s_File s = segment_name i)"
    "\<forall>j. segment_name j \<notin> set names \<longrightarrow> segs' j = (segs(i \<mapsto> ?s)) j" by (metis list.set_intros(2))
  moreover have "\<exists>s. segs' k = Some s \<and> s_File s = segment_name k" if "segment_name k \<in> set (name # names)" for k
    using that segs'(2,3) i(2) by (cases "segment_name k \<in> set names") auto
  moreover have "segs' k = segs k" if "segment_name k \<notin> set (name # names)" for k
    using that segs'(3) i(2) by auto
  ultimately show ?case by metis
qed simp

lemma NewWALWriter_fresh:
  assumes "fs_files fs = Map.empty" "fs_script fs = []"
  shows "\<exists>w fs'. NewWALWriter cfg fs = (Inr w, fs') \<and> wal_inv w fs' \<and> w_nextSegmentID w = 1"
proof -
  have "(i :: u64) < 1 \<longleftrightarrow> i = 0" for i by (simp add: word_less_nat_alt unat_eq_0)
  with assms show ?thesis
    by (auto simp: NewWALWriter_def rotateSegment_def open_append_def next_outcome_def Let_def wal_inv_def
        file_bytes_def file_exists_def)
qed

section \<open>Properties\<close>

text \<open>
  C3. Everything written can be read back. In a fresh directory, after any sequence of fewer than a
  million \<^verbatim>\<open>Write\<close>, \<^verbatim>\<open>WriteBatch\<close> and \<^verbatim>\<open>Sync\<close> calls
  without system errors, every entry handed to the log was accepted in order, and a reader opened on
  the directory returns each of them, unchanged, from the segment and offset it was reported at,
  whatever was written after it.
\<close>

theorem wal_read_back:
  assumes "fs_files fs0 = Map.empty" "fs_script fs0 = []" "length ops < 10 ^ 6"
  shows "\<exists>w0 fs1 l w fs. NewWALWriter cfg fs0 = (Inr w0, fs1) \<and> wal_run ops (w0, fs1) = (l, w, fs) \<and>
     map (snd \<circ> snd) l = concat (map entries_of ops) \<and>
     (\<forall>names. range_order (fs_files fs) names \<longrightarrow> (\<exists>r. NewWALReader names fs = (Some r, fs) \<and>
       (\<forall>i off ts data. (i, off, ts, data) \<in> set l \<longrightarrow> length data < 2 ^ 32 \<longrightarrow>
          ReadEntry r fs i off = Inr (entry_of ts data))))"
proof -
  from NewWALWriter_fresh [OF assms(1,2), of cfg] obtain w0 fs1
    where 0: "NewWALWriter cfg fs0 = (Inr w0, fs1)" "wal_inv w0 fs1" "w_nextSegmentID w0 = 1" by blast
  from wal_run_inv [OF 0(2), of ops] 0(3) assms(3) obtain l w fs
    where 1: "wal_run ops (w0, fs1) = (l, w, fs)" "wal_inv w fs" "unat (w_nextSegmentID w) \<le> Suc (length ops)"
      "\<forall>x \<in> set l. placed fs x" "map (snd \<circ> snd) l = concat (map entries_of ops)" by auto
  have "\<exists>r. NewWALReader names fs = (Some r, fs) \<and>
       (\<forall>i off ts data. (i, off, ts, data) \<in> set l \<longrightarrow> length data < 2 ^ 32 \<longrightarrow>
          ReadEntry r fs i off = Inr (entry_of ts data))" if names: "range_order (fs_files fs) names" for names
  proof -
    have mem: "name \<in> set names \<longleftrightarrow> file_exists fs name" for name
      using names by (auto simp: range_order_def file_exists_def)
    have ids: "\<exists>i. unat i < 10 ^ 6 \<and> name = segment_name i" if "name \<in> set names" for name
      using that 1(2,3) assms(3) unfolding mem wal_inv_def word_less_nat_alt by fastforce
    from loadSegments_ok [of fs names Map.empty] ids 1(2) obtain segs
      where segs: "loadSegments names Map.empty fs = (Some segs, fs)"
        "\<forall>i. segment_name i \<in> set names \<longrightarrow> (\<exists>s. segs i = Some s \<and> s_File s = segment_name i)"
      by (auto simp: wal_inv_def)
    have "ReadEntry \<lparr>r_segments = segs\<rparr> fs i off = Inr (entry_of ts data)"
      if "(i, off, ts, data) \<in> set l" "length data < 2 ^ 32" for i off ts data
    proof -
      from 1(4) that(1) have p: "0 \<le> off" "file_exists fs (segment_name i)"
        "prefix (entry_header ts data @ data) (drop (nat off) (file_bytes fs (segment_name i)))"
        by (auto simp: placed_def)
      then obtain rest where "drop (nat off) (file_bytes fs (segment_name i)) = entry_header ts data @ data @ rest"
        by (auto simp: prefix_def)
      moreover obtain s where "segs i = Some s" "s_File s = segment_name i" using segs(2) p(2) mem by blast
      ultimately show ?thesis using p(1) that(2) by (simp add: ReadEntry_def decode_entry_of)
    qed
    with segs(1) show ?thesis by (auto simp: NewWALReader_def)
  qed
  with 0(1) 1(1,5) show ?thesis by blast
qed

text \<open>
  C38. A stored entry whose data is damaged within any four consecutive bytes is never returned: the
  reader reports a checksum mismatch.
\<close>

theorem wal_detects_corruption:
  assumes "length u = length v" "length u \<le> 4" "u \<noteq> v" "length (p @ u @ s) < 2 ^ 32"
    "r_segments r i = Some seg" "0 \<le> off"
    "drop (nat off) (file_bytes fs (s_File seg)) = entry_header ts (p @ u @ s) @ (p @ v @ s) @ rest"
  shows "ReadEntry r fs i off = Inl ChecksumMismatch"
proof -
  have "crc32Checksum (p @ v @ s) \<noteq> crc32Checksum (p @ u @ s)"
    using crc_burst [OF assms(1-3), of p s] by metis
  then have "decode_entry (entry_header ts (p @ u @ s) @ (p @ v @ s) @ rest) = Inl ChecksumMismatch"
    by (subst decode_entry_header) (use assms(1,4) in simp_all)
  then show ?thesis using assms(5-7) by (simp add: ReadEntry_def)
qed

theorem wal_read_back_witness:
  "\<exists>w0 fs1 l w fs. NewWALWriter DefaultWALConfig \<lparr>fs_files = Map.empty, fs_script = []\<rparr> = (Inr w0, fs1) \<and>
     wal_run [OpWrite 7 [1, 2, 3], OpSync, OpBatch [(8, []), (9, [255])]] (w0, fs1) = (l, w, fs) \<and>
     map (snd \<circ> snd) l = [(7, [1, 2, 3]), (8, []), (9, [255])]"
proof -
  let ?fs = "\<lparr>fs_files = Map.empty, fs_script = []\<rparr>"
  let ?ops = "[OpWrite 7 [1, 2, 3], OpSync, OpBatch [(8, []), (9, [255])]]"
  from wal_read_back [of ?fs ?ops DefaultWALConfig] obtain w0 fs1 l w fs
    where "NewWALWriter DefaultWALConfig ?fs = (Inr w0, fs1)" "wal_run ?ops (w0, fs1) = (l, w, fs)"
      "map (snd \<circ> snd) l = concat (map entries_of ?ops)" by (simp del: wal_run.simps) meson
  then show ?thesis by (intro exI conjI) simp_all
qed

theorem wal_detects_corruption_witness:
  "ReadEntry \<lparr>r_segments = [0 \<mapsto> \<lparr>s_ID = 0, s_File = ''f'', s_Size = 19, s_Synced = True\<rparr>]\<rparr>
     \<lparr>fs_files = [''f'' \<mapsto> \<lparr>f_bytes = entry_header 5 [1, 2, 3] @ [1, 9, 3], f_durable = 0\<rparr>], fs_script = []\<rparr> 0 0 =
   Inl ChecksumMismatch"
  by (rule wal_detects_corruption [where seg = "\<lparr>s_ID = 0, s_File = ''f'', s_Size = 19, s_Synced = True\<rparr>" and p = "[1]" and u = "[2]" and v = "[9]" and s = "[3]" and rest = "[]" and ts = 5])
    (simp_all add: file_bytes_def)

lemma script_update [simp]:
  "file_exists (fs\<lparr>fs_script := s\<rparr>) n = file_exists fs n"
  "file_bytes (fs\<lparr>fs_script := s\<rparr>) n = file_bytes fs n"
  "append_bytes m bs (fs\<lparr>fs_script := s\<rparr>) = (append_bytes m bs fs)\<lparr>fs_script := s\<rparr>"
  by (simp_all add: file_exists_def file_bytes_def append_bytes_def split: option.splits)

lemma write_entry_script:
  assumes "s_File (current w) = name" "s_Size (current w) = off"
  shows "fs_script fs = [Okay, Fail n] \<Longrightarrow> write_entry ts data w fs =
      (Inl FailedWriteData, w, append_bytes name (take n data) (append_bytes name (entry_header ts data) fs\<lparr>fs_script := []\<rparr>))"
    "fs_script fs = [] \<Longrightarrow> write_entry ts data w fs =
      (Inr off, set_current ((current w)\<lparr>s_Size := off + int (16 + length data)\<rparr>) w,
       append_bytes name data (append_bytes name (entry_header ts data) fs))"
  using assms by (auto simp: write_entry_def file_write_def next_outcome_def Let_def append_bytes_def
      split: option.splits prod.splits list.splits)

text \<open>
  A writer opened on a directory that already holds the first segment appends to it but counts
  from zero: its first \<^verbatim>\<open>Write\<close> reports offset 0, while the entry was placed behind
  everything the file held before.
\<close>

theorem wal_reopen_offset:
  assumes "fs_script fs = []" "fs_files fs (segment_name 0) = Some f" "0 < c_MaxSegmentSize cfg"
  shows "\<exists>w fs1 w' fs'. NewWALWriter cfg fs = (Inr w, fs1) \<and> Write ts data w fs1 = (Inr 0, w', fs') \<and>
     file_bytes fs' (segment_name 0) = f_bytes f @ entry_header ts data @ data"
proof -
  let ?s = "\<lparr>s_ID = 0, s_File = segment_name 0, s_Size = 0, s_Synced = True\<rparr>"
  let ?w = "\<lparr>w_maxSegmentSize = c_MaxSegmentSize cfg, w_syncInterval = c_SyncInterval cfg,
      w_currentSegment = 0, w_segments = [0 \<mapsto> ?s], w_nextSegmentID = 1\<rparr>"
  have "NewWALWriter cfg fs = (Inr ?w, fs)"
    using assms(1,2) by (simp add: NewWALWriter_def rotateSegment_def open_append_def next_outcome_def Let_def)
  moreover have "current ?w = ?s" by (simp add: current_def)
  then have "\<exists>w'. Write ts data ?w fs = (Inr 0, w',
      append_bytes (segment_name 0) data (append_bytes (segment_name 0) (entry_header ts data) fs))"
    using assms(1,3) write_entry_script(2) [of ?w "segment_name 0" 0 fs ts data] by (simp add: Write_def)
  moreover have "file_exists fs (segment_name 0)" "file_bytes fs (segment_name 0) = f_bytes f"
    using assms(2) by (simp_all add: file_exists_def file_bytes_def)
  ultimately show ?thesis by fastforce
qed

theorem wal_reopen_offset_witness:
  "\<exists>w fs1 w' fs'. NewWALWriter DefaultWALConfig \<lparr>fs_files = [segment_name 0 \<mapsto>
       \<lparr>f_bytes = entry_header 1 [65] @ [65], f_durable = 17\<rparr>], fs_script = []\<rparr> = (Inr w, fs1) \<and>
     Write 2 [66] w fs1 = (Inr 0, w', fs') \<and>
     file_bytes fs' (segment_name 0) = entry_header 1 [65] @ [65] @ entry_header 2 [66] @ [66]"
  using wal_reopen_offset [of "\<lparr>fs_files = [segment_name 0 \<mapsto>
       \<lparr>f_bytes = entry_header 1 [65] @ [65], f_durable = 17\<rparr>], fs_script = []\<rparr>" _ DefaultWALConfig 2 "[66]"]
  by (simp add: DefaultWALConfig_def)

text \<open>
  A failed write is not undone in the file but is not counted either: when the data of an entry
  could only be written in part, the next successful \<^verbatim>\<open>Write\<close> reports the offset of
  the torn entry's header, and its own entry lies behind the torn one.
\<close>

theorem wal_torn_write_offset:
  assumes "wal_inv w fs" "s_Size (current w) < w_maxSegmentSize w"
  defines "name \<equiv> segment_name (w_currentSegment w)"
  shows "\<exists>fs1 w2 fs2. Write ts1 d1 w (fs\<lparr>fs_script := [Okay, Fail n]\<rparr>) = (Inl FailedWriteData, w, fs1) \<and>
     Write ts2 d2 w fs1 = (Inr (int (length (file_bytes fs name))), w2, fs2) \<and>
     file_bytes fs2 name = file_bytes fs name @ entry_header ts1 d1 @ take n d1 @ entry_header ts2 d2 @ d2"
proof -
  note c = current_wal_inv [OF assms(1), folded name_def]
  let ?fs = "fs\<lparr>fs_script := [Okay, Fail n]\<rparr>"
  let ?fs1 = "append_bytes name (take n d1) (append_bytes name (entry_header ts1 d1) ?fs\<lparr>fs_script := []\<rparr>)"
  have 1: "Write ts1 d1 w ?fs = (Inl FailedWriteData, w, ?fs1)"
    using assms(2) write_entry_script(1) [OF c(1,2), of ?fs n ts1 d1] by (simp add: Write_def)
  have 2: "\<exists>w2. Write ts2 d2 w ?fs1 = (Inr (int (length (file_bytes fs name))), w2,
      append_bytes name d2 (append_bytes name (entry_header ts2 d2) ?fs1))"
    using assms(2) write_entry_script(2) [OF c(1,2), of ?fs1 ts2 d2] by (simp add: Write_def)
  have "file_bytes (append_bytes name d2 (append_bytes name (entry_header ts2 d2) ?fs1)) name =
      file_bytes fs name @ entry_header ts1 d1 @ take n d1 @ entry_header ts2 d2 @ d2"
    using c(3) by simp
  with 1 2 show ?thesis by blast
qed

theorem wal_torn_write_offset_witness:
  "\<exists>w fs fs1 w2 fs2. wal_inv w fs \<and>
     Write 1 [65, 66] w (fs\<lparr>fs_script := [Okay, Fail 1]\<rparr>) = (Inl FailedWriteData, w, fs1) \<and>
     Write 2 [67] w fs1 = (Inr (int (length (file_bytes fs (segment_name (w_currentSegment w))))), w2, fs2)"
proof -
  from NewWALWriter_fresh [of "\<lparr>fs_files = Map.empty, fs_script = []\<rparr>" DefaultWALConfig] obtain w fs
    where w: "NewWALWriter DefaultWALConfig \<lparr>fs_files = Map.empty, fs_script = []\<rparr> = (Inr w, fs)" "wal_inv w fs"
    by auto
  then have "s_Size (current w) < w_maxSegmentSize w"
    by (auto simp: NewWALWriter_def rotateSegment_def open_append_def next_outcome_def Let_def current_def DefaultWALConfig_def)
  from wal_torn_write_offset [OF w(2) this, of 1 "[65, 66]" 1 2 "[67]"] w(2) show ?thesis by blast
qed

lemma fs_files_append_other: "n \<noteq> name \<Longrightarrow> fs_files (append_bytes name bs fs) n = fs_files fs n"
  by (simp add: append_bytes_def split: option.splits)

lemma rotateSegment_files:
  "rotateSegment w fs = (ok, w', fs') \<Longrightarrow> n \<noteq> segment_name (w_nextSegmentID w) \<Longrightarrow> fs_files fs' n = fs_files fs n"
  by (auto simp: rotateSegment_def open_append_def next_outcome_def Let_def
      split: option.splits prod.splits if_splits list.splits outcome.splits)

lemma Sync_files:
  assumes "wal_inv w fs"
  shows "\<exists>w' fs' f. Sync w fs = (None, w', fs') \<and> fs_files fs' (segment_name (w_currentSegment w)) = Some f \<and>
     f_durable f = length (f_bytes f) \<and> (\<forall>n. n \<noteq> segment_name (w_currentSegment w) \<longrightarrow> fs_files fs' n = fs_files fs n)"
proof -
  note c = current_wal_inv [OF assms]
  obtain f where "fs_files fs (segment_name (w_currentSegment w)) = Some f" using c(3) by (auto simp: file_exists_def)
  then show ?thesis using c by (auto simp: Sync_def file_sync_def next_outcome_def)
qed

lemma Write_files:
  assumes "wal_inv w fs" "unat (w_nextSegmentID w) < 2 ^ 64 - 1"
  shows "\<exists>off w' fs'. Write ts data w fs = (Inr off, w', fs') \<and> wal_inv w' fs' \<and>
     (s_Size (current w) \<ge> w_maxSegmentSize w \<longrightarrow> w_currentSegment w' \<noteq> w_currentSegment w \<and>
        fs_files fs' (segment_name (w_currentSegment w)) = fs_files fs (segment_name (w_currentSegment w)))"
proof -
  let ?c = "s_Size (current w) \<ge> w_maxSegmentSize w"
  have lt: "w_currentSegment w < w_nextSegmentID w" using assms(1) by (simp add: wal_inv_def)
  obtain w1 fs1 where 1: "(if ?c then rotateSegment w fs else (True, w, fs)) = (True, w1, fs1)" "wal_inv w1 fs1"
    "?c \<longrightarrow> w_currentSegment w1 = w_nextSegmentID w \<and> rotateSegment w fs = (True, w1, fs1)"
    using rotateSegment_inv [OF assms] assms(1) by (cases ?c) auto
  note c = current_wal_inv [OF 1(2)]
  let ?n = "segment_name (w_currentSegment w1)"
  from write_entry_inv [OF 1(2), of ts data] obtain off w2 fs2
    where 2: "write_entry ts data w1 fs1 = (Inr off, w2, fs2)" "wal_inv w2 fs2"
      "w_currentSegment w2 = w_currentSegment w1" by blast
  with write_entry_script(2) [OF c(1,2,4), of ts data]
  have fs2: "fs2 = append_bytes ?n data (append_bytes ?n (entry_header ts data) fs1)" by simp
  have "Write ts data w fs = (Inr off, unsynced w2, fs2)"
    unfolding Write_def 1(1) Let_def prod.case 2(1) by simp
  moreover have "w_currentSegment w1 \<noteq> w_currentSegment w \<and>
      fs_files fs2 (segment_name (w_currentSegment w)) = fs_files fs (segment_name (w_currentSegment w))" if ?c
    using that 1(3) lt rotateSegment_files [of w fs True w1 fs1 "segment_name (w_currentSegment w)"]
    by (auto simp: fs2 fs_files_append_other)
  ultimately show ?thesis using 2(2,3) by auto
qed



end
