(* ===== verification/Kafka_Assign.thy ===== *)
theory Kafka_Assign
  imports Prelude "HOL-Library.Multiset"
begin

text \<open>
  Partition assignment: \<^verbatim>\<open>RoundRobinAssignor\<close> and \<^verbatim>\<open>RangeAssignor\<close> of
  \<^verbatim>\<open>src/pkg/kafka/consumer_groups.go\<close> and \<^verbatim>\<open>RoundRobinRebalancePolicy\<close>
  and \<^verbatim>\<open>RangeRebalancePolicy\<close> of \<^verbatim>\<open>src/pkg/kafka/group_coordinator.go\<close>.
  The topics are given as the list of their entries in the order the map iteration takes, and so
  are the member identifiers where the source takes them from a map. The result is a map from
  members to what they were assigned. A division by zero is \<open>None\<close>.

  The locale \<open>assignor\<close> is the contract of an assignment strategy; all four are instances.
\<close>

section \<open>Data\<close>

record TopicPartition =
  tp_Topic :: string
  tp_Partition :: i32

record PartitionAssignment =
  pa_Topic :: string
  pa_Partitions :: "i32 list"

type_synonym topics = "(string \<times> i32 list) list"

definition tp :: "string \<Rightarrow> i32 \<Rightarrow> TopicPartition" where
  "tp t p = \<lparr>tp_Topic = t, tp_Partition = p\<rparr>"

definition all_partitions :: "topics \<Rightarrow> TopicPartition list" where
  "all_partitions ts = concat (map (\<lambda>(t, ps). map (tp t) ps) ts)"

text \<open>\<^verbatim>\<open>m[k] = append(m[k], xs...)\<close>\<close>

definition append_at :: "string \<Rightarrow> 'v list \<Rightarrow> (string \<rightharpoonup> 'v list) \<Rightarrow> (string \<rightharpoonup> 'v list)" where
  "append_at k xs m = m(k \<mapsto> (case m k of None \<Rightarrow> xs | Some ys \<Rightarrow> ys @ xs))"

definition init_assignments :: "string list \<Rightarrow> (string \<rightharpoonup> 'v list)" where
  "init_assignments members = (\<lambda>m. if m \<in> set members then Some [] else None)"

section \<open>Assignors of the consumer group coordinator\<close>

fun rr_loop :: "string list \<Rightarrow> nat \<Rightarrow> TopicPartition list \<Rightarrow> (string \<rightharpoonup> TopicPartition list) \<Rightarrow> (string \<rightharpoonup> TopicPartition list)" where
  "rr_loop memberIDs i [] asg = asg"
| "rr_loop memberIDs i (p # ps) asg =
     rr_loop memberIDs (Suc i) ps (append_at (memberIDs ! (i mod length memberIDs)) [p] asg)"

definition RoundRobinAssignor_Assign :: "string list \<Rightarrow> topics \<Rightarrow> (string \<rightharpoonup> TopicPartition list)" where
  "RoundRobinAssignor_Assign memberIDs topics =
     (if memberIDs = [] then init_assignments memberIDs
      else rr_loop memberIDs 0 (all_partitions topics) (init_assignments memberIDs))"

text \<open>The share of member number \<open>i\<close>: \<^verbatim>\<open>numPartitions\<close>, limited by what is left.\<close>

definition range_count :: "nat \<Rightarrow> nat \<Rightarrow> nat \<Rightarrow> nat" where
  "range_count n k i = n div k + (if i < n mod k then 1 else 0)"

fun range_topic ::
  "string \<Rightarrow> i32 list \<Rightarrow> nat \<Rightarrow> string list \<Rightarrow> nat \<Rightarrow> nat \<Rightarrow> (string \<rightharpoonup> TopicPartition list) \<Rightarrow> (string \<rightharpoonup> TopicPartition list)" where
  "range_topic t ps k [] i cur asg = asg"
| "range_topic t ps k (m # ms) i cur asg =
     (let num = min (range_count (length ps) k i) (length ps - cur)
      in range_topic t ps k ms (Suc i) (cur + num)
           (if num = 0 then asg else append_at m (map (tp t) (take num (drop cur ps))) asg))"

definition RangeAssignor_Assign :: "string list \<Rightarrow> topics \<Rightarrow> (string \<rightharpoonup> TopicPartition list)" where
  "RangeAssignor_Assign memberIDs topics =
     (if memberIDs = [] then init_assignments memberIDs
      else foldl (\<lambda>asg (t, ps). range_topic t ps (length memberIDs) memberIDs 0 0 asg)
             (init_assignments memberIDs) topics)"

section \<open>Policies of the group coordinator\<close>

text \<open>The inner search: append to the first entry of the topic, or add one.\<close>

fun add_partition :: "TopicPartition \<Rightarrow> PartitionAssignment list \<Rightarrow> PartitionAssignment list" where
  "add_partition p [] = [\<lparr>pa_Topic = tp_Topic p, pa_Partitions = [tp_Partition p]\<rparr>]"
| "add_partition p (a # as) =
     (if pa_Topic a = tp_Topic p
      then a\<lparr>pa_Partitions := pa_Partitions a @ [tp_Partition p]\<rparr> # as
      else a # add_partition p as)"

fun rr_policy_loop ::
  "string list \<Rightarrow> nat \<Rightarrow> TopicPartition list \<Rightarrow> (string \<rightharpoonup> PartitionAssignment list) \<Rightarrow> (string \<rightharpoonup> PartitionAssignment list) option" where
  "rr_policy_loop members i [] asg = Some asg"
| "rr_policy_loop members i (p # ps) asg =
     (if members = [] then None
      else let member = members ! (i mod length members)
           in rr_policy_loop members (Suc i) ps
                (asg(member \<mapsto> add_partition p (case asg member of None \<Rightarrow> [] | Some as \<Rightarrow> as))))"

definition RoundRobinRebalancePolicy_Assign ::
  "string list \<Rightarrow> topics \<Rightarrow> (string \<rightharpoonup> PartitionAssignment list) option" where
  "RoundRobinRebalancePolicy_Assign members partitions =
     rr_policy_loop members 0 (all_partitions partitions) (init_assignments members)"

fun range_policy_topic ::
  "string \<Rightarrow> i32 list \<Rightarrow> nat \<Rightarrow> string list \<Rightarrow> nat \<Rightarrow> nat \<Rightarrow> (string \<rightharpoonup> PartitionAssignment list) \<Rightarrow> (string \<rightharpoonup> PartitionAssignment list)" where
  "range_policy_topic t ps k [] i cur asg = asg"
| "range_policy_topic t ps k (m # ms) i cur asg =
     (let num = range_count (length ps) k i
      in range_policy_topic t ps k ms (Suc i) (cur + num)
           (if num > 0 then append_at m [\<lparr>pa_Topic = t, pa_Partitions = take num (drop cur ps)\<rparr>] asg else asg))"

definition RangeRebalancePolicy_Assign ::
  "string list \<Rightarrow> topics \<Rightarrow> (string \<rightharpoonup> PartitionAssignment list) option" where
  "RangeRebalancePolicy_Assign members partitions =
     (if members = [] \<and> partitions \<noteq> [] then None
      else Some (foldl (\<lambda>asg (t, ps). range_policy_topic t ps (length members) members 0 0 asg)
             (init_assignments members) partitions))"

section \<open>The contract of an assignment strategy\<close>

lemma distinct_concat_map_disjoint:
  "distinct (concat (map f ms)) \<Longrightarrow> m \<in> set ms \<Longrightarrow> m' \<in> set ms \<Longrightarrow> p \<in> set (f m) \<Longrightarrow> p \<in> set (f m') \<Longrightarrow> m = m'"
proof (induction ms)
  case (Cons a ms)
  have "p \<notin> set (f a) \<or> p \<notin> set (f x)" if "x \<in> set ms" for x
    using Cons.prems(1) that by auto
  with Cons show ?case by auto
qed simp

locale assignor =
  fixes assign :: "string list \<Rightarrow> topics \<Rightarrow> string \<Rightarrow> TopicPartition list"
  assumes complete: "ms \<noteq> [] \<Longrightarrow> distinct ms \<Longrightarrow>
      mset (concat (map (assign ms ts) ms)) = mset (all_partitions ts)"
    and nothing_else: "m \<notin> set ms \<Longrightarrow> assign ms ts m = []"
begin

lemma unique_owner:
  assumes "ms \<noteq> []" "distinct ms" "distinct (all_partitions ts)" "p \<in> set (all_partitions ts)"
  shows "\<exists>!m. p \<in> set (assign ms ts m)"
proof -
  note c = complete [OF assms(1,2), of ts]
  have d: "distinct (concat (map (assign ms ts) ms))" using c assms(3) by (metis mset_eq_imp_distinct_iff)
  have "p \<in> set (concat (map (assign ms ts) ms))" using c assms(4) by (metis set_mset_mset)
  then obtain m where m: "m \<in> set ms" "p \<in> set (assign ms ts m)" by auto
  moreover have "m' = m" if "p \<in> set (assign ms ts m')" for m'
  proof -
    have "m' \<in> set ms" using that nothing_else [of m' ms ts] by (cases "m' \<in> set ms") auto
    with d m that show ?thesis by (metis distinct_concat_map_disjoint)
  qed
  ultimately show ?thesis by blast
qed

lemma nothing_invented:
  assumes "ms \<noteq> []" "distinct ms" "p \<in> set (assign ms ts m)"
  shows "p \<in> set (all_partitions ts)"
proof -
  have "m \<in> set ms" using assms(3) nothing_else [of m ms ts] by (cases "m \<in> set ms") auto
  with assms(3) have "p \<in> set (concat (map (assign ms ts) ms))" by auto
  with complete [OF assms(1,2), of ts] show ?thesis by (metis set_mset_mset)
qed

end

text \<open>A strategy that hands member number \<open>k\<close> its exact share of all partitions.\<close>

locale balanced_assignor = assignor +
  assumes share: "distinct ms \<Longrightarrow> k < length ms \<Longrightarrow>
      length (assign ms ts (ms ! k)) = range_count (length (all_partitions ts)) (length ms) k"
begin

lemma balanced:
  assumes "distinct ms" "j < length ms" "k < length ms"
  shows "length (assign ms ts (ms ! j)) \<le> length (assign ms ts (ms ! k)) + 1"
  using assms by (simp add: share range_count_def)

end

section \<open>Lemmas\<close>

definition owned :: "(string \<rightharpoonup> 'v list) \<Rightarrow> string \<Rightarrow> 'v list" where
  "owned asg m = (case asg m of None \<Rightarrow> [] | Some xs \<Rightarrow> xs)"

definition flatten :: "PartitionAssignment list \<Rightarrow> TopicPartition list" where
  "flatten as = concat (map (\<lambda>a. map (tp (pa_Topic a)) (pa_Partitions a)) as)"

lemma owned_init [simp]: "owned (init_assignments ms) m = []"
  by (simp add: owned_def init_assignments_def)

lemma owned_append_at: "owned (append_at k xs asg) m = (if m = k then owned asg m @ xs else owned asg m)"
  by (simp add: owned_def append_at_def split: option.split)

lemma mset_owned_update:
  assumes "distinct ms" "m \<in> set ms" "\<And>k. k \<noteq> m \<Longrightarrow> f' k = f k" "mset (f' m) = mset (f m) + X"
  shows "mset (concat (map f' ms)) = mset (concat (map f ms)) + X"
  using assms(1,2)
proof (induction ms)
  case (Cons k ms)
  show ?case
  proof (cases "k = m")
    case True
    with Cons.prems have "map f' ms = map f ms" by (intro map_cong [OF refl] assms(3)) auto
    then have "concat (map f' ms) = concat (map f ms)" by (rule arg_cong)
    with True assms(4) show ?thesis by (simp only: list.map concat.simps mset_append) simp
  next
    case False
    with Cons assms(3) show ?thesis by simp
  qed
qed simp

lemma concat_map_Nil: "concat (map (\<lambda>_. []) xs) = []"
  by (induction xs) simp_all

lemma nth_mod_mem: "ms \<noteq> [] \<Longrightarrow> ms ! (i mod length ms) \<in> set ms"
  by (simp add: mod_less_divisor)

lemma rr_loop_mset:
  "distinct ms \<Longrightarrow> ms \<noteq> [] \<Longrightarrow>
     mset (concat (map (owned (rr_loop ms i ps asg)) ms)) = mset (concat (map (owned asg) ms)) + mset ps"
proof (induction ps arbitrary: i asg)
  case (Cons p ps)
  let ?m = "ms ! (i mod length ms)"
  have "mset (concat (map (owned (append_at ?m [p] asg)) ms)) = mset (concat (map (owned asg) ms)) + {#p#}"
    by (rule mset_owned_update [OF Cons.prems(1) nth_mod_mem [OF Cons.prems(2)]]) (simp_all add: owned_append_at)
  with Cons show ?case by simp
qed simp

lemma rr_loop_other: "m \<notin> set ms \<Longrightarrow> ms \<noteq> [] \<Longrightarrow> owned (rr_loop ms i ps asg) m = owned asg m"
proof (induction ps arbitrary: i asg)
  case (Cons p ps)
  then have "m \<noteq> ms ! (i mod length ms)" using nth_mod_mem by metis
  with Cons show ?case by (simp add: owned_append_at)
qed simp

text \<open>How many of the first \<open>n\<close> indices fall to member \<open>k\<close> of \<open>l\<close>.\<close>

lemma range_count_Suc:
  "0 < l \<Longrightarrow> k < l \<Longrightarrow> range_count (Suc n) l k = range_count n l k + (if n mod l = k then 1 else 0)"
  by (auto simp: range_count_def div_Suc mod_Suc)

lemma rr_loop_length:
  assumes "distinct ms" "k < length ms"
  shows "length (owned (rr_loop ms i ps asg) (ms ! k)) + range_count i (length ms) k =
     length (owned asg (ms ! k)) + range_count (i + length ps) (length ms) k"
proof (induction ps arbitrary: i asg)
  case (Cons p ps)
  have l: "0 < length ms" using assms(2) by linarith
  have "ms ! (i mod length ms) = ms ! k \<longleftrightarrow> i mod length ms = k"
    using assms l by (simp add: nth_eq_iff_index_eq)
  then have "length (owned (append_at (ms ! (i mod length ms)) [p] asg) (ms ! k)) =
      length (owned asg (ms ! k)) + (if i mod length ms = k then 1 else 0)"
    by (auto simp: owned_append_at)
  with Cons [of "Suc i" "append_at (ms ! (i mod length ms)) [p] asg"] range_count_Suc [OF l assms(2), of i]
  show ?case by simp
qed simp

interpretation rr: balanced_assignor "\<lambda>ms ts. owned (RoundRobinAssignor_Assign ms ts)"
proof
  fix ms :: "string list" and ts m
  show "ms \<noteq> [] \<Longrightarrow> distinct ms \<Longrightarrow>
      mset (concat (map (owned (RoundRobinAssignor_Assign ms ts)) ms)) = mset (all_partitions ts)"
    by (simp add: RoundRobinAssignor_Assign_def rr_loop_mset concat_map_Nil comp_def)
  show "m \<notin> set ms \<Longrightarrow> owned (RoundRobinAssignor_Assign ms ts) m = []"
    by (simp add: RoundRobinAssignor_Assign_def rr_loop_other)
  fix k
  show "distinct ms \<Longrightarrow> k < length ms \<Longrightarrow>
      length (owned (RoundRobinAssignor_Assign ms ts) (ms ! k)) = range_count (length (all_partitions ts)) (length ms) k"
    using rr_loop_length [of ms k 0 "all_partitions ts" "init_assignments ms"]
    by (auto simp: RoundRobinAssignor_Assign_def range_count_def)
qed

lemma sum_range_count: "0 < k \<Longrightarrow> (\<Sum>j<k. range_count n k j) = n"
proof -
  assume k: "0 < k"
  have "(\<Sum>j<k. if j < n mod k then 1 else 0 :: nat) = card {j. j < k \<and> j < n mod k}"
    by (simp add: sum.If_cases Int_def)
  also have "{j. j < k \<and> j < n mod k} = {..<n mod k}"
    using less_trans [OF _ mod_less_divisor [OF k]] by auto
  finally have "(\<Sum>j<k. range_count n k j) = k * (n div k) + n mod k"
    by (simp add: range_count_def sum.distrib)
  then show ?thesis by simp
qed

lemma range_topic_other:
  "m \<notin> set ms \<Longrightarrow> owned (range_topic t ps k ms i cur asg) m = owned asg m"
  by (induction ms arbitrary: i cur asg) (simp_all add: Let_def owned_append_at)

lemma range_topic_mset:
  assumes "distinct all"
  shows "set ms \<subseteq> set all \<Longrightarrow> cur + (\<Sum>j<length ms. range_count (length ps) k (i + j)) = length ps \<Longrightarrow>
     mset (concat (map (owned (range_topic t ps k ms i cur asg)) all)) =
     mset (concat (map (owned asg) all)) + mset (map (tp t) (drop cur ps))"
proof (induction ms arbitrary: i cur asg)
  case (Cons m ms)
  let ?c = "range_count (length ps) k i"
  have sum: "(\<Sum>j<length (m # ms). range_count (length ps) k (i + j)) =
      ?c + (\<Sum>j<length ms. range_count (length ps) k (Suc i + j))"
    by (simp add: sum.lessThan_Suc_shift del: sum.lessThan_Suc)
  then have num: "min ?c (length ps - cur) = ?c" and next_cur: "cur + ?c + (\<Sum>j<length ms. range_count (length ps) k (Suc i + j)) = length ps"
    using Cons.prems(2) by linarith+
  let ?xs = "map (tp t) (take ?c (drop cur ps))"
  let ?asg = "if ?c = 0 then asg else append_at m ?xs asg"
  have owned: "owned ?asg j = (if j = m then owned asg m @ ?xs else owned asg j)" for j
    by (simp add: owned_append_at)
  have "mset (concat (map (owned ?asg) all)) = mset (concat (map (owned asg) all)) + mset ?xs"
    by (rule mset_owned_update [OF assms, of m]) (use Cons.prems(1) in \<open>auto simp: owned\<close>)
  moreover have "mset ?xs + mset (map (tp t) (drop (cur + ?c) ps)) = mset (map (tp t) (drop cur ps))"
  proof -
    have "?xs @ map (tp t) (drop (cur + ?c) ps) = map (tp t) (drop cur ps)"
      using append_take_drop_id [of ?c "drop cur ps"]
      by (simp only: drop_drop add.commute [of cur] flip: map_append)
    then show ?thesis by (metis mset_append)
  qed
  moreover have "range_topic t ps k (m # ms) i cur asg = range_topic t ps k ms (Suc i) (cur + ?c) ?asg"
    by (simp add: Let_def num)
  ultimately show ?case using Cons.IH [OF _ next_cur, of ?asg] Cons.prems(1) by (simp add: add.assoc)
qed simp

lemma RangeAssignor_fold_mset:
  assumes "distinct ms" "ms \<noteq> []"
  shows "mset (concat (map (owned (foldl (\<lambda>asg (t, ps). range_topic t ps (length ms) ms 0 0 asg) asg ts)) ms)) =
     mset (concat (map (owned asg) ms)) + mset (all_partitions ts)"
proof (induction ts arbitrary: asg)
  case (Cons x ts)
  obtain t ps where x: "x = (t, ps)" by fastforce
  have "mset (concat (map (owned (range_topic t ps (length ms) ms 0 0 asg)) ms)) =
      mset (concat (map (owned asg) ms)) + mset (map (tp t) ps)"
    using range_topic_mset [OF assms(1), of ms 0 ps "length ms" 0 t asg] sum_range_count [of "length ms" "length ps"] assms(2)
    by simp
  with Cons show ?case by (simp add: x all_partitions_def)
qed (simp add: all_partitions_def)

lemma RangeAssignor_fold_other:
  "m \<notin> set ms \<Longrightarrow> owned (foldl (\<lambda>asg (t, ps). range_topic t ps (length ms) ms 0 0 asg) asg ts) m = owned asg m"
  by (induction ts arbitrary: asg) (auto simp: range_topic_other)

interpretation range: assignor "\<lambda>ms ts. owned (RangeAssignor_Assign ms ts)"
proof
  fix ms :: "string list" and ts m
  show "ms \<noteq> [] \<Longrightarrow> distinct ms \<Longrightarrow>
      mset (concat (map (owned (RangeAssignor_Assign ms ts)) ms)) = mset (all_partitions ts)"
    using RangeAssignor_fold_mset [of ms "init_assignments ms" ts]
    by (simp add: RangeAssignor_Assign_def concat_map_Nil comp_def)
  show "m \<notin> set ms \<Longrightarrow> owned (RangeAssignor_Assign ms ts) m = []"
    by (simp add: RangeAssignor_Assign_def RangeAssignor_fold_other)
qed

section \<open>The policies agree with the assignors\<close>

lemma flatten_simps [simp]: "flatten [] = []" "flatten (as @ bs) = flatten as @ flatten bs"
  "flatten [\<lparr>pa_Topic = t, pa_Partitions = ps\<rparr>] = map (tp t) ps"
  by (simp_all add: flatten_def)

lemma mset_add_partition: "mset (flatten (add_partition p as)) = mset (flatten as) + {#p#}"
  by (induction as) (auto simp: flatten_def tp_def)

lemma rr_policy_sim:
  assumes "ms \<noteq> []" "\<And>m. mset (flatten (owned asg m)) = mset (owned asg' m)"
  shows "\<exists>r. rr_policy_loop ms i ps asg = Some r \<and> (\<forall>m. mset (flatten (owned r m)) = mset (owned (rr_loop ms i ps asg') m))"
  using assms(2)
proof (induction ps arbitrary: i asg asg')
  case (Cons p ps)
  let ?m = "ms ! (i mod length ms)"
  define asg1 where "asg1 = asg(?m \<mapsto> add_partition p (owned asg ?m))"
  have "mset (flatten (owned asg1 m)) = mset (owned (append_at ?m [p] asg') m)" for m
    using Cons.prems [of m] by (auto simp: asg1_def owned_append_at mset_add_partition owned_def [of "asg(_ \<mapsto> _)"])
      (simp add: owned_def)
  from Cons.IH [OF this, of "Suc i"] obtain r where "rr_policy_loop ms (Suc i) ps asg1 = Some r"
    "\<forall>m. mset (flatten (owned r m)) = mset (owned (rr_loop ms (Suc i) ps (append_at ?m [p] asg')) m)" by blast
  moreover have "rr_policy_loop ms i (p # ps) asg = rr_policy_loop ms (Suc i) ps asg1"
    using assms(1) by (simp add: Let_def asg1_def owned_def)
  ultimately show ?case by simp
qed simp

lemma range_policy_sim:
  "(\<And>m. flatten (owned asg m) = owned asg' m) \<Longrightarrow>
   cur + (\<Sum>j<length ms. range_count (length ps) k (i + j)) = length ps \<Longrightarrow>
   flatten (owned (range_policy_topic t ps k ms i cur asg) m) = owned (range_topic t ps k ms i cur asg') m"
proof (induction ms arbitrary: i cur asg asg')
  case (Cons m' ms)
  let ?c = "range_count (length ps) k i"
  have sum: "(\<Sum>j<length (m' # ms). range_count (length ps) k (i + j)) =
      ?c + (\<Sum>j<length ms. range_count (length ps) k (Suc i + j))"
    by (simp add: sum.lessThan_Suc_shift del: sum.lessThan_Suc)
  then have num: "min ?c (length ps - cur) = ?c" and next_cur: "cur + ?c + (\<Sum>j<length ms. range_count (length ps) k (Suc i + j)) = length ps"
    using Cons.prems(2) by linarith+
  have "flatten (owned (if ?c > 0 then append_at m' [\<lparr>pa_Topic = t, pa_Partitions = take ?c (drop cur ps)\<rparr>] asg else asg) j) =
      owned (if ?c = 0 then asg' else append_at m' (map (tp t) (take ?c (drop cur ps))) asg') j" for j
    using Cons.prems(1) by (simp add: owned_append_at)
  from Cons.IH [OF this next_cur] show ?case by (simp add: Let_def num)
qed simp

lemma rr_policy_eq:
  assumes "ms \<noteq> []"
  obtains r where "RoundRobinRebalancePolicy_Assign ms ts = Some r"
    "\<And>m. mset (flatten (owned r m)) = mset (owned (RoundRobinAssignor_Assign ms ts) m)"
proof -
  have "\<exists>r. rr_policy_loop ms 0 (all_partitions ts) (init_assignments ms) = Some r \<and>
      (\<forall>m. mset (flatten (owned r m)) = mset (owned (rr_loop ms 0 (all_partitions ts) (init_assignments ms)) m))"
    by (rule rr_policy_sim [OF assms]) simp
  with that assms show ?thesis
    by (auto simp: RoundRobinRebalancePolicy_Assign_def RoundRobinAssignor_Assign_def)
qed

lemma range_policy_fold_eq:
  assumes "ms \<noteq> []" "\<And>m. flatten (owned asg m) = owned asg' m"
  shows "flatten (owned (foldl (\<lambda>asg (t, ps). range_policy_topic t ps (length ms) ms 0 0 asg) asg ts) m) =
     owned (foldl (\<lambda>asg (t, ps). range_topic t ps (length ms) ms 0 0 asg) asg' ts) m"
  using assms(2)
proof (induction ts arbitrary: asg asg')
  case (Cons x ts)
  obtain t ps where x: "x = (t, ps)" by fastforce
  have "flatten (owned (range_policy_topic t ps (length ms) ms 0 0 asg) j) =
      owned (range_topic t ps (length ms) ms 0 0 asg') j" for j
    by (rule range_policy_sim [OF Cons.prems]) (use sum_range_count [of "length ms" "length ps"] assms(1) in simp)
  from Cons.IH [OF this] show ?case by (simp add: x)
qed simp

lemma range_policy_eq:
  assumes "ms \<noteq> []"
  shows "\<exists>r. RangeRebalancePolicy_Assign ms ts = Some r \<and>
     (\<forall>m. flatten (owned r m) = owned (RangeAssignor_Assign ms ts) m)"
  using range_policy_fold_eq [OF assms, of "init_assignments ms" "init_assignments ms" ts] assms
  by (simp add: RangeRebalancePolicy_Assign_def RangeAssignor_Assign_def)

text \<open>What a policy assigns to a member, as a list of partitions.\<close>

definition policy_owned :: "(string \<rightharpoonup> PartitionAssignment list) option \<Rightarrow> string \<Rightarrow> TopicPartition list" where
  "policy_owned r m = (case r of None \<Rightarrow> [] | Some asg \<Rightarrow> flatten (owned asg m))"

lemma policy_empty: "policy_owned (RoundRobinRebalancePolicy_Assign [] ts) m = []"
  "policy_owned (RangeRebalancePolicy_Assign [] ts) m = []"
  by (cases "all_partitions ts"; simp add: policy_owned_def RoundRobinRebalancePolicy_Assign_def)
    (cases ts; simp add: policy_owned_def RangeRebalancePolicy_Assign_def)

lemma mset_concat_map_cong:
  "(\<And>m. m \<in> set ms \<Longrightarrow> mset (f m) = mset (g m)) \<Longrightarrow> mset (concat (map f ms)) = mset (concat (map g ms))"
  by (induction ms) auto

interpretation rr_policy: balanced_assignor "\<lambda>ms ts. policy_owned (RoundRobinRebalancePolicy_Assign ms ts)"
proof
  fix ms :: "string list" and ts m
  have eq: "mset (policy_owned (RoundRobinRebalancePolicy_Assign ms ts) m) = mset (owned (RoundRobinAssignor_Assign ms ts) m)"
    if "ms \<noteq> []" for m
    using rr_policy_eq [OF that, of ts] by (metis option.simps(5) policy_owned_def)
  show "ms \<noteq> [] \<Longrightarrow> distinct ms \<Longrightarrow>
      mset (concat (map (policy_owned (RoundRobinRebalancePolicy_Assign ms ts)) ms)) = mset (all_partitions ts)"
    using mset_concat_map_cong [of ms, OF eq] rr.complete [of ms ts] by simp
  show "m \<notin> set ms \<Longrightarrow> policy_owned (RoundRobinRebalancePolicy_Assign ms ts) m = []"
    using eq [of m] rr.nothing_else [of m ms ts] by (cases "ms = []") (simp_all add: policy_empty)
  fix k
  show "distinct ms \<Longrightarrow> k < length ms \<Longrightarrow>
      length (policy_owned (RoundRobinRebalancePolicy_Assign ms ts) (ms ! k)) =
        range_count (length (all_partitions ts)) (length ms) k"
    using eq [of "ms ! k"] rr.share [of ms k ts] by (metis list.size(3) not_less0 mset_eq_length)
qed

interpretation range_policy: assignor "\<lambda>ms ts. policy_owned (RangeRebalancePolicy_Assign ms ts)"
proof
  fix ms :: "string list" and ts m
  have eq: "policy_owned (RangeRebalancePolicy_Assign ms ts) = owned (RangeAssignor_Assign ms ts)" if "ms \<noteq> []"
    using range_policy_eq [OF that, of ts] by (auto simp: policy_owned_def)
  show "ms \<noteq> [] \<Longrightarrow> distinct ms \<Longrightarrow>
      mset (concat (map (policy_owned (RangeRebalancePolicy_Assign ms ts)) ms)) = mset (all_partitions ts)"
    using eq range.complete [of ms ts] by simp
  show "m \<notin> set ms \<Longrightarrow> policy_owned (RangeRebalancePolicy_Assign ms ts) m = []"
    using eq range.nothing_else [of m ms ts] by (cases "ms = []") (simp_all add: policy_empty)
qed

section \<open>Properties\<close>

text \<open>
  C12. Every strategy assigns each partition to exactly one member: for a group with members and
  topics without duplicate partitions, whatever order the maps are iterated in, the two assignors
  and the two policies give every partition exactly one owner, and own nothing that is not a
  partition of the topics.
\<close>

theorem assignment_exact:
  assumes "ms \<noteq> []" "distinct ms" "distinct (all_partitions ts)"
  shows "\<forall>assign \<in> {owned (RoundRobinAssignor_Assign ms ts), owned (RangeAssignor_Assign ms ts),
      policy_owned (RoundRobinRebalancePolicy_Assign ms ts), policy_owned (RangeRebalancePolicy_Assign ms ts)}.
     (\<forall>p \<in> set (all_partitions ts). \<exists>!m. p \<in> set (assign m)) \<and>
     (\<forall>m. set (assign m) \<subseteq> set (all_partitions ts)) \<and> (\<forall>m. assign m \<noteq> [] \<longrightarrow> m \<in> set ms)"
proof -
  note u = rr.unique_owner [OF assms] range.unique_owner [OF assms]
    rr_policy.unique_owner [OF assms] range_policy.unique_owner [OF assms]
  note i = rr.nothing_invented [OF assms(1,2)] range.nothing_invented [OF assms(1,2)]
    rr_policy.nothing_invented [OF assms(1,2)] range_policy.nothing_invented [OF assms(1,2)]
  note n = rr.nothing_else range.nothing_else rr_policy.nothing_else range_policy.nothing_else
  show ?thesis using u i n by (simp add: subset_iff) meson
qed

theorem assignment_exact_witness:
  "\<exists>!m. tp ''t'' 1 \<in> set (owned (RangeAssignor_Assign [''a'', ''b''] [(''t'', [0, 1, 2])]) m)"
  using assignment_exact [of "[''a'', ''b'']" "[(''t'', [0, 1, 2])]"]
  by (simp add: all_partitions_def tp_def)

text \<open>
  Round robin is balanced over all topics: member number \<open>k\<close> of \<open>n\<close> receives
  the quotient, plus one for the first members, so two members never differ by more than one
  partition; the policy and the assignor agree on the count.
\<close>

theorem round_robin_balanced:
  assumes "distinct ms" "j < length ms" "k < length ms"
  shows "length (owned (RoundRobinAssignor_Assign ms ts) (ms ! k)) =
       length (all_partitions ts) div length ms + (if k < length (all_partitions ts) mod length ms then 1 else 0) \<and>
     length (policy_owned (RoundRobinRebalancePolicy_Assign ms ts) (ms ! k)) =
       length (owned (RoundRobinAssignor_Assign ms ts) (ms ! k)) \<and>
     length (owned (RoundRobinAssignor_Assign ms ts) (ms ! j)) \<le> length (owned (RoundRobinAssignor_Assign ms ts) (ms ! k)) + 1"
  using rr.share [OF assms(1,3)] rr_policy.share [OF assms(1,3)] rr.balanced [OF assms]
  by (simp add: range_count_def)

theorem round_robin_balanced_witness:
  "length (owned (RoundRobinAssignor_Assign [''a'', ''b''] [(''t'', [0, 1, 2])]) ''a'') = 2 \<and>
   length (owned (RoundRobinAssignor_Assign [''a'', ''b''] [(''t'', [0, 1, 2])]) ''b'') = 1"
proof -
  have l: "length (all_partitions [(''t'', [0, 1, 2])]) = 3" "length [''a'', ''b''] = 2"
    by (simp_all add: all_partitions_def)
  from round_robin_balanced [of "[''a'', ''b'']" 0 0 "[(''t'', [0, 1, 2])]", unfolded l]
    round_robin_balanced [of "[''a'', ''b'']" 0 1 "[(''t'', [0, 1, 2])]", unfolded l]
  show ?thesis by simp
qed



end
