(* ===== verification/Kafka_Groups.thy ===== *)
theory Kafka_Groups
  imports Kafka_Assign Errors "HOL-Library.Finite_Map"
begin

text \<open>
  Consumer groups: \<^verbatim>\<open>GroupCoordinator\<close> of \<^verbatim>\<open>src/pkg/kafka/group_coordinator.go\<close> and
  \<^verbatim>\<open>ConsumerGroupCoordinator\<close> of \<^verbatim>\<open>src/pkg/kafka/consumer_groups.go\<close>, with the
  group and member records they share. Each operation reads the clock once, as its argument
  \<open>now\<close>. Where a map is iterated and the order shows in the result, the order is an argument;
  the theorems assume it lists the keys of the map once each. The members are a finite map,
  so that the tests on the number of members compute. Arguments the Go functions never read
  (\<^verbatim>\<open>protocolType\<close> and \<^verbatim>\<open>protocols\<close> of \<^verbatim>\<open>JoinGroup\<close>) are left out. Generations are 32-bit words that
  wrap around.

  The inductive relation \<open>gc_step\<close> puts the operations of \<^verbatim>\<open>GroupCoordinator\<close>
  together; its invariant is proved by rule induction.
\<close>

section \<open>Data\<close>

text \<open>The zero \<^verbatim>\<open>time.Time\<close>, midnight of 1 January of year 1, in Unix nanoseconds.\<close>

definition zero_time :: instant where
  "zero_time = - 62135596800 * Second"

record GroupMember =
  gm_ID :: string
  gm_ClientID :: string
  gm_ClientHost :: string
  gm_SessionTimeout :: duration
  gm_RebalanceTimeout :: duration
  gm_Subscription :: "string list"
  gm_Assignment :: "TopicPartition list"
  gm_Metadata :: "byte list option"
  gm_JoinedAt :: instant
  gm_LastHeartbeat :: instant

datatype ConsumerGroupStateEnum = StateUnknown | StatePreparingRebalance | StateCompletingRebalance
  | StateStable | StateDead | StateEmpty

fun state_String :: "ConsumerGroupStateEnum \<Rightarrow> string" where
  "state_String StatePreparingRebalance = ''PreparingRebalance''"
| "state_String StateCompletingRebalance = ''CompletingRebalance''"
| "state_String StateStable = ''Stable''"
| "state_String StateDead = ''Dead''"
| "state_String StateEmpty = ''Empty''"
| "state_String StateUnknown = ''Unknown''"

text \<open>\<^verbatim>\<open>StateAwaitingSync = ConsumerGroupStateCompletingRebalance\<close>\<close>

abbreviation StateAwaitingSync :: ConsumerGroupStateEnum where
  "StateAwaitingSync \<equiv> StateCompletingRebalance"

record ConsumerGroup =
  cg_ID :: string
  cg_Members :: "(string, GroupMember) fmap"
  cg_State :: ConsumerGroupStateEnum
  cg_Protocol :: string
  cg_Leader :: string
  cg_Generation :: i32
  cg_ProtocolMetadata :: "string \<rightharpoonup> byte list"
  cg_Assignments :: "string \<rightharpoonup> TopicPartition list"
  cg_Offsets :: "TopicPartition \<rightharpoonup> i64"
  cg_SessionTimeout :: duration
  cg_RebalanceTimeout :: duration
  cg_CreatedAt :: instant
  cg_LastHeartbeat :: instant

datatype group_error =
    GroupNotFound string
  | MemberNotFound string
  | GenerationMismatch i32 i32
  | NotStable ConsumerGroupStateEnum

section \<open>GroupCoordinator\<close>

record GroupCoordinator =
  gc_groups :: "string \<rightharpoonup> ConsumerGroup"
  gc_sessionTimeout :: duration
  gc_rebalanceTimeout :: duration

record GroupMemberInfo =
  mi_MemberID :: string
  mi_Metadata :: "byte list option"

record JoinGroupResponse =
  jr_GenerationID :: i32
  jr_ProtocolName :: string
  jr_LeaderID :: string
  jr_MemberID :: string
  jr_Members :: "GroupMemberInfo list"

record SyncGroupResponse =
  sr_Assignment :: "byte list option"

definition NewGroupCoordinator :: GroupCoordinator where
  "NewGroupCoordinator =
     \<lparr>gc_groups = Map.empty, gc_sessionTimeout = 30 * Second, gc_rebalanceTimeout = 60 * Second\<rparr>"

definition new_group :: "instant \<Rightarrow> string \<Rightarrow> ConsumerGroup" where
  "new_group now groupID =
     \<lparr>cg_ID = groupID, cg_Members = fmempty, cg_State = StateEmpty, cg_Protocol = [], cg_Leader = [],
      cg_Generation = 0, cg_ProtocolMetadata = Map.empty, cg_Assignments = Map.empty,
      cg_Offsets = Map.empty, cg_SessionTimeout = 0, cg_RebalanceTimeout = 0, cg_CreatedAt = now,
      cg_LastHeartbeat = zero_time\<rparr>"

definition getOrCreateGroup :: "instant \<Rightarrow> string \<Rightarrow> GroupCoordinator \<Rightarrow> ConsumerGroup \<times> GroupCoordinator" where
  "getOrCreateGroup now groupID gc =
     (case gc_groups gc groupID of
        Some g \<Rightarrow> (g, gc)
      | None \<Rightarrow> (new_group now groupID,
                 gc\<lparr>gc_groups := (gc_groups gc)(groupID \<mapsto> new_group now groupID)\<rparr>))"

definition set_group :: "string \<Rightarrow> ConsumerGroup \<Rightarrow> GroupCoordinator \<Rightarrow> GroupCoordinator" where
  "set_group groupID g gc = gc\<lparr>gc_groups := (gc_groups gc)(groupID \<mapsto> g)\<rparr>"

text \<open>The member's entry: an existing one is refreshed, a new one added; the first becomes leader.\<close>

definition join_member ::
  "instant \<Rightarrow> string \<Rightarrow> string \<Rightarrow> string \<Rightarrow> duration \<Rightarrow> duration \<Rightarrow> byte list option \<Rightarrow> ConsumerGroup \<Rightarrow> ConsumerGroup" where
  "join_member now memberID clientID clientHost sessionTimeout rebalanceTimeout metadata g =
     (case fmlookup (cg_Members g) memberID of
        Some m \<Rightarrow>
          g\<lparr>cg_Members := fmupd memberID
              (m\<lparr>gm_LastHeartbeat := now, gm_SessionTimeout := sessionTimeout,
                 gm_RebalanceTimeout := rebalanceTimeout, gm_Metadata := metadata\<rparr>) (cg_Members g)\<rparr>
      | None \<Rightarrow>
          g\<lparr>cg_Leader := (if cg_Members g = fmempty then memberID else cg_Leader g),
            cg_Members := fmupd memberID
              \<lparr>gm_ID = memberID, gm_ClientID = clientID, gm_ClientHost = clientHost,
               gm_SessionTimeout = sessionTimeout, gm_RebalanceTimeout = rebalanceTimeout,
               gm_Subscription = [], gm_Assignment = [], gm_Metadata = metadata,
               gm_JoinedAt = now, gm_LastHeartbeat = now\<rparr> (cg_Members g)\<rparr>)"

text \<open>A stable group starts a rebalance with a new generation.\<close>

definition trigger_rebalance :: "ConsumerGroup \<Rightarrow> ConsumerGroup" where
  "trigger_rebalance g =
     (if cg_State g = StateStable
      then g\<lparr>cg_State := StatePreparingRebalance, cg_Generation := cg_Generation g + 1\<rparr> else g)"

text \<open>\<open>order\<close> is the iteration order of the members when the leader's answer lists them.\<close>

definition JoinGroup ::
  "instant \<Rightarrow> string list \<Rightarrow> string \<Rightarrow> string \<Rightarrow> string \<Rightarrow> string \<Rightarrow> duration \<Rightarrow> duration \<Rightarrow> byte list option \<Rightarrow>
     GroupCoordinator \<Rightarrow> JoinGroupResponse \<times> GroupCoordinator" where
  "JoinGroup now order groupID memberID clientID clientHost sessionTimeout rebalanceTimeout metadata gc =
     (let (g, gc) = getOrCreateGroup now groupID gc;
          memberID = (if memberID = [] then clientID @ ''-'' @ clientHost @ ''-'' @ dec (nat now) else memberID);
          g = join_member now memberID clientID clientHost sessionTimeout rebalanceTimeout metadata g;
          g = trigger_rebalance g;
          resp = \<lparr>jr_GenerationID = cg_Generation g, jr_ProtocolName = cg_Protocol g,
                  jr_LeaderID = cg_Leader g, jr_MemberID = memberID,
                  jr_Members =
                    (if memberID = cg_Leader g
                     then map (\<lambda>i. \<lparr>mi_MemberID = i,
                         mi_Metadata = (case fmlookup (cg_Members g) i of None \<Rightarrow> None | Some m \<Rightarrow> gm_Metadata m)\<rparr>) order
                     else [])\<rparr>
      in (resp, set_group groupID (g\<lparr>cg_State := StateAwaitingSync\<rparr>) gc))"

definition SyncGroup ::
  "instant \<Rightarrow> string \<Rightarrow> string \<Rightarrow> i32 \<Rightarrow> (string, byte list option) fmap \<Rightarrow> GroupCoordinator \<Rightarrow>
     (group_error + SyncGroupResponse) \<times> GroupCoordinator" where
  "SyncGroup now groupID memberID generationID assignments gc =
     (case gc_groups gc groupID of
        None \<Rightarrow> (Inl (GroupNotFound groupID), gc)
      | Some g \<Rightarrow>
          if cg_Generation g \<noteq> generationID then (Inl (GenerationMismatch (cg_Generation g) generationID), gc)
          else case fmlookup (cg_Members g) memberID of
            None \<Rightarrow> (Inl (MemberNotFound memberID), gc)
          | Some _ \<Rightarrow>
              let g = (if memberID = cg_Leader g \<and> assignments \<noteq> fmempty
                       then g\<lparr>cg_Members := fmmap_keys (\<lambda>i m. case fmlookup assignments i of
                                  None \<Rightarrow> m | Some a \<Rightarrow> m\<lparr>gm_Metadata := a\<rparr>) (cg_Members g),
                              cg_State := StateStable, cg_LastHeartbeat := now\<rparr>
                       else g)
              in (Inr \<lparr>sr_Assignment = gm_Metadata (the (fmlookup (cg_Members g) memberID))\<rparr>, set_group groupID g gc))"

definition Heartbeat ::
  "instant \<Rightarrow> string \<Rightarrow> string \<Rightarrow> i32 \<Rightarrow> GroupCoordinator \<Rightarrow> group_error option \<times> GroupCoordinator" where
  "Heartbeat now groupID memberID generationID gc =
     (case gc_groups gc groupID of
        None \<Rightarrow> (Some (GroupNotFound groupID), gc)
      | Some g \<Rightarrow>
          if cg_Generation g \<noteq> generationID then (Some (GenerationMismatch (cg_Generation g) generationID), gc)
          else case fmlookup (cg_Members g) memberID of
            None \<Rightarrow> (Some (MemberNotFound memberID), gc)
          | Some m \<Rightarrow>
              (None, set_group groupID (g\<lparr>cg_Members := fmupd memberID (m\<lparr>gm_LastHeartbeat := now\<rparr>) (cg_Members g)\<rparr>) gc))"

text \<open>What losing members does to a group; \<open>order\<close> is the iteration order of those left, and
  \<open>elect\<close> whether a new leader is needed.\<close>

definition after_loss :: "string list \<Rightarrow> bool \<Rightarrow> ConsumerGroup \<Rightarrow> ConsumerGroup" where
  "after_loss order elect g =
     (if cg_Members g = fmempty
      then g\<lparr>cg_State := StateEmpty, cg_Leader := [], cg_Generation := 0\<rparr>
      else g\<lparr>cg_State := StatePreparingRebalance, cg_Generation := cg_Generation g + 1,
             cg_Leader := (if elect then hd order else cg_Leader g)\<rparr>)"

definition LeaveGroup :: "string list \<Rightarrow> string \<Rightarrow> string \<Rightarrow> GroupCoordinator \<Rightarrow> group_error option \<times> GroupCoordinator" where
  "LeaveGroup order groupID memberID gc =
     (case gc_groups gc groupID of
        None \<Rightarrow> (Some (GroupNotFound groupID), gc)
      | Some g \<Rightarrow>
          (None, set_group groupID
             (after_loss order (memberID = cg_Leader g) (g\<lparr>cg_Members := fmdrop memberID (cg_Members g)\<rparr>)) gc))"

definition member_expired :: "instant \<Rightarrow> GroupMember \<Rightarrow> bool" where
  "member_expired now m \<longleftrightarrow> time_sub now (gm_LastHeartbeat m) > gm_SessionTimeout m"

text \<open>One group in one round of \<^verbatim>\<open>checkHeartbeats\<close>, and the round.\<close>

definition expire_group :: "instant \<Rightarrow> string list \<Rightarrow> ConsumerGroup \<Rightarrow> ConsumerGroup" where
  "expire_group now order g =
     (let ms = fmfilter (\<lambda>i. \<not> member_expired now (the (fmlookup (cg_Members g) i))) (cg_Members g)
      in if ms = cg_Members g then g
         else after_loss order (cg_Leader g = [] \<or> fmlookup ms (cg_Leader g) = None) (g\<lparr>cg_Members := ms\<rparr>))"

definition checkHeartbeats :: "instant \<Rightarrow> (string \<Rightarrow> string list) \<Rightarrow> GroupCoordinator \<Rightarrow> GroupCoordinator" where
  "checkHeartbeats now orders gc =
     gc\<lparr>gc_groups := (\<lambda>i. map_option (expire_group now (orders i)) (gc_groups gc i))\<rparr>"

record MemberDescription =
  md_MemberID :: string
  md_ClientID :: string
  md_ClientHost :: string
  md_Metadata :: "byte list option"
  md_Assignment :: "byte list option"

record GroupDescription =
  gd_GroupID :: string
  gd_State :: string
  gd_ProtocolType :: string
  gd_Protocol :: string
  gd_Members :: "MemberDescription list"
  gd_Generation :: i32

record GroupOverview =
  go_GroupID :: string
  go_ProtocolType :: string
  go_State :: string

definition describe_group :: "string list \<Rightarrow> string \<Rightarrow> ConsumerGroup \<Rightarrow> GroupDescription" where
  "describe_group order groupID g =
     \<lparr>gd_GroupID = groupID, gd_State = state_String (cg_State g), gd_ProtocolType = cg_Protocol g,
      gd_Protocol = cg_Protocol g,
      gd_Members = map (\<lambda>i. case fmlookup (cg_Members g) i of
          None \<Rightarrow> \<lparr>md_MemberID = i, md_ClientID = [], md_ClientHost = [], md_Metadata = None, md_Assignment = None\<rparr>
        | Some m \<Rightarrow> \<lparr>md_MemberID = i, md_ClientID = gm_ClientID m, md_ClientHost = gm_ClientHost m,
                      md_Metadata = gm_Metadata m, md_Assignment = gm_Metadata m\<rparr>) order,
      gd_Generation = cg_Generation g\<rparr>"

definition DescribeGroups ::
  "(string \<Rightarrow> string list) \<Rightarrow> string list \<Rightarrow> GroupCoordinator \<Rightarrow> (string \<rightharpoonup> GroupDescription)" where
  "DescribeGroups orders groupIDs gc =
     (\<lambda>i. if i \<in> set groupIDs then map_option (describe_group (orders i) i) (gc_groups gc i) else None)"

definition ListGroups :: "string list \<Rightarrow> GroupCoordinator \<Rightarrow> GroupOverview list" where
  "ListGroups order gc =
     concat (map (\<lambda>i. case gc_groups gc i of
        None \<Rightarrow> []
      | Some g \<Rightarrow> [\<lparr>go_GroupID = i, go_ProtocolType = cg_Protocol g, go_State = state_String (cg_State g)\<rparr>]) order)"

section \<open>ConsumerGroupCoordinator\<close>

record ConsumerGroupCoordinator =
  cc_groups :: "string \<rightharpoonup> ConsumerGroup"
  cc_sessionTimeout :: duration
  cc_rebalanceTimeout :: duration
  cc_heartbeatInterval :: duration

definition NewConsumerGroupCoordinator :: ConsumerGroupCoordinator where
  "NewConsumerGroupCoordinator =
     \<lparr>cc_groups = Map.empty, cc_sessionTimeout = 30 * Second, cc_rebalanceTimeout = 60 * Second,
      cc_heartbeatInterval = 3 * Second\<rparr>"

definition cc_set :: "string \<Rightarrow> ConsumerGroup \<Rightarrow> ConsumerGroupCoordinator \<Rightarrow> ConsumerGroupCoordinator" where
  "cc_set groupID g c = c\<lparr>cc_groups := (cc_groups c)(groupID \<mapsto> g)\<rparr>"

definition cc_JoinGroup ::
  "instant \<Rightarrow> string \<Rightarrow> string \<Rightarrow> string \<Rightarrow> string \<Rightarrow> duration \<Rightarrow> duration \<Rightarrow>
     ConsumerGroupCoordinator \<Rightarrow> string \<times> ConsumerGroupCoordinator" where
  "cc_JoinGroup now groupID memberID clientID protocolType sessionTimeout rebalanceTimeout c =
     (let g = (case cc_groups c groupID of
                 Some g \<Rightarrow> g
               | None \<Rightarrow> (new_group now groupID)\<lparr>cg_Protocol := protocolType,
                           cg_SessionTimeout := sessionTimeout, cg_RebalanceTimeout := rebalanceTimeout\<rparr>);
          memberID = (if memberID = [] then clientID @ ''-'' @ dec (nat now) else memberID);
          m = \<lparr>gm_ID = memberID, gm_ClientID = clientID, gm_ClientHost = [],
               gm_SessionTimeout = sessionTimeout, gm_RebalanceTimeout = rebalanceTimeout,
               gm_Subscription = [], gm_Assignment = [], gm_Metadata = None,
               gm_JoinedAt = now, gm_LastHeartbeat = now\<rparr>
      in (memberID, cc_set groupID (g\<lparr>cg_Members := fmupd memberID m (cg_Members g),
            cg_State := StatePreparingRebalance, cg_Generation := cg_Generation g + 1\<rparr>) c))"

definition cc_SyncGroup ::
  "string \<Rightarrow> string \<Rightarrow> i32 \<Rightarrow> (string \<rightharpoonup> TopicPartition list) \<Rightarrow> ConsumerGroupCoordinator \<Rightarrow>
     group_error option \<times> ConsumerGroupCoordinator" where
  "cc_SyncGroup groupID memberID generation assignments c =
     (case cc_groups c groupID of
        None \<Rightarrow> (Some (GroupNotFound groupID), c)
      | Some g \<Rightarrow>
          if cg_Generation g \<noteq> generation then (Some (GenerationMismatch (cg_Generation g) generation), c)
          else (None, cc_set groupID (g\<lparr>cg_Assignments := assignments, cg_State := StateStable\<rparr>) c))"

definition cc_Heartbeat ::
  "instant \<Rightarrow> string \<Rightarrow> string \<Rightarrow> i32 \<Rightarrow> ConsumerGroupCoordinator \<Rightarrow> group_error option \<times> ConsumerGroupCoordinator" where
  "cc_Heartbeat now groupID memberID generation c =
     (case cc_groups c groupID of
        None \<Rightarrow> (Some (GroupNotFound groupID), c)
      | Some g \<Rightarrow>
          (case fmlookup (cg_Members g) memberID of
             None \<Rightarrow> (Some (MemberNotFound memberID), c)
           | Some m \<Rightarrow>
               if cg_Generation g \<noteq> generation then (Some (GenerationMismatch (cg_Generation g) generation), c)
               else (None, cc_set groupID (g\<lparr>cg_Members := fmupd memberID (m\<lparr>gm_LastHeartbeat := now\<rparr>) (cg_Members g),
                       cg_LastHeartbeat := now\<rparr>) c)))"

definition cc_LeaveGroup :: "string \<Rightarrow> string \<Rightarrow> ConsumerGroupCoordinator \<Rightarrow> group_error option \<times> ConsumerGroupCoordinator" where
  "cc_LeaveGroup groupID memberID c =
     (case cc_groups c groupID of
        None \<Rightarrow> (Some (GroupNotFound groupID), c)
      | Some g \<Rightarrow>
          let g = g\<lparr>cg_Members := fmdrop memberID (cg_Members g)\<rparr>
          in (None, cc_set groupID
                (if cg_Members g = fmempty then g\<lparr>cg_State := StateEmpty\<rparr>
                 else g\<lparr>cg_State := StatePreparingRebalance, cg_Generation := cg_Generation g + 1\<rparr>) c))"

definition cc_CommitOffset ::
  "string \<Rightarrow> (TopicPartition \<rightharpoonup> i64) \<Rightarrow> ConsumerGroupCoordinator \<Rightarrow> group_error option \<times> ConsumerGroupCoordinator" where
  "cc_CommitOffset groupID commits c =
     (case cc_groups c groupID of
        None \<Rightarrow> (Some (GroupNotFound groupID), c)
      | Some g \<Rightarrow> (None, cc_set groupID (g\<lparr>cg_Offsets := cg_Offsets g ++ commits\<rparr>) c))"

definition cc_FetchOffsets ::
  "string \<Rightarrow> TopicPartition list \<Rightarrow> ConsumerGroupCoordinator \<Rightarrow> group_error + (TopicPartition \<rightharpoonup> i64)" where
  "cc_FetchOffsets groupID partitions c =
     (case cc_groups c groupID of
        None \<Rightarrow> Inl (GroupNotFound groupID)
      | Some g \<Rightarrow>
          Inr (\<lambda>p. if p \<in> set partitions
                   then Some (case cg_Offsets g p of Some off \<Rightarrow> off | None \<Rightarrow> -1) else None))"

definition cc_ListGroups :: "ConsumerGroupCoordinator \<Rightarrow> (string \<rightharpoonup> ConsumerGroup)" where
  "cc_ListGroups c = cc_groups c"

definition cc_DescribeGroups :: "string list \<Rightarrow> ConsumerGroupCoordinator \<Rightarrow> (string \<rightharpoonup> ConsumerGroup)" where
  "cc_DescribeGroups groupIDs c = (\<lambda>i. if i \<in> set groupIDs then cc_groups c i else None)"

text \<open>\<open>order\<close> and \<open>topics\<close> are the members and the topics in iteration order.\<close>

definition cc_StartRebalance ::
  "string list \<Rightarrow> string \<Rightarrow> topics \<Rightarrow> ConsumerGroupCoordinator \<Rightarrow> group_error option \<times> ConsumerGroupCoordinator" where
  "cc_StartRebalance order groupID topics c =
     (case cc_groups c groupID of
        None \<Rightarrow> (Some (GroupNotFound groupID), c)
      | Some g \<Rightarrow>
          if cg_State g \<noteq> StateStable then (Some (NotStable (cg_State g)), c)
          else (None, cc_set groupID (g\<lparr>cg_Generation := cg_Generation g + 1,
                  cg_Assignments := RoundRobinAssignor_Assign order topics, cg_State := StateStable\<rparr>) c))"

text \<open>One group in \<^verbatim>\<open>CleanupExpiredGroups\<close>: \<open>None\<close> when it is removed.\<close>

definition cc_cleanup_group :: "instant \<Rightarrow> ConsumerGroup \<Rightarrow> ConsumerGroup option" where
  "cc_cleanup_group now g =
     (let ms = fmfilter (\<lambda>i. \<not> time_sub now (gm_LastHeartbeat (the (fmlookup (cg_Members g) i)))
                         > cg_SessionTimeout g) (cg_Members g);
          g = (if ms = cg_Members g then g
               else if ms = fmempty then g\<lparr>cg_Members := ms, cg_State := StateEmpty\<rparr>
               else g\<lparr>cg_Members := ms, cg_State := StatePreparingRebalance, cg_Generation := cg_Generation g + 1\<rparr>)
      in if cg_Members g = fmempty \<and> time_sub now (cg_LastHeartbeat g) > 5 * Minute then None else Some g)"

definition CleanupExpiredGroups :: "instant \<Rightarrow> ConsumerGroupCoordinator \<Rightarrow> ConsumerGroupCoordinator" where
  "CleanupExpiredGroups now c =
     c\<lparr>cc_groups := (\<lambda>i. case cc_groups c i of None \<Rightarrow> None | Some g \<Rightarrow> cc_cleanup_group now g)\<rparr>"

section \<open>Runs of GroupCoordinator\<close>

text \<open>The members a round of \<^verbatim>\<open>checkHeartbeats\<close> leaves in a group.\<close>

definition unexpired :: "instant \<Rightarrow> ConsumerGroup \<Rightarrow> (string, GroupMember) fmap" where
  "unexpired now g = fmfilter (\<lambda>i. \<not> member_expired now (the (fmlookup (cg_Members g) i))) (cg_Members g)"

inductive gc_step :: "GroupCoordinator \<Rightarrow> GroupCoordinator \<Rightarrow> bool" where
  join: "gc_step gc (snd (JoinGroup now order groupID memberID clientID clientHost st rt metadata gc))"
    if "0 \<le> now"
| sync: "gc_step gc (snd (SyncGroup now groupID memberID generationID assignments gc))"
| heartbeat: "gc_step gc (snd (Heartbeat now groupID memberID generationID gc))"
| leave: "gc_step gc (snd (LeaveGroup order groupID memberID gc))"
    if "\<And>g. gc_groups gc groupID = Some g \<Longrightarrow> range_order (fmlookup (fmdrop memberID (cg_Members g))) order"
| tick: "gc_step gc (checkHeartbeats now orders gc)"
    if "\<And>i g. gc_groups gc i = Some g \<Longrightarrow> range_order (fmlookup (unexpired now g)) (orders i)"

inductive gc_reach :: "GroupCoordinator \<Rightarrow> bool" where
  start: "gc_reach NewGroupCoordinator"
| run: "gc_reach gc \<Longrightarrow> gc_step gc gc' \<Longrightarrow> gc_reach gc'"

text \<open>A group without members is in its initial state. A group with members has one of them as its
  leader and is in one of the three states of a rebalance. Members are stored under their own,
  non-empty, identifiers.\<close>

definition group_ok :: "string \<Rightarrow> ConsumerGroup \<Rightarrow> bool" where
  "group_ok i g \<longleftrightarrow>
     cg_ID g = i \<and>
     (if cg_Members g = fmempty
      then cg_State g = StateEmpty \<and> cg_Leader g = [] \<and> cg_Generation g = 0
      else cg_Leader g |\<in>| fmdom (cg_Members g) \<and>
           cg_State g \<in> {StatePreparingRebalance, StateCompletingRebalance, StateStable}) \<and>
     [] |\<notin>| fmdom (cg_Members g) \<and>
     fmpred (\<lambda>k m. gm_ID m = k) (cg_Members g)"

definition gc_ok :: "GroupCoordinator \<Rightarrow> bool" where
  "gc_ok gc \<longleftrightarrow> (\<forall>i g. gc_groups gc i = Some g \<longrightarrow> group_ok i g)"

section \<open>The invariant\<close>

lemma fmap_nonempty: "fmlookup m k = Some v \<Longrightarrow> m \<noteq> fmempty"
  by auto

lemma fmupd_nonempty [simp]: "fmupd k v m \<noteq> fmempty"
  by (metis fmap_nonempty fmupd_lookup)

lemma range_order_hd:
  assumes "range_order (fmlookup m) order" "m \<noteq> fmempty"
  shows "hd order |\<in>| fmdom m"
proof -
  have "set order = fset (fmdom m)"
    using assms(1) by (simp add: range_order_def fmdom.rep_eq)
  moreover have "order \<noteq> []"
    using assms calculation by (metis bot_fset.rep_eq fmrestrict_fset_dom fmrestrict_fset_null fset_inject set_empty)
  ultimately show ?thesis
    by (metis hd_in_set)
qed

lemma gc_ok_group: "gc_ok gc \<Longrightarrow> gc_groups gc i = Some g \<Longrightarrow> group_ok i g"
  by (simp add: gc_ok_def)

lemma gc_ok_set_group: "gc_ok gc \<Longrightarrow> group_ok i g \<Longrightarrow> gc_ok (set_group i g gc)"
  by (simp add: gc_ok_def set_group_def)

lemma new_group_ok: "group_ok i (new_group now i)"
  by (simp add: group_ok_def new_group_def)

lemma getOrCreateGroup_ok:
  assumes "gc_ok gc" "getOrCreateGroup now i gc = (g, gc')"
  shows "gc_ok gc'" "group_ok i g"
  using assms new_group_ok by (auto simp: getOrCreateGroup_def gc_ok_def split: option.splits if_splits)

lemma join_member_ok:
  assumes "group_ok i g" "memberID \<noteq> []"
  shows "group_ok i (trigger_rebalance (join_member now memberID c h st rt md g)\<lparr>cg_State := StateAwaitingSync\<rparr>)"
  using assms
  by (auto simp: group_ok_def join_member_def trigger_rebalance_def fmpred_iff
      split: option.splits if_splits dest: fmdomI)

lemma JoinGroup_ok:
  assumes "gc_ok gc" shows "gc_ok (snd (JoinGroup now order i m c h st rt md gc))"
proof -
  obtain g gc' where g: "getOrCreateGroup now i gc = (g, gc')"
    by fastforce
  then show ?thesis
    using getOrCreateGroup_ok [OF assms g]
    by (auto simp: JoinGroup_def Let_def intro!: gc_ok_set_group join_member_ok)
qed

lemma SyncGroup_ok:
  assumes "gc_ok gc" shows "gc_ok (snd (SyncGroup now i m gen as gc))"
proof (cases "gc_groups gc i")
  case (Some g)
  have "group_ok i (g\<lparr>cg_Members := fmmap_keys (\<lambda>i m. case fmlookup as i of
            None \<Rightarrow> m | Some a \<Rightarrow> m\<lparr>gm_Metadata := a\<rparr>) (cg_Members g),
          cg_State := StateStable, cg_LastHeartbeat := now\<rparr>)"
    if "fmlookup (cg_Members g) m = Some x" for x
    using gc_ok_group [OF assms Some] that
    by (auto simp: group_ok_def fmpred_iff fmap_nonempty fmdomI split: option.splits if_splits
        dest!: arg_cong [where f = fmdom])
  then show ?thesis
    using assms gc_ok_group [OF assms Some] Some
    by (auto simp: SyncGroup_def Let_def split: option.splits intro!: gc_ok_set_group)
qed (simp add: SyncGroup_def assms)

lemma Heartbeat_ok:
  assumes "gc_ok gc" shows "gc_ok (snd (Heartbeat now i m gen gc))"
proof (cases "gc_groups gc i")
  case (Some g)
  then show ?thesis
    using assms gc_ok_group [OF assms Some]
    by (auto simp: Heartbeat_def group_ok_def fmpred_iff split: option.splits if_splits
        intro!: gc_ok_set_group dest: fmdomI)
qed (simp add: Heartbeat_def assms)

text \<open>Losing members keeps the invariant when a new leader is elected whenever the old one is gone.\<close>

lemma after_loss_ok:
  assumes "group_ok i g" "fmpred (\<lambda>k m. gm_ID m = k) ms" "[] |\<notin>| fmdom ms"
    and "range_order (fmlookup ms) order" "ms \<noteq> fmempty \<Longrightarrow> \<not> elect \<Longrightarrow> cg_Leader g |\<in>| fmdom ms"
  shows "group_ok i (after_loss order elect (g\<lparr>cg_Members := ms\<rparr>))"
  using assms range_order_hd [of ms order] by (auto simp: group_ok_def after_loss_def)

lemma LeaveGroup_ok:
  assumes "gc_ok gc"
    and "\<And>g. gc_groups gc i = Some g \<Longrightarrow> range_order (fmlookup (fmdrop m (cg_Members g))) order"
  shows "gc_ok (snd (LeaveGroup order i m gc))"
proof (cases "gc_groups gc i")
  case (Some g)
  have "group_ok i (after_loss order (m = cg_Leader g) (g\<lparr>cg_Members := fmdrop m (cg_Members g)\<rparr>))"
    using gc_ok_group [OF assms(1) Some] assms(2) [OF Some]
    by (intro after_loss_ok) (auto simp: group_ok_def fmpred_iff split: if_splits)
  then show ?thesis
    using assms(1) Some by (simp add: LeaveGroup_def gc_ok_set_group)
qed (simp add: LeaveGroup_def assms)

lemma expire_group_ok:
  assumes "group_ok i g" "range_order (fmlookup (unexpired now g)) order"
  shows "group_ok i (expire_group now order g)"
proof -
  have "group_ok i (after_loss order (cg_Leader g = [] \<or> fmlookup (unexpired now g) (cg_Leader g) = None)
      (g\<lparr>cg_Members := unexpired now g\<rparr>))"
    using assms by (intro after_loss_ok) (auto simp: group_ok_def fmpred_iff unexpired_def split: if_splits)
  then show ?thesis
    using assms by (auto simp: expire_group_def Let_def unexpired_def)
qed

lemma gc_step_ok: "gc_step gc gc' \<Longrightarrow> gc_ok gc \<Longrightarrow> gc_ok gc'"
proof (induction rule: gc_step.induct)
  case (tick gc now orders)
  then show ?case
    by (auto simp: gc_ok_def checkHeartbeats_def intro!: expire_group_ok)
qed (auto intro: JoinGroup_ok SyncGroup_ok Heartbeat_ok LeaveGroup_ok)

lemma gc_reach_ok: "gc_reach gc \<Longrightarrow> gc_ok gc"
proof (induction rule: gc_reach.induct)
  case start
  then show ?case
    by (simp add: gc_ok_def NewGroupCoordinator_def)
qed (rule gc_step_ok)

section \<open>Properties\<close>

text \<open>C4. In every coordinator state reached by any sequence of joins, syncs, heartbeats, leaves and
  heartbeat checks, from an empty coordinator, every group is well formed: without members it is
  \<^verbatim>\<open>Empty\<close>, has no leader and generation 0; with members its leader is one of them and
  it is preparing, completing or stable; members are stored under their own identifiers.\<close>

theorem group_invariant:
  assumes "gc_reach gc" "gc_groups gc i = Some g"
  shows "group_ok i g"
  using gc_ok_group [OF gc_reach_ok [OF assms(1)] assms(2)] .

theorem group_invariant_witness:
  "let gc = snd (JoinGroup 5 [] ''g'' ''a'' ''c'' ''h'' 7 9 (Some []) NewGroupCoordinator);
       g = the (gc_groups gc ''g'')
   in gc_reach gc \<and> cg_Leader g = ''a'' \<and> group_ok ''g'' g"
proof -
  define gc where "gc = snd (JoinGroup 5 [] ''g'' ''a'' ''c'' ''h'' 7 9 (Some []) NewGroupCoordinator)"
  have reach: "gc_reach gc"
    unfolding gc_def by (intro gc_reach.run [OF gc_reach.start] gc_step.join) simp
  have "\<exists>g. gc_groups gc ''g'' = Some g \<and> cg_Leader g = ''a''"
    by (simp add: gc_def JoinGroup_def getOrCreateGroup_def NewGroupCoordinator_def set_group_def Let_def
        trigger_rebalance_def join_member_def new_group_def)
  then show ?thesis
    using group_invariant [OF reach] reach by (auto simp flip: gc_def)
qed

text \<open>A request of generation \<open>gen\<close> is refused, whoever sends it.\<close>

definition fenced :: "string \<Rightarrow> i32 \<Rightarrow> GroupCoordinator \<Rightarrow> bool" where
  "fenced i gen gc \<longleftrightarrow>
     (\<forall>now x as. fst (Heartbeat now i x gen gc) \<noteq> None \<and> isl (fst (SyncGroup now i x gen as gc)))"

lemma fenced_generation: "gc_groups gc i = Some g \<Longrightarrow> cg_Generation g \<noteq> gen \<Longrightarrow> fenced i gen gc"
  by (simp add: fenced_def Heartbeat_def SyncGroup_def)

lemma fenced_empty: "gc_groups gc i = Some g \<Longrightarrow> cg_Members g = fmempty \<Longrightarrow> fenced i gen gc"
  by (simp add: fenced_def Heartbeat_def SyncGroup_def)

lemma fenced_after_loss:
  assumes "gc_groups gc i = Some (after_loss order elect g)"
  shows "fenced i (cg_Generation g) gc"
  using fenced_empty [OF assms] fenced_generation [OF assms]
  by (cases "cg_Members g = fmempty") (auto simp: after_loss_def)

text \<open>A membership change fences the old generation: after a member leaves, after a heartbeat
  check that removes a member, and after a join into a stable group, every heartbeat and every sync
  that carries the previous generation is refused, whichever member sends it. The leave need not be
  by a member of the group: an unknown member identifier has the same effect.\<close>

theorem generation_fences:
  assumes "gc_groups gc i = Some g"
  shows "fenced i (cg_Generation g) (snd (LeaveGroup order i m gc)) \<and>
    (unexpired now g \<noteq> cg_Members g \<longrightarrow> fenced i (cg_Generation g) (checkHeartbeats now orders gc)) \<and>
    (cg_State g = StateStable \<longrightarrow>
      fenced i (cg_Generation g) (snd (JoinGroup now order i m c h st rt md gc)))"
proof (intro conjI impI)
  show "fenced i (cg_Generation g) (snd (LeaveGroup order i m gc))"
    using fenced_after_loss [where g = "g\<lparr>cg_Members := fmdrop m (cg_Members g)\<rparr>"] assms
    by (simp add: LeaveGroup_def set_group_def)
  show "fenced i (cg_Generation g) (checkHeartbeats now orders gc)" if "unexpired now g \<noteq> cg_Members g"
    using fenced_after_loss [where g = "g\<lparr>cg_Members := unexpired now g\<rparr>"] assms that
    by (simp add: checkHeartbeats_def expire_group_def Let_def unexpired_def)
  show "fenced i (cg_Generation g) (snd (JoinGroup now order i m c h st rt md gc))" if "cg_State g = StateStable"
    using assms that
    by (intro fenced_generation)
      (auto simp: JoinGroup_def getOrCreateGroup_def Let_def set_group_def trigger_rebalance_def
        join_member_def split: option.splits)
qed

text \<open>A stable group with two members, used by the instances below.\<close>

definition two_members :: ConsumerGroup where
  "two_members =
     (let m = \<lparr>gm_ID = ''a'', gm_ClientID = ''c'', gm_ClientHost = ''h'', gm_SessionTimeout = 10,
              gm_RebalanceTimeout = 20, gm_Subscription = [], gm_Assignment = [], gm_Metadata = None,
              gm_JoinedAt = 0, gm_LastHeartbeat = 0\<rparr>
      in (new_group 0 ''g'')\<lparr>cg_State := StateStable, cg_Leader := ''a'', cg_Generation := 4,
           cg_Members := fmap_of_list [(''a'', m), (''b'', m\<lparr>gm_ID := ''b'', gm_LastHeartbeat := 95\<rparr>)]\<rparr>)"

definition two_coord :: GroupCoordinator where
  "two_coord = set_group ''g'' two_members NewGroupCoordinator"

theorem generation_fences_witness:
  "fenced ''g'' 4 (snd (LeaveGroup [''b''] ''g'' ''a'' two_coord)) \<and>
   fenced ''g'' 4 (checkHeartbeats 100 (\<lambda>_. [''b'']) two_coord) \<and>
   fenced ''g'' 4 (snd (JoinGroup 100 [] ''g'' ''z'' ''c'' ''h'' 10 20 (Some []) two_coord))"
proof -
  have "gc_groups two_coord ''g'' = Some two_members" "cg_State two_members = StateStable"
    "cg_Generation two_members = 4"
    by (simp_all add: two_coord_def two_members_def set_group_def Let_def)
  moreover have "unexpired 100 two_members \<noteq> cg_Members two_members"
    by code_simp
  ultimately show ?thesis
    using generation_fences [where gc = two_coord and i = "''g''" and g = two_members] by simp
qed

text \<open>A join while the group awaits its assignment does not start a new generation. The leader's
  sync, with assignments computed before the new member came, is accepted and makes the group
  stable, and the new member's own sync then returns, as its assignment, the metadata it joined
  with.\<close>

theorem late_joiner_keeps_metadata:
  assumes "gc_groups gc i = Some g" "cg_State g = StateAwaitingSync"
    and "cg_Leader g |\<in>| fmdom (cg_Members g)" "m |\<notin>| fmdom (cg_Members g)" "m \<noteq> []"
    and "as \<noteq> fmempty" "m |\<notin>| fmdom as"
    and "JoinGroup now order i m c h st rt md gc = (r, gc1)"
    and "SyncGroup now1 i (cg_Leader g) (cg_Generation g) as gc1 = (s, gc2)"
  shows "jr_GenerationID r = cg_Generation g \<and> \<not> isl s \<and>
    map_option cg_State (gc_groups gc2 i) = Some StateStable \<and>
    fst (SyncGroup now2 i m (jr_GenerationID r) fmempty gc2) = Inr \<lparr>sr_Assignment = md\<rparr>"
proof -
  obtain l where l: "fmlookup (cg_Members g) (cg_Leader g) = Some l"
    using assms(3) by (metis fmlookup_dom_iff)
  have no: "fmlookup (cg_Members g) m = None" "fmlookup as m = None" "cg_Members g \<noteq> fmempty" "cg_Leader g \<noteq> m"
    using assms(3,4,7) by (auto simp: fmdom_notD)
  show ?thesis
    using assms(1,2,5,6,8,9) l no
    by (auto simp: JoinGroup_def getOrCreateGroup_def Let_def set_group_def trigger_rebalance_def
        join_member_def SyncGroup_def)
qed

definition awaiting_coord :: GroupCoordinator where
  "awaiting_coord = set_group ''g'' (two_members\<lparr>cg_State := StateAwaitingSync\<rparr>) NewGroupCoordinator"

theorem late_joiner_keeps_metadata_witness:
  "let (r, gc1) = JoinGroup 100 [] ''g'' ''z'' ''c'' ''h'' 10 20 (Some [1, 2]) awaiting_coord;
       (s, gc2) = SyncGroup 101 ''g'' ''a'' 4 (fmap_of_list [(''a'', Some [7]), (''b'', Some [8])]) gc1
   in jr_GenerationID r = 4 \<and> \<not> isl s \<and>
      map_option cg_State (gc_groups gc2 ''g'') = Some StateStable \<and>
      fst (SyncGroup 102 ''g'' ''z'' 4 fmempty gc2) = Inr \<lparr>sr_Assignment = Some [1, 2]\<rparr>"
proof -
  define g where "g = two_members\<lparr>cg_State := StateAwaitingSync\<rparr>"
  obtain r gc1 where j: "JoinGroup 100 [] ''g'' ''z'' ''c'' ''h'' 10 20 (Some [1, 2]) awaiting_coord = (r, gc1)"
    by fastforce
  obtain s gc2 where s: "SyncGroup 101 ''g'' ''a'' 4 (fmap_of_list [(''a'', Some [7]), (''b'', Some [8])]) gc1 = (s, gc2)"
    by fastforce
  have "gc_groups awaiting_coord ''g'' = Some g" "cg_State g = StateAwaitingSync"
    "cg_Leader g = ''a''" "cg_Generation g = 4" "''z'' |\<notin>| fmdom (cg_Members g)"
    "cg_Leader g |\<in>| fmdom (cg_Members g)"
    by (simp_all add: awaiting_coord_def g_def two_members_def set_group_def Let_def)
  then show ?thesis
    using late_joiner_keeps_metadata [where g = g and as = "fmap_of_list [(''a'', Some [7]), (''b'', Some [8])]"
        and ?now2.0 = 102 and ?now1.0 = 101 and s = s and ?gc2.0 = gc2, OF _ _ _ _ _ _ _ j] j s by auto
qed

lemmas cc_defs = cc_JoinGroup_def cc_SyncGroup_def cc_Heartbeat_def cc_LeaveGroup_def cc_CommitOffset_def
  cc_FetchOffsets_def cc_StartRebalance_def cc_set_def Let_def

text \<open>Any time from the epoch on is, for \<^verbatim>\<open>time.Time.Sub\<close>, the longest duration after
  the zero time.\<close>

lemma zero_time_expired: "0 \<le> now \<Longrightarrow> time_sub now zero_time > 5 * Minute"
  by (simp add: time_sub_def zero_time_def Second_def Minute_def maxDuration_def minDuration_def)

lemma fmfilter_of_empty: "m = fmempty \<Longrightarrow> fmfilter P m = fmempty"
  by (erule ssubst) (rule fmfilter_empty)

lemma cc_cleanup_empty:
  "cg_Members g = fmempty \<Longrightarrow>
     cc_cleanup_group now g = (if time_sub now (cg_LastHeartbeat g) > 5 * Minute then None else Some g)"
  by (simp add: cc_cleanup_group_def Let_def fmfilter_of_empty)

lemma fmdrop_only [simp]: "fmdrop k (fmupd k v fmempty) = fmempty"
  by (rule fmap_ext) simp

lemma cc_FetchOffsets_one:
  "Option.bind (cc_groups c i) (\<lambda>g. cg_Offsets g p) = Some n \<Longrightarrow> cc_FetchOffsets i [p] c = Inr [p \<mapsto> n]"
  by (auto simp: cc_FetchOffsets_def bind_eq_Some_conv fun_eq_iff)

text \<open>A consumer group of \<^verbatim>\<open>ConsumerGroupCoordinator\<close> that never sent a heartbeat is
  removed by the first clean-up after its only member leaves, together with the offsets it
  committed, however little time has passed. One heartbeat keeps the offsets for five
  minutes.\<close>

theorem cleanup_forgets_offsets:
  assumes "cc_groups c i = None" "0 \<le> now" "now \<le> now1" "now1 \<le> now2"
    and "c1 = snd (cc_JoinGroup now i m cid pt st rt c)" "m \<noteq> []"
    and "c2 = snd (cc_Heartbeat now1 i m 1 c1)"
    and "off p = Some n"
  shows "cc_FetchOffsets i [p] (CleanupExpiredGroups now2 (snd (cc_LeaveGroup i m (snd (cc_CommitOffset i off c1)))))
      = Inl (GroupNotFound i) \<and>
    (now2 - now1 \<le> 5 * Minute \<longrightarrow>
      cc_FetchOffsets i [p] (CleanupExpiredGroups now2 (snd (cc_LeaveGroup i m (snd (cc_CommitOffset i off c2)))))
      = Inr [p \<mapsto> n])"
proof (intro conjI impI)
  show "cc_FetchOffsets i [p] (CleanupExpiredGroups now2 (snd (cc_LeaveGroup i m (snd (cc_CommitOffset i off c1)))))
      = Inl (GroupNotFound i)"
    using assms(1-6)
    by (simp add: cc_defs new_group_def CleanupExpiredGroups_def cc_cleanup_empty zero_time_expired)
next
  assume "now2 - now1 \<le> 5 * Minute"
  then have "\<not> time_sub now2 now1 > 5 * Minute"
    by (auto simp: time_sub_def Minute_def minDuration_def)
  then show "cc_FetchOffsets i [p] (CleanupExpiredGroups now2 (snd (cc_LeaveGroup i m (snd (cc_CommitOffset i off c2)))))
      = Inr [p \<mapsto> n]"
    using assms
    by (intro cc_FetchOffsets_one)
      (simp add: cc_defs new_group_def CleanupExpiredGroups_def cc_cleanup_empty)
qed

theorem cleanup_forgets_offsets_witness:
  "let c1 = snd (cc_JoinGroup 5 ''g'' ''a'' ''c'' ''consumer'' 10 20 NewConsumerGroupCoordinator);
       c2 = snd (cc_Heartbeat 6 ''g'' ''a'' 1 c1);
       p = tp ''t'' 0;
       end = (\<lambda>c. CleanupExpiredGroups 7 (snd (cc_LeaveGroup ''g'' ''a'' (snd (cc_CommitOffset ''g'' [p \<mapsto> 42] c)))))
   in cc_FetchOffsets ''g'' [p] (end c1) = Inl (GroupNotFound ''g'') \<and>
      cc_FetchOffsets ''g'' [p] (end c2) = Inr [p \<mapsto> 42]"
  using cleanup_forgets_offsets [where c = NewConsumerGroupCoordinator and i = "''g''" and now = 5
      and ?now1.0 = 6 and ?now2.0 = 7 and m = "''a''" and p = "tp ''t'' 0" and off = "[tp ''t'' 0 \<mapsto> 42]" and n = 42]
  by (simp add: NewConsumerGroupCoordinator_def Minute_def)

end
