(* ===== verification/Kafka_Offsets.thy ===== *)
theory Kafka_Offsets
  imports Kafka_Groups
begin

text \<open>
  Committed offsets. The Kafka package keeps them in four places: \<^verbatim>\<open>OffsetManager\<close> and
  \<^verbatim>\<open>OffsetManagerWithMetadata\<close> of \<^verbatim>\<open>src/pkg/kafka/offset_manager.go\<close>, the
  package variable \<^verbatim>\<open>consumerGroups\<close> of \<^verbatim>\<open>src/pkg/kafka/protocol.go\<close>, and the
  groups of \<^verbatim>\<open>ConsumerGroupCoordinator\<close>. The locale \<open>offset_store\<close> states what a
  client relies on; all four are interpretations of it.

  Go maps are finite maps. A nested map is never stored as \<^verbatim>\<open>nil\<close>, so the test for
  \<^verbatim>\<open>nil\<close> is the test for a missing key.
\<close>

section \<open>Nested maps\<close>

text \<open>Reading a missing inner map gives an empty one; writing through it creates it.\<close>

definition submap :: "('k, ('l, 'v) fmap) fmap \<Rightarrow> 'k \<Rightarrow> ('l, 'v) fmap" where
  "submap m k = (case fmlookup m k of None \<Rightarrow> fmempty | Some n \<Rightarrow> n)"

definition put3 ::
  "'a \<Rightarrow> 'b \<Rightarrow> 'c \<Rightarrow> 'v \<Rightarrow> ('a, ('b, ('c, 'v) fmap) fmap) fmap \<Rightarrow> ('a, ('b, ('c, 'v) fmap) fmap) fmap" where
  "put3 a b c v m = fmupd a (fmupd b (fmupd c v (submap (submap m a) b)) (submap m a)) m"

definition get3 :: "'a \<Rightarrow> 'b \<Rightarrow> 'c \<Rightarrow> ('a, ('b, ('c, 'v) fmap) fmap) fmap \<Rightarrow> 'v option" where
  "get3 a b c m = fmlookup (submap (submap m a) b) c"

section \<open>OffsetManager\<close>

type_synonym offset_map = "(string, (string, (i32, i64) fmap) fmap) fmap"

record OffsetManager =
  om_offsets :: offset_map

datatype offset_error = NoGroup string | NoTopic string | NoPartition

definition NewOffsetManager :: OffsetManager where
  "NewOffsetManager = \<lparr>om_offsets = fmempty\<rparr>"

definition om_CommitOffset :: "string \<Rightarrow> string \<Rightarrow> i32 \<Rightarrow> i64 \<Rightarrow> 'z OffsetManager_scheme \<Rightarrow> 'z OffsetManager_scheme" where
  "om_CommitOffset groupID topic part offset om =
     om\<lparr>om_offsets := put3 groupID topic part offset (om_offsets om)\<rparr>"

definition om_FetchOffset :: "string \<Rightarrow> string \<Rightarrow> i32 \<Rightarrow> 'z OffsetManager_scheme \<Rightarrow> i64 \<times> offset_error option" where
  "om_FetchOffset groupID topic part om =
     (case fmlookup (om_offsets om) groupID of
        None \<Rightarrow> (-1, Some (NoGroup groupID))
      | Some ts \<Rightarrow>
          (case fmlookup ts topic of
             None \<Rightarrow> (-1, Some (NoTopic topic))
           | Some ps \<Rightarrow>
               (case fmlookup ps part of
                  None \<Rightarrow> (-1, Some NoPartition)
                | Some offset \<Rightarrow> (offset, None))))"

definition om_FetchAllOffsets ::
  "string \<Rightarrow> 'z OffsetManager_scheme \<Rightarrow> offset_error + (string, (i32, i64) fmap) fmap" where
  "om_FetchAllOffsets groupID om =
     (case fmlookup (om_offsets om) groupID of None \<Rightarrow> Inl (NoGroup groupID) | Some ts \<Rightarrow> Inr ts)"

definition om_DeleteGroup :: "string \<Rightarrow> 'z OffsetManager_scheme \<Rightarrow> offset_error option \<times> 'z OffsetManager_scheme" where
  "om_DeleteGroup groupID om =
     (if fmlookup (om_offsets om) groupID = None then (Some (NoGroup groupID), om)
      else (None, om\<lparr>om_offsets := fmdrop groupID (om_offsets om)\<rparr>))"

text \<open>The lists of keys come in the iteration order \<open>order\<close>.\<close>

definition om_ListGroups :: "string list \<Rightarrow> 'z OffsetManager_scheme \<Rightarrow> string list" where
  "om_ListGroups order om = filter (\<lambda>g. fmlookup (om_offsets om) g \<noteq> None) order"

definition om_GetGroupTopics :: "string list \<Rightarrow> string \<Rightarrow> 'z OffsetManager_scheme \<Rightarrow> offset_error + string list" where
  "om_GetGroupTopics order groupID om =
     (case fmlookup (om_offsets om) groupID of
        None \<Rightarrow> Inl (NoGroup groupID)
      | Some ts \<Rightarrow> Inr (filter (\<lambda>t. fmlookup ts t \<noteq> None) order))"

section \<open>OffsetManagerWithMetadata\<close>

record OffsetMetadata =
  om_Offset :: i64
  om_Metadata :: string
  om_Timestamp :: instant

type_synonym meta_map = "(string, (string, (i32, OffsetMetadata) fmap) fmap) fmap"

record OffsetManagerWithMetadata = OffsetManager +
  omm_metadata :: meta_map

definition NewOffsetManagerWithMetadata :: OffsetManagerWithMetadata where
  "NewOffsetManagerWithMetadata = \<lparr>om_offsets = om_offsets NewOffsetManager, omm_metadata = fmempty\<rparr>"

definition CommitOffsetWithMetadata ::
  "instant \<Rightarrow> string \<Rightarrow> string \<Rightarrow> i32 \<Rightarrow> i64 \<Rightarrow> string \<Rightarrow> OffsetManagerWithMetadata \<Rightarrow> OffsetManagerWithMetadata" where
  "CommitOffsetWithMetadata now groupID topic part offset metadata omm =
     (let omm = om_CommitOffset groupID topic part offset omm
      in omm\<lparr>omm_metadata := put3 groupID topic part
            \<lparr>om_Offset = offset, om_Metadata = metadata, om_Timestamp = now\<rparr> (omm_metadata omm)\<rparr>)"

definition FetchOffsetMetadata ::
  "string \<Rightarrow> string \<Rightarrow> i32 \<Rightarrow> OffsetManagerWithMetadata \<Rightarrow> offset_error + OffsetMetadata" where
  "FetchOffsetMetadata groupID topic part omm =
     (case fmlookup (omm_metadata omm) groupID of
        None \<Rightarrow> Inl (NoGroup groupID)
      | Some ts \<Rightarrow>
          (case fmlookup ts topic of
             None \<Rightarrow> Inl (NoTopic topic)
           | Some ps \<Rightarrow>
               (case fmlookup ps part of None \<Rightarrow> Inl NoPartition | Some m \<Rightarrow> Inr m)))"

text \<open>The partitions, topics and groups that a clean-up with the given cut-off leaves.\<close>

definition keep_partitions :: "instant \<Rightarrow> (i32, OffsetMetadata) fmap \<Rightarrow> (i32, OffsetMetadata) fmap" where
  "keep_partitions cutoff ps = fmfilter (\<lambda>p. \<not> om_Timestamp (the (fmlookup ps p)) < cutoff) ps"

definition drop_empty :: "('k, ('l, 'v) fmap) fmap \<Rightarrow> ('k, ('l, 'v) fmap) fmap" where
  "drop_empty m = fmfilter (\<lambda>k. submap m k \<noteq> fmempty) m"

definition keep_topics ::
  "instant \<Rightarrow> (string, (i32, OffsetMetadata) fmap) fmap \<Rightarrow> (string, (i32, OffsetMetadata) fmap) fmap" where
  "keep_topics cutoff ts = drop_empty (fmmap (keep_partitions cutoff) ts)"

definition fmsum :: "('v \<Rightarrow> nat) \<Rightarrow> ('k, 'v) fmap \<Rightarrow> nat" where
  "fmsum f m = (\<Sum>k \<in> fset (fmdom m). f (the (fmlookup m k)))"

text \<open>The number of deleted entries and the manager after the clean-up. A group whose metadata is
  all gone is also deleted from the offsets.\<close>

definition CleanupExpiredOffsets ::
  "instant \<Rightarrow> duration \<Rightarrow> OffsetManagerWithMetadata \<Rightarrow> nat \<times> OffsetManagerWithMetadata" where
  "CleanupExpiredOffsets now retention omm =
     (let cutoff = now - retention;
          meta = omm_metadata omm;
          meta' = drop_empty (fmmap (keep_topics cutoff) meta);
          cleaned = fmsum (fmsum (\<lambda>ps. size (fmdom ps) - size (fmdom (keep_partitions cutoff ps)))) meta
      in (cleaned, omm\<lparr>omm_metadata := meta',
            om_offsets := fmfilter (\<lambda>g. fmlookup meta g = None \<or> fmlookup meta' g \<noteq> None) (om_offsets omm)\<rparr>))"

record offset_stats =
  total_groups :: nat
  total_offsets :: nat

definition omm_Stats :: "OffsetManagerWithMetadata \<Rightarrow> offset_stats" where
  "omm_Stats omm =
     \<lparr>total_groups = size (fmdom (om_offsets omm)),
      total_offsets = fmsum (fmsum (\<lambda>ps. size (fmdom ps))) (om_offsets omm)\<rparr>"

section \<open>The package variable consumerGroups\<close>

record ConsumerGroupMember =
  cm_MemberID :: string
  cm_ClientID :: string
  cm_Assignments :: "string \<rightharpoonup> i32 list"

record ConsumerGroupState =
  cs_Members :: "string \<rightharpoonup> ConsumerGroupMember"
  cs_Offsets :: "(string, (i32, i64) fmap) fmap"

type_synonym consumerGroups = "string \<rightharpoonup> ConsumerGroupState"

definition group_or_new :: "string \<Rightarrow> consumerGroups \<Rightarrow> ConsumerGroupState" where
  "group_or_new groupID cgs =
     (case cgs groupID of Some cg \<Rightarrow> cg | None \<Rightarrow> \<lparr>cs_Members = Map.empty, cs_Offsets = fmempty\<rparr>)"

definition CommitOffset :: "string \<Rightarrow> string \<Rightarrow> i32 \<Rightarrow> i64 \<Rightarrow> consumerGroups \<Rightarrow> consumerGroups" where
  "CommitOffset groupID topic part offset cgs =
     (let cg = group_or_new groupID cgs
      in cgs(groupID \<mapsto> cg\<lparr>cs_Offsets :=
           fmupd topic (fmupd part offset (submap (cs_Offsets cg) topic)) (cs_Offsets cg)\<rparr>))"

definition FetchOffset :: "string \<Rightarrow> string \<Rightarrow> i32 \<Rightarrow> consumerGroups \<Rightarrow> i64" where
  "FetchOffset groupID topic part cgs =
     (case cgs groupID of
        None \<Rightarrow> 0
      | Some cg \<Rightarrow> (case fmlookup (submap (cs_Offsets cg) topic) part of None \<Rightarrow> 0 | Some n \<Rightarrow> n))"

definition JoinConsumerGroup ::
  "string \<Rightarrow> string \<Rightarrow> string \<Rightarrow> (string \<rightharpoonup> i32 list) \<Rightarrow> consumerGroups \<Rightarrow> consumerGroups" where
  "JoinConsumerGroup groupID memberID clientID assignments cgs =
     (let cg = group_or_new groupID cgs
      in cgs(groupID \<mapsto> cg\<lparr>cs_Members := (cs_Members cg)(memberID \<mapsto>
           \<lparr>cm_MemberID = memberID, cm_ClientID = clientID, cm_Assignments = assignments\<rparr>)\<rparr>))"

section \<open>What a client of committed offsets relies on\<close>

type_synonym commit = "string \<times> string \<times> i32 \<times> i64"

fun commit_all :: "(string \<Rightarrow> string \<Rightarrow> i32 \<Rightarrow> i64 \<Rightarrow> 's \<Rightarrow> 's) \<Rightarrow> commit list \<Rightarrow> 's \<Rightarrow> 's" where
  "commit_all commit [] s = s"
| "commit_all commit ((g, t, p, n) # cs) s = commit_all commit cs (commit g t p n s)"

text \<open>The offset of the last commit of a group for a partition in a list of commits.\<close>

fun last_commit :: "string \<Rightarrow> string \<Rightarrow> i32 \<Rightarrow> commit list \<Rightarrow> i64 option" where
  "last_commit g t p [] = None"
| "last_commit g t p ((g', t', p', n) # cs) =
     (case last_commit g t p cs of
        Some m \<Rightarrow> Some m
      | None \<Rightarrow> if g' = g \<and> t' = t \<and> p' = p then Some n else None)"

definition expected :: "string \<Rightarrow> string \<Rightarrow> i32 \<Rightarrow> commit list \<Rightarrow> i64 option \<Rightarrow> i64 option" where
  "expected g t p cs old = (case last_commit g t p cs of Some n \<Rightarrow> Some n | None \<Rightarrow> old)"

locale offset_store =
  fixes commit :: "string \<Rightarrow> string \<Rightarrow> i32 \<Rightarrow> i64 \<Rightarrow> 's \<Rightarrow> 's"
    and fetch :: "string \<Rightarrow> string \<Rightarrow> i32 \<Rightarrow> 's \<Rightarrow> i64 option"
    and accepts :: "string \<Rightarrow> 's \<Rightarrow> bool"
  assumes fetch_same: "accepts g s \<Longrightarrow> fetch g t p (commit g t p n s) = Some n"
    and fetch_other: "accepts g s \<Longrightarrow> (g', t', p') \<noteq> (g, t, p) \<Longrightarrow>
      fetch g' t' p' (commit g t p n s) = fetch g' t' p' s"
    and accepts_commit: "accepts g s \<Longrightarrow> accepts g' s \<Longrightarrow> accepts g' (commit g t p n s)"
begin

lemma fetch_commit_all:
  assumes "\<forall>c \<in> set cs. accepts (fst c) s"
  shows "fetch g t p (commit_all commit cs s) = expected g t p cs (fetch g t p s)"
  using assms
proof (induction cs arbitrary: s)
  case (Cons c cs)
  obtain g' t' p' n where c: "c = (g', t', p', n)"
    by (cases c)
  have "fetch g t p (commit_all commit cs (commit g' t' p' n s)) =
      expected g t p cs (fetch g t p (commit g' t' p' n s))"
    using Cons.prems by (intro Cons.IH) (auto simp: c intro: accepts_commit)
  then show ?case
    using Cons.prems fetch_same [of g s t p n] fetch_other [of g' s g t p t' p' n]
    by (auto simp: c expected_def split: option.splits)
qed (simp add: expected_def)

end

section \<open>The four providers\<close>

lemma submap_fmupd [simp]: "submap (fmupd k v m) k' = (if k' = k then v else submap m k')"
  by (simp add: submap_def)

lemma get3_put3: "get3 a b c (put3 a' b' c' v m) = (if a = a' \<and> b = b' \<and> c = c' then Some v else get3 a b c m)"
  by (auto simp: get3_def put3_def)

lemma submap_fmempty [simp]: "submap fmempty k = fmempty"
  by (simp add: submap_def)

definition om_fetch :: "string \<Rightarrow> string \<Rightarrow> i32 \<Rightarrow> 'z OffsetManager_scheme \<Rightarrow> i64 option" where
  "om_fetch g t p om = (case om_FetchOffset g t p om of (n, None) \<Rightarrow> Some n | (_, Some _) \<Rightarrow> None)"

lemma om_fetch_get3: "om_fetch g t p om = get3 g t p (om_offsets om)"
  by (auto simp: om_fetch_def om_FetchOffset_def get3_def submap_def split: option.splits)

interpretation om: offset_store om_CommitOffset om_fetch "\<lambda>_ _. True"
  by unfold_locales (auto simp: om_fetch_get3 om_CommitOffset_def get3_put3)

definition omm_fetch :: "string \<Rightarrow> string \<Rightarrow> i32 \<Rightarrow> OffsetManagerWithMetadata \<Rightarrow> i64 option" where
  "omm_fetch g t p omm =
     (case FetchOffsetMetadata g t p omm of Inl _ \<Rightarrow> None | Inr m \<Rightarrow> Some (om_Offset m))"

lemma omm_fetch_get3: "omm_fetch g t p omm = map_option om_Offset (get3 g t p (omm_metadata omm))"
  by (auto simp: omm_fetch_def FetchOffsetMetadata_def get3_def submap_def split: option.splits)

definition omm_commit :: "instant \<Rightarrow> string \<Rightarrow> string \<Rightarrow> string \<Rightarrow> i32 \<Rightarrow> i64 \<Rightarrow> OffsetManagerWithMetadata \<Rightarrow> OffsetManagerWithMetadata" where
  "omm_commit now md g t p n = CommitOffsetWithMetadata now g t p n md"

interpretation omm: offset_store "omm_commit now md" omm_fetch "\<lambda>_ _. True" for now md
  by unfold_locales (auto simp: omm_fetch_get3 omm_commit_def CommitOffsetWithMetadata_def Let_def
      om_CommitOffset_def get3_put3)

definition cgs_fetch :: "string \<Rightarrow> string \<Rightarrow> i32 \<Rightarrow> consumerGroups \<Rightarrow> i64 option" where
  "cgs_fetch g t p cgs = Some (FetchOffset g t p cgs)"

interpretation cgs: offset_store CommitOffset cgs_fetch "\<lambda>_ _. True"
  by unfold_locales (auto simp: cgs_fetch_def FetchOffset_def CommitOffset_def group_or_new_def Let_def
      split: option.splits)

definition cc_commit :: "string \<Rightarrow> string \<Rightarrow> i32 \<Rightarrow> i64 \<Rightarrow> ConsumerGroupCoordinator \<Rightarrow> ConsumerGroupCoordinator" where
  "cc_commit g t p n c = snd (cc_CommitOffset g [tp t p \<mapsto> n] c)"

definition cc_fetch :: "string \<Rightarrow> string \<Rightarrow> i32 \<Rightarrow> ConsumerGroupCoordinator \<Rightarrow> i64 option" where
  "cc_fetch g t p c = (case cc_FetchOffsets g [tp t p] c of Inl _ \<Rightarrow> None | Inr m \<Rightarrow> m (tp t p))"

definition cc_has :: "string \<Rightarrow> ConsumerGroupCoordinator \<Rightarrow> bool" where
  "cc_has g c \<longleftrightarrow> cc_groups c g \<noteq> None"

interpretation ccs: offset_store cc_commit cc_fetch cc_has
  by unfold_locales (auto simp: cc_has_def cc_commit_def cc_fetch_def cc_CommitOffset_def cc_FetchOffsets_def cc_set_def
      tp_def split: option.splits)

section \<open>Properties\<close>

text \<open>C5. Whatever offsets are committed, in any order and for any groups and partitions, each of the
  four offset stores returns for a partition of a group the offset of the last commit for it, and
  what it returned before if there was none. In \<^verbatim>\<open>ConsumerGroupCoordinator\<close> the groups
  must exist.\<close>

theorem last_commit_wins:
  assumes "\<forall>x \<in> set cs. cc_has (fst x) c"
  shows "om_fetch g t p (commit_all om_CommitOffset cs om) = expected g t p cs (om_fetch g t p om) \<and>
    omm_fetch g t p (commit_all (omm_commit now md) cs omm) = expected g t p cs (omm_fetch g t p omm) \<and>
    cgs_fetch g t p (commit_all CommitOffset cs cgs) = expected g t p cs (cgs_fetch g t p cgs) \<and>
    cc_fetch g t p (commit_all cc_commit cs c) = expected g t p cs (cc_fetch g t p c)"
  using om.fetch_commit_all omm.fetch_commit_all cgs.fetch_commit_all ccs.fetch_commit_all [OF assms] by simp

theorem last_commit_wins_witness:
  "let cs = [(''g'', ''t'', 0, 5), (''g'', ''u'', 0, 6), (''g'', ''t'', 0, 7)];
       c = snd (cc_JoinGroup 5 ''g'' ''a'' ''c'' ''consumer'' 10 20 NewConsumerGroupCoordinator)
   in om_fetch ''g'' ''t'' 0 (commit_all om_CommitOffset cs NewOffsetManager) = Some 7 \<and>
      cc_fetch ''g'' ''t'' 0 (commit_all cc_commit cs c) = Some 7"
proof -
  have "cc_has ''g'' (snd (cc_JoinGroup 5 ''g'' ''a'' ''c'' ''consumer'' 10 20 NewConsumerGroupCoordinator))"
    by (simp add: cc_has_def cc_JoinGroup_def cc_set_def Let_def)
  then show ?thesis
    using last_commit_wins [where cs = "[(''g'', ''t'', 0, 5), (''g'', ''u'', 0, 6), (''g'', ''t'', 0, 7)]"
        and g = "''g''" and t = "''t''" and p = 0 and om = NewOffsetManager
        and c = "snd (cc_JoinGroup 5 ''g'' ''a'' ''c'' ''consumer'' 10 20 NewConsumerGroupCoordinator)"]
    by (simp add: expected_def Let_def)
qed

lemma get3_None_iff:
  assumes "\<And>ts. fmlookup m g = Some ts \<Longrightarrow> ts \<noteq> fmempty \<and> fmempty |\<notin>| fmran ts"
  shows "fmlookup m g = None \<longleftrightarrow> (\<forall>t p. get3 g t p m = None)"
proof
  assume none: "\<forall>t p. get3 g t p m = None"
  have False if ts: "fmlookup m g = Some ts" for ts
  proof -
    obtain t ps where "fmlookup ts t = Some ps"
      using assms [OF ts] by (metis fmap_ext fmempty_lookup option.exhaust)
    moreover from this have "ps \<noteq> fmempty"
      using assms [OF ts] by (metis fmranI)
    then obtain p v where "fmlookup ps p = Some v"
      by (metis fmap_ext fmempty_lookup option.exhaust)
    ultimately show False
      using none [rule_format, of t p] ts by (simp add: get3_def submap_def)
  qed
  then show "fmlookup m g = None"
    by (cases "fmlookup m g") auto
qed (simp add: get3_def submap_def)

lemma submap_drop_empty [simp]: "submap (drop_empty m) k = submap m k"
  by (auto simp: drop_empty_def submap_def split: option.splits)

lemma drop_empty_lookup: "fmlookup (drop_empty m) k = (if submap m k = fmempty then None else fmlookup m k)"
  by (simp add: drop_empty_def)

lemma fmempty_not_drop_empty [simp]: "fmempty |\<notin>| fmran (drop_empty m)"
  by (auto simp: drop_empty_def fmlookup_ran_iff submap_def)

lemma submap_fmmap: "f fmempty = fmempty \<Longrightarrow> submap (fmmap f m) k = f (submap m k)"
  by (auto simp: submap_def split: option.splits)

lemma keep_empty [simp]: "keep_partitions c fmempty = fmempty" "keep_topics c fmempty = fmempty"
  by (auto simp: keep_partitions_def keep_topics_def drop_empty_def)

lemma submap_keep_topics [simp]: "submap (keep_topics c ts) t = keep_partitions c (submap ts t)"
  by (simp add: keep_topics_def submap_fmmap)

lemma keep_partitions_lookup:
  "fmlookup (keep_partitions c ps) p = (case fmlookup ps p of
     None \<Rightarrow> None | Some m \<Rightarrow> if om_Timestamp m < c then None else Some m)"
  by (auto simp: keep_partitions_def split: option.splits)

definition kept_meta :: "instant \<Rightarrow> meta_map \<Rightarrow> meta_map" where
  "kept_meta c m = drop_empty (fmmap (keep_topics c) m)"

lemma kept_meta_get3:
  "get3 g t p (kept_meta c m) = (case get3 g t p m of
     None \<Rightarrow> None | Some x \<Rightarrow> if om_Timestamp x < c then None else Some x)"
  by (simp add: kept_meta_def get3_def submap_fmmap keep_partitions_lookup)

lemma kept_meta_None: "fmlookup (kept_meta c m) g = None \<longleftrightarrow> (\<forall>t p. get3 g t p (kept_meta c m) = None)"
  by (rule get3_None_iff)
    (auto simp: kept_meta_def drop_empty_lookup submap_def keep_topics_def split: if_splits)

lemma FetchOffsetMetadata_get3:
  "FetchOffsetMetadata g t p omm = Inr m \<longleftrightarrow> get3 g t p (omm_metadata omm) = Some m"
  by (auto simp: FetchOffsetMetadata_def get3_def submap_def split: option.splits)

lemma isl_FetchOffsetMetadata:
  "isl (FetchOffsetMetadata g t p omm) \<longleftrightarrow> get3 g t p (omm_metadata omm) = None"
  by (auto simp: FetchOffsetMetadata_def get3_def submap_def split: option.splits)

lemma get3_fmfilter: "get3 g t p (fmfilter P m) = (if P g then get3 g t p m else None)"
  by (simp add: get3_def submap_def)

text \<open>\<^verbatim>\<open>CleanupExpiredOffsets\<close> removes exactly the metadata older than the retention
  time. The committed offsets follow only group by group: they are all dropped when the last
  metadata of their group goes, offsets committed later or without metadata included, and otherwise
  all stay, those of expired partitions included.\<close>

theorem cleanup_exact:
  assumes "CleanupExpiredOffsets now retention omm = (cleaned, omm')"
  shows "(FetchOffsetMetadata g t p omm' = Inr m \<longleftrightarrow>
      FetchOffsetMetadata g t p omm = Inr m \<and> \<not> om_Timestamp m < now - retention) \<and>
    om_fetch g t p omm' =
      (if fmlookup (omm_metadata omm) g \<noteq> None \<and> (\<forall>t p. isl (FetchOffsetMetadata g t p omm'))
       then None else om_fetch g t p omm)"
proof -
  have meta: "omm_metadata omm' = kept_meta (now - retention) (omm_metadata omm)"
    and offs: "om_offsets omm' = fmfilter (\<lambda>g. fmlookup (omm_metadata omm) g = None \<or>
      fmlookup (omm_metadata omm') g \<noteq> None) (om_offsets omm)"
    using assms by (auto simp: CleanupExpiredOffsets_def Let_def kept_meta_def)
  have "(\<forall>t p. isl (FetchOffsetMetadata g t p omm')) \<longleftrightarrow> fmlookup (omm_metadata omm') g = None"
    unfolding meta kept_meta_None by (simp add: isl_FetchOffsetMetadata meta)
  then show ?thesis
    by (auto simp: om_fetch_get3 offs get3_fmfilter FetchOffsetMetadata_get3 meta kept_meta_get3
        split: option.splits if_splits)
qed

definition two_commits :: OffsetManagerWithMetadata where
  "two_commits = CommitOffsetWithMetadata 60 ''g'' ''t'' 1 8 []
     (CommitOffsetWithMetadata 10 ''g'' ''t'' 0 7 [] NewOffsetManagerWithMetadata)"

theorem cleanup_exact_witness:
  "let (cleaned, omm) = CleanupExpiredOffsets 100 50 two_commits
   in FetchOffsetMetadata ''g'' ''t'' 0 omm \<noteq> Inr \<lparr>om_Offset = 7, om_Metadata = [], om_Timestamp = 10\<rparr> \<and>
      FetchOffsetMetadata ''g'' ''t'' 1 omm = Inr \<lparr>om_Offset = 8, om_Metadata = [], om_Timestamp = 60\<rparr> \<and>
      om_fetch ''g'' ''t'' 0 omm = Some 7"
proof -
  obtain n omm where run: "CleanupExpiredOffsets 100 50 two_commits = (n, omm)"
    by fastforce
  note exact = cleanup_exact [OF run]
  have old: "FetchOffsetMetadata ''g'' ''t'' 1 two_commits = Inr \<lparr>om_Offset = 8, om_Metadata = [], om_Timestamp = 60\<rparr>"
    "om_fetch ''g'' ''t'' 0 two_commits = Some 7"
    by (simp_all add: FetchOffsetMetadata_get3 om_fetch_get3 two_commits_def CommitOffsetWithMetadata_def
        om_CommitOffset_def get3_put3 NewOffsetManagerWithMetadata_def)
  have live: "FetchOffsetMetadata ''g'' ''t'' 1 omm = Inr \<lparr>om_Offset = 8, om_Metadata = [], om_Timestamp = 60\<rparr>"
    using exact old(1) by simp
  then have "\<not> (\<forall>t p. isl (FetchOffsetMetadata ''g'' t p omm))"
    by (metis sum.disc(2))
  then show ?thesis
    using exact [of "''g''" "''t''" 0] live old(2) run by auto
qed

end
