(* ===== verification/RW_Locks.thy ===== *)
theory RW_Locks
  imports Main
begin

text \<open>
  Threads that take and release \<^verbatim>\<open>sync.RWMutex\<close> locks. A thread is the list of the
  locks it holds and the list of the lock operations it still has to do; what it does between them
  is left out. A lock may be held by several readers or by one writer. The preference a waiting
  writer has over new readers is not modelled: with it threads wait in more states, never in fewer,
  so a deadlock found here is one of the code.

  A thread that takes locks in the order of their ranks and releases all of them is \<open>ordered\<close>.
  Ordered threads never deadlock.
\<close>

section \<open>Threads\<close>

datatype mode = Read | Write

datatype 'l lock_op = RLock 'l | RUnlock 'l | Lock 'l | Unlock 'l

type_synonym 'l thread = "('l \<times> mode) list \<times> 'l lock_op list"

fun can :: "'l thread list \<Rightarrow> 'l lock_op \<Rightarrow> bool" where
  "can ts (RLock l) \<longleftrightarrow> (\<forall>th \<in> set ts. (l, Write) \<notin> set (fst th))"
| "can ts (Lock l) \<longleftrightarrow> (\<forall>th \<in> set ts. l \<notin> fst ` set (fst th))"
| "can ts _ \<longleftrightarrow> True"

fun hold :: "('l \<times> mode) list \<Rightarrow> 'l lock_op \<Rightarrow> ('l \<times> mode) list" where
  "hold H (RLock l) = (l, Read) # H"
| "hold H (Lock l) = (l, Write) # H"
| "hold H (RUnlock l) = remove1 (l, Read) H"
| "hold H (Unlock l) = remove1 (l, Write) H"

inductive lock_step :: "'l thread list \<Rightarrow> 'l thread list \<Rightarrow> bool" where
  "lock_step ts (ts[i := (hold H a, as)])"
    if "i < length ts" "ts ! i = (H, a # as)" "can ts a"

definition threads :: "'l lock_op list list \<Rightarrow> 'l thread list" where
  "threads ps = map (Pair []) ps"

definition finished :: "'l thread list \<Rightarrow> bool" where
  "finished ts \<longleftrightarrow> (\<forall>th \<in> set ts. snd th = [])"

definition stuck :: "'l thread list \<Rightarrow> bool" where
  "stuck ts \<longleftrightarrow> (\<forall>th \<in> set ts. case snd th of [] \<Rightarrow> True | a # _ \<Rightarrow> \<not> can ts a)"

section \<open>Ordered threads\<close>

fun ordered :: "('l \<Rightarrow> nat) \<Rightarrow> ('l \<times> mode) list \<Rightarrow> 'l lock_op list \<Rightarrow> bool" where
  "ordered r H [] \<longleftrightarrow> H = []"
| "ordered r H (RLock l # as) \<longleftrightarrow> (\<forall>h \<in> set H. r (fst h) < r l) \<and> ordered r ((l, Read) # H) as"
| "ordered r H (Lock l # as) \<longleftrightarrow> (\<forall>h \<in> set H. r (fst h) < r l) \<and> ordered r ((l, Write) # H) as"
| "ordered r H (RUnlock l # as) \<longleftrightarrow> (l, Read) \<in> set H \<and> ordered r (remove1 (l, Read) H) as"
| "ordered r H (Unlock l # as) \<longleftrightarrow> (l, Write) \<in> set H \<and> ordered r (remove1 (l, Write) H) as"

lemma ordered_hold: "ordered r H (a # as) \<Longrightarrow> ordered r (hold H a) as"
  by (cases a) auto

lemma stuck_no_step: "stuck ts \<Longrightarrow> \<not> lock_step ts ts'"
proof
  assume "stuck ts" "lock_step ts ts'"
  from this(2,1) show False
    by cases (force simp: stuck_def in_set_conv_nth)
qed

lemma lock_step_ordered:
  assumes "lock_step ts ts'" "\<forall>th \<in> set ts. ordered r (fst th) (snd th)"
  shows "\<forall>th \<in> set ts'. ordered r (fst th) (snd th)"
  using assms
proof (induction rule: lock_step.induct)
  case (1 i ts H a as)
  then have "ordered r (hold H a) as"
    by (metis fst_conv nth_mem ordered_hold snd_conv)
  then show ?case
    using 1 by (auto dest!: set_update_subset_insert [THEN subsetD])
qed

text \<open>The lock a thread waits for.\<close>

fun wants :: "'l thread \<Rightarrow> 'l option" where
  "wants (H, RLock l # _) = Some l"
| "wants (H, Lock l # _) = Some l"
| "wants _ = None"

lemma stuck_wants:
  assumes "stuck ts" "th \<in> set ts" "snd th \<noteq> []"
  obtains l th' where "wants th = Some l" "th' \<in> set ts" "l \<in> fst ` set (fst th')"
proof -
  obtain H a as where th: "th = (H, a # as)"
    using assms(3) by (cases th) (auto simp: neq_Nil_conv)
  then have "\<not> can ts a"
    using assms(1,2) by (fastforce simp: stuck_def)
  with th that show ?thesis
    by (cases a) force+
qed

lemma ordered_above:
  "ordered r (fst th) (snd th) \<Longrightarrow> wants th = Some l \<Longrightarrow> k \<in> fst ` set (fst th) \<Longrightarrow> r k < r l"
  by (cases th rule: wants.cases) auto

lemma ordered_not_stuck:
  assumes ord: "\<forall>th \<in> set ts. ordered r (fst th) (snd th)" and "stuck ts"
  shows "finished ts"
proof (rule ccontr)
  assume "\<not> finished ts"
  define W where "W = {l. \<exists>th \<in> set ts. wants th = Some l}"
  have "finite W"
    by (rule finite_subset [of _ "the ` wants ` set ts"]) (force simp: W_def image_iff)+
  moreover have "W \<noteq> {}"
    using \<open>\<not> finished ts\<close> stuck_wants [OF \<open>stuck ts\<close>] unfolding finished_def W_def by blast
  ultimately have "Max (r ` W) \<in> r ` W" and le: "\<forall>k \<in> W. r k \<le> Max (r ` W)"
    by (auto intro: Max_in)
  then obtain l where l: "l \<in> W" "r l = Max (r ` W)"
    by (metis imageE)
  obtain th where th: "th \<in> set ts" "wants th = Some l"
    using l(1) by (auto simp: W_def)
  then have "snd th \<noteq> []"
    by (cases th rule: wants.cases) auto
  then obtain th' where th': "th' \<in> set ts" "l \<in> fst ` set (fst th')"
    using stuck_wants [OF \<open>stuck ts\<close> th(1)] th(2) by (metis option.inject)
  then have "snd th' \<noteq> []"
    using ord by (metis empty_iff image_empty list.set(1) ordered.simps(1))
  then obtain k where "wants th' = Some k"
    using stuck_wants [OF \<open>stuck ts\<close> th'(1)] by metis
  then have "r l < r k" "k \<in> W"
    using ordered_above [OF bspec [OF ord th'(1)] _ th'(2)] th'(1) by (auto simp: W_def)
  then show False
    using le l(2) by fastforce
qed

text \<open>The number of operations left goes down with every step, so every run ends.\<close>

definition ops_left :: "'l thread list \<Rightarrow> nat" where
  "ops_left ts = (\<Sum>th \<leftarrow> ts. length (snd th))"

lemma lock_step_less: "lock_step ts ts' \<Longrightarrow> ops_left ts' < ops_left ts"
proof (induction rule: lock_step.induct)
  case (1 i ts H a as)
  then have "Suc (length as) \<le> ops_left ts"
    using elem_le_sum_list [of i "map (\<lambda>th. length (snd th)) ts"] by (simp add: ops_left_def)
  then show ?case
    using 1 by (simp add: ops_left_def map_update sum_list_update)
qed

lemma ordered_progress:
  assumes "\<forall>th \<in> set ts. ordered r (fst th) (snd th)" "\<not> finished ts"
  shows "\<exists>ts'. lock_step ts ts'"
proof -
  have "\<not> stuck ts"
    using ordered_not_stuck [OF assms(1)] assms(2) by blast
  then obtain th where "th \<in> set ts" "\<not> (case snd th of [] \<Rightarrow> True | a # _ \<Rightarrow> \<not> can ts a)"
    by (auto simp: stuck_def)
  then obtain i a as where "i < length ts" "ts ! i = (fst th, a # as)" "can ts a"
    by (auto simp: in_set_conv_nth split: list.splits) (metis prod.collapse)
  then show ?thesis
    by (blast intro: lock_step.intros)
qed

text \<open>Ordered threads never get stuck: whatever they have done so far, they can all finish.\<close>

lemma ordered_finish:
  assumes "\<forall>th \<in> set ts. ordered r (fst th) (snd th)"
  shows "\<exists>ts'. lock_step\<^sup>*\<^sup>* ts ts' \<and> finished ts'"
  using assms
proof (induction "ops_left ts" arbitrary: ts rule: less_induct)
  case less
  show ?case
  proof (cases "finished ts")
    case False
    then obtain ts' where step: "lock_step ts ts'"
      using ordered_progress less.prems by blast
    then have "\<exists>ts''. lock_step\<^sup>*\<^sup>* ts' ts'' \<and> finished ts''"
      using less lock_step_less lock_step_ordered by blast
    with step show ?thesis
      by (meson converse_rtranclp_into_rtranclp)
  qed blast
qed

lemma lock_run_ordered:
  "lock_step\<^sup>*\<^sup>* ts ts' \<Longrightarrow> \<forall>th \<in> set ts. ordered r (fst th) (snd th) \<Longrightarrow>
     \<forall>th \<in> set ts'. ordered r (fst th) (snd th)"
  by (induction rule: rtranclp_induct) (simp_all add: lock_step_ordered)

end
