(* ===== verification/Kafka_Locks.thy ===== *)
theory Kafka_Locks
  imports RW_Locks
begin

text \<open>
  The lock operations of the Kafka package, function by function, over the threads of
  \<open>RW_Locks\<close>: \<^verbatim>\<open>group_coordinator.go\<close>, \<^verbatim>\<open>consumer_groups.go\<close>,
  \<^verbatim>\<open>offset_manager.go\<close>, \<^verbatim>\<open>transactions.go\<close> and the stores of
  \<^verbatim>\<open>protocol.go\<close>, all under \<^verbatim>\<open>src/pkg/kafka/\<close>. Deferred unlocks run last in,
  first out. Where the path through a function decides which locks it takes, the choice is an
  argument: the groups that exist, whether the coordinator is reached, how many groups are deleted.
\<close>

section \<open>The locks and the functions that take them\<close>

datatype kafka_lock = GcMutex | GroupMutex string | CcMutex | OmMutex | MetaMux
  | CgsMutex | CgMutex string | TpMutex | TmMutex | TcMutex | StoreMutex

definition reads :: "'l \<Rightarrow> 'l lock_op list \<Rightarrow> 'l lock_op list" where
  "reads l as = RLock l # as @ [RUnlock l]"

definition writes :: "'l \<Rightarrow> 'l lock_op list \<Rightarrow> 'l lock_op list" where
  "writes l as = Lock l # as @ [Unlock l]"

subsection \<open>Group coordinator\<close>

definition JoinGroup_locks :: "string \<Rightarrow> kafka_lock lock_op list" where
  "JoinGroup_locks g = writes GcMutex (writes (GroupMutex g) [])"

definition SyncGroup_locks :: "bool \<Rightarrow> string \<Rightarrow> kafka_lock lock_op list" where
  "SyncGroup_locks found g = reads GcMutex [] @ (if found then writes (GroupMutex g) [] else [])"

definition Heartbeat_locks :: "bool \<Rightarrow> string \<Rightarrow> kafka_lock lock_op list" where
  "Heartbeat_locks found g = reads GcMutex [] @ (if found then writes (GroupMutex g) [] else [])"

definition LeaveGroup_locks :: "bool \<Rightarrow> string \<Rightarrow> kafka_lock lock_op list" where
  "LeaveGroup_locks found g = writes GcMutex (if found then writes (GroupMutex g) [] else [])"

definition DescribeGroups_locks :: "string list \<Rightarrow> kafka_lock lock_op list" where
  "DescribeGroups_locks gs = reads GcMutex (concat (map (\<lambda>g. reads (GroupMutex g) []) gs))"

definition ListGroups_locks :: "string list \<Rightarrow> kafka_lock lock_op list" where
  "ListGroups_locks gs = reads GcMutex (concat (map (\<lambda>g. reads (GroupMutex g) []) gs))"

definition checkHeartbeats_locks :: "string list \<Rightarrow> kafka_lock lock_op list" where
  "checkHeartbeats_locks gs = reads GcMutex [] @ concat (map (\<lambda>g. writes (GroupMutex g) []) gs)"

subsection \<open>Consumer group coordinator\<close>

text \<open>Every operation is one section under \<^verbatim>\<open>c.mutex\<close>.\<close>

definition cc_write_locks :: "kafka_lock lock_op list" where
  "cc_write_locks = writes CcMutex []"

definition cc_read_locks :: "kafka_lock lock_op list" where
  "cc_read_locks = reads CcMutex []"

subsection \<open>Offset managers\<close>

definition om_CommitOffset_locks :: "kafka_lock lock_op list" where
  "om_CommitOffset_locks = writes OmMutex []"

definition om_FetchOffset_locks :: "kafka_lock lock_op list" where
  "om_FetchOffset_locks = reads OmMutex []"

definition om_DeleteGroup_locks :: "kafka_lock lock_op list" where
  "om_DeleteGroup_locks = writes OmMutex []"

definition CommitOffsetWithMetadata_locks :: "kafka_lock lock_op list" where
  "CommitOffsetWithMetadata_locks = om_CommitOffset_locks @ writes MetaMux []"

definition FetchOffsetMetadata_locks :: "kafka_lock lock_op list" where
  "FetchOffsetMetadata_locks = reads MetaMux []"

text \<open>\<open>n\<close> groups are deleted from the offset manager.\<close>

definition CleanupExpiredOffsets_locks :: "nat \<Rightarrow> kafka_lock lock_op list" where
  "CleanupExpiredOffsets_locks n = writes MetaMux (concat (replicate n om_DeleteGroup_locks))"

definition Stats_locks :: "kafka_lock lock_op list" where
  "Stats_locks = reads OmMutex (reads MetaMux [])"

subsection \<open>The package variable consumerGroups and the message store\<close>

definition CommitOffset_locks :: "string \<Rightarrow> kafka_lock lock_op list" where
  "CommitOffset_locks g = writes CgsMutex (writes (CgMutex g) [])"

definition FetchOffset_locks :: "bool \<Rightarrow> string \<Rightarrow> kafka_lock lock_op list" where
  "FetchOffset_locks found g = reads CgsMutex (if found then reads (CgMutex g) [] else [])"

definition JoinConsumerGroup_locks :: "string \<Rightarrow> kafka_lock lock_op list" where
  "JoinConsumerGroup_locks g = writes CgsMutex (writes (CgMutex g) [])"

definition store_write_locks :: "kafka_lock lock_op list" where
  "store_write_locks = writes StoreMutex []"

definition store_read_locks :: "kafka_lock lock_op list" where
  "store_read_locks = reads StoreMutex []"

definition GetTopicMetadata_locks :: "bool \<Rightarrow> kafka_lock lock_op list" where
  "GetTopicMetadata_locks found =
     (if found then reads StoreMutex [] else reads StoreMutex [] @ writes StoreMutex [] @ reads StoreMutex [])"

subsection \<open>Transactions\<close>

text \<open>\<open>ok\<close>: the state lets the operation reach the coordinator.\<close>

definition tm_locks :: "bool \<Rightarrow> kafka_lock lock_op list" where
  "tm_locks ok = writes TmMutex (if ok then writes TcMutex [] else [])"

definition SendToTransaction_locks :: "bool \<Rightarrow> bool \<Rightarrow> kafka_lock lock_op list" where
  "SendToTransaction_locks ongoing ok = writes TpMutex (if ongoing then tm_locks ok else [])"

definition FlushTransaction_locks :: "kafka_lock lock_op list" where
  "FlushTransaction_locks = writes TpMutex []"

definition tc_locks :: "kafka_lock lock_op list" where
  "tc_locks = writes TcMutex []"

definition GetState_locks :: "kafka_lock lock_op list" where
  "GetState_locks = reads TmMutex []"

definition GetTransactionState_locks :: "kafka_lock lock_op list" where
  "GetTransactionState_locks = reads TcMutex []"

section \<open>All functions but one take their locks in order\<close>

fun rank :: "kafka_lock \<Rightarrow> nat" where
  "rank (GroupMutex _) = 1"
| "rank (CgMutex _) = 1"
| "rank OmMutex = 1"
| "rank TmMutex = 1"
| "rank TcMutex = 2"
| "rank _ = 0"

definition sections :: "kafka_lock lock_op list set" where
  "sections =
     {cc_write_locks, cc_read_locks, om_CommitOffset_locks, om_FetchOffset_locks, om_DeleteGroup_locks,
      CommitOffsetWithMetadata_locks, FetchOffsetMetadata_locks, FlushTransaction_locks, tc_locks,
      store_write_locks, store_read_locks, GetState_locks, GetTransactionState_locks} \<union>
     range JoinGroup_locks \<union> range (case_prod SyncGroup_locks) \<union> range (case_prod Heartbeat_locks) \<union>
     range (case_prod LeaveGroup_locks) \<union> range DescribeGroups_locks \<union> range ListGroups_locks \<union>
     range checkHeartbeats_locks \<union> range CleanupExpiredOffsets_locks \<union> range CommitOffset_locks \<union>
     range (case_prod FetchOffset_locks) \<union> range JoinConsumerGroup_locks \<union> range GetTopicMetadata_locks \<union>
     range tm_locks \<union> range (case_prod SendToTransaction_locks)"

lemma ordered_append: "ordered r H as \<Longrightarrow> ordered r [] bs \<Longrightarrow> ordered r H (as @ bs)"
  by (induction r H as rule: ordered.induct) auto

lemma ordered_concat: "\<forall>p \<in> set ps. ordered r [] p \<Longrightarrow> ordered r [] (concat ps)"
  by (induction ps) (auto intro: ordered_append)

text \<open>A balanced section keeps what is held around it.\<close>

definition nested :: "('l \<Rightarrow> nat) \<Rightarrow> nat \<Rightarrow> 'l lock_op list \<Rightarrow> bool" where
  "nested r n as \<longleftrightarrow> (\<forall>H bs. (\<forall>h \<in> set H. r (fst h) < n) \<longrightarrow> ordered r H bs \<longrightarrow> ordered r H (as @ bs))"

lemma nested_Nil [simp]: "nested r n []"
  by (simp add: nested_def)

lemma nested_append: "nested r n as \<Longrightarrow> nested r n bs \<Longrightarrow> nested r n (as @ bs)"
  by (simp add: nested_def)

lemma nested_concat: "\<forall>p \<in> set ps. nested r n p \<Longrightarrow> nested r n (concat ps)"
  by (induction ps) (auto intro: nested_append)

lemma nested_reads:
  assumes "nested r (Suc (r l)) as" "n \<le> r l" shows "nested r n (reads l as)"
  unfolding nested_def
proof (intro allI impI)
  fix H :: "('a \<times> mode) list" and bs
  assume H: "\<forall>h \<in> set H. r (fst h) < n" and "ordered r H bs"
  then have "ordered r ((l, Read) # H) (as @ RUnlock l # bs)"
    using assms by (intro assms(1) [unfolded nested_def, rule_format]) (auto simp: less_Suc_eq dest: less_le_trans)
  then show "ordered r H (reads l as @ bs)"
    using H assms(2) by (auto simp: reads_def dest: less_le_trans)
qed

lemma nested_writes:
  assumes "nested r (Suc (r l)) as" "n \<le> r l" shows "nested r n (writes l as)"
  unfolding nested_def
proof (intro allI impI)
  fix H :: "('a \<times> mode) list" and bs
  assume H: "\<forall>h \<in> set H. r (fst h) < n" and "ordered r H bs"
  then have "ordered r ((l, Write) # H) (as @ Unlock l # bs)"
    using assms by (intro assms(1) [unfolded nested_def, rule_format]) (auto simp: less_Suc_eq dest: less_le_trans)
  then show "ordered r H (writes l as @ bs)"
    using H assms(2) by (auto simp: writes_def dest: less_le_trans)
qed

lemma nested_ordered: "nested r n as \<Longrightarrow> ordered r [] as"
  using nested_def [THEN iffD1, rule_format, of r n as "[]" "[]"] by simp

lemmas lock_defs = JoinGroup_locks_def SyncGroup_locks_def Heartbeat_locks_def LeaveGroup_locks_def
  DescribeGroups_locks_def ListGroups_locks_def checkHeartbeats_locks_def cc_write_locks_def cc_read_locks_def
  om_CommitOffset_locks_def om_FetchOffset_locks_def om_DeleteGroup_locks_def
  CommitOffsetWithMetadata_locks_def FetchOffsetMetadata_locks_def CleanupExpiredOffsets_locks_def
  CommitOffset_locks_def FetchOffset_locks_def JoinConsumerGroup_locks_def GetTopicMetadata_locks_def
  tm_locks_def SendToTransaction_locks_def FlushTransaction_locks_def tc_locks_def
  store_write_locks_def store_read_locks_def GetState_locks_def GetTransactionState_locks_def

lemma sections_ordered: "p \<in> sections \<Longrightarrow> ordered rank [] p"
  by (rule nested_ordered [of _ 0])
    (auto simp: sections_def lock_defs intro!: nested_reads nested_writes nested_append nested_concat)

section \<open>Properties\<close>



text \<open>\<^verbatim>\<open>Stats\<close> takes the two locks of the offset manager in the order opposite to
  \<^verbatim>\<open>CleanupExpiredOffsets\<close>. When each has its first lock, both wait forever.\<close>

theorem stats_cleanup_deadlock:
  "\<exists>ts. lock_step\<^sup>*\<^sup>* (threads [CleanupExpiredOffsets_locks (Suc n), Stats_locks]) ts \<and>
     \<not> finished ts \<and> (\<forall>ts'. \<not> lock_step ts ts')"
proof -
  define c where "c = om_DeleteGroup_locks @ concat (replicate n om_DeleteGroup_locks) @ [Unlock MetaMux]"
  define s where "s = reads MetaMux [] @ [RUnlock OmMutex]"
  define ts where "ts = [([(MetaMux, Write)], c), ([(OmMutex, Read)], s)]"
  have "lock_step (threads [CleanupExpiredOffsets_locks (Suc n), Stats_locks])
      [([(MetaMux, Write)], c), ([], Stats_locks)]"
    using lock_step.intros [of 0 "threads [CleanupExpiredOffsets_locks (Suc n), Stats_locks]"]
    by (simp add: threads_def CleanupExpiredOffsets_locks_def writes_def c_def)
  moreover have "lock_step [([(MetaMux, Write)], c), ([], Stats_locks)] ts"
    using lock_step.intros [of 1 "[([(MetaMux, Write)], c), ([], Stats_locks)]"]
    by (simp add: Stats_locks_def reads_def s_def ts_def)
  moreover have "stuck ts" "\<not> finished ts"
    by (simp_all add: ts_def stuck_def finished_def c_def s_def om_DeleteGroup_locks_def writes_def reads_def)
  ultimately show ?thesis
    by (meson r_into_rtranclp rtranclp.rtrancl_into_rtrancl stuck_no_step)
qed

end
