(* ===== verification/Kafka_Transactions.thy ===== *)
theory Kafka_Transactions
  imports Kafka_Assign
begin

text \<open>
  Transactions: \<^verbatim>\<open>src/pkg/kafka/transactions.go\<close>, with the states of
  \<^verbatim>\<open>src/pkg/kafka/consumer_groups.go\<close>. A producer owns its manager and the manager its
  coordinator, so the three are nested records. Producer epochs and sequence numbers are words that
  wrap around. \<^verbatim>\<open>sendBatch\<close> does nothing in the source; \<open>FlushTransaction\<close> here also
  returns the batches it is called with.

  The inductive relation \<open>txn_step\<close> puts the operations together.
\<close>

section \<open>Data\<close>

datatype TransactionState = TxEmpty | TxOngoing | TxCompleteCommit | TxCompleteAbort
  | TxPreparingRebalance | TxPreparingCommit | TxCommittingTxn | TxPreparingAbort
  | TxCompletingAbort | TxPrepareCommit | TxPrepareAbort | TxDead

record TransactionMetadata =
  tx_TransactionalID :: string
  tx_ProducerID :: i64
  tx_ProducerEpoch :: i16
  tx_State :: TransactionState
  tx_TopicPartitions :: "string \<rightharpoonup> i32 list"
  tx_TxnStartTimestamp :: instant
  tx_TxnTimeoutMs :: i32
  tx_LastUpdateTime :: instant

record TransactionCoordinator =
  tc_brokerID :: i32
  tc_host :: string
  tc_port :: i32
  tc_transactions :: "string \<rightharpoonup> TransactionMetadata"

record TransactionManager =
  tm_transactionalID :: string
  tm_producerID :: i64
  tm_producerEpoch :: i16
  tm_timeout :: duration
  tm_state :: TransactionState
  tm_coordinator :: TransactionCoordinator

record TransactionalMessage =
  ms_Key :: "byte list"
  ms_Value :: "byte list"
  ms_Headers :: "string \<rightharpoonup> byte list"
  ms_Timestamp :: instant
  ms_Sequence :: i32

record ProducerBatch =
  pb_TopicPartition :: TopicPartition
  pb_Messages :: "TransactionalMessage list"
  pb_FirstSequence :: i32
  pb_LastSequence :: i32
  pb_ProducerID :: i64
  pb_ProducerEpoch :: i16

record TransactionalProducer =
  tp_transactionManager :: TransactionManager
  tp_batches :: "TopicPartition \<rightharpoonup> ProducerBatch"
  tp_sequenceNumbers :: "TopicPartition \<rightharpoonup> i32"

datatype tx_error =
    AlreadyInitialized
  | InProgress TransactionState
  | NoOngoing TransactionState
  | NothingToAbort TransactionState
  | TxnNotFound string

definition NewTransactionCoordinator :: TransactionCoordinator where
  "NewTransactionCoordinator = \<lparr>tc_brokerID = 0, tc_host = [], tc_port = 0, tc_transactions = Map.empty\<rparr>"

definition NewTransactionManager :: "string \<Rightarrow> duration \<Rightarrow> TransactionManager" where
  "NewTransactionManager transactionalID timeout =
     \<lparr>tm_transactionalID = transactionalID, tm_producerID = 0, tm_producerEpoch = 0, tm_timeout = timeout,
      tm_state = TxEmpty, tm_coordinator = NewTransactionCoordinator\<rparr>"

definition NewTransactionalProducer :: "string \<Rightarrow> duration \<Rightarrow> TransactionalProducer" where
  "NewTransactionalProducer transactionalID timeout =
     \<lparr>tp_transactionManager = NewTransactionManager transactionalID timeout, tp_batches = Map.empty,
      tp_sequenceNumbers = Map.empty\<rparr>"

section \<open>TransactionCoordinator\<close>

definition InitProducerID :: "instant \<Rightarrow> string \<Rightarrow> TransactionCoordinator \<Rightarrow> i64 \<times> i16" where
  "InitProducerID now transactionalID tc =
     (word_of_int now,
      case tc_transactions tc transactionalID of None \<Rightarrow> 0 | Some existing \<Rightarrow> tx_ProducerEpoch existing + 1)"

definition set_txn :: "string \<Rightarrow> TransactionMetadata \<Rightarrow> TransactionCoordinator \<Rightarrow> TransactionCoordinator" where
  "set_txn i m tc = tc\<lparr>tc_transactions := (tc_transactions tc)(i \<mapsto> m)\<rparr>"

definition AddTransaction :: "TransactionMetadata \<Rightarrow> TransactionCoordinator \<Rightarrow> TransactionCoordinator" where
  "AddTransaction metadata tc = set_txn (tx_TransactionalID metadata) metadata tc"

fun unique_partitions :: "i32 list \<Rightarrow> i32 list \<Rightarrow> i32 list" where
  "unique_partitions seen [] = []"
| "unique_partitions seen (p # ps) =
     (if p \<in> set seen then unique_partitions seen ps else p # unique_partitions (p # seen) ps)"

definition merge_partitions :: "(string \<rightharpoonup> i32 list) \<Rightarrow> (string \<rightharpoonup> i32 list) \<Rightarrow> (string \<rightharpoonup> i32 list)" where
  "merge_partitions old partitions =
     (\<lambda>topic. case partitions topic of
        None \<Rightarrow> old topic
      | Some partitionList \<Rightarrow>
          (case old topic of
             Some existing \<Rightarrow> Some (unique_partitions [] (existing @ partitionList))
           | None \<Rightarrow> Some partitionList))"

definition AddPartitionsToTransaction ::
  "instant \<Rightarrow> string \<Rightarrow> (string \<rightharpoonup> i32 list) \<Rightarrow> TransactionCoordinator \<Rightarrow> tx_error option \<times> TransactionCoordinator" where
  "AddPartitionsToTransaction now transactionalID partitions tc =
     (case tc_transactions tc transactionalID of
        None \<Rightarrow> (Some (TxnNotFound transactionalID), tc)
      | Some m \<Rightarrow> (None, set_txn transactionalID (m\<lparr>tx_TopicPartitions := merge_partitions (tx_TopicPartitions m) partitions,
                           tx_LastUpdateTime := now\<rparr>) tc))"

definition EndTransaction ::
  "instant \<Rightarrow> string \<Rightarrow> bool \<Rightarrow> TransactionCoordinator \<Rightarrow> tx_error option \<times> TransactionCoordinator" where
  "EndTransaction now transactionalID commit tc =
     (case tc_transactions tc transactionalID of
        None \<Rightarrow> (Some (TxnNotFound transactionalID), tc)
      | Some m \<Rightarrow> (None, set_txn transactionalID
                   (m\<lparr>tx_State := (if commit then TxCompleteCommit else TxCompleteAbort), tx_LastUpdateTime := now\<rparr>) tc))"

definition GetTransactionState :: "string \<Rightarrow> TransactionCoordinator \<Rightarrow> TransactionState \<times> tx_error option" where
  "GetTransactionState transactionalID tc =
     (case tc_transactions tc transactionalID of
        None \<Rightarrow> (TxDead, Some (TxnNotFound transactionalID))
      | Some m \<Rightarrow> (tx_State m, None))"

definition CleanupExpiredTransactions :: "instant \<Rightarrow> duration \<Rightarrow> TransactionCoordinator \<Rightarrow> TransactionCoordinator" where
  "CleanupExpiredTransactions now maxAge tc =
     tc\<lparr>tc_transactions := (\<lambda>i. case tc_transactions tc i of
          None \<Rightarrow> None
        | Some m \<Rightarrow> if time_sub now (tx_LastUpdateTime m) > maxAge then None else Some m)\<rparr>"

section \<open>TransactionManager\<close>

definition InitTransactions :: "instant \<Rightarrow> TransactionManager \<Rightarrow> tx_error option \<times> TransactionManager" where
  "InitTransactions now tm =
     (if tm_state tm \<noteq> TxEmpty then (Some AlreadyInitialized, tm)
      else let (producerID, epoch) = InitProducerID now (tm_transactionalID tm) (tm_coordinator tm)
           in (None, tm\<lparr>tm_producerID := producerID, tm_producerEpoch := epoch, tm_state := TxEmpty\<rparr>))"

text \<open>\<^verbatim>\<open>int32(tm.timeout.Milliseconds())\<close>: division towards zero, then truncation to 32 bits.\<close>

definition timeout_ms :: "duration \<Rightarrow> i32" where
  "timeout_ms d = word_of_int (sgn d * (\<bar>d\<bar> div Millisecond))"

definition BeginTransaction :: "instant \<Rightarrow> TransactionManager \<Rightarrow> tx_error option \<times> TransactionManager" where
  "BeginTransaction now tm =
     (if tm_state tm \<noteq> TxEmpty then (Some (InProgress (tm_state tm)), tm)
      else let metadata = \<lparr>tx_TransactionalID = tm_transactionalID tm, tx_ProducerID = tm_producerID tm,
                 tx_ProducerEpoch = tm_producerEpoch tm, tx_State = TxOngoing, tx_TopicPartitions = Map.empty,
                 tx_TxnStartTimestamp = now, tx_TxnTimeoutMs = timeout_ms (tm_timeout tm),
                 tx_LastUpdateTime = now\<rparr>
           in (None, tm\<lparr>tm_coordinator := AddTransaction metadata (tm_coordinator tm), tm_state := TxOngoing\<rparr>))"

definition AddPartitionsToTxn ::
  "instant \<Rightarrow> (string \<rightharpoonup> i32 list) \<Rightarrow> TransactionManager \<Rightarrow> tx_error option \<times> TransactionManager" where
  "AddPartitionsToTxn now partitions tm =
     (if tm_state tm \<noteq> TxOngoing then (Some (NoOngoing (tm_state tm)), tm)
      else let (err, tc) = AddPartitionsToTransaction now (tm_transactionalID tm) partitions (tm_coordinator tm)
           in (err, tm\<lparr>tm_coordinator := tc\<rparr>))"

definition CommitTransaction :: "instant \<Rightarrow> TransactionManager \<Rightarrow> tx_error option \<times> TransactionManager" where
  "CommitTransaction now tm =
     (if tm_state tm \<noteq> TxOngoing then (Some (NoOngoing (tm_state tm)), tm)
      else let tm = tm\<lparr>tm_state := TxPrepareCommit\<rparr>;
               (err, tc) = EndTransaction now (tm_transactionalID tm) True (tm_coordinator tm);
               tm = tm\<lparr>tm_coordinator := tc\<rparr>
           in case err of
                Some e \<Rightarrow> (Some e, tm\<lparr>tm_state := TxOngoing\<rparr>)
              | None \<Rightarrow> (None, tm\<lparr>tm_state := TxEmpty\<rparr>))"

definition AbortTransaction :: "instant \<Rightarrow> TransactionManager \<Rightarrow> tx_error option \<times> TransactionManager" where
  "AbortTransaction now tm =
     (if tm_state tm \<noteq> TxOngoing \<and> tm_state tm \<noteq> TxPrepareCommit then (Some (NothingToAbort (tm_state tm)), tm)
      else let tm = tm\<lparr>tm_state := TxPrepareAbort\<rparr>;
               (err, tc) = EndTransaction now (tm_transactionalID tm) False (tm_coordinator tm);
               tm = tm\<lparr>tm_coordinator := tc\<rparr>
           in case err of
                Some e \<Rightarrow> (Some e, tm)
              | None \<Rightarrow> (None, tm\<lparr>tm_state := TxEmpty\<rparr>))"

definition GetState :: "TransactionManager \<Rightarrow> TransactionState" where
  "GetState tm = tm_state tm"

definition GetProducerID :: "TransactionManager \<Rightarrow> i64" where
  "GetProducerID tm = tm_producerID tm"

definition GetProducerEpoch :: "TransactionManager \<Rightarrow> i16" where
  "GetProducerEpoch tm = tm_producerEpoch tm"

section \<open>TransactionalProducer\<close>

text \<open>A missing sequence number reads as 0.\<close>

definition sequence_of :: "TopicPartition \<Rightarrow> TransactionalProducer \<Rightarrow> i32" where
  "sequence_of k pr = (case tp_sequenceNumbers pr k of None \<Rightarrow> 0 | Some n \<Rightarrow> n)"

definition batch_or_new :: "TopicPartition \<Rightarrow> TransactionalProducer \<Rightarrow> ProducerBatch" where
  "batch_or_new k pr =
     (case tp_batches pr k of
        Some b \<Rightarrow> b
      | None \<Rightarrow> \<lparr>pb_TopicPartition = k, pb_Messages = [], pb_FirstSequence = sequence_of k pr, pb_LastSequence = 0,
                 pb_ProducerID = tm_producerID (tp_transactionManager pr),
                 pb_ProducerEpoch = tm_producerEpoch (tp_transactionManager pr)\<rparr>)"

definition SendToTransaction ::
  "instant \<Rightarrow> string \<Rightarrow> i32 \<Rightarrow> TransactionalMessage \<Rightarrow> TransactionalProducer \<Rightarrow>
     tx_error option \<times> TransactionalProducer" where
  "SendToTransaction now topic part message pr =
     (if tm_state (tp_transactionManager pr) \<noteq> TxOngoing
      then (Some (NoOngoing (tm_state (tp_transactionManager pr))), pr)
      else let k = tp topic part;
               batch = batch_or_new k pr;
               message = message\<lparr>ms_Sequence := sequence_of k pr\<rparr>;
               batch = batch\<lparr>pb_Messages := pb_Messages batch @ [message], pb_LastSequence := ms_Sequence message\<rparr>;
               (err, tm) = AddPartitionsToTxn now [topic \<mapsto> [part]] (tp_transactionManager pr)
           in (err, pr\<lparr>tp_batches := (tp_batches pr)(k \<mapsto> batch),
                     tp_sequenceNumbers := (tp_sequenceNumbers pr)(k \<mapsto> sequence_of k pr + 1),
                     tp_transactionManager := tm\<rparr>))"

text \<open>\<open>order\<close> is the iteration order of the batches.\<close>

definition FlushTransaction ::
  "TopicPartition list \<Rightarrow> TransactionalProducer \<Rightarrow> ProducerBatch list \<times> TransactionalProducer" where
  "FlushTransaction order pr =
     (concat (map (\<lambda>k. case tp_batches pr k of None \<Rightarrow> [] | Some b \<Rightarrow> [b]) order), pr\<lparr>tp_batches := Map.empty\<rparr>)"

section \<open>Runs of a producer\<close>

definition with_manager :: "(TransactionManager \<Rightarrow> TransactionManager) \<Rightarrow> TransactionalProducer \<Rightarrow> TransactionalProducer" where
  "with_manager f pr = pr\<lparr>tp_transactionManager := f (tp_transactionManager pr)\<rparr>"

inductive txn_step :: "TransactionalProducer \<Rightarrow> TransactionalProducer \<Rightarrow> bool" where
  init: "txn_step pr (with_manager (\<lambda>tm. snd (InitTransactions now tm)) pr)"
| begin_txn: "txn_step pr (with_manager (\<lambda>tm. snd (BeginTransaction now tm)) pr)"
| add: "txn_step pr (with_manager (\<lambda>tm. snd (AddPartitionsToTxn now ps tm)) pr)"
| commit: "txn_step pr (with_manager (\<lambda>tm. snd (CommitTransaction now tm)) pr)"
| abort: "txn_step pr (with_manager (\<lambda>tm. snd (AbortTransaction now tm)) pr)"
| cleanup: "txn_step pr (with_manager (\<lambda>tm. tm\<lparr>tm_coordinator :=
    CleanupExpiredTransactions now maxAge (tm_coordinator tm)\<rparr>) pr)"
| send: "txn_step pr (snd (SendToTransaction now topic part m pr))"
| flush: "txn_step pr (snd (FlushTransaction order pr))"

section \<open>The invariant\<close>

text \<open>A pending batch belongs to its key, is not empty, and holds consecutive sequence numbers that end
  where the next one of its partition begins.\<close>

definition batch_ok :: "TransactionalProducer \<Rightarrow> TopicPartition \<Rightarrow> ProducerBatch \<Rightarrow> bool" where
  "batch_ok pr k b \<longleftrightarrow>
     pb_TopicPartition b = k \<and> pb_Messages b \<noteq> [] \<and>
     map ms_Sequence (pb_Messages b) = map (\<lambda>i. pb_FirstSequence b + of_nat i) [0..<length (pb_Messages b)] \<and>
     pb_LastSequence b = ms_Sequence (last (pb_Messages b)) \<and>
     sequence_of k pr = pb_FirstSequence b + of_nat (length (pb_Messages b))"

definition live_state :: "TransactionState \<Rightarrow> bool" where
  "live_state s \<longleftrightarrow> s \<in> {TxEmpty, TxOngoing, TxPrepareAbort}"

definition producer_ok :: "TransactionalProducer \<Rightarrow> bool" where
  "producer_ok pr \<longleftrightarrow>
     live_state (tm_state (tp_transactionManager pr)) \<and>
     (\<forall>k b. tp_batches pr k = Some b \<longrightarrow> batch_ok pr k b)"

lemmas manager_defs = InitTransactions_def BeginTransaction_def AddPartitionsToTxn_def CommitTransaction_def
  AbortTransaction_def with_manager_def

lemma with_manager_ok:
  "producer_ok pr \<Longrightarrow> (\<And>tm. live_state (tm_state tm) \<Longrightarrow> live_state (tm_state (f tm))) \<Longrightarrow>
     producer_ok (with_manager f pr)"
  by (simp add: producer_ok_def with_manager_def batch_ok_def sequence_of_def)

lemma manager_states:
  assumes "live_state (tm_state tm)"
  shows "live_state (tm_state (snd (InitTransactions now tm)))"
    "live_state (tm_state (snd (BeginTransaction now tm)))"
    "live_state (tm_state (snd (AddPartitionsToTxn now ps tm)))"
    "live_state (tm_state (snd (CommitTransaction now tm)))"
    "live_state (tm_state (snd (AbortTransaction now tm)))"
  using assms by (auto simp: live_state_def manager_defs Let_def split: prod.splits option.splits)

lemma AddPartitionsToTxn_state [simp]: "tm_state (snd (AddPartitionsToTxn now ps tm)) = tm_state tm"
  by (auto simp: AddPartitionsToTxn_def Let_def split: prod.splits)

lemma batch_extend:
  assumes "\<And>b. tp_batches pr k = Some b \<Longrightarrow> batch_ok pr k b"
    and "b = batch_or_new k pr" "m = msg\<lparr>ms_Sequence := sequence_of k pr\<rparr>"
    and "pr' = pr\<lparr>tp_batches := bs, tp_sequenceNumbers := (tp_sequenceNumbers pr)(k \<mapsto> sequence_of k pr + 1),
      tp_transactionManager := tm\<rparr>"
  shows "batch_ok pr' k (b\<lparr>pb_Messages := pb_Messages b @ [m], pb_LastSequence := ms_Sequence m\<rparr>)"
proof -
  have next_seq: "sequence_of k pr' = sequence_of k pr + 1"
    by (simp add: assms(4) sequence_of_def)
  have b: "map ms_Sequence (pb_Messages b) = map (\<lambda>i. pb_FirstSequence b + of_nat i) [0..<length (pb_Messages b)] \<and>
    pb_TopicPartition b = k \<and> sequence_of k pr = pb_FirstSequence b + of_nat (length (pb_Messages b))"
  proof (cases "tp_batches pr k")
    case None
    then show ?thesis
      by (simp add: assms(2) batch_or_new_def)
  next
    case (Some c)
    then have "b = c"
      by (simp add: assms(2) batch_or_new_def)
    then show ?thesis
      using assms(1) [OF Some] unfolding batch_ok_def by blast
  qed
  have "map ms_Sequence (pb_Messages b @ [m]) =
      map (\<lambda>i. pb_FirstSequence b + of_nat i) [0..<length (pb_Messages b @ [m])]"
    using b by (simp add: assms(3) del: map_map)
  then show ?thesis
    using b unfolding batch_ok_def next_seq by (simp add: assms(3))
qed

lemma SendToTransaction_ok:
  assumes "producer_ok pr" shows "producer_ok (snd (SendToTransaction now t p m pr))"
proof (cases "tm_state (tp_transactionManager pr) = TxOngoing")
  case True
  obtain err tm where add: "AddPartitionsToTxn now [t \<mapsto> [p]] (tp_transactionManager pr) = (err, tm)"
    by fastforce
  then have tm: "tm_state tm = TxOngoing"
    using True AddPartitionsToTxn_state by (metis snd_conv)
  define k b where "k = tp t p" and "b = batch_or_new k pr"
  define m' where "m' = m\<lparr>ms_Sequence := sequence_of k pr\<rparr>"
  define b' where "b' = b\<lparr>pb_Messages := pb_Messages b @ [m'], pb_LastSequence := ms_Sequence m'\<rparr>"
  define pr' where "pr' = pr\<lparr>tp_batches := (tp_batches pr)(k \<mapsto> b'),
    tp_sequenceNumbers := (tp_sequenceNumbers pr)(k \<mapsto> sequence_of k pr + 1), tp_transactionManager := tm\<rparr>"
  have new: "snd (SendToTransaction now t p m pr) = pr'"
    using True add by (simp add: SendToTransaction_def Let_def k_def b_def m'_def b'_def pr'_def)
  have "batch_ok pr' k b'"
    unfolding b'_def using assms
    by (intro batch_extend [OF _ b_def m'_def pr'_def]) (simp add: producer_ok_def)
  moreover have "batch_ok pr' k' c" if "tp_batches pr k' = Some c" "k' \<noteq> k" for k' c
    using assms that by (auto simp: producer_ok_def batch_ok_def sequence_of_def pr'_def)
  ultimately show ?thesis
    using tm new by (auto simp: producer_ok_def live_state_def pr'_def)
qed (simp add: SendToTransaction_def assms)

lemma txn_step_ok: "txn_step pr pr' \<Longrightarrow> producer_ok pr \<Longrightarrow> producer_ok pr'"
proof (induction rule: txn_step.induct)
  case (flush pr order)
  then show ?case
    by (simp add: producer_ok_def FlushTransaction_def)
qed (simp_all add: with_manager_ok manager_states SendToTransaction_ok)

section \<open>Properties\<close>

text \<open>C13. In every state a transactional producer reaches, by any sequence of its operations and of
  coordinator clean-ups, its manager is empty, ongoing or preparing an abort, and every pending batch
  is filed under its own partition and holds messages with consecutive sequence numbers, modulo
  2^32, from the first to the last the batch names, right up to the next number of the
  partition.\<close>

theorem producer_invariant:
  assumes "txn_step\<^sup>*\<^sup>* (NewTransactionalProducer i d) pr"
  shows "producer_ok pr"
  using assms
proof (induction rule: rtranclp_induct)
  case base
  then show ?case
    by (simp add: producer_ok_def live_state_def NewTransactionalProducer_def NewTransactionManager_def)
qed (rule txn_step_ok)

definition hello :: TransactionalMessage where
  "hello = \<lparr>ms_Key = [], ms_Value = [1], ms_Headers = Map.empty, ms_Timestamp = 5, ms_Sequence = 9\<rparr>"

definition sent_hello :: TransactionalProducer where
  "sent_hello = snd (SendToTransaction 3 ''t'' 0 hello
     (with_manager (\<lambda>tm. snd (BeginTransaction 2 tm)) (NewTransactionalProducer ''x'' Second)))"

theorem producer_invariant_witness:
  "txn_step\<^sup>*\<^sup>* (NewTransactionalProducer ''x'' Second) sent_hello \<and> producer_ok sent_hello \<and>
   map_option (map ms_Sequence \<circ> pb_Messages) (tp_batches sent_hello (tp ''t'' 0)) = Some [0]"
proof -
  have run: "txn_step\<^sup>*\<^sup>* (NewTransactionalProducer ''x'' Second) sent_hello"
    unfolding sent_hello_def
    by (rule rtranclp.rtrancl_into_rtrancl [OF r_into_rtranclp [where r = txn_step, OF txn_step.begin_txn] txn_step.send])
  moreover have "producer_ok sent_hello"
    using producer_invariant [OF run] .
  moreover have "map_option (map ms_Sequence \<circ> pb_Messages) (tp_batches sent_hello (tp ''t'' 0)) = Some [0]"
    by (simp add: sent_hello_def SendToTransaction_def with_manager_def BeginTransaction_def
        NewTransactionalProducer_def NewTransactionManager_def NewTransactionCoordinator_def
        AddPartitionsToTxn_def AddPartitionsToTransaction_def AddTransaction_def set_txn_def Let_def
        batch_or_new_def sequence_of_def)
  ultimately show ?thesis
    by blast
qed

lemma SendToTransaction_manager:
  "tp_transactionManager (snd (SendToTransaction now t p m pr)) =
     (if tm_state (tp_transactionManager pr) = TxOngoing
      then snd (AddPartitionsToTxn now [t \<mapsto> [p]] (tp_transactionManager pr)) else tp_transactionManager pr)"
  "fst (SendToTransaction now t p m pr) =
     (if tm_state (tp_transactionManager pr) = TxOngoing
      then fst (AddPartitionsToTxn now [t \<mapsto> [p]] (tp_transactionManager pr))
      else Some (NoOngoing (tm_state (tp_transactionManager pr))))"
  by (simp_all add: SendToTransaction_def Let_def case_prod_unfold)

text \<open>The transaction is open but its coordinator entry is gone, or an abort of it has failed.\<close>

definition orphaned :: "TransactionManager \<Rightarrow> bool" where
  "orphaned tm \<longleftrightarrow> tc_transactions (tm_coordinator tm) (tm_transactionalID tm) = None \<and>
     tm_state tm \<in> {TxOngoing, TxPrepareAbort}"

lemma orphaned_ops:
  assumes "orphaned tm"
  shows "orphaned (snd (InitTransactions now tm))" "orphaned (snd (BeginTransaction now tm))"
    "orphaned (snd (AddPartitionsToTxn now ps tm))" "orphaned (snd (CommitTransaction now tm))"
    "orphaned (snd (AbortTransaction now tm))"
    "orphaned (tm\<lparr>tm_coordinator := CleanupExpiredTransactions now maxAge (tm_coordinator tm)\<rparr>)"
  using assms
  by (auto simp: orphaned_def manager_defs Let_def EndTransaction_def AddPartitionsToTransaction_def
      CleanupExpiredTransactions_def split: option.splits)

lemma orphaned_refuses:
  assumes "orphaned tm"
  shows "fst (BeginTransaction now tm) \<noteq> None" "fst (CommitTransaction now tm) \<noteq> None"
    "fst (AbortTransaction now tm) \<noteq> None" "fst (AddPartitionsToTxn now ps tm) \<noteq> None"
  using assms
  by (auto simp: orphaned_def manager_defs Let_def EndTransaction_def AddPartitionsToTransaction_def)

lemma orphaned_step:
  "txn_step pr pr' \<Longrightarrow> orphaned (tp_transactionManager pr) \<Longrightarrow> orphaned (tp_transactionManager pr')"
  by (induction rule: txn_step.induct)
    (auto simp: with_manager_def FlushTransaction_def SendToTransaction_manager orphaned_ops)

lemma orphaned_run:
  "txn_step\<^sup>*\<^sup>* pr pr' \<Longrightarrow> orphaned (tp_transactionManager pr) \<Longrightarrow> orphaned (tp_transactionManager pr')"
  by (induction rule: rtranclp_induct) (auto intro: orphaned_step)

text \<open>A transaction that the coordinator's clean-up removes while it is open wedges its producer for
  good: from then on, after any sequence of operations, no transaction can be begun, committed or
  aborted, and no message can be sent without an error.\<close>

theorem expired_transaction_wedges:
  assumes "tm_state (tp_transactionManager pr) = TxOngoing"
    and "tc_transactions (tm_coordinator (tp_transactionManager pr)) (tm_transactionalID (tp_transactionManager pr)) = Some m"
    and "time_sub now (tx_LastUpdateTime m) > maxAge"
    and "txn_step\<^sup>*\<^sup>* (with_manager (\<lambda>tm. tm\<lparr>tm_coordinator :=
      CleanupExpiredTransactions now maxAge (tm_coordinator tm)\<rparr>) pr) pr'"
  shows "fst (BeginTransaction t (tp_transactionManager pr')) \<noteq> None \<and>
    fst (CommitTransaction t (tp_transactionManager pr')) \<noteq> None \<and>
    fst (AbortTransaction t (tp_transactionManager pr')) \<noteq> None \<and>
    fst (SendToTransaction t topic part msg pr') \<noteq> None"
proof -
  have "orphaned (tp_transactionManager pr')"
    using assms(1-3)
    by (intro orphaned_run [OF assms(4)]) (simp add: orphaned_def with_manager_def CleanupExpiredTransactions_def)
  from orphaned_refuses [OF this] show ?thesis
    by (simp add: SendToTransaction_manager)
qed

theorem expired_transaction_wedges_witness:
  "let pr = with_manager (\<lambda>tm. tm\<lparr>tm_coordinator :=
         CleanupExpiredTransactions (100 * Second) Second (tm_coordinator tm)\<rparr>)
       (with_manager (\<lambda>tm. snd (BeginTransaction 2 tm)) (NewTransactionalProducer ''x'' Second));
       pr' = with_manager (\<lambda>tm. snd (AbortTransaction (101 * Second) tm)) pr
   in fst (BeginTransaction (102 * Second) (tp_transactionManager pr')) \<noteq> None"
proof -
  define pr where "pr = with_manager (\<lambda>tm. snd (BeginTransaction 2 tm)) (NewTransactionalProducer ''x'' Second)"
  have "\<exists>m. tc_transactions (tm_coordinator (tp_transactionManager pr)) (tm_transactionalID (tp_transactionManager pr)) = Some m \<and>
      tm_state (tp_transactionManager pr) = TxOngoing \<and> tx_LastUpdateTime m = 2"
    by (simp add: pr_def with_manager_def BeginTransaction_def NewTransactionalProducer_def
        NewTransactionManager_def AddTransaction_def set_txn_def Let_def)
  moreover have "time_sub (100 * Second) 2 > Second"
    by (simp add: time_sub_def Second_def maxDuration_def minDuration_def)
  ultimately show ?thesis
    using expired_transaction_wedges [where pr = pr and now = "100 * Second" and maxAge = Second,
        OF _ _ _ r_into_rtranclp [where r = txn_step, OF txn_step.abort]]
    by (auto simp flip: pr_def)
qed

text \<open>Aborting does not discard what was sent: a message of an aborted transaction is among the
  messages that the flush of the producer's next transaction sends.\<close>

theorem aborted_message_is_sent:
  assumes "SendToTransaction t1 topic part msg pr = (None, pr1)"
    and "pr2 = with_manager (\<lambda>tm. snd (AbortTransaction t2 tm)) pr1"
    and "pr3 = with_manager (\<lambda>tm. snd (BeginTransaction t3 tm)) pr2"
    and "range_order (tp_batches pr3) order"
  shows "tm_state (tp_transactionManager pr2) = TxEmpty \<and> tm_state (tp_transactionManager pr3) = TxOngoing \<and>
    (\<exists>b \<in> set (fst (FlushTransaction order pr3)).
       msg\<lparr>ms_Sequence := sequence_of (tp topic part) pr\<rparr> \<in> set (pb_Messages b))"
proof -
  have open_txn: "tm_state (tp_transactionManager pr) = TxOngoing"
    and added: "fst (AddPartitionsToTxn t1 [topic \<mapsto> [part]] (tp_transactionManager pr)) = None"
    using SendToTransaction_manager(2) [of t1 topic part msg pr] assms(1) by (auto split: if_splits)
  then have "tm_state (tp_transactionManager pr2) = TxEmpty"
    using SendToTransaction_manager(1) [of t1 topic part msg pr] assms(1,2)
    by (auto simp: with_manager_def AddPartitionsToTxn_def AddPartitionsToTransaction_def AbortTransaction_def
        EndTransaction_def set_txn_def Let_def split: option.splits prod.splits)
  moreover from this have "tm_state (tp_transactionManager pr3) = TxOngoing"
    using assms(3) by (simp add: with_manager_def BeginTransaction_def Let_def)
  moreover have "\<exists>b. tp_batches pr3 (tp topic part) = Some b \<and>
      msg\<lparr>ms_Sequence := sequence_of (tp topic part) pr\<rparr> \<in> set (pb_Messages b)"
    using assms(1-3) open_txn by (auto simp: with_manager_def SendToTransaction_def Let_def split: prod.splits)
  ultimately show ?thesis
    using range_orderD(2) [OF assms(4)] by (force simp: FlushTransaction_def)
qed

theorem aborted_message_is_sent_witness:
  "let pr = with_manager (\<lambda>tm. snd (BeginTransaction 2 tm)) (NewTransactionalProducer ''x'' Second);
       pr2 = with_manager (\<lambda>tm. snd (AbortTransaction 4 tm)) (snd (SendToTransaction 3 ''t'' 0 hello pr));
       pr3 = with_manager (\<lambda>tm. snd (BeginTransaction 5 tm)) pr2
   in \<exists>b \<in> set (fst (FlushTransaction [tp ''t'' 0] pr3)). hello\<lparr>ms_Sequence := 0\<rparr> \<in> set (pb_Messages b)"
proof -
  define pr where "pr = with_manager (\<lambda>tm. snd (BeginTransaction 2 tm)) (NewTransactionalProducer ''x'' Second)"
  define pr1 where "pr1 = snd (SendToTransaction 3 ''t'' 0 hello pr)"
  define pr3 where "pr3 = with_manager (\<lambda>tm. snd (BeginTransaction 5 tm)) (with_manager (\<lambda>tm. snd (AbortTransaction 4 tm)) pr1)"
  have run: "SendToTransaction 3 ''t'' 0 hello pr = (None, pr1)" "sequence_of (tp ''t'' 0) pr = 0"
    and ord: "range_order (tp_batches pr3) [tp ''t'' 0]"
    by (simp_all add: pr3_def pr1_def pr_def with_manager_def BeginTransaction_def NewTransactionalProducer_def
        NewTransactionManager_def AddTransaction_def set_txn_def Let_def SendToTransaction_def
        AddPartitionsToTxn_def AddPartitionsToTransaction_def sequence_of_def range_order_def)
  show ?thesis
    using aborted_message_is_sent [OF run(1) refl refl, of 5 4 "[tp ''t'' 0]"] ord run(2)
    by (simp add: pr3_def pr1_def pr_def)
qed

end
