(* ===== verification/Rate_Limiter.thy ===== *)
theory Rate_Limiter
  imports Prelude
begin

text \<open>
  The token bucket of \<^verbatim>\<open>src/pkg/auth/ratelimiter.go\<close>. A request and a round of the
  clean-up goroutine each read the clock once. \<^verbatim>\<open>int(elapsed.Seconds())\<close> goes through a
  64-bit float; \<open>whole_seconds\<close> is exact, as the float is for less than 2^22 seconds, and a
  bucket not refilled for five minutes is removed. The products and sums of \<^verbatim>\<open>int\<close> wrap at
  64 bits.
\<close>

section \<open>Buckets\<close>

definition wrap64 :: "int \<Rightarrow> int" where
  "wrap64 n = sint (word_of_int n :: 64 word)"

definition whole_seconds :: "duration \<Rightarrow> int" where
  "whole_seconds d = sgn d * (\<bar>d\<bar> div Second)"

record bucket =
  b_tokens :: int
  b_lastRefill :: instant

record RateLimiter =
  rl_requestsPerSecond :: int
  rl_buckets :: "string \<rightharpoonup> bucket"

definition NewRateLimiter :: "int \<Rightarrow> RateLimiter" where
  "NewRateLimiter requestsPerSecond =
     \<lparr>rl_requestsPerSecond = requestsPerSecond, rl_buckets = Map.empty\<rparr>"

definition refill :: "instant \<Rightarrow> int \<Rightarrow> bucket \<Rightarrow> bucket" where
  "refill now refillRate b =
     (let tokensToAdd = wrap64 (whole_seconds (time_sub now (b_lastRefill b)) * refillRate)
      in if tokensToAdd > 0
         then let tokens = wrap64 (b_tokens b + tokensToAdd)
              in b\<lparr>b_tokens := (if tokens > refillRate then refillRate else tokens), b_lastRefill := now\<rparr>
         else b)"

definition consumeToken :: "instant \<Rightarrow> int \<Rightarrow> bucket \<Rightarrow> bool \<times> bucket" where
  "consumeToken now refillRate b =
     (let b = refill now refillRate b
      in if b_tokens b > 0 then (True, b\<lparr>b_tokens := b_tokens b - 1\<rparr>) else (False, b))"

definition Allow :: "instant \<Rightarrow> string \<Rightarrow> RateLimiter \<Rightarrow> bool \<times> RateLimiter" where
  "Allow now clientID rl =
     (let b = (case rl_buckets rl clientID of
                 Some b \<Rightarrow> b
               | None \<Rightarrow> \<lparr>b_tokens = rl_requestsPerSecond rl, b_lastRefill = now\<rparr>);
          (ok, b) = consumeToken now (rl_requestsPerSecond rl) b
      in (ok, rl\<lparr>rl_buckets := (rl_buckets rl)(clientID \<mapsto> b)\<rparr>))"

text \<open>One round of \<^verbatim>\<open>cleanup\<close>.\<close>

definition cleanup :: "instant \<Rightarrow> RateLimiter \<Rightarrow> RateLimiter" where
  "cleanup now rl =
     rl\<lparr>rl_buckets := (\<lambda>c. case rl_buckets rl c of
          None \<Rightarrow> None
        | Some b \<Rightarrow> if b_lastRefill b < now - 5 * Minute then None else Some b)\<rparr>"

section \<open>Runs\<close>

datatype rl_event = Request (ev_client: string) (ev_time: instant) | Sweep (ev_time: instant)

text \<open>The number of requests of client \<open>c\<close> that a sequence of events lets through.\<close>

fun admitted :: "string \<Rightarrow> rl_event list \<Rightarrow> RateLimiter \<Rightarrow> nat" where
  "admitted c [] rl = 0"
| "admitted c (Request d t # es) rl =
     (let (ok, rl') = Allow t d rl in (if ok \<and> d = c then 1 else 0) + admitted c es rl')"
| "admitted c (Sweep t # es) rl = admitted c es (cleanup t rl)"

text \<open>The events happen one after the other between \<open>s\<close> and \<open>e\<close>.\<close>

fun between :: "instant \<Rightarrow> instant \<Rightarrow> rl_event list \<Rightarrow> bool" where
  "between s e [] \<longleftrightarrow> s \<le> e"
| "between s e (ev # evs) \<longleftrightarrow> s \<le> ev_time ev \<and> between (ev_time ev) e evs"

definition bucket_ok :: "int \<Rightarrow> instant \<Rightarrow> bucket \<Rightarrow> bool" where
  "bucket_ok r t b \<longleftrightarrow> 0 \<le> b_tokens b \<and> b_tokens b \<le> r \<and> b_lastRefill b \<le> t"

definition limiter_ok :: "instant \<Rightarrow> RateLimiter \<Rightarrow> bool" where
  "limiter_ok t rl \<longleftrightarrow> 0 \<le> rl_requestsPerSecond rl \<and> rl_requestsPerSecond rl \<le> 2 ^ 29 \<and>
     (\<forall>c b. rl_buckets rl c = Some b \<longrightarrow> bucket_ok (rl_requestsPerSecond rl) t b)"

section \<open>One bucket\<close>

lemma wrap64_id: "- (2 ^ 63) \<le> n \<Longrightarrow> n < 2 ^ 63 \<Longrightarrow> wrap64 n = n"
  by (simp add: wrap64_def int_word_sint mod_pos_pos_trivial)

text \<open>A duration has less than 2^63 nanoseconds, so less than 9223372037 seconds.\<close>

lemma elapsed_seconds:
  assumes "u \<le> now"
  shows "0 \<le> whole_seconds (time_sub now u)" "whole_seconds (time_sub now u) \<le> (now - u) div Second"
    "whole_seconds (time_sub now u) \<le> 9223372036"
proof -
  define d where "d = time_sub now u"
  have d: "0 \<le> d" "d \<le> now - u" "d \<le> maxDuration"
    using assms by (auto simp: d_def time_sub_def minDuration_def maxDuration_def)
  then have "whole_seconds d = d div Second"
    by (cases "d = 0") (auto simp: whole_seconds_def)
  moreover have "d div Second \<le> maxDuration div Second" "d div Second \<le> (now - u) div Second" "0 \<le> d div Second"
    using d by (auto simp: Second_def intro: zdiv_mono1)
  ultimately show "0 \<le> whole_seconds (time_sub now u)" "whole_seconds (time_sub now u) \<le> (now - u) div Second"
    "whole_seconds (time_sub now u) \<le> 9223372036"
    by (auto simp: d_def [symmetric] maxDuration_def Second_def)
qed

lemma refill_cases:
  assumes "bucket_ok r t b" "0 \<le> r" "r \<le> 2 ^ 29" "t \<le> now"
  obtains (same) "refill now r b = b"
    | (new) k where "refill now r b = b\<lparr>b_tokens := k, b_lastRefill := now\<rparr>" "0 \<le> k" "k \<le> r"
        "k \<le> b_tokens b + r * ((now - b_lastRefill b) div Second)"
proof -
  define n where "n = whole_seconds (time_sub now (b_lastRefill b))"
  define m where "m = (now - b_lastRefill b) div Second"
  have b: "0 \<le> b_tokens b" "b_tokens b \<le> r" and le: "b_lastRefill b \<le> now"
    using assms by (auto simp: bucket_ok_def)
  note secs = elapsed_seconds [OF le, folded n_def m_def]
  have "n * r \<le> 9223372036 * 2 ^ 29"
    using secs assms by (intro mult_mono) auto
  moreover have "0 \<le> n * r" "r * n \<le> r * m"
    using secs assms by (auto intro: mult_left_mono)
  ultimately have wrap: "wrap64 (n * r) = n * r" "wrap64 (b_tokens b + n * r) = b_tokens b + n * r"
    and bnd: "0 \<le> n * r" "n * r \<le> r * m"
    using b assms(3) by (auto simp: wrap64_id mult.commute)
  show ?thesis
  proof (cases "n * r > 0")
    case True
    then have "refill now r b = b\<lparr>b_tokens := min r (b_tokens b + n * r), b_lastRefill := now\<rparr>"
      using wrap by (auto simp: refill_def Let_def n_def [symmetric])
    then show ?thesis
      using new [of "min r (b_tokens b + n * r)"] b bnd assms(2) by (auto simp: m_def [symmetric])
  next
    case False
    then show ?thesis
      using same wrap by (simp add: refill_def Let_def n_def [symmetric])
  qed
qed

section \<open>Every client\<close>

lemma consumeToken_cases:
  "consumeToken t r b = (if b_tokens (refill t r b) > 0
     then (True, (refill t r b)\<lparr>b_tokens := b_tokens (refill t r b) - 1\<rparr>) else (False, refill t r b))"
  by (simp add: consumeToken_def Let_def)

lemma consumeToken_ok:
  assumes "bucket_ok r s b" "0 \<le> r" "r \<le> 2 ^ 29" "s \<le> t"
  shows "bucket_ok r t (snd (consumeToken t r b))"
  using assms(1,4) by (rule_tac refill_cases [OF assms]) (auto simp: consumeToken_cases bucket_ok_def)

definition client_bucket :: "instant \<Rightarrow> string \<Rightarrow> RateLimiter \<Rightarrow> bucket" where
  "client_bucket now c rl = (case rl_buckets rl c of
     Some b \<Rightarrow> b | None \<Rightarrow> \<lparr>b_tokens = rl_requestsPerSecond rl, b_lastRefill = now\<rparr>)"

lemma Allow_consume:
  "Allow t c rl = (fst (consumeToken t (rl_requestsPerSecond rl) (client_bucket t c rl)),
     rl\<lparr>rl_buckets := (rl_buckets rl)(c \<mapsto> snd (consumeToken t (rl_requestsPerSecond rl) (client_bucket t c rl)))\<rparr>)"
  by (simp add: Allow_def client_bucket_def Let_def case_prod_unfold)

lemma client_bucket_ok:
  "limiter_ok s rl \<Longrightarrow> s \<le> t \<Longrightarrow> bucket_ok (rl_requestsPerSecond rl) t (client_bucket t c rl)"
  by (fastforce simp: limiter_ok_def bucket_ok_def client_bucket_def split: option.splits)

lemma limiter_ok_mono: "limiter_ok s rl \<Longrightarrow> s \<le> t \<Longrightarrow> limiter_ok t rl"
  by (fastforce simp: limiter_ok_def bucket_ok_def)

lemma Allow_ok:
  assumes "limiter_ok s rl" "s \<le> t" shows "limiter_ok t (snd (Allow t c rl))"
proof -
  have "bucket_ok (rl_requestsPerSecond rl) t (snd (consumeToken t (rl_requestsPerSecond rl) (client_bucket t c rl)))"
    using client_bucket_ok [OF assms] assms(1) by (intro consumeToken_ok) (auto simp: limiter_ok_def)
  then show ?thesis
    using limiter_ok_mono [OF assms] by (auto simp: limiter_ok_def Allow_consume)
qed

lemma cleanup_ok: "limiter_ok s rl \<Longrightarrow> s \<le> t \<Longrightarrow> limiter_ok t (cleanup t rl)"
  by (drule (1) limiter_ok_mono) (auto simp: limiter_ok_def cleanup_def split: option.splits if_splits)

lemma div_superadd: "(a::int) div Second + b div Second \<le> (a + b) div Second"
proof -
  have "0 \<le> (a mod Second + b mod Second) div Second"
    by (simp add: Second_def pos_imp_zdiv_nonneg_iff)
  then show ?thesis
    using div_add1_eq [of a b Second] by linarith
qed

text \<open>What a client can still be granted up to time \<open>e\<close>.\<close>

definition allowance :: "int \<Rightarrow> instant \<Rightarrow> instant \<Rightarrow> bucket option \<Rightarrow> int" where
  "allowance r s e bo = (case bo of
     None \<Rightarrow> r * (1 + (e - s) div Second)
   | Some b \<Rightarrow> b_tokens b + r * ((e - b_lastRefill b) div Second))"

lemma allowance_consume:
  assumes "bucket_ok r s b" "0 \<le> r" "r \<le> 2 ^ 29" "s \<le> t" "t \<le> e"
  shows "(if fst (consumeToken t r b) then 1 else 0) + allowance r t e (Some (snd (consumeToken t r b)))
    \<le> allowance r s e (Some b)"
  using assms(1-4)
proof (cases rule: refill_cases)
  case same
  then show ?thesis
    by (auto simp: consumeToken_cases allowance_def)
next
  case (new k)
  have "r * ((t - b_lastRefill b) div Second) + r * ((e - t) div Second) \<le> r * ((e - b_lastRefill b) div Second)"
    using mult_left_mono [OF div_superadd [of "t - b_lastRefill b" "e - t"] assms(2)] by (simp add: distrib_left)
  then show ?thesis
    using new by (auto simp: consumeToken_cases allowance_def)
qed

lemma between_le: "between s e es \<Longrightarrow> s \<le> e"
  by (induction es arbitrary: s) force+

lemma rate_div_mono: "0 \<le> r \<Longrightarrow> a \<le> b \<Longrightarrow> r * (a div Second) \<le> r * (b div Second)"
  by (intro mult_left_mono zdiv_mono1) (auto simp: Second_def)

lemma allowance_new:
  assumes "0 \<le> r" "s \<le> t"
  shows "allowance r t e (Some \<lparr>b_tokens = r, b_lastRefill = t\<rparr>) \<le> allowance r s e None"
  using rate_div_mono [OF assms(1), of "e - t" "e - s"] assms(2) by (simp add: allowance_def distrib_left)

lemma allowance_Allow:
  assumes "limiter_ok s rl" "s \<le> t" "t \<le> e"
  shows "(if fst (Allow t c rl) then 1 else 0) + allowance (rl_requestsPerSecond rl) t e (rl_buckets (snd (Allow t c rl)) c)
    \<le> allowance (rl_requestsPerSecond rl) s e (rl_buckets rl c)"
proof -
  have r: "0 \<le> rl_requestsPerSecond rl" "rl_requestsPerSecond rl \<le> 2 ^ 29"
    using assms(1) by (auto simp: limiter_ok_def)
  note grant = allowance_consume [OF client_bucket_ok [OF assms(1,2)] r order_refl assms(3), of c]
  show ?thesis
    using grant allowance_new [OF r(1) assms(2), of e]
    by (cases "rl_buckets rl c") (auto simp: Allow_consume client_bucket_def allowance_def)
qed

lemma allowance_cleanup:
  assumes "limiter_ok s rl" "s \<le> t"
  shows "allowance (rl_requestsPerSecond rl) t e (rl_buckets (cleanup t rl) c)
    \<le> allowance (rl_requestsPerSecond rl) s e (rl_buckets rl c)"
proof (cases "rl_buckets rl c")
  case None
  then show ?thesis
    using assms rate_div_mono [of "rl_requestsPerSecond rl" "e - t" "e - s"]
    by (simp add: cleanup_def allowance_def limiter_ok_def distrib_left)
next
  case (Some b)
  have r: "0 \<le> rl_requestsPerSecond rl" "0 \<le> b_tokens b"
    using assms Some by (auto simp: limiter_ok_def bucket_ok_def)
  have "1 + (e - t) div Second \<le> (e - b_lastRefill b) div Second" if "b_lastRefill b < t - 5 * Minute"
  proof -
    have "1 + (e - t) div Second = (e - t + Second) div Second"
      by (simp add: Second_def)
    also have "\<dots> \<le> (e - b_lastRefill b) div Second"
      using that by (intro zdiv_mono1) (auto simp: Second_def Minute_def)
    finally show ?thesis .
  qed
  then show ?thesis
    using Some r mult_left_mono [OF _ r(1)] by (fastforce simp: cleanup_def allowance_def)
qed

lemma Allow_other: "d \<noteq> c \<Longrightarrow> rl_buckets (snd (Allow t d rl)) c = rl_buckets rl c"
  and Allow_rate [simp]: "rl_requestsPerSecond (snd (Allow t d rl)) = rl_requestsPerSecond rl"
  and cleanup_rate [simp]: "rl_requestsPerSecond (cleanup t rl) = rl_requestsPerSecond rl"
  by (simp_all add: Allow_consume cleanup_def)

lemma allowance_mono:
  "0 \<le> r \<Longrightarrow> s \<le> t \<Longrightarrow> allowance r t e bo \<le> allowance r s e bo"
  using rate_div_mono [of r "e - t" "e - s"] by (simp add: allowance_def distrib_left split: option.splits)

lemma allowance_nonneg:
  assumes "limiter_ok s rl" "s \<le> e"
  shows "0 \<le> allowance (rl_requestsPerSecond rl) s e (rl_buckets rl c)"
proof -
  have r: "0 \<le> rl_requestsPerSecond rl"
    using assms by (simp add: limiter_ok_def)
  have "0 \<le> b_tokens b" "0 \<le> (e - b_lastRefill b) div Second" if "rl_buckets rl c = Some b" for b
    using assms that by (fastforce simp: limiter_ok_def bucket_ok_def Second_def pos_imp_zdiv_nonneg_iff)+
  then show ?thesis
    using r assms(2)
    by (auto simp: allowance_def Second_def pos_imp_zdiv_nonneg_iff split: option.splits intro!: add_nonneg_nonneg)
qed

lemma admitted_allowance:
  assumes "limiter_ok s rl" "between s e es"
  shows "int (admitted c es rl) \<le> allowance (rl_requestsPerSecond rl) s e (rl_buckets rl c)"
  using assms
proof (induction c es rl arbitrary: s rule: admitted.induct)
  case (1 c rl)
  then show ?case
    by (simp add: allowance_nonneg)
next
  case (2 c d t es rl)
  have t: "s \<le> t" "t \<le> e"
    using 2(3) between_le by auto
  have IH: "int (admitted c es (snd (Allow t d rl)))
      \<le> allowance (rl_requestsPerSecond rl) t e (rl_buckets (snd (Allow t d rl)) c)"
    using 2(1) [OF refl prod.collapse, of t] Allow_ok [OF 2(2) t(1)] 2(3) by simp
  have r: "0 \<le> rl_requestsPerSecond rl"
    using 2 by (simp add: limiter_ok_def)
  show ?case
  proof (cases "d = c")
    case True
    then show ?thesis
      using IH allowance_Allow [OF "2.prems"(1) t, of c] by (auto simp: case_prod_unfold Let_def)
  next
    case False
    then show ?thesis
      using IH Allow_other [OF False, of t rl] allowance_mono [OF r t(1), of e "rl_buckets rl c"]
      by (simp add: case_prod_unfold Let_def)
  qed
next
  case (3 c t es rl)
  have "int (admitted c es (cleanup t rl)) \<le> allowance (rl_requestsPerSecond rl) t e (rl_buckets (cleanup t rl) c)"
    using "3.IH" [of t] cleanup_ok [of s rl t] "3.prems" by simp
  also have "\<dots> \<le> allowance (rl_requestsPerSecond rl) s e (rl_buckets rl c)"
    using "3.prems" by (intro allowance_cleanup) simp_all
  finally show ?case
    by simp
qed

text \<open>A bucket with tokens left may be refilled at once, so a window that starts at any time can see
  one rate more.\<close>

definition window :: "int \<Rightarrow> instant \<Rightarrow> instant \<Rightarrow> bucket option \<Rightarrow> int" where
  "window r s e bo = (case bo of None \<Rightarrow> 0 | Some b \<Rightarrow> b_tokens b) + r * (1 + (e - s) div Second)"

lemma window_mono: "0 \<le> r \<Longrightarrow> s \<le> t \<Longrightarrow> window r t e bo \<le> window r s e bo"
  using rate_div_mono [of r "e - t" "e - s"] by (simp add: window_def distrib_left)

lemma refilled_window:
  assumes "0 \<le> r" "k \<le> r" "0 \<le> b_tokens b" "s \<le> t"
  shows "allowance r t e (Some \<lparr>b_tokens = k, b_lastRefill = t\<rparr>) \<le> window r s e (Some b)"
  using rate_div_mono [OF assms(1), of "e - t" "e - s"] assms by (simp add: allowance_def window_def distrib_left)

lemma window_Allow:
  assumes ok: "limiter_ok s rl" and t: "s \<le> t" and es: "between t e es"
    and IH: "int (admitted c es (snd (Allow t c rl))) \<le> window (rl_requestsPerSecond rl) t e (rl_buckets (snd (Allow t c rl)) c)"
    and b: "rl_buckets rl c = Some b"
  shows "(if fst (Allow t c rl) then 1 else 0) + int (admitted c es (snd (Allow t c rl)))
    \<le> window (rl_requestsPerSecond rl) s e (Some b)"
proof -
  let ?r = "rl_requestsPerSecond rl"
  have bok: "bucket_ok ?r s b" and r: "0 \<le> ?r" "?r \<le> 2 ^ 29"
    using ok b by (auto simp: limiter_ok_def)
  have later: "int (admitted c es (snd (Allow t c rl))) \<le> allowance ?r t e (rl_buckets (snd (Allow t c rl)) c)"
    using admitted_allowance [OF Allow_ok [OF ok t] es] by simp
  show ?thesis
    using bok r t
  proof (cases rule: refill_cases)
    case same
    then show ?thesis
      using IH b window_mono [OF r(1) t, of e "Some b"]
      by (auto simp: Allow_consume client_bucket_def consumeToken_cases window_def)
  next
    case (new k)
    then show ?thesis
      using later b refilled_window [OF r(1) new(3) _ t, of b e] bok
      by (auto simp: Allow_consume client_bucket_def consumeToken_cases allowance_def bucket_ok_def)
  qed
qed

lemma window_cleanup:
  assumes ok: "limiter_ok s rl" and t: "s \<le> t"
  shows "window (rl_requestsPerSecond rl) t e (rl_buckets (cleanup t rl) c)
    \<le> window (rl_requestsPerSecond rl) s e (rl_buckets rl c)"
proof -
  have "0 \<le> b_tokens b" if "rl_buckets rl c = Some b" for b
    using ok that by (auto simp: limiter_ok_def bucket_ok_def)
  then have "window (rl_requestsPerSecond rl) t e (rl_buckets (cleanup t rl) c)
      \<le> window (rl_requestsPerSecond rl) t e (rl_buckets rl c)"
    by (auto simp: window_def cleanup_def split: option.splits)
  also have "\<dots> \<le> window (rl_requestsPerSecond rl) s e (rl_buckets rl c)"
    using ok t by (intro window_mono) (simp_all add: limiter_ok_def)
  finally show ?thesis .
qed

lemma admitted_window:
  assumes "limiter_ok s rl" "between s e es"
  shows "int (admitted c es rl) \<le> window (rl_requestsPerSecond rl) s e (rl_buckets rl c)"
  using assms
proof (induction c es rl arbitrary: s rule: admitted.induct)
  case (1 c rl)
  then have "0 \<le> rl_requestsPerSecond rl * (1 + (e - s) div Second)"
    by (auto simp: limiter_ok_def Second_def pos_imp_zdiv_nonneg_iff intro!: mult_nonneg_nonneg)
  then show ?case
    using 1 by (auto simp: window_def limiter_ok_def bucket_ok_def split: option.splits intro: add_nonneg_nonneg)
next
  case (2 c d t es rl)
  note ok = 2(2) and prems = 2(2,3)
  have t: "s \<le> t" and es: "between t e es" and r: "0 \<le> rl_requestsPerSecond rl"
    using 2(2,3) by (auto simp: limiter_ok_def)
  have IH: "int (admitted c es (snd (Allow t d rl)))
      \<le> window (rl_requestsPerSecond rl) t e (rl_buckets (snd (Allow t d rl)) c)"
    using 2(1) [OF refl prod.collapse, of t] Allow_ok [OF 2(2) t] es by simp
  consider "d \<noteq> c" | "d = c" "rl_buckets rl c = None" | b where "d = c" "rl_buckets rl c = Some b"
    by blast
  then show ?case
  proof cases
    case 1
    then show ?thesis
      using IH window_mono [OF r t, of e "rl_buckets rl c"] by (simp add: Allow_other case_prod_unfold Let_def)
  next
    case 2
    then show ?thesis
      using admitted_allowance [OF prems, of c] by (simp add: allowance_def window_def)
  next
    case 3
    then show ?thesis
      using window_Allow [OF ok t es _ 3(2)] IH by (auto simp: case_prod_unfold Let_def)
  qed
next
  case (3 c t es rl)
  have "int (admitted c es (cleanup t rl)) \<le> window (rl_requestsPerSecond rl) t e (rl_buckets (cleanup t rl) c)"
    using "3.IH" [of t] cleanup_ok [of s rl t] "3.prems" by simp
  also have "\<dots> \<le> window (rl_requestsPerSecond rl) s e (rl_buckets rl c)"
    using "3.prems" by (intro window_cleanup) simp_all
  finally show ?case
    by simp
qed

section \<open>Properties\<close>

text \<open>C14. However requests and clean-ups of any clients interleave between the times \<open>s\<close> and
  \<open>e\<close>, a client gets at most (2 + whole seconds between \<open>s\<close> and \<open>e\<close>) times the
  configured rate of requests through, and at most (1 + whole seconds) times the rate if it had no
  bucket at \<open>s\<close>. Token counts stay between 0 and the rate, and the 64-bit arithmetic does not
  overflow for rates up to 2^29.\<close>

theorem admission_bound:
  assumes "limiter_ok s rl" "between s e es"
  shows "int (admitted c es rl) \<le> rl_requestsPerSecond rl * (2 + (e - s) div Second) \<and>
    (rl_buckets rl c = None \<longrightarrow> int (admitted c es rl) \<le> rl_requestsPerSecond rl * (1 + (e - s) div Second))"
proof (intro conjI impI)
  have "window (rl_requestsPerSecond rl) s e (rl_buckets rl c) \<le> rl_requestsPerSecond rl * (2 + (e - s) div Second)"
    using assms(1) by (auto simp: window_def limiter_ok_def bucket_ok_def distrib_left split: option.splits)
  then show "int (admitted c es rl) \<le> rl_requestsPerSecond rl * (2 + (e - s) div Second)"
    using admitted_window [OF assms, of c] by linarith
  show "int (admitted c es rl) \<le> rl_requestsPerSecond rl * (1 + (e - s) div Second)" if "rl_buckets rl c = None"
    using admitted_window [OF assms, of c] that by (simp add: window_def)
qed

theorem admission_bound_witness:
  "let es = [Request ''c'' 5, Request ''c'' 6, Request ''d'' 7, Sweep 8, Request ''c'' (Second + 9)]
   in limiter_ok 0 (NewRateLimiter 1) \<and> between 0 (Second + 10) es \<and> int (admitted ''c'' es (NewRateLimiter 1)) \<le> 2"
proof -
  have "limiter_ok 0 (NewRateLimiter 1)"
    by (simp add: limiter_ok_def NewRateLimiter_def)
  moreover have "between 0 (Second + 10)
      [Request ''c'' 5, Request ''c'' 6, Request ''d'' 7, Sweep 8, Request ''c'' (Second + 9)]"
    by (simp add: Second_def)
  ultimately show ?thesis
    using admission_bound [where c = "''c''"] by (fastforce simp: NewRateLimiter_def Second_def)
qed

end
