(* ===== verification/Kafka_Wire.thy ===== *)
theory Kafka_Wire
  imports Prelude
begin

text \<open>
  The Kafka wire format as the server reads and writes it: \<^verbatim>\<open>src/pkg/kafka/protocol.go\<close>,
  \<^verbatim>\<open>protocol_helpers.go\<close>, \<^verbatim>\<open>handlers_extended.go\<close> (byte arrays) and
  \<^verbatim>\<open>handlers.go\<close> (API versions). A connection and a \<^verbatim>\<open>bytes.Reader\<close> are the bytes not
  yet read. \<^verbatim>\<open>binary.Read\<close> is \<open>ReadFull\<close>; \<^verbatim>\<open>Read\<close> of a
  \<^verbatim>\<open>bytes.Reader\<close> reports the end of its input before it looks at the length of the buffer,
  and otherwise fills as much of the buffer as there is. Logging and byte counting are left out, and
  so are failing writes to the connection.
\<close>

section \<open>Strings and byte arrays\<close>

definition Reader_Read :: "nat \<Rightarrow> byte list \<Rightarrow> (io_error + byte list) \<times> byte list" where
  "Reader_Read n r =
     (if r = [] then (Inl EOF, [])
      else (Inr (take n r @ replicate (n - length r) 0), drop n r))"

definition readString :: "byte list \<Rightarrow> (io_error + string) \<times> byte list" where
  "readString r =
     (case ReadFull 2 r of
        (Inl e, r) \<Rightarrow> (Inl e, r)
      | (Inr bs, r) \<Rightarrow>
          let len = sint (be_get bs :: i16)
          in if len < 0 then (Inr [], r)
             else (case Reader_Read (nat len) r of
                     (Inl e, r) \<Rightarrow> (Inl e, r)
                   | (Inr str, r) \<Rightarrow> (Inr (string_of str), r)))"

definition writeString :: "string \<Rightarrow> byte list" where
  "writeString s = be_put 2 (of_nat (length s) :: i16) @ bytes_of s"

text \<open>\<open>None\<close> is the nil slice.\<close>

definition readBytes :: "byte list \<Rightarrow> (io_error + byte list option) \<times> byte list" where
  "readBytes r =
     (case ReadFull 4 r of
        (Inl e, r) \<Rightarrow> (Inl e, r)
      | (Inr bs, r) \<Rightarrow>
          let len = sint (be_get bs :: i32)
          in if len < 0 then (Inr None, r)
             else (case Reader_Read (nat len) r of
                     (Inl e, r) \<Rightarrow> (Inl e, r)
                   | (Inr str, r) \<Rightarrow> (Inr (Some str), r)))"

definition writeBytes :: "byte list option \<Rightarrow> byte list" where
  "writeBytes data =
     (case data of
        None \<Rightarrow> be_put 4 (-1 :: i32)
      | Some bs \<Rightarrow> be_put 4 (of_nat (length bs) :: i32) @ bs)"

section \<open>Requests and responses\<close>

record RequestHeader =
  rh_APIKey :: i16
  rh_APIVersion :: i16
  rh_CorrelationID :: i32
  rh_ClientID :: string

record ResponseHeader =
  rs_CorrelationID :: i32

record KafkaRequest =
  rq_Header :: RequestHeader
  rq_Body :: "byte list"

record KafkaResponse =
  rp_Header :: ResponseHeader
  rp_Body :: "byte list"

datatype read_error = ReadError io_error | MessageTooLarge u32

definition maxRequestSize :: nat where
  "maxRequestSize = 100 * 1024 * 1024"

text \<open>The client identifier: absent, unreadable and null ones are empty.\<close>

definition read_client_id :: "byte list \<Rightarrow> string \<times> byte list" where
  "read_client_id r =
     (if length r \<ge> 2
      then (case readString r of (Inl _, r) \<Rightarrow> ([], r) | (Inr s, r) \<Rightarrow> (s, r))
      else ([], r))"

definition parse_request :: "byte list \<Rightarrow> io_error + KafkaRequest" where
  "parse_request r =
     (case ReadFull 2 r of
        (Inl e, _) \<Rightarrow> Inl e
      | (Inr key, r) \<Rightarrow>
          (case ReadFull 2 r of
             (Inl e, _) \<Rightarrow> Inl e
           | (Inr ver, r) \<Rightarrow>
               (case ReadFull 4 r of
                  (Inl e, _) \<Rightarrow> Inl e
                | (Inr corr, r) \<Rightarrow>
                    let (clientID, r) = read_client_id r
                    in Inr \<lparr>rq_Header = \<lparr>rh_APIKey = be_get key, rh_APIVersion = be_get ver,
                              rh_CorrelationID = be_get corr, rh_ClientID = clientID\<rparr>,
                            rq_Body = r\<rparr>)))"

definition readRequest :: "byte list \<Rightarrow> (read_error + KafkaRequest) \<times> byte list" where
  "readRequest conn =
     (case ReadFull 4 conn of
        (Inl e, conn) \<Rightarrow> (Inl (ReadError e), conn)
      | (Inr sizeBytes, conn) \<Rightarrow>
          let sz = (be_get sizeBytes :: u32)
          in if unat sz > maxRequestSize then (Inl (MessageTooLarge sz), conn)
             else (case ReadFull (unat sz) conn of
                     (Inl e, conn) \<Rightarrow> (Inl (ReadError e), conn)
                   | (Inr messageBytes, conn) \<Rightarrow>
                       (case parse_request messageBytes of
                          Inl e \<Rightarrow> (Inl (ReadError e), conn)
                        | Inr req \<Rightarrow> (Inr req, conn))))"

definition writeResponse :: "KafkaResponse \<Rightarrow> byte list" where
  "writeResponse resp =
     (let responseBytes = be_put 4 (rs_CorrelationID (rp_Header resp)) @ rp_Body resp
      in be_put 4 (of_nat (length responseBytes) :: u32) @ responseBytes)"

definition createErrorResponse :: "i16 \<Rightarrow> byte list" where
  "createErrorResponse errorCode = be_put 2 errorCode"

section \<open>Dispatch and API versions\<close>

datatype kafka_handler = ApiVersions_h | Metadata_h | Produce_h | Fetch_h | ListOffsets_h
  | CreateTopics_h | DeleteTopics_h | SaslHandshake_h | SaslAuthenticate_h
  | DescribeGroups_h | OffsetCommit_h | OffsetFetch_h | FindCoordinator_h
  | JoinGroup_h | SyncGroup_h | Heartbeat_h | InitProducerId_h
  | AddPartitionsToTxn_h | EndTxn_h

definition UnsupportedVersion :: i16 where
  "UnsupportedVersion = 35"

text \<open>The handler \<^verbatim>\<open>handleRequest\<close> chooses for an API key; \<open>None\<close> is the answer
  \<^verbatim>\<open>UnsupportedVersion\<close>.\<close>

definition handler_of :: "i16 \<Rightarrow> kafka_handler option" where
  "handler_of key =
     (if key = 18 then Some ApiVersions_h
      else if key = 3 then Some Metadata_h
      else if key = 0 then Some Produce_h
      else if key = 1 then Some Fetch_h
      else if key = 2 then Some ListOffsets_h
      else if key = 19 then Some CreateTopics_h
      else if key = 20 then Some DeleteTopics_h
      else if key = 17 then Some SaslHandshake_h
      else if key = 36 then Some SaslAuthenticate_h
      else if key = 15 then Some DescribeGroups_h
      else if key = 8 then Some OffsetCommit_h
      else if key = 9 then Some OffsetFetch_h
      else if key = 10 then Some FindCoordinator_h
      else if key = 11 then Some JoinGroup_h
      else if key = 14 then Some SyncGroup_h
      else if key = 12 then Some Heartbeat_h
      else if key = 22 then Some InitProducerId_h
      else if key = 24 then Some AddPartitionsToTxn_h
      else if key = 26 then Some EndTxn_h
      else None)"

definition supportedAPIs :: "(i16 \<times> i16 \<times> i16) list" where
  "supportedAPIs =
     [(18, 0, 3), (3, 0, 9), (0, 0, 8), (1, 0, 11), (2, 0, 5), (19, 0, 5), (20, 0, 4), (17, 0, 1), (36, 0, 2)]"

definition handleApiVersions :: "byte list" where
  "handleApiVersions =
     be_put 2 (0 :: i16) @ be_put 4 (of_nat (length supportedAPIs) :: i32) @
     concat (map (\<lambda>(key, lo, hi). be_put 2 key @ be_put 2 lo @ be_put 2 hi) supportedAPIs) @
     be_put 4 (0 :: i32)"

section \<open>Strings and byte arrays\<close>

lemma sint_of_nat16: "n < 2 ^ 15 \<Longrightarrow> sint (of_nat n :: i16) = int n"
  using int_word_sint [of "int n", where 'a = 16] by simp

lemma bytes_of_Nil [simp]: "bytes_of s = [] \<longleftrightarrow> s = []"
  by (simp add: bytes_of_def)

lemma readString_writeString:
  assumes "length s < 2 ^ 15"
  shows "readString (writeString s @ rest) =
    (if s = [] \<and> rest = [] then (Inl EOF, []) else (Inr s, rest))"
  using assms
  by (auto simp: readString_def writeString_def ReadFull_enough be16.get_put sint_of_nat16 Reader_Read_def Let_def)

lemma readString_truncated:
  assumes "n < 2 ^ 15" "bs \<noteq> []" "length bs < n"
  shows "readString (be_put 2 (of_nat n :: i16) @ bs) = (Inr (string_of (bs @ replicate (n - length bs) 0)), [])"
  using assms
  by (simp add: readString_def ReadFull_enough be16.get_put sint_of_nat16 Reader_Read_def Let_def)

lemma readBytes_writeBytes:
  assumes "\<And>bs. data = Some bs \<Longrightarrow> length bs < 2 ^ 31 \<and> (bs \<noteq> [] \<or> rest \<noteq> [])"
  shows "readBytes (writeBytes data @ rest) = (Inr data, rest)"
proof (cases data)
  case None
  then show ?thesis
    by (simp add: readBytes_def writeBytes_def ReadFull_enough be32.get_put)
next
  case (Some bs)
  then show ?thesis
    using assms [OF Some]
    by (simp add: readBytes_def writeBytes_def ReadFull_enough be32.get_put sint_of_nat32 Reader_Read_def Let_def)
qed

section \<open>Requests\<close>

text \<open>A request as a Kafka client sends it.\<close>

definition request_bytes :: "KafkaRequest \<Rightarrow> byte list" where
  "request_bytes req =
     be_put 2 (rh_APIKey (rq_Header req)) @ be_put 2 (rh_APIVersion (rq_Header req)) @
     be_put 4 (rh_CorrelationID (rq_Header req)) @ writeString (rh_ClientID (rq_Header req)) @ rq_Body req"

definition encode_request :: "KafkaRequest \<Rightarrow> byte list" where
  "encode_request req = be_put 4 (of_nat (length (request_bytes req)) :: u32) @ request_bytes req"

lemma length_writeString [simp]: "length (writeString s) = 2 + length s"
  by (simp add: writeString_def)

lemma read_client_id_writeString:
  "length s < 2 ^ 15 \<Longrightarrow> read_client_id (writeString s @ rest) = (s, rest)"
  by (simp add: read_client_id_def readString_writeString)

lemma parse_request_bytes:
  assumes "length (rh_ClientID (rq_Header req)) < 2 ^ 15"
  shows "parse_request (request_bytes req) = Inr req"
  using assms
  by (simp add: parse_request_def request_bytes_def ReadFull_enough be16.get_put be32.get_put read_client_id_writeString)

text \<open>A request a Kafka client sends is read back exactly, and the connection is left at the next
  request, for every client identifier of less than 2^15 bytes and every body within the limit of
  100 MB, empty ones included. A longer request is refused, and then the connection is left in the
  middle of it.\<close>

theorem request_roundtrip:
  assumes "length (rh_ClientID (rq_Header req)) < 2 ^ 15" "length (request_bytes req) < 2 ^ 32"
  shows "readRequest (encode_request req @ rest) =
    (if length (request_bytes req) \<le> maxRequestSize then (Inr req, rest)
     else (Inl (MessageTooLarge (of_nat (length (request_bytes req)))), request_bytes req @ rest))"
  using assms
  by (simp add: readRequest_def encode_request_def ReadFull_enough be32.get_put parse_request_bytes
      unat_of_nat Let_def)

definition metadata_request :: KafkaRequest where
  "metadata_request = \<lparr>rq_Header = \<lparr>rh_APIKey = 3, rh_APIVersion = 1, rh_CorrelationID = 7, rh_ClientID = ''me''\<rparr>,
     rq_Body = [0, 0, 0, 0]\<rparr>"

theorem request_roundtrip_witness:
  "readRequest (encode_request metadata_request @ [1]) = (Inr metadata_request, [1])"
proof -
  have "length (request_bytes metadata_request) = 16" "length (rh_ClientID (rq_Header metadata_request)) = 2"
    by (simp_all add: request_bytes_def metadata_request_def)
  then show ?thesis
    using request_roundtrip [of metadata_request "[1]"] by (simp add: maxRequestSize_def)
qed

text \<open>\<^verbatim>\<open>readString\<close> inverts \<^verbatim>\<open>writeString\<close> for strings of less than 2^15
  bytes, except that an empty string at the very end of the input is reported as the end of the
  input. A string that is cut short is not reported: it is filled up with zero bytes.\<close>

theorem string_roundtrip:
  assumes "length s < 2 ^ 15" "n < 2 ^ 15" "bs \<noteq> []" "length bs < n"
  shows "readString (writeString s @ rest) = (if s = [] \<and> rest = [] then (Inl EOF, []) else (Inr s, rest)) \<and>
    readString (be_put 2 (of_nat n :: i16) @ bs) = (Inr (string_of (bs @ replicate (n - length bs) 0)), [])"
  using readString_writeString [OF assms(1)] readString_truncated [OF assms(2-4)] by simp

theorem string_roundtrip_witness:
  "readString (writeString ''ab'' @ [9]) = (Inr ''ab'', [9]) \<and> readString (writeString []) = (Inl EOF, []) \<and>
   readString (be_put 2 (3 :: i16) @ bytes_of ''x'') = (Inr (string_of (bytes_of ''x'' @ [0, 0])), [])"
proof -
  have "replicate 2 (0 :: byte) = [0, 0]"
    by (simp add: numeral_2_eq_2)
  then show ?thesis
    using string_roundtrip [of "''ab''" 3 "bytes_of ''x''" "[9]"] string_roundtrip [of "[]" 3 "bytes_of ''x''" "[]"]
    by (simp add: bytes_of_def)
qed

section \<open>Dispatch\<close>

text \<open>Every API that the API versions answer advertises has a handler, so a client that follows
  the answer is never refused. The converse fails: ten APIs are handled and not advertised. Two
  group operations, leaving a group (13) and listing groups (16), have handlers in the source that
  no request reaches: they are answered with \<^verbatim>\<open>UnsupportedVersion\<close>.\<close>

theorem advertised_apis_handled:
  "list_all (\<lambda>api. handler_of (fst api) \<noteq> None) supportedAPIs \<and>
   {k. handler_of k \<noteq> None} - fst ` set supportedAPIs = {8, 9, 10, 11, 12, 14, 15, 22, 24, 26} \<and>
   handler_of 13 = None \<and> handler_of 16 = None"
proof -
  have "{k. handler_of k \<noteq> None} = {0, 1, 2, 3, 8, 9, 10, 11, 12, 14, 15, 17, 18, 19, 20, 22, 24, 26, 36}"
    by (auto simp: handler_of_def split: if_splits)
  then show ?thesis
    by (auto simp: supportedAPIs_def handler_of_def)
qed

end
