(* ===== verification/Kafka_Store.thy ===== *)
theory Kafka_Store
  imports Prelude "HOL-Library.Finite_Map"
begin

text \<open>
  The in-memory message store of the Kafka server, \<^verbatim>\<open>InMemoryMessageStore\<close> of
  \<^verbatim>\<open>src/pkg/kafka/protocol.go\<close>. A partition is the list of its messages; reading a
  partition that does not exist gives an empty list, and producing to one creates it. Offsets are
  64-bit and the byte count of a fetch is a 32-bit signed number that wraps around. An index out of
  range is a panic, \<open>None\<close>.
\<close>

section \<open>Data\<close>

record KMessage =
  msg_Offset :: i64
  msg_Key :: "byte list"
  msg_Value :: "byte list"
  msg_Timestamp :: instant

record InMemoryTopic =
  it_Name :: string
  it_Partitions :: "(i32, KMessage list) fmap"

type_synonym InMemoryMessageStore = "string \<rightharpoonup> InMemoryTopic"

record PartitionMetadata =
  pm_ID :: i32
  pm_Leader :: i32
  pm_Replicas :: "i32 list"
  pm_ISR :: "i32 list"
  pm_Error :: i16

record TopicMetadata =
  td_Name :: string
  td_Partitions :: "PartitionMetadata list"
  td_Error :: i16

datatype store_error = TopicNotFound string | NoTopicsRequested

section \<open>Operations\<close>

definition NewInMemoryMessageStore :: InMemoryMessageStore where
  "NewInMemoryMessageStore = Map.empty"

definition CreateTopic :: "string \<Rightarrow> i32 \<Rightarrow> InMemoryMessageStore \<Rightarrow> InMemoryMessageStore" where
  "CreateTopic topic partitions s =
     (case s topic of
        Some _ \<Rightarrow> s
      | None \<Rightarrow> s(topic \<mapsto> \<lparr>it_Name = topic,
                it_Partitions = fmap_of_list (map (\<lambda>i. (of_nat i, [])) [0..<nat (sint partitions)])\<rparr>))"

definition partition_of :: "i32 \<Rightarrow> InMemoryTopic \<Rightarrow> KMessage list" where
  "partition_of p t = (case fmlookup (it_Partitions t) p of None \<Rightarrow> [] | Some ms \<Rightarrow> ms)"

definition ProduceMessage ::
  "instant \<Rightarrow> string \<Rightarrow> i32 \<Rightarrow> byte list \<Rightarrow> byte list \<Rightarrow> InMemoryMessageStore \<Rightarrow>
     (store_error + i64) \<times> InMemoryMessageStore" where
  "ProduceMessage now topic p key val s =
     (case s topic of
        None \<Rightarrow> (Inl (TopicNotFound topic), s)
      | Some t \<Rightarrow>
          let msgs = partition_of p t;
              off = (of_nat (length msgs) :: i64);
              m = \<lparr>msg_Offset = off, msg_Key = key, msg_Value = val, msg_Timestamp = now\<rparr>
          in (Inr off, s(topic \<mapsto> t\<lparr>it_Partitions := fmupd p (msgs @ [m]) (it_Partitions t)\<rparr>)))"

text \<open>The fetch loop from a position on: the first message always, then more while the byte count
  stays within the limit.\<close>

fun fetch_loop :: "i32 \<Rightarrow> KMessage list \<Rightarrow> i32 \<Rightarrow> KMessage list \<Rightarrow> KMessage list" where
  "fetch_loop maxBytes [] sz result = result"
| "fetch_loop maxBytes (m # ms) sz result =
     (let sz = sz + of_nat (length (msg_Value m))
      in if sint sz > sint maxBytes \<and> result \<noteq> [] then result
         else fetch_loop maxBytes ms sz (result @ [m]))"

definition ConsumeMessages ::
  "string \<Rightarrow> i32 \<Rightarrow> i64 \<Rightarrow> i32 \<Rightarrow> InMemoryMessageStore \<Rightarrow> (store_error + KMessage list) option" where
  "ConsumeMessages topic p off maxBytes s =
     (case s topic of
        None \<Rightarrow> Some (Inl (TopicNotFound topic))
      | Some t \<Rightarrow>
          let msgs = partition_of p t
          in if sint off \<ge> int (length msgs) then Some (Inr [])
             else if sint off < 0 then None
             else Some (Inr (fetch_loop maxBytes (drop (nat (sint off)) msgs) 0 [])))"

text \<open>The lock is released between the look-up and the creation of the topic; with one caller that
  makes no difference. \<open>order\<close> is the iteration order of the partitions.\<close>

definition GetTopicMetadata ::
  "i32 list \<Rightarrow> string list \<Rightarrow> InMemoryMessageStore \<Rightarrow> (store_error + TopicMetadata) \<times> InMemoryMessageStore" where
  "GetTopicMetadata order topics s =
     (case topics of
        [] \<Rightarrow> (Inl NoTopicsRequested, s)
      | topicName # _ \<Rightarrow>
          let s = (case s topicName of
                     Some _ \<Rightarrow> s
                   | None \<Rightarrow> s(topicName \<mapsto> \<lparr>it_Name = topicName, it_Partitions = fmupd 0 [] fmempty\<rparr>))
          in (Inr \<lparr>td_Name = it_Name (the (s topicName)),
                   td_Partitions = map (\<lambda>i. \<lparr>pm_ID = i, pm_Leader = 1, pm_Replicas = [1], pm_ISR = [1], pm_Error = 0\<rparr>)
                     (filter (\<lambda>i. fmlookup (it_Partitions (the (s topicName))) i \<noteq> None) order),
                   td_Error = 0\<rparr>, s))"

definition DeleteTopic :: "string \<Rightarrow> InMemoryMessageStore \<Rightarrow> InMemoryMessageStore" where
  "DeleteTopic topic s = s(topic := None)"

section \<open>The fetch loop\<close>

lemma fetch_loop_prefix:
  "\<exists>n. fetch_loop mb ms sz res = res @ take n ms \<and> (res = [] \<and> ms \<noteq> [] \<longrightarrow> n > 0)"
proof (induction mb ms sz res rule: fetch_loop.induct)
  case (2 mb m ms sz res)
  define sz' where "sz' = sz + of_nat (length (msg_Value m))"
  show ?case
  proof (cases "sint sz' > sint mb \<and> res \<noteq> []")
    case True
    then show ?thesis
      by (intro exI [of _ 0]) (simp add: sz'_def Let_def)
  next
    case False
    then obtain n where "fetch_loop mb ms sz' (res @ [m]) = (res @ [m]) @ take n ms"
      using 2 [OF sz'_def] by (auto simp: sz'_def)
    then show ?thesis
      using False by (intro exI [of _ "Suc n"]) (auto simp: sz'_def Let_def)
  qed
qed auto

text \<open>What a fetch returns, for a fetch that finds a message: a non-empty part of the log.\<close>

lemma ConsumeMessages_prefix:
  assumes "s topic = Some t" "k < length (partition_of p t)" "length (partition_of p t) < 2 ^ 63"
  obtains n where "0 < n" "ConsumeMessages topic p (of_nat k) mb s = Some (Inr (take n (drop k (partition_of p t))))"
proof -
  have k: "sint (of_nat k :: i64) = int k"
    using assms(2,3) int_word_sint [of "int k", where 'a = 64] by simp
  obtain n where "fetch_loop mb (drop k (partition_of p t)) 0 [] = take n (drop k (partition_of p t))" "n > 0"
    using fetch_loop_prefix [of mb "drop k (partition_of p t)" 0 "[]"] assms(2) by auto
  with k show ?thesis
    using assms(1,2) that [of n] by (simp add: ConsumeMessages_def Let_def)
qed

lemma ConsumeMessages_end:
  assumes "s topic = Some t" "length (partition_of p t) < 2 ^ 63"
  shows "ConsumeMessages topic p (of_nat (length (partition_of p t))) mb s = Some (Inr [])"
  using assms int_word_sint [of "int (length (partition_of p t))", where 'a = 64]
  by (simp add: ConsumeMessages_def Let_def)

section \<open>The log\<close>

text \<open>The messages of a partition carry their positions as offsets.\<close>

definition topic_ok :: "string \<Rightarrow> InMemoryTopic \<Rightarrow> bool" where
  "topic_ok n t \<longleftrightarrow> it_Name t = n \<and>
     (\<forall>p. map msg_Offset (partition_of p t) = map of_nat [0..<length (partition_of p t)])"

definition store_ok :: "InMemoryMessageStore \<Rightarrow> bool" where
  "store_ok s \<longleftrightarrow> (\<forall>n t. s n = Some t \<longrightarrow> topic_ok n t)"

inductive store_step :: "InMemoryMessageStore \<Rightarrow> InMemoryMessageStore \<Rightarrow> bool" where
  create: "store_step s (CreateTopic topic n s)"
| produce: "store_step s (snd (ProduceMessage now topic p key val s))"
| metadata: "store_step s (snd (GetTopicMetadata order topics s))"
| delete: "store_step s (DeleteTopic topic s)"

lemma partition_of_fmupd:
  "partition_of q (t\<lparr>it_Partitions := fmupd p ms (it_Partitions t)\<rparr>) = (if q = p then ms else partition_of q t)"
  by (simp add: partition_of_def)

lemma partition_of_new:
  "partition_of p \<lparr>it_Name = n, it_Partitions = fmap_of_list (map (\<lambda>i. (f i, [])) xs)\<rparr> = []"
  by (auto simp: partition_of_def fmlookup_of_list split: option.splits dest!: map_of_SomeD)

lemma store_step_ok: "store_step s s' \<Longrightarrow> store_ok s \<Longrightarrow> store_ok s'"
proof (induction rule: store_step.induct)
  case (create s topic n)
  then show ?case
    by (auto simp: store_ok_def CreateTopic_def topic_ok_def partition_of_new split: option.splits)
next
  case (produce s now topic p key val)
  then show ?case
    by (auto simp: store_ok_def ProduceMessage_def topic_ok_def Let_def partition_of_fmupd split: option.splits)
next
  case (metadata s order topics)
  have "topic_ok n \<lparr>it_Name = n, it_Partitions = fmupd 0 [] fmempty\<rparr>" for n
    by (simp add: topic_ok_def partition_of_def)
  then show ?case
    using metadata by (auto simp: store_ok_def GetTopicMetadata_def Let_def split: list.splits option.splits)
qed (auto simp: store_ok_def DeleteTopic_def)

text \<open>A consumer that fetches again and again from the offset after the last message it got, until a
  fetch returns nothing; at most \<open>n\<close> fetches.\<close>

fun consume_all :: "nat \<Rightarrow> string \<Rightarrow> i32 \<Rightarrow> i64 \<Rightarrow> i32 \<Rightarrow> InMemoryMessageStore \<Rightarrow> KMessage list option" where
  "consume_all 0 topic p off mb s = None"
| "consume_all (Suc n) topic p off mb s =
     (case ConsumeMessages topic p off mb s of
        Some (Inr ms) \<Rightarrow>
          if ms = [] then Some []
          else map_option (\<lambda>rest. ms @ rest) (consume_all n topic p (msg_Offset (last ms) + 1) mb s)
      | _ \<Rightarrow> None)"

lemma topic_ok_nth:
  assumes "topic_ok n t" "i < length (partition_of p t)"
  shows "msg_Offset (partition_of p t ! i) = of_nat i"
proof -
  have "map msg_Offset (partition_of p t) ! i = map of_nat [0..<length (partition_of p t)] ! i"
    using assms(1) by (simp only: topic_ok_def)
  with assms(2) show ?thesis
    by simp
qed

lemma consume_all_log:
  assumes "topic_ok topic t" "s topic = Some t" "length (partition_of p t) < 2 ^ 63"
  shows "k \<le> length (partition_of p t) \<Longrightarrow> length (partition_of p t) - k < n \<Longrightarrow>
    consume_all n topic p (of_nat k) mb s = Some (drop k (partition_of p t))"
proof (induction n arbitrary: k)
  case (Suc n)
  let ?log = "partition_of p t"
  show ?case
  proof (cases "k < length ?log")
    case True
    obtain j where j: "0 < j" "ConsumeMessages topic p (of_nat k) mb s = Some (Inr (take j (drop k ?log)))"
      using ConsumeMessages_prefix [of s topic t k p] assms True by metis
    define m where "m = min j (length ?log - k)"
    have m: "0 < m" "k + m \<le> length ?log" and ms: "take j (drop k ?log) = take m (drop k ?log)"
      using j(1) True by (auto simp: m_def min_def)
    have "msg_Offset (last (take m (drop k ?log))) = msg_Offset (?log ! (k + m - 1))"
      using m by (simp add: last_conv_nth)
    also have "\<dots> = of_nat (k + m - 1)"
      using m by (intro topic_ok_nth [OF assms(1)]) simp
    finally have "msg_Offset (last (take m (drop k ?log))) + 1 = of_nat (k + m)"
      using m(1) by (cases m) simp_all
    moreover have "consume_all n topic p (of_nat (k + m)) mb s = Some (drop (k + m) ?log)"
      using Suc.prems m by (intro Suc.IH) auto
    ultimately show ?thesis
      using j(2) m True append_take_drop_id [of m "drop k ?log"] by (simp add: ms add.commute)
  next
    case False
    then show ?thesis
      using Suc.prems(1) ConsumeMessages_end [of s topic t p mb] assms by simp
  qed
qed simp

section \<open>Properties\<close>

text \<open>C9. A consumer that starts at any offset of a partition and always continues after the last
  message it got receives every message from there on, exactly once and in order, whatever the byte
  limit of its fetches, and stops after at most one fetch more than there are messages. This holds
  in every state the store reaches from the empty one.\<close>

theorem consumer_receives_log:
  assumes "store_step\<^sup>*\<^sup>* NewInMemoryMessageStore s" "s topic = Some t"
    and "length (partition_of p t) < 2 ^ 63" "k \<le> length (partition_of p t)" "length (partition_of p t) - k < n"
  shows "consume_all n topic p (of_nat k) mb s = Some (drop k (partition_of p t))"
proof -
  have "store_ok s"
    using assms(1) by (induction rule: rtranclp_induct)
      (auto simp: store_ok_def NewInMemoryMessageStore_def intro: store_step_ok [unfolded store_ok_def, rule_format])
  then show ?thesis
    using assms by (intro consume_all_log) (simp_all add: store_ok_def)
qed

lemma ProduceMessage_appends:
  assumes "s topic = Some t"
  obtains t' where "snd (ProduceMessage now topic p key val s) topic = Some t'"
    "partition_of p t' = partition_of p t @ [\<lparr>msg_Offset = of_nat (length (partition_of p t)), msg_Key = key,
       msg_Value = val, msg_Timestamp = now\<rparr>]"
  using assms that by (simp add: ProduceMessage_def Let_def partition_of_fmupd)

definition two_messages :: InMemoryMessageStore where
  "two_messages = snd (ProduceMessage 2 ''t'' 0 [] [1, 2, 3]
     (snd (ProduceMessage 1 ''t'' 0 [] [7, 8] (CreateTopic ''t'' 1 NewInMemoryMessageStore))))"

theorem consumer_receives_log_witness:
  "map_option (map msg_Value) (consume_all 3 ''t'' 0 0 1 two_messages) = Some [[7, 8], [1, 2, 3]]"
proof -
  define s1 where "s1 = CreateTopic ''t'' 1 NewInMemoryMessageStore"
  define s2 where "s2 = snd (ProduceMessage 1 ''t'' 0 [] [7, 8] s1)"
  have "store_step NewInMemoryMessageStore s1" "store_step s1 s2" "store_step s2 two_messages"
    unfolding two_messages_def s2_def [symmetric] s1_def [symmetric]
    by (simp_all only: s1_def s2_def store_step.create store_step.produce)
  then have reach: "store_step\<^sup>*\<^sup>* NewInMemoryMessageStore two_messages"
    by (meson r_into_rtranclp rtranclp.rtrancl_into_rtrancl)
  obtain t1 where t1: "s1 ''t'' = Some t1" "partition_of 0 t1 = []"
    by (simp add: s1_def CreateTopic_def NewInMemoryMessageStore_def partition_of_def)
  obtain t2 where t2: "s2 ''t'' = Some t2" "map msg_Value (partition_of 0 t2) = [[7, 8]]"
    using ProduceMessage_appends [where s = s1 and topic = "''t''" and now = 1 and p = 0 and key = "[]" and val = "[7, 8]", OF t1(1)]
      t1(2) unfolding s2_def by force
  obtain t where t: "two_messages ''t'' = Some t" "map msg_Value (partition_of 0 t) = [[7, 8], [1, 2, 3]]"
    using ProduceMessage_appends [where s = s2 and topic = "''t''" and now = 2 and p = 0 and key = "[]" and val = "[1, 2, 3]", OF t2(1)]
      t2(2) unfolding two_messages_def s2_def [symmetric] s1_def [symmetric] by force
  from t(2) have "length (partition_of 0 t) = 2"
    using length_map [of msg_Value "partition_of 0 t"] by simp
  then show ?thesis
    using consumer_receives_log [OF reach t(1), of 0 0 3 1] t(2) by simp
qed

end
