(* ===== verification/Wire_Protocol.thy ===== *)
theory Wire_Protocol
  imports Complex_Main Crc32 Message "HOL-Library.State_Monad" "HOL-Library.Signed_Division"
begin

text \<open>
  The Portask protocol: \<^verbatim>\<open>src/pkg/network/protocol.go\<close>, its frames, their validation,
  the handlers of the binary and of the JSON messages, and the loop that serves a connection, with
  \<^verbatim>\<open>Connection.Write\<close> of \<^verbatim>\<open>server.go\<close>. Operations are computations of
  the state monad over the \<open>world\<close>: the handler, the connection, and how often the clock has been
  read and the socket been written to.

  What is not code of this package is the record \<open>env\<close>: the clock, the socket (how many bytes a
  write takes and whether it fails), \<^verbatim>\<open>compress/gzip\<close>, \<^verbatim>\<open>encoding/json\<close> on the
  types the source gives it, the codec manager, and the message store, which is an interface. A reader is
  the list of bytes the client has sent and that are not read yet; its end is that the client has closed
  its side. The read deadline never expires.
\<close>

section \<open>Frames\<close>

definition ProtocolMagic :: u32 where "ProtocolMagic = 0x504F5254"

definition ProtocolVersion :: u8 where "ProtocolVersion = 1"

definition HeaderSize :: nat where "HeaderSize = 16"

definition MessageTypePublish :: u8 where "MessageTypePublish = 1"
definition MessageTypeSubscribe :: u8 where "MessageTypeSubscribe = 2"
definition MessageTypeFetch :: u8 where "MessageTypeFetch = 3"
definition MessageTypeAck :: u8 where "MessageTypeAck = 4"
definition MessageTypeHeartbeat :: u8 where "MessageTypeHeartbeat = 5"
definition MessageTypeError :: u8 where "MessageTypeError = 6"
definition MessageTypeResponse :: u8 where "MessageTypeResponse = 7"

definition FlagCompressed :: u16 where "FlagCompressed = 1"

definition MaxMessageSize :: i64 where "MaxMessageSize = 64 * 1024 * 1024"

record ProtocolHeader =
  ph_Magic :: u32
  ph_Version :: u8
  ph_Type :: u8
  ph_Flags :: u16
  ph_Length :: u32
  ph_Checksum :: u32

definition calculateCRC32 :: "byte list \<Rightarrow> u32" where
  "calculateCRC32 data = crc32Checksum data"

definition header_bytes :: "ProtocolHeader \<Rightarrow> byte list" where
  "header_bytes h =
     be_put 4 (ph_Magic h) @ [ph_Version h, ph_Type h] @ be_put 2 (ph_Flags h) @
     be_put 4 (ph_Length h) @ be_put 4 (ph_Checksum h)"

definition response_header :: "u8 \<Rightarrow> byte list \<Rightarrow> ProtocolHeader" where
  "response_header messageType payload =
     \<lparr>ph_Magic = ProtocolMagic, ph_Version = ProtocolVersion, ph_Type = messageType, ph_Flags = 0,
      ph_Length = of_nat (length payload), ph_Checksum = calculateCRC32 payload\<rparr>"

section \<open>Reading\<close>

text \<open>
  Go error values: the errors of \<^verbatim>\<open>io\<close> and \<^verbatim>\<open>context\<close>, a network error
  that is a timeout or not, an error with a text of its own, and an error that
  \<^verbatim>\<open>fmt.Errorf("text: %w", err)\<close> wraps. \<^verbatim>\<open>==\<close> and type assertions look at
  the outermost value; \<^verbatim>\<open>errors.Is\<close> unwraps.
\<close>

datatype ctx_error = Canceled | DeadlineExceeded

datatype gerr = IoErr io_error | CtxErr ctx_error | NetErr (ne_Timeout: bool) | TextErr string | Wrap string gerr

fun io_text :: "io_error \<Rightarrow> string" where
  "io_text EOF = ''EOF''"
| "io_text ErrUnexpectedEOF = ''unexpected EOF''"

fun Error_text :: "gerr \<Rightarrow> string" where
  "Error_text (IoErr e) = io_text e"
| "Error_text (CtxErr Canceled) = ''context canceled''"
| "Error_text (CtxErr DeadlineExceeded) = ''context deadline exceeded''"
| "Error_text (NetErr t) = (if t then ''i/o timeout'' else ''network error'')"
| "Error_text (TextErr t) = t"
| "Error_text (Wrap t e) = t @ '': '' @ Error_text e"

fun errors_Is :: "gerr \<Rightarrow> gerr \<Rightarrow> bool" where
  "errors_Is (Wrap t e) target = (Wrap t e = target \<or> errors_Is e target)"
| "errors_Is e target = (e = target)"

text \<open>The verb \<^verbatim>\<open>%x\<close>.\<close>

function hex :: "nat \<Rightarrow> string" where
  "hex n = (if n < 16 then [''0123456789abcdef'' ! n] else hex (n div 16) @ [''0123456789abcdef'' ! (n mod 16)])"
  by pat_completeness auto
termination
  by (relation "measure id") auto

declare hex.simps [simp del]

definition readHeader :: "byte list \<Rightarrow> (io_error + ProtocolHeader) \<times> byte list" where
  "readHeader r =
     (case ReadFull HeaderSize r of
        (Inl e, r) \<Rightarrow> (Inl e, r)
      | (Inr b, r) \<Rightarrow>
          (Inr \<lparr>ph_Magic = be_get (take 4 b), ph_Version = b ! 4, ph_Type = b ! 5,
                ph_Flags = be_get (take 2 (drop 6 b)), ph_Length = be_get (take 4 (drop 8 b)),
                ph_Checksum = be_get (take 4 (drop 12 b))\<rparr>, r))"

text \<open>\<^verbatim>\<open>uint32(h.maxMessageSize)\<close> keeps the low 32 bits.\<close>

definition validateHeader :: "i64 \<Rightarrow> ProtocolHeader \<Rightarrow> gerr option" where
  "validateHeader maxMessageSize h =
     (if ph_Magic h \<noteq> ProtocolMagic then Some (TextErr (''invalid magic number: '' @ hex (unat (ph_Magic h))))
      else if ph_Version h \<noteq> ProtocolVersion
      then Some (TextErr (''unsupported protocol version: '' @ dec (unat (ph_Version h))))
      else if ph_Length h > ucast maxMessageSize
      then Some (TextErr (''message too large: '' @ dec (unat (ph_Length h)) @ '' bytes''))
      else None)"

definition validateChecksum :: "ProtocolHeader \<Rightarrow> byte list \<Rightarrow> gerr option" where
  "validateChecksum h payload =
     (if ph_Checksum h \<noteq> calculateCRC32 payload
      then Some (TextErr (''checksum mismatch: expected '' @ hex (unat (calculateCRC32 payload)) @ '', got '' @
                   hex (unat (ph_Checksum h))))
      else None)"

section \<open>The handler and its connection\<close>

record 'st PortaskProtocolHandler =
  h_storage :: 'st
  h_maxMessageSize :: i64
  h_enableMetrics :: bool
  h_totalMessages :: i64
  h_totalErrors :: i64
  h_avgProcessTime :: i64

record Connection =
  c_sent :: "byte list"  \<comment> \<open>what the socket has taken\<close>
  c_lastActive :: instant
  c_bytesWritten :: i64
  c_errors :: i64
  c_subscriptions :: "(string \<rightharpoonup> bool) option"  \<comment> \<open>\<^verbatim>\<open>None\<close> is the nil map\<close>

record 'st world =
  w_handler :: "'st PortaskProtocolHandler"
  w_conn :: Connection
  w_ticks :: nat   \<comment> \<open>readings of the clock so far\<close>
  w_writes :: nat  \<comment> \<open>writes to the socket so far\<close>

record fetchRequest =
  fr_Topic :: string
  fr_Partition :: i32
  fr_Offset :: i64
  fr_Limit :: i64

text \<open>The values the handlers give to \<^verbatim>\<open>json.Marshal\<close>, and a JSON value read as
  \<^verbatim>\<open>interface{}\<close>, as far as the source looks at its dynamic type.\<close>

datatype response =
    Subscribed "string list" instant
  | FetchFailed string string
  | Fetched string i32 "PortaskMessage list"

datatype json = JString string | JNumber rat | JOther

record 'st env =
  env_now :: "nat \<Rightarrow> instant"
  env_write :: "nat \<Rightarrow> byte list \<Rightarrow> nat \<times> gerr option"
  env_gzip :: "byte list \<Rightarrow> gerr + (gerr + byte list)"  \<comment> \<open>a bad header, or what reading gives\<close>
  env_subscribeRequest :: "byte list \<Rightarrow> gerr + (string list \<times> i64)"
  env_fetchRequest :: "byte list \<Rightarrow> gerr + fetchRequest"
  env_object :: "byte list \<Rightarrow> gerr + (string \<rightharpoonup> json)"
  env_Marshal :: "response \<Rightarrow> gerr + byte list"
  env_Decode :: "byte list \<Rightarrow> gerr + PortaskMessage"
  env_Store :: "PortaskMessage \<Rightarrow> 'st \<Rightarrow> gerr option \<times> 'st"
  env_Fetch :: "TopicName \<Rightarrow> i32 \<Rightarrow> i64 \<Rightarrow> i64 \<Rightarrow> 'st \<Rightarrow> gerr + PortaskMessage list"

type_synonym ('st, 'a) op = "('st world, 'a) state"

definition NewPortaskProtocolHandler :: "'st \<Rightarrow> 'st PortaskProtocolHandler" where
  "NewPortaskProtocolHandler storage =
     \<lparr>h_storage = storage, h_maxMessageSize = MaxMessageSize, h_enableMetrics = True,
      h_totalMessages = 0, h_totalErrors = 0, h_avgProcessTime = 0\<rparr>"

definition Now :: "'st env \<Rightarrow> ('st, instant) op" where
  "Now e = State (\<lambda>w. (env_now e (w_ticks w), w\<lparr>w_ticks := Suc (w_ticks w)\<rparr>))"

definition on_handler :: "('st PortaskProtocolHandler \<Rightarrow> 'st PortaskProtocolHandler) \<Rightarrow> ('st, unit) op" where
  "on_handler f = State (\<lambda>w. ((), w\<lparr>w_handler := f (w_handler w)\<rparr>))"

definition on_conn :: "(Connection \<Rightarrow> Connection) \<Rightarrow> ('st, unit) op" where
  "on_conn f = State (\<lambda>w. ((), w\<lparr>w_conn := f (w_conn w)\<rparr>))"

definition socket_Write :: "'st env \<Rightarrow> byte list \<Rightarrow> ('st, nat \<times> gerr option) op" where
  "socket_Write e buf = State (\<lambda>w.
     (case env_write e (w_writes w) buf of
        (n, err) \<Rightarrow> ((n, err), w\<lparr>w_writes := Suc (w_writes w),
                               w_conn := (w_conn w)\<lparr>c_sent := c_sent (w_conn w) @ take n buf\<rparr>\<rparr>)))"

definition Connection_Write :: "'st env \<Rightarrow> byte list \<Rightarrow> ('st, gerr option) op" where
  "Connection_Write e buf = do {
     (n, err) \<leftarrow> socket_Write e buf;
     (if n > 0 then do {
        on_conn (\<lambda>c. c\<lparr>c_bytesWritten := c_bytesWritten c + of_nat n\<rparr>);
        t \<leftarrow> Now e;
        on_conn (\<lambda>c. c\<lparr>c_lastActive := t\<rparr>) }
      else State_Monad.return ());
     (if err \<noteq> None then on_conn (\<lambda>c. c\<lparr>c_errors := c_errors c + 1\<rparr>) else State_Monad.return ());
     State_Monad.return err }"

definition writeMessage :: "'st env \<Rightarrow> ProtocolHeader \<Rightarrow> byte list \<Rightarrow> ('st, gerr option) op" where
  "writeMessage e h payload = do {
     err \<leftarrow> Connection_Write e (header_bytes h);
     (case err of
        Some err \<Rightarrow> State_Monad.return (Some (Wrap ''failed to write header'' err))
      | None \<Rightarrow>
          if payload \<noteq> [] then do {
            err \<leftarrow> Connection_Write e payload;
            State_Monad.return (map_option (Wrap ''failed to write payload'') err) }
          else State_Monad.return None) }"

definition sendResponse :: "'st env \<Rightarrow> u8 \<Rightarrow> byte list \<Rightarrow> ('st, gerr option) op" where
  "sendResponse e messageType payload = writeMessage e (response_header messageType payload) payload"

definition sendAckResponse :: "'st env \<Rightarrow> MessageID \<Rightarrow> ('st, gerr option) op" where
  "sendAckResponse e messageID = sendResponse e MessageTypeAck (bytes_of messageID)"

definition sendErrorResponse :: "'st env \<Rightarrow> gerr \<Rightarrow> ('st, gerr option) op" where
  "sendErrorResponse e err = sendResponse e MessageTypeError (bytes_of (Error_text err))"

definition handleHeartbeat :: "'st env \<Rightarrow> ('st, gerr option) op" where
  "handleHeartbeat e = sendResponse e MessageTypeHeartbeat (bytes_of ''pong'')"

definition updateProcessTime :: "i64 \<Rightarrow> 'st PortaskProtocolHandler \<Rightarrow> 'st PortaskProtocolHandler" where
  "updateProcessTime d h =
     h\<lparr>h_avgProcessTime := (if h_avgProcessTime h = 0 then d else word_of_int (sint (h_avgProcessTime h + d) sdiv 2))\<rparr>"

text \<open>\<^verbatim>\<open>start := time.Now()\<close> with the deferred update of the average.\<close>

definition timed :: "'st env \<Rightarrow> ('st, 'a) op \<Rightarrow> ('st, 'a) op" where
  "timed e body = do {
     start \<leftarrow> Now e;
     r \<leftarrow> body;
     t \<leftarrow> Now e;
     on_handler (updateProcessTime (word_of_int (time_sub t start)));
     State_Monad.return r }"

definition inc_totalErrors :: "('st, unit) op" where
  "inc_totalErrors = on_handler (\<lambda>h. h\<lparr>h_totalErrors := h_totalErrors h + 1\<rparr>)"

definition inc_totalMessages :: "('st, unit) op" where
  "inc_totalMessages = on_handler (\<lambda>h. h\<lparr>h_totalMessages := h_totalMessages h + 1\<rparr>)"

definition storage_Store :: "'st env \<Rightarrow> PortaskMessage \<Rightarrow> ('st, gerr option) op" where
  "storage_Store e m = State (\<lambda>w.
     (case env_Store e m (h_storage (w_handler w)) of
        (err, st) \<Rightarrow> (err, w\<lparr>w_handler := (w_handler w)\<lparr>h_storage := st\<rparr>\<rparr>)))"

definition storage_Fetch ::
  "'st env \<Rightarrow> TopicName \<Rightarrow> i32 \<Rightarrow> i64 \<Rightarrow> i64 \<Rightarrow> ('st, gerr + PortaskMessage list) op" where
  "storage_Fetch e topic part offset limit =
     State (\<lambda>w. (env_Fetch e topic part offset limit (h_storage (w_handler w)), w))"

definition decompressPayload :: "'st env \<Rightarrow> byte list \<Rightarrow> gerr + byte list" where
  "decompressPayload e payload =
     (case env_gzip e payload of
        Inl err \<Rightarrow> Inl (Wrap ''failed to create gzip reader'' err)
      | Inr (Inl err) \<Rightarrow> Inl (Wrap ''failed to decompress'' err)
      | Inr (Inr buf) \<Rightarrow> Inr buf)"

definition OnMessage :: "'st env \<Rightarrow> PortaskMessage \<Rightarrow> ('st, gerr option) op" where
  "OnMessage e message = timed e (do {
     inc_totalMessages;
     err \<leftarrow> storage_Store e message;
     (case err of
        Some err \<Rightarrow> State_Monad.return (Some (Wrap ''failed to store message'' err))
      | None \<Rightarrow> sendAckResponse e (m_ID message)) })"

section \<open>The binary messages\<close>

definition handlePublish :: "'st env \<Rightarrow> ProtocolHeader \<Rightarrow> byte list \<Rightarrow> ('st, gerr option) op" where
  "handlePublish e h payload = timed e
     (case (if and (ph_Flags h) FlagCompressed \<noteq> 0 then decompressPayload e payload else Inr payload) of
        Inl err \<Rightarrow> State_Monad.return (Some (Wrap ''failed to decompress payload'' err))
      | Inr payload \<Rightarrow>
          (case env_Decode e payload of
             Inl err \<Rightarrow> do {
               inc_totalErrors;
               State_Monad.return (Some (Wrap ''failed to deserialize message'' err)) }
           | Inr message \<Rightarrow> do {
               err \<leftarrow> storage_Store e message;
               (case err of
                  Some err \<Rightarrow> do {
                    inc_totalErrors;
                    State_Monad.return (Some (Wrap ''failed to store message'' err)) }
                | None \<Rightarrow> do {
                    inc_totalMessages;
                    sendResponse e MessageTypeResponse (bytes_of ''message_stored'') }) }))"

fun subscribe_all :: "string list \<Rightarrow> (string \<rightharpoonup> bool) \<Rightarrow> string \<rightharpoonup> bool" where
  "subscribe_all [] subs = subs"
| "subscribe_all (topic # topics) subs = subscribe_all topics (subs(topic \<mapsto> True))"

definition handleSubscribe :: "'st env \<Rightarrow> byte list \<Rightarrow> ('st, gerr option) op" where
  "handleSubscribe e payload = timed e
     (case env_subscribeRequest e payload of
        Inl err \<Rightarrow> do {
          inc_totalErrors;
          State_Monad.return (Some (Wrap ''failed to parse subscription request'' err)) }
      | Inr (topics, _) \<Rightarrow> do {
          on_conn (\<lambda>c. c\<lparr>c_subscriptions := Some (subscribe_all topics
            (case c_subscriptions c of None \<Rightarrow> Map.empty | Some subs \<Rightarrow> subs))\<rparr>);
          inc_totalMessages;
          t \<leftarrow> Now e;
          (case env_Marshal e (Subscribed topics t) of
             Inl err \<Rightarrow> State_Monad.return (Some (Wrap ''failed to marshal response'' err))
           | Inr bytes \<Rightarrow> sendResponse e MessageTypeResponse bytes) })"

text \<open>Where marshalling the error answer fails, its result is the nil slice.\<close>

definition handleFetch :: "'st env \<Rightarrow> byte list \<Rightarrow> ('st, gerr option) op" where
  "handleFetch e payload =
     (case decompressPayload e payload of
        Inl err \<Rightarrow> State_Monad.return (Some (Wrap ''failed to decompress fetch payload'' err))
      | Inr decompressedPayload \<Rightarrow>
          (case env_fetchRequest e decompressedPayload of
             Inl err \<Rightarrow> State_Monad.return (Some (Wrap ''failed to parse fetch request'' err))
           | Inr r \<Rightarrow> do {
               messages \<leftarrow> storage_Fetch e (fr_Topic r) (fr_Partition r) (fr_Offset r)
                 (if fr_Limit r \<le>s 0 then 100 else fr_Limit r);
               (case messages of
                  Inl err \<Rightarrow>
                    sendResponse e MessageTypeResponse
                      (case env_Marshal e (FetchFailed (Error_text err) (fr_Topic r)) of Inl _ \<Rightarrow> [] | Inr b \<Rightarrow> b)
                | Inr messages \<Rightarrow>
                    (case env_Marshal e (Fetched (fr_Topic r) (fr_Partition r) messages) of
                       Inl err \<Rightarrow> State_Monad.return (Some (Wrap ''failed to marshal fetch response'' err))
                     | Inr b \<Rightarrow> sendResponse e MessageTypeResponse b)) }))"

definition read_frame :: "i64 \<Rightarrow> byte list \<Rightarrow> (gerr + ProtocolHeader \<times> byte list) \<times> byte list" where
  "read_frame maxMessageSize r =
     (case readHeader r of
        (Inl e, r) \<Rightarrow> (Inl (Wrap ''failed to read header'' (IoErr e)), r)
      | (Inr h, r) \<Rightarrow>
          (case validateHeader maxMessageSize h of
             Some e \<Rightarrow> (Inl (Wrap ''invalid header'' e), r)
           | None \<Rightarrow>
               (case ReadFull (unat (ph_Length h)) r of
                  (Inl e, r) \<Rightarrow> (Inl (Wrap ''failed to read payload'' (IoErr e)), r)
                | (Inr payload, r) \<Rightarrow>
                    (case validateChecksum h payload of
                       Some e \<Rightarrow> (Inl (Wrap ''checksum validation failed'' e), r)
                     | None \<Rightarrow> (Inr (h, payload), r)))))"

definition handle_frame :: "'st env \<Rightarrow> ProtocolHeader \<Rightarrow> byte list \<Rightarrow> ('st, gerr option) op" where
  "handle_frame e h payload =
     (if ph_Type h = MessageTypePublish then handlePublish e h payload
      else if ph_Type h = MessageTypeSubscribe then handleSubscribe e payload
      else if ph_Type h = MessageTypeFetch then handleFetch e payload
      else if ph_Type h = MessageTypeHeartbeat then handleHeartbeat e
      else State_Monad.return (Some (TextErr (''unsupported message type: '' @ dec (unat (ph_Type h))))))"

text \<open>The result and the bytes left to read.\<close>

definition processMessage :: "'st env \<Rightarrow> byte list \<Rightarrow> ('st, gerr option \<times> byte list) op" where
  "processMessage e r = do {
     w \<leftarrow> State_Monad.get;
     (case read_frame (h_maxMessageSize (w_handler w)) r of
        (Inl err, r) \<Rightarrow> State_Monad.return (Some err, r)
      | (Inr (h, payload), r) \<Rightarrow> do {
          err \<leftarrow> handle_frame e h payload;
          State_Monad.return (err, r) }) }"

section \<open>The JSON messages\<close>

definition handleJSONPublish :: "'st env \<Rightarrow> (string \<rightharpoonup> json) \<Rightarrow> ('st, gerr option) op" where
  "handleJSONPublish e jsonMsg = timed e
     (case jsonMsg ''topic'' of
        Some (JString topic) \<Rightarrow>
          (case jsonMsg ''data'' of
             Some (JString data) \<Rightarrow> do {
               t \<leftarrow> Now e;
               t' \<leftarrow> Now e;
               err \<leftarrow> storage_Store e (zero_message\<lparr>m_ID := ''json-msg-'' @ dec_int t, m_Topic := topic,
                 m_Payload := bytes_of data, m_Timestamp := word_of_int t'\<rparr>);
               (case err of
                  Some err \<Rightarrow> do {
                    inc_totalErrors;
                    State_Monad.return (Some (Wrap ''failed to store JSON message'' err)) }
                | None \<Rightarrow> do { inc_totalMessages; State_Monad.return None }) }
           | _ \<Rightarrow> State_Monad.return (Some (TextErr ''missing or invalid data'')))
      | _ \<Rightarrow> State_Monad.return (Some (TextErr ''missing or invalid topic'')))"

definition handleJSONSubscribe :: "(string \<rightharpoonup> json) \<Rightarrow> ('st, gerr option) op" where
  "handleJSONSubscribe jsonMsg =
     State_Monad.return
       (case jsonMsg ''topic'' of
          Some (JString topic) \<Rightarrow> None
        | _ \<Rightarrow> Some (TextErr ''missing or invalid topic''))"

text \<open>\<^verbatim>\<open>int(l)\<close> of a \<^verbatim>\<open>float64\<close> drops the fraction.\<close>

definition int_of_float :: "rat \<Rightarrow> i64" where
  "int_of_float l = word_of_int (if l < 0 then \<lceil>l\<rceil> else \<lfloor>l\<rfloor>)"

definition handleJSONFetch :: "'st env \<Rightarrow> (string \<rightharpoonup> json) \<Rightarrow> ('st, gerr option) op" where
  "handleJSONFetch e jsonMsg =
     (case jsonMsg ''topic'' of
        Some (JString topic) \<Rightarrow> do {
          messages \<leftarrow> storage_Fetch e topic 0 0
            (case jsonMsg ''limit'' of Some (JNumber l) \<Rightarrow> int_of_float l | _ \<Rightarrow> 10);
          State_Monad.return
            (case messages of Inl err \<Rightarrow> Some (Wrap ''failed to fetch messages'' err) | Inr _ \<Rightarrow> None) }
      | _ \<Rightarrow> State_Monad.return (Some (TextErr ''missing or invalid topic'')))"

definition processJSONMessage :: "'st env \<Rightarrow> byte list \<Rightarrow> ('st, gerr option) op" where
  "processJSONMessage e jsonData =
     (case env_object e jsonData of
        Inl err \<Rightarrow> State_Monad.return (Some (Wrap ''failed to parse JSON'' err))
      | Inr jsonMsg \<Rightarrow>
          (case jsonMsg ''type'' of
             Some (JString msgType) \<Rightarrow>
               if msgType = ''publish'' then handleJSONPublish e jsonMsg
               else if msgType = ''subscribe'' then handleJSONSubscribe jsonMsg
               else if msgType = ''fetch'' then handleJSONFetch e jsonMsg
               else if msgType = ''heartbeat'' then handleHeartbeat e
               else State_Monad.return (Some (TextErr (''unsupported JSON message type: '' @ msgType)))
           | _ \<Rightarrow> State_Monad.return (Some (TextErr ''missing or invalid message type''))))"

text \<open>\<^verbatim>\<open>bytes.TrimSpace\<close> drops white space on both sides: the ASCII spaces and, where the
  bytes are not ASCII, the UTF-8 encodings of the other white space characters.\<close>

definition spaces :: "byte list list" where
  "spaces = [[0x20], [0x09], [0x0A], [0x0B], [0x0C], [0x0D], [0xC2, 0x85], [0xC2, 0xA0], [0xE1, 0x9A, 0x80]] @
     map (\<lambda>b. [0xE2, 0x80, b]) [0x80, 0x81, 0x82, 0x83, 0x84, 0x85, 0x86, 0x87, 0x88, 0x89, 0x8A, 0xA8, 0xA9, 0xAF] @
     [[0xE2, 0x81, 0x9F], [0xE3, 0x80, 0x80]]"

function strip :: "byte list list \<Rightarrow> byte list \<Rightarrow> byte list" where
  "strip ws bs =
     (case find (\<lambda>w. w \<noteq> [] \<and> take (length w) bs = w) ws of
        None \<Rightarrow> bs
      | Some w \<Rightarrow> strip ws (drop (length w) bs))"
  by pat_completeness auto
termination
proof (relation "measure (length \<circ> snd)")
  fix ws bs w
  assume "find (\<lambda>w. w \<noteq> [] \<and> take (length w) bs = w) ws = Some w"
  then have "w \<noteq> []" "take (length w) bs = w"
    by (auto simp: find_Some_iff)
  then show "((ws, drop (length w) bs), ws, bs) \<in> measure (length \<circ> snd)"
    by (cases bs) auto
qed simp

declare strip.simps [simp del]

definition TrimSpace :: "byte list \<Rightarrow> byte list" where
  "TrimSpace data = rev (strip (map rev spaces) (rev (strip spaces data)))"

definition ProcessRawData :: "'st env \<Rightarrow> byte list \<Rightarrow> ('st, gerr option) op" where
  "ProcessRawData e data =
     (let trimmedData = TrimSpace data
      in if trimmedData \<noteq> [] \<and> hd trimmedData = 0x7B then processJSONMessage e trimmedData
         else do { (err, _) \<leftarrow> processMessage e data; State_Monad.return err })"

section \<open>Serving a connection\<close>

definition isRecoverableError :: "gerr \<Rightarrow> bool" where
  "isRecoverableError e =
     (case e of
        NetErr timeout \<Rightarrow> timeout
      | _ \<Rightarrow>
          if e = IoErr EOF then False
          else if errors_Is e (CtxErr Canceled) \<or> errors_Is e (CtxErr DeadlineExceeded) then False
          else True)"

text \<open>How the loop ends: the context was cancelled, \<^verbatim>\<open>return nil\<close> for a client that
  has gone, or \<^verbatim>\<open>return err\<close>.\<close>

datatype conn_end = CtxDone | ClientGone | Failed gerr

text \<open>The loop of \<^verbatim>\<open>HandleConnection\<close> when the context is cancelled after \<open>n\<close>
  rounds: how it ends, and the unread bytes.\<close>

fun HandleConnection :: "'st env \<Rightarrow> nat \<Rightarrow> byte list \<Rightarrow> ('st, conn_end \<times> byte list) op" where
  "HandleConnection e 0 r = State_Monad.return (CtxDone, r)"
| "HandleConnection e (Suc n) r = do {
     _ \<leftarrow> Now e;
     (err, r) \<leftarrow> processMessage e r;
     (case err of
        None \<Rightarrow> HandleConnection e n r
      | Some err \<Rightarrow>
          if err = IoErr EOF then State_Monad.return (ClientGone, r)
          else do {
            inc_totalErrors;
            _ \<leftarrow> sendErrorResponse e err;
            (if isRecoverableError err then HandleConnection e n r
             else State_Monad.return (Failed err, r)) }) }"

section \<open>Frames that are read back\<close>

lemma length_header_bytes [simp]: "length (header_bytes h) = HeaderSize"
  by (simp add: header_bytes_def HeaderSize_def)

lemma readHeader_header_bytes: "readHeader (header_bytes h @ rest) = (Inr h, rest)"
proof -
  have "take 4 (header_bytes h) = be_put 4 (ph_Magic h)" "header_bytes h ! 4 = ph_Version h"
    "header_bytes h ! 5 = ph_Type h" "take 2 (drop 6 (header_bytes h)) = be_put 2 (ph_Flags h)"
    "take 4 (drop 8 (header_bytes h)) = be_put 4 (ph_Length h)"
    "take 4 (drop 12 (header_bytes h)) = be_put 4 (ph_Checksum h)"
    by (simp_all add: header_bytes_def nth_append)
  then show ?thesis
    by (simp add: readHeader_def ReadFull_enough be16.get_put be32.get_put)
qed

text \<open>The header announces the payload, which is within the limit.\<close>

definition frame_ok :: "i64 \<Rightarrow> ProtocolHeader \<Rightarrow> byte list \<Rightarrow> bool" where
  "frame_ok maxMessageSize h payload \<longleftrightarrow>
     ph_Magic h = ProtocolMagic \<and> ph_Version h = ProtocolVersion \<and> ph_Length h = of_nat (length payload) \<and>
     ph_Checksum h = calculateCRC32 payload \<and> length payload \<le> unat maxMessageSize \<and> unat maxMessageSize < 2 ^ 32"

lemma frame_ok_length:
  assumes "frame_ok maxMessageSize h payload"
  shows "unat (ph_Length h) = length payload" "\<not> ph_Length h > ucast maxMessageSize"
proof -
  show len: "unat (ph_Length h) = length payload"
    using assms by (simp add: frame_ok_def unat_of_nat)
  have "unat (ucast maxMessageSize :: u32) = unat maxMessageSize"
    using assms by (simp add: frame_ok_def unsigned_ucast_eq take_bit_nat_eq_self)
  with len show "\<not> ph_Length h > ucast maxMessageSize"
    using assms by (simp add: frame_ok_def word_less_nat_alt)
qed

lemma read_frame_payload:
  assumes "frame_ok maxMessageSize h payload" "length body = length payload"
  shows "read_frame maxMessageSize (header_bytes h @ body @ rest) =
    (if calculateCRC32 body = calculateCRC32 payload then (Inr (h, body), rest)
     else (Inl (Wrap ''checksum validation failed'' (the (validateChecksum h body))), rest))"
proof -
  have "validateHeader maxMessageSize h = None"
    using assms(1) frame_ok_length(2) [OF assms(1)] by (simp add: validateHeader_def frame_ok_def)
  then show ?thesis
    using assms frame_ok_length(1) [OF assms(1)]
    by (auto simp: read_frame_def readHeader_header_bytes ReadFull_enough validateChecksum_def frame_ok_def)
qed

lemma frame_ok_response:
  "length payload \<le> unat maxMessageSize \<Longrightarrow> unat maxMessageSize < 2 ^ 32 \<Longrightarrow>
    frame_ok maxMessageSize (response_header t payload) payload"
  by (simp add: frame_ok_def response_header_def)

section \<open>What the operations leave alone\<close>

lemmas world_defs = Now_def on_handler_def on_conn_def socket_Write_def inc_totalErrors_def inc_totalMessages_def
  storage_Store_def storage_Fetch_def

lemma writeMessage_handler: "w_handler (snd (run_state (writeMessage e h payload) w)) = w_handler w"
  by (simp add: writeMessage_def Connection_Write_def world_defs case_prod_unfold split: option.split)

lemma sendResponse_handler: "w_handler (snd (run_state (sendResponse e t payload) w)) = w_handler w"
  by (simp add: sendResponse_def writeMessage_handler)

text \<open>A socket that takes every byte.\<close>

definition socket_ok :: "'st env \<Rightarrow> bool" where
  "socket_ok e \<longleftrightarrow> (\<forall>k buf. env_write e k buf = (length buf, None))"

lemma writeMessage_sent:
  assumes "socket_ok e"
  shows "fst (run_state (writeMessage e h payload) w) = None"
    and "c_sent (w_conn (snd (run_state (writeMessage e h payload) w))) = c_sent (w_conn w) @ header_bytes h @ payload"
  using assms
  by (simp_all add: writeMessage_def Connection_Write_def world_defs socket_ok_def HeaderSize_def)

lemma sendResponse_sent:
  assumes "socket_ok e"
  shows "fst (run_state (sendResponse e t payload) w) = None"
    and "c_sent (w_conn (snd (run_state (sendResponse e t payload) w))) =
      c_sent (w_conn w) @ header_bytes (response_header t payload) @ payload"
  using writeMessage_sent [OF assms] by (simp_all add: sendResponse_def)

lemma timed_run:
  "run_state (timed e body) w =
    (let w1 = w\<lparr>w_ticks := Suc (w_ticks w)\<rparr>; (r, w2) = run_state body w1;
         d = word_of_int (time_sub (env_now e (w_ticks w2)) (env_now e (w_ticks w)))
     in (r, w2\<lparr>w_ticks := Suc (w_ticks w2), w_handler := updateProcessTime d (w_handler w2)\<rparr>))"
  by (simp add: timed_def world_defs case_prod_unfold Let_def)

lemma updateProcessTime_sel [simp]:
  "h_storage (updateProcessTime d h) = h_storage h"
  "h_maxMessageSize (updateProcessTime d h) = h_maxMessageSize h"
  "h_totalMessages (updateProcessTime d h) = h_totalMessages h"
  "h_totalErrors (updateProcessTime d h) = h_totalErrors h"
  by (simp_all add: updateProcessTime_def)

section \<open>Serving frames\<close>

lemma handlePublish_stored:
  assumes "socket_ok e" "and (ph_Flags h) FlagCompressed = 0" "env_Decode e payload = Inr m"
    "env_Store e m (h_storage (w_handler w)) = (None, st)"
  shows "\<exists>w'. run_state (handlePublish e h payload) w = (None, w') \<and>
    h_storage (w_handler w') = st \<and> h_maxMessageSize (w_handler w') = h_maxMessageSize (w_handler w) \<and>
    h_totalMessages (w_handler w') = h_totalMessages (w_handler w) + 1 \<and>
    h_totalErrors (w_handler w') = h_totalErrors (w_handler w) \<and>
    c_sent (w_conn w') = c_sent (w_conn w) @
      header_bytes (response_header MessageTypeResponse (bytes_of ''message_stored'')) @ bytes_of ''message_stored''"
  using assms
  by (simp add: handlePublish_def timed_run world_defs Let_def case_prod_unfold sendResponse_sent sendResponse_handler)

text \<open>A frame on the wire: its header, the payload the header announces, and the bytes that arrive.
  They are the payload, or damaged so that the checksum shows it.\<close>

type_synonym wire_frame = "ProtocolHeader \<times> byte list \<times> byte list"

fun wire_bytes :: "wire_frame \<Rightarrow> byte list" where
  "wire_bytes (h, payload, body) = header_bytes h @ body"

fun intact :: "wire_frame \<Rightarrow> bool" where
  "intact (h, payload, body) = (body = payload)"

fun publish_frame :: "'st env \<Rightarrow> i64 \<Rightarrow> wire_frame \<Rightarrow> bool" where
  "publish_frame e maxMessageSize (h, payload, body) \<longleftrightarrow>
     frame_ok maxMessageSize h payload \<and> ph_Type h = MessageTypePublish \<and> and (ph_Flags h) FlagCompressed = 0 \<and>
     length body = length payload \<and> (body = payload \<or> calculateCRC32 body \<noteq> calculateCRC32 payload) \<and>
     (\<exists>m. env_Decode e payload = Inr m)"

fun decoded :: "'st env \<Rightarrow> wire_frame \<Rightarrow> PortaskMessage" where
  "decoded e (h, payload, body) = (case env_Decode e payload of Inr m \<Rightarrow> m)"

lemma HandleConnection_publish:
  assumes "socket_ok e" "publish_frame e (h_maxMessageSize (w_handler w)) f" "intact f"
    "\<And>m st. env_Store e m st = (None, put m st)"
  shows "\<exists>w'. run_state (HandleConnection e (Suc n) (wire_bytes f @ r)) w = run_state (HandleConnection e n r) w' \<and>
    h_storage (w_handler w') = put (decoded e f) (h_storage (w_handler w)) \<and>
    h_maxMessageSize (w_handler w') = h_maxMessageSize (w_handler w) \<and>
    h_totalMessages (w_handler w') = h_totalMessages (w_handler w) + 1 \<and>
    h_totalErrors (w_handler w') = h_totalErrors (w_handler w)"
proof -
  obtain h p where f: "f = (h, p, p)"
    using assms(3) by (cases f) auto
  obtain m where m: "env_Decode e p = Inr m" "frame_ok (h_maxMessageSize (w_handler w)) h p"
      "ph_Type h = MessageTypePublish" "and (ph_Flags h) FlagCompressed = 0"
    using assms(2) by (auto simp: f)
  define w1 where "w1 = w\<lparr>w_ticks := Suc (w_ticks w)\<rparr>"
  obtain w' where w': "run_state (handlePublish e h p) w1 = (None, w')"
      "h_storage (w_handler w') = put m (h_storage (w_handler w1))"
      "h_maxMessageSize (w_handler w') = h_maxMessageSize (w_handler w1)"
      "h_totalMessages (w_handler w') = h_totalMessages (w_handler w1) + 1"
      "h_totalErrors (w_handler w') = h_totalErrors (w_handler w1)"
    using handlePublish_stored [OF assms(1) m(4,1) assms(4)] by blast
  have "run_state (HandleConnection e (Suc n) (wire_bytes f @ r)) w = run_state (HandleConnection e n r) w'"
    using w'(1) m read_frame_payload [OF m(2) refl, of r]
    by (simp add: f Now_def processMessage_def handle_frame_def w1_def)
  then show ?thesis
    using w' m(1) by (intro exI [of _ w']) (simp add: f w1_def)
qed

lemma HandleConnection_damaged:
  assumes "publish_frame e (h_maxMessageSize (w_handler w)) f" "\<not> intact f"
  shows "\<exists>w'. run_state (HandleConnection e (Suc n) (wire_bytes f @ r)) w = run_state (HandleConnection e n r) w' \<and>
    h_storage (w_handler w') = h_storage (w_handler w) \<and>
    h_maxMessageSize (w_handler w') = h_maxMessageSize (w_handler w) \<and>
    h_totalMessages (w_handler w') = h_totalMessages (w_handler w) \<and>
    h_totalErrors (w_handler w') = h_totalErrors (w_handler w) + 1"
proof -
  obtain h p b where f: "f = (h, p, b)"
    by (cases f) auto
  have ok: "frame_ok (h_maxMessageSize (w_handler w)) h p" "length b = length p" "calculateCRC32 b \<noteq> calculateCRC32 p"
    using assms by (auto simp: f)
  define x where "x = Wrap ''checksum validation failed'' (the (validateChecksum h b))"
  have x: "isRecoverableError x" "x \<noteq> IoErr EOF"
    using ok by (auto simp: x_def isRecoverableError_def validateChecksum_def frame_ok_def)
  define w1 where "w1 = w\<lparr>w_ticks := Suc (w_ticks w), w_handler := (w_handler w)\<lparr>h_totalErrors := h_totalErrors (w_handler w) + 1\<rparr>\<rparr>"
  define w' where "w' = snd (run_state (sendErrorResponse e x) w1)"
  have "run_state (HandleConnection e (Suc n) (wire_bytes f @ r)) w = run_state (HandleConnection e n r) w'"
    using x read_frame_payload [OF ok(1,2), of r] ok(3)
    by (simp add: f world_defs processMessage_def w'_def w1_def case_prod_unfold flip: x_def)
  moreover have "w_handler w' = w_handler w1"
    by (simp add: w'_def sendErrorResponse_def sendResponse_handler)
  ultimately show ?thesis
    by (intro exI [of _ w']) (simp add: w1_def)
qed

section \<open>Telling frames from JSON\<close>

lemma strip_first:
  assumes "list_all (\<lambda>w. c \<notin> set w) ws"
  shows "strip ws (c # bs) = c # bs"
proof -
  have "find (\<lambda>w. w \<noteq> [] \<and> take (length w) (c # bs) = w) ws = None"
    using assms by (auto simp: find_None_iff list_all_iff neq_Nil_conv)
  then show ?thesis
    by (subst strip.simps) simp
qed

lemma strip_keeps_last:
  assumes "list_all (\<lambda>w. c \<notin> set w) ws"
  shows "\<exists>us. strip ws (bs @ [c]) = us @ [c]"
proof (induction "length bs" arbitrary: bs rule: less_induct)
  case less
  show ?case
  proof (cases "find (\<lambda>w. w \<noteq> [] \<and> take (length w) (bs @ [c]) = w) ws")
    case None
    then show ?thesis by (subst strip.simps) simp
  next
    case (Some w)
    then have w: "w \<noteq> []" "take (length w) (bs @ [c]) = w" "w \<in> set ws"
      by (auto simp: find_Some_iff)
    have "length w \<le> length bs"
    proof (rule ccontr)
      assume "\<not> ?thesis"
      then have "take (length w) (bs @ [c]) = bs @ [c]" by simp
      then have "c \<in> set w" using w(2) by (metis in_set_conv_decomp)
      then show False using assms w(3) by (auto simp: list_all_iff)
    qed
    then show ?thesis
      using less [of "drop (length w) bs"] w(1) Some by (subst strip.simps) (simp, cases bs, auto)
  qed
qed

lemma magic_not_space: "list_all (\<lambda>w. 0x50 \<notin> set w) spaces" "list_all (\<lambda>w. 0x50 \<notin> set w) (map rev spaces)"
  by (simp_all add: spaces_def)

lemma TrimSpace_magic: "\<exists>bs'. TrimSpace (0x50 # bs) = 0x50 # bs'"
  using strip_keeps_last [OF magic_not_space(2), of "rev bs"]
  by (fastforce simp: TrimSpace_def strip_first [OF magic_not_space(1)])

lemma be_put_magic: "be_put 4 ProtocolMagic = [0x50, 0x4F, 0x52, 0x54]"
  by code_simp

section \<open>An environment\<close>

text \<open>The concrete environment of the examples below: a store that is the list of what was stored, a codec
  whose bytes are the payload, and no gzip data at all.\<close>

definition demo_env :: "PortaskMessage list env" where
  "demo_env =
     \<lparr>env_now = int, env_write = (\<lambda>_ buf. (length buf, None)),
      env_gzip = (\<lambda>_. Inl (TextErr ''gzip: invalid header'')),
      env_subscribeRequest = (\<lambda>b. Inr ([string_of b], 0)),
      env_fetchRequest = (\<lambda>b. Inr \<lparr>fr_Topic = string_of b, fr_Partition = 0, fr_Offset = 0, fr_Limit = 0\<rparr>),
      env_object = (\<lambda>_. Inr Map.empty), env_Marshal = (\<lambda>_. Inr []),
      env_Decode = (\<lambda>b. Inr (zero_message\<lparr>m_Payload := b\<rparr>)), env_Store = (\<lambda>m st. (None, st @ [m])),
      env_Fetch = (\<lambda>_ _ _ _ st. Inr st)\<rparr>"

definition demo_world :: "PortaskMessage list world" where
  "demo_world =
     \<lparr>w_handler = NewPortaskProtocolHandler [],
      w_conn = \<lparr>c_sent = [], c_lastActive = 0, c_bytesWritten = 0, c_errors = 0, c_subscriptions = None\<rparr>,
      w_ticks = 0, w_writes = 0\<rparr>"

definition demo_frame :: "u8 \<Rightarrow> byte list \<Rightarrow> byte list \<Rightarrow> wire_frame" where
  "demo_frame t payload body = (response_header t payload, payload, body)"

lemma demo_simps [simp]:
  "socket_ok demo_env" "env_Store demo_env m st = (None, st @ [m])"
  "env_Decode demo_env b = Inr (zero_message\<lparr>m_Payload := b\<rparr>)"
  "env_gzip demo_env b = Inl (TextErr ''gzip: invalid header'')"
  "h_maxMessageSize (w_handler demo_world) = MaxMessageSize" "h_storage (w_handler demo_world) = []"
  by (simp_all add: demo_env_def socket_ok_def demo_world_def NewPortaskProtocolHandler_def)

lemma demo_frame_ok: "length payload \<le> 9 \<Longrightarrow> frame_ok MaxMessageSize (response_header t payload) payload"
  by (rule frame_ok_response) (simp_all add: MaxMessageSize_def)

section \<open>Properties\<close>

text \<open>C8. A stream of uncompressed publish frames, some of them with a damaged payload, is served frame
  by frame: exactly the messages of the intact frames are stored, in the order they were sent, each is
  counted, each damaged frame counts one error, and the reader is left after the last frame.\<close>

theorem publish_stream:
  assumes "socket_ok e" "list_all (publish_frame e (h_maxMessageSize (w_handler w))) fs"
    "\<And>m st. env_Store e m st = (None, put m st)"
  shows "\<exists>w'. run_state (HandleConnection e (length fs) (concat (map wire_bytes fs) @ rest)) w = ((CtxDone, rest), w') \<and>
    h_storage (w_handler w') = fold put (map (decoded e) (filter intact fs)) (h_storage (w_handler w)) \<and>
    h_totalMessages (w_handler w') = h_totalMessages (w_handler w) + of_nat (length (filter intact fs)) \<and>
    h_totalErrors (w_handler w') = h_totalErrors (w_handler w) + of_nat (length (filter (\<lambda>f. \<not> intact f) fs))"
  using assms(2)
proof (induction fs arbitrary: w)
  case (Cons f fs)
  have f: "publish_frame e (h_maxMessageSize (w_handler w)) f"
    using Cons.prems by simp
  show ?case
  proof (cases "intact f")
    case True
    obtain w1 where w1: "run_state (HandleConnection e (Suc (length fs)) (wire_bytes f @ concat (map wire_bytes fs) @ rest)) w =
        run_state (HandleConnection e (length fs) (concat (map wire_bytes fs) @ rest)) w1"
        "h_storage (w_handler w1) = put (decoded e f) (h_storage (w_handler w))"
        "h_maxMessageSize (w_handler w1) = h_maxMessageSize (w_handler w)"
        "h_totalMessages (w_handler w1) = h_totalMessages (w_handler w) + 1"
        "h_totalErrors (w_handler w1) = h_totalErrors (w_handler w)"
      using HandleConnection_publish [OF assms(1) f True assms(3)] by blast
    then show ?thesis
      using Cons.IH [of w1] Cons.prems True by (auto simp del: HandleConnection.simps)
  next
    case False
    obtain w1 where w1: "run_state (HandleConnection e (Suc (length fs)) (wire_bytes f @ concat (map wire_bytes fs) @ rest)) w =
        run_state (HandleConnection e (length fs) (concat (map wire_bytes fs) @ rest)) w1"
        "h_storage (w_handler w1) = h_storage (w_handler w)"
        "h_maxMessageSize (w_handler w1) = h_maxMessageSize (w_handler w)"
        "h_totalMessages (w_handler w1) = h_totalMessages (w_handler w)"
        "h_totalErrors (w_handler w1) = h_totalErrors (w_handler w) + 1"
      using HandleConnection_damaged [OF f False] by blast
    then show ?thesis
      using Cons.IH [of w1] Cons.prems False by (auto simp del: HandleConnection.simps)
  qed
qed simp

theorem publish_stream_witness:
  "\<exists>w'. run_state (HandleConnection demo_env 3 (concat (map wire_bytes
        [demo_frame MessageTypePublish [1] [1], demo_frame MessageTypePublish [2] [3], demo_frame MessageTypePublish [4] [4]])
        @ [7])) demo_world = ((CtxDone, [7]), w') \<and>
      map m_Payload (h_storage (w_handler w')) = [[1], [4]] \<and> h_totalMessages (w_handler w') = 2 \<and>
      h_totalErrors (w_handler w') = 1"
proof -
  define fs where "fs = [demo_frame MessageTypePublish [1] [1], demo_frame MessageTypePublish [2] [3],
    demo_frame MessageTypePublish [4] [4]]"
  have "calculateCRC32 [2] \<noteq> calculateCRC32 [3]"
    by code_simp
  then have "list_all (publish_frame demo_env (h_maxMessageSize (w_handler demo_world))) fs"
    by (simp add: fs_def demo_frame_def demo_frame_ok) (simp add: response_header_def)
  from publish_stream [OF demo_simps(1) this, of "\<lambda>m st. st @ [m]" "[7]"]
  show ?thesis
    by (auto simp: fs_def numeral_3_eq_3 demo_frame_def demo_world_def NewPortaskProtocolHandler_def simp del: HandleConnection.simps)
qed

text \<open>A frame whose header announces its payload is read back exactly, with the reader left at the
  next frame. What \<^verbatim>\<open>sendResponse\<close> puts on the wire, of any type and up to the size limit,
  is such a frame.\<close>

theorem frame_roundtrip:
  assumes "socket_ok e" "length payload \<le> unat maxMessageSize" "unat maxMessageSize < 2 ^ 32"
    "run_state (sendResponse e t payload) w = (err, w')"
  shows "err = None \<and> (\<exists>bs. c_sent (w_conn w') = c_sent (w_conn w) @ bs \<and>
    read_frame maxMessageSize (bs @ rest) = (Inr (response_header t payload, payload), rest))"
  using assms(4) sendResponse_sent [OF assms(1), of t payload w]
    read_frame_payload [OF frame_ok_response [OF assms(2,3)] refl, of t rest]
  by simp

theorem frame_roundtrip_witness:
  "\<exists>bs. c_sent (w_conn (snd (run_state (sendResponse demo_env MessageTypeAck [1, 2]) demo_world))) = bs \<and>
    read_frame MaxMessageSize (bs @ [9]) = (Inr (response_header MessageTypeAck [1, 2], [1, 2]), [9])"
  using frame_roundtrip [of demo_env "[1, 2]" MaxMessageSize MessageTypeAck demo_world _ _ "[9]", OF _ _ _ prod.collapse [symmetric]]
  by (auto simp: MaxMessageSize_def demo_world_def)

text \<open>A frame whose payload is damaged within any four consecutive bytes is refused with a checksum
  error, nothing of it is handled, and the reader is left at the next frame.\<close>

theorem frame_detects_corruption:
  assumes "frame_ok (h_maxMessageSize (w_handler w)) h (p @ u @ s)" "length u = length v" "length u \<le> 4" "u \<noteq> v"
  shows "\<exists>x. run_state (processMessage e (header_bytes h @ (p @ v @ s) @ rest)) w =
    ((Some (Wrap ''checksum validation failed'' x), rest), w)"
proof -
  have "calculateCRC32 (p @ v @ s) \<noteq> calculateCRC32 (p @ u @ s)"
    using crc_burst [OF assms(2-4), of p s] by (metis calculateCRC32_def)
  then show ?thesis
    using read_frame_payload [OF assms(1), of "p @ v @ s" rest] assms(2) by (simp add: processMessage_def)
qed

theorem frame_detects_corruption_witness:
  "\<exists>x. run_state (processMessage demo_env (header_bytes (response_header MessageTypePublish [1, 2, 3]) @ [1, 7, 3] @ [8]))
      demo_world = ((Some (Wrap ''checksum validation failed'' x), [8]), demo_world)"
  using frame_detects_corruption [of demo_world "response_header MessageTypePublish [1, 2, 3]" "[1]" "[2]" "[3]" "[7]" demo_env "[8]"]
  by (simp add: demo_frame_ok)

text \<open>A client that closes its connection is never noticed: whatever happens to the writes, the loop
  goes on until the context is cancelled and counts an error in every round. The case of
  \<^verbatim>\<open>HandleConnection\<close> for a disconnected client compares with the bare
  \<^verbatim>\<open>io.EOF\<close>, but the error it gets is wrapped, and wrapped errors count as recoverable.\<close>

theorem disconnect_unnoticed:
  "\<exists>w'. run_state (HandleConnection e n []) w = ((CtxDone, []), w') \<and>
    h_totalErrors (w_handler w') = h_totalErrors (w_handler w) + of_nat n"
proof (induction n arbitrary: w)
  case (Suc n)
  define w1 where "w1 = snd (run_state (sendErrorResponse e (Wrap ''failed to read header'' (IoErr EOF)))
    (w\<lparr>w_ticks := Suc (w_ticks w), w_handler := (w_handler w)\<lparr>h_totalErrors := h_totalErrors (w_handler w) + 1\<rparr>\<rparr>))"
  have "run_state (HandleConnection e (Suc n) []) w = run_state (HandleConnection e n []) w1"
    by (simp add: world_defs processMessage_def read_frame_def readHeader_def ReadFull_def HeaderSize_def
        isRecoverableError_def w1_def case_prod_unfold)
  moreover have "h_totalErrors (w_handler w1) = h_totalErrors (w_handler w) + 1"
    by (simp add: w1_def sendErrorResponse_def sendResponse_handler)
  ultimately show ?case
    using Suc [of w1] by (auto simp del: HandleConnection.simps)
qed simp

text \<open>Raw data that starts with a header with the protocol's magic number is never taken for JSON:
  it is processed as a frame, whatever follows.\<close>

theorem raw_frame_is_binary:
  assumes "ph_Magic h = ProtocolMagic"
  shows "ProcessRawData e (header_bytes h @ body) =
    do { (err, _) \<leftarrow> processMessage e (header_bytes h @ body); State_Monad.return err }"
proof -
  obtain bs where "header_bytes h @ body = 0x50 # bs"
    using assms by (simp add: header_bytes_def be_put_magic)
  then show ?thesis
    using TrimSpace_magic [of bs] by (auto simp: ProcessRawData_def)
qed

theorem raw_frame_is_binary_witness:
  "ProcessRawData demo_env (header_bytes (response_header MessageTypeHeartbeat []) @ [0x20]) =
    do { (err, _) \<leftarrow> processMessage demo_env (header_bytes (response_header MessageTypeHeartbeat []) @ [0x20]);
         State_Monad.return err }"
  using raw_frame_is_binary [of "response_header MessageTypeHeartbeat []" demo_env "[0x20]"]
  by (simp add: response_header_def)

text \<open>A fetch request whose JSON is not compressed fails whatever its flags say, and nothing is
  answered but the error: \<^verbatim>\<open>handleFetch\<close> decompresses the payload without looking at
  \<^verbatim>\<open>FlagCompressed\<close>. The hypothesis on \<^verbatim>\<open>gzip\<close> is that it refuses what does not
  start with its magic number.\<close>

theorem plain_fetch_fails:
  assumes "\<And>b. take 2 b \<noteq> [0x1F, 0x8B] \<Longrightarrow> \<exists>x. env_gzip e b = Inl x"
    "frame_ok (h_maxMessageSize (w_handler w)) h (0x7B # bs)" "ph_Type h = MessageTypeFetch"
  shows "\<exists>x. run_state (processMessage e (header_bytes h @ (0x7B # bs) @ rest)) w =
    ((Some (Wrap ''failed to decompress fetch payload'' (Wrap ''failed to create gzip reader'' x)), rest), w)"
proof -
  obtain x where "env_gzip e (0x7B # bs) = Inl x"
    using assms(1) [of "0x7B # bs"] by (cases bs) auto
  moreover have "ph_Type h \<noteq> MessageTypePublish" "ph_Type h \<noteq> MessageTypeSubscribe"
    using assms(3) by (simp_all add: MessageTypePublish_def MessageTypeSubscribe_def MessageTypeFetch_def)
  ultimately show ?thesis
    using read_frame_payload [OF assms(2) refl, of rest] assms(3)
    by (simp add: processMessage_def handle_frame_def handleFetch_def decompressPayload_def)
qed

theorem plain_fetch_fails_witness:
  "\<exists>x. run_state (processMessage demo_env (header_bytes (response_header MessageTypeFetch [0x7B, 0x7D]) @ [0x7B, 0x7D] @ [])) demo_world =
    ((Some (Wrap ''failed to decompress fetch payload'' (Wrap ''failed to create gzip reader'' x)), []), demo_world)"
  using plain_fetch_fails [of demo_env demo_world "response_header MessageTypeFetch [0x7B, 0x7D]" "[0x7D]" "[]"]
  by (simp add: demo_frame_ok) (simp add: response_header_def)

end
