(* ===== verification/Processor.thy ===== *)
theory Processor
  imports Crc32 Message
begin

text \<open>
  The work of the message processor: \<^verbatim>\<open>src/pkg/processor/processor.go\<close> and the compressors
  and errors of \<^verbatim>\<open>metrics.go\<close>, with the pooled message of
  \<^verbatim>\<open>src/pkg/memory/pool.go\<close>. A task is what one worker does with one message or batch;
  \<^verbatim>\<open>ProcessMessage\<close> and \<^verbatim>\<open>ProcessBatch\<close> are modelled for a worker that is free and a
  queue that is not full, so without their timeouts and the back-pressure test. A message pool hands out
  reset messages. The messages of the model do not tell a nil payload from an empty one, so whether the
  payload is nil is an argument of its own.
\<close>

section \<open>Characters of a string\<close>

text \<open>\<^verbatim>\<open>for _, c := range s\<close> decodes UTF-8; a byte that does not start a valid encoding
  gives \<^verbatim>\<open>U+FFFD\<close>.\<close>

definition cont :: "nat \<Rightarrow> bool" where
  "cont b \<longleftrightarrow> 0x80 \<le> b \<and> b \<le> 0xBF"

definition second_ok :: "nat \<Rightarrow> nat \<Rightarrow> bool" where
  "second_ok a b \<longleftrightarrow>
     (if a = 0xE0 then 0xA0 else if a = 0xF0 then 0x90 else 0x80) \<le> b \<and>
     b \<le> (if a = 0xED then 0x9F else if a = 0xF4 then 0x8F else 0xBF)"

fun runes :: "nat list \<Rightarrow> nat list" where
  "runes [] = []"
| "runes (a # r) =
     (if a < 0x80 then a # runes r
      else case r of
        b # r1 \<Rightarrow>
          if 0xC2 \<le> a \<and> a \<le> 0xDF \<and> cont b then ((a - 0xC0) * 64 + (b - 0x80)) # runes r1
          else (case r1 of
            c # r2 \<Rightarrow>
              if 0xE0 \<le> a \<and> a \<le> 0xEF \<and> second_ok a b \<and> cont c
              then ((a - 0xE0) * 4096 + (b - 0x80) * 64 + (c - 0x80)) # runes r2
              else (case r2 of
                d # r3 \<Rightarrow>
                  if 0xF0 \<le> a \<and> a \<le> 0xF4 \<and> second_ok a b \<and> cont c \<and> cont d
                  then ((a - 0xF0) * 262144 + (b - 0x80) * 4096 + (c - 0x80) * 64 + (d - 0x80)) # runes r3
                  else 0xFFFD # runes r
              | [] \<Rightarrow> 0xFFFD # runes r)
          | [] \<Rightarrow> 0xFFFD # runes r)
      | [] \<Rightarrow> [0xFFFD])"

definition hash :: "string \<Rightarrow> u64" where
  "hash s = foldl (\<lambda>h c. h * 31 + of_nat c) 0 (runes (map of_char s))"

section \<open>Compressors and checksums\<close>

text \<open>All four compressors are placeholders that return the data they get.\<close>

datatype Compressor = ZstdCompressor nat | LZ4Compressor | SnappyCompressor | NoOpCompressor

definition NewCompressor :: "string \<Rightarrow> Compressor" where
  "NewCompressor algorithm =
     (if algorithm = ''zstd'' then ZstdCompressor 6
      else if algorithm = ''lz4'' then LZ4Compressor
      else if algorithm = ''snappy'' then SnappyCompressor
      else NoOpCompressor)"

text \<open>\<^verbatim>\<open>copy(dst, src)\<close> overwrites as many elements as both slices have.\<close>

definition go_copy :: "'a list \<Rightarrow> 'a list \<Rightarrow> 'a list" where
  "go_copy dst src = take (length dst) src @ drop (length src) dst"

fun Compress :: "Compressor \<Rightarrow> byte list \<Rightarrow> byte list" where
  "Compress (ZstdCompressor level) data = go_copy (replicate (length data) 0) data"
| "Compress LZ4Compressor data = go_copy (replicate (length data) 0) data"
| "Compress SnappyCompressor data = go_copy (replicate (length data) 0) data"
| "Compress NoOpCompressor data = data"

fun Decompress :: "Compressor \<Rightarrow> byte list \<Rightarrow> byte list" where
  "Decompress (ZstdCompressor level) data = go_copy (replicate (length data) 0) data"
| "Decompress LZ4Compressor data = go_copy (replicate (length data) 0) data"
| "Decompress SnappyCompressor data = go_copy (replicate (length data) 0) data"
| "Decompress NoOpCompressor data = data"

fun crc_bits :: "nat \<Rightarrow> u32 \<Rightarrow> u32" where
  "crc_bits 0 crc = crc"
| "crc_bits (Suc n) crc =
     crc_bits n (if crc AND 1 = 1 then drop_bit 1 crc XOR 0xEDB88320 else drop_bit 1 crc)"

fun crc_loop :: "u32 \<Rightarrow> byte list \<Rightarrow> u32" where
  "crc_loop crc [] = NOT crc"
| "crc_loop crc (b # data) = crc_loop (crc_bits 8 (crc XOR ucast b)) data"

definition standardCRC32 :: "byte list \<Rightarrow> u32" where
  "standardCRC32 data = crc_loop 0xFFFFFFFF data"

definition simdCRC32 :: "byte list \<Rightarrow> u32" where
  "simdCRC32 data = standardCRC32 data"

section \<open>Messages in the processor\<close>

record mem_Message =
  mm_ID :: u64
  mm_Topic :: string
  mm_Partition :: i32
  mm_Offset :: i64
  mm_Key :: "byte list"
  mm_Value :: "byte list"
  mm_Headers :: "byte list go_map"
  mm_Timestamp :: i64
  mm_Checksum :: u32

definition reset_Message :: mem_Message where
  "reset_Message = \<lparr>mm_ID = 0, mm_Topic = [], mm_Partition = 0, mm_Offset = 0, mm_Key = [], mm_Value = [],
     mm_Headers = [], mm_Timestamp = 0, mm_Checksum = 0\<rparr>"

record ProcessorConfig =
  pc_EnableCompression :: bool
  pc_CompressionAlgorithm :: string
  pc_EnableSIMD :: bool
  pc_EnableZeroCopy :: bool

definition DefaultProcessorConfig :: ProcessorConfig where
  "DefaultProcessorConfig =
     \<lparr>pc_EnableCompression = True, pc_CompressionAlgorithm = ''zstd'', pc_EnableSIMD = True, pc_EnableZeroCopy = True\<rparr>"

datatype proc_error = ErrNilMessage | ErrEmptyTopic | ErrNilValue | ErrUnknownProcessType | ErrProcessingPanic

text \<open>\<^verbatim>\<open>BufferPool.Get\<close> returns a buffer with the capacity asked for and no elements.\<close>

definition BufferPool_Get :: "nat \<Rightarrow> byte list" where
  "BufferPool_Get sz = []"

fun string_headers :: "dynval go_map \<Rightarrow> byte list go_map" where
  "string_headers [] = []"
| "string_headers ((k, v) # hs) =
     (case v of AnyString str \<Rightarrow> (k, bytes_of str) # string_headers hs | _ \<Rightarrow> string_headers hs)"

definition copyMessage :: "ProcessorConfig \<Rightarrow> bool \<Rightarrow> mem_Message \<Rightarrow> PortaskMessage \<Rightarrow> mem_Message" where
  "copyMessage cfg nilPayload dst src =
     dst\<lparr>mm_ID := hash (m_ID src), mm_Topic := m_Topic src, mm_Timestamp := m_Timestamp src,
         mm_Value :=
           (if pc_EnableZeroCopy cfg then m_Payload src
            else if nilPayload then mm_Value dst
            else go_copy (BufferPool_Get (length (m_Payload src))) (m_Payload src)),
         mm_Headers := (case m_Headers src of None \<Rightarrow> mm_Headers dst | Some hs \<Rightarrow> string_headers hs)\<rparr>"

definition validateMessage :: "bool \<Rightarrow> PortaskMessage option \<Rightarrow> proc_error option" where
  "validateMessage nilPayload msg =
     (case msg of
        None \<Rightarrow> Some ErrNilMessage
      | Some m \<Rightarrow> if m_Topic m = [] then Some ErrEmptyTopic else if nilPayload then Some ErrNilValue else None)"

definition compressMessageData :: "ProcessorConfig \<Rightarrow> mem_Message \<Rightarrow> mem_Message" where
  "compressMessageData cfg msg =
     (if mm_Value msg = [] then msg
      else let compressed = Compress (NewCompressor (pc_CompressionAlgorithm cfg)) (mm_Value msg)
           in if length compressed < length (mm_Value msg) then msg\<lparr>mm_Value := compressed\<rparr> else msg)"

definition calculateChecksum :: "ProcessorConfig \<Rightarrow> mem_Message \<Rightarrow> mem_Message" where
  "calculateChecksum cfg msg =
     msg\<lparr>mm_Checksum := (if pc_EnableSIMD cfg then simdCRC32 (mm_Value msg) else standardCRC32 (mm_Value msg))\<rparr>"

definition convertToPortaskMessage :: "mem_Message \<Rightarrow> PortaskMessage" where
  "convertToPortaskMessage msg =
     zero_message\<lparr>m_ID := dec (unat (mm_ID msg)), m_Topic := mm_Topic msg, m_Payload := mm_Value msg,
       m_Timestamp := mm_Timestamp msg,
       m_Headers := Some (map (\<lambda>(k, v). (k, AnyString (string_of v))) (mm_Headers msg))\<rparr>"

section \<open>Tasks\<close>

datatype ProcessType = ProcessTypeSingle | ProcessTypeBatch | ProcessTypeCompress | ProcessTypeDecompress | ProcessTypeOther int

text \<open>The messages come with whether their payload is nil.\<close>

record ProcessTask =
  pt_ID :: u64
  pt_Message :: "(PortaskMessage \<times> bool) option"
  pt_Batch :: "(PortaskMessage \<times> bool) list"
  pt_Type :: ProcessType
  pt_StartTime :: instant
  pt_Callback :: bool

record ProcessResult =
  pr_TaskID :: u64
  pr_Success :: bool
  pr_Error :: "proc_error option"
  pr_Message :: "PortaskMessage option"
  pr_Batch :: "PortaskMessage list"
  pr_Latency :: duration
  pr_BytesIn :: i64
  pr_BytesOut :: i64
  pr_Compressed :: bool

definition failed :: "ProcessTask \<Rightarrow> instant \<Rightarrow> proc_error \<Rightarrow> ProcessResult" where
  "failed task now err =
     \<lparr>pr_TaskID = pt_ID task, pr_Success = False, pr_Error = Some err, pr_Message = None, pr_Batch = [],
      pr_Latency = time_sub now (pt_StartTime task), pr_BytesIn = 0, pr_BytesOut = 0, pr_Compressed = False\<rparr>"

text \<open>From validation to the message the worker returns.\<close>

definition process_one :: "ProcessorConfig \<Rightarrow> bool \<Rightarrow> PortaskMessage option \<Rightarrow> proc_error + PortaskMessage" where
  "process_one cfg nilPayload msg =
     (case validateMessage nilPayload msg of
        Some err \<Rightarrow> Inl err
      | None \<Rightarrow>
          let p = copyMessage cfg nilPayload reset_Message (the msg);
              p = (if pc_EnableCompression cfg then compressMessageData cfg p else p)
          in Inr (convertToPortaskMessage (calculateChecksum cfg p)))"

definition processSingleMessage :: "ProcessorConfig \<Rightarrow> instant \<Rightarrow> ProcessTask \<Rightarrow> ProcessResult" where
  "processSingleMessage cfg now task =
     (let nilPayload = (case pt_Message task of None \<Rightarrow> True | Some (_, n) \<Rightarrow> n)
      in case process_one cfg nilPayload (map_option fst (pt_Message task)) of
        Inl err \<Rightarrow> failed task now err
      | Inr resultMsg \<Rightarrow>
          \<lparr>pr_TaskID = pt_ID task, pr_Success = True, pr_Error = None, pr_Message = Some resultMsg, pr_Batch = [],
           pr_Latency = time_sub now (pt_StartTime task),
           pr_BytesIn = of_nat (length (m_Payload (fst (the (pt_Message task))))),
           pr_BytesOut = of_nat (length (m_Payload resultMsg)), pr_Compressed = pc_EnableCompression cfg\<rparr>)"

fun batch_loop ::
  "ProcessorConfig \<Rightarrow> (PortaskMessage \<times> bool) list \<Rightarrow> PortaskMessage list \<Rightarrow> i64 \<Rightarrow> i64 \<Rightarrow>
     proc_error + (PortaskMessage list \<times> i64 \<times> i64)" where
  "batch_loop cfg [] processed bytesIn bytesOut = Inr (processed, bytesIn, bytesOut)"
| "batch_loop cfg ((msg, n) # batch) processed bytesIn bytesOut =
     (case process_one cfg n (Some msg) of
        Inl err \<Rightarrow> Inl err
      | Inr resultMsg \<Rightarrow>
          batch_loop cfg batch (processed @ [resultMsg]) (bytesIn + of_nat (length (m_Payload msg)))
            (bytesOut + of_nat (length (m_Payload resultMsg))))"

definition processBatchMessages :: "ProcessorConfig \<Rightarrow> instant \<Rightarrow> ProcessTask \<Rightarrow> ProcessResult" where
  "processBatchMessages cfg now task =
     (case batch_loop cfg (pt_Batch task) [] 0 0 of
        Inl err \<Rightarrow> failed task now err
      | Inr (processed, bytesIn, bytesOut) \<Rightarrow>
          \<lparr>pr_TaskID = pt_ID task, pr_Success = True, pr_Error = None, pr_Message = None, pr_Batch = processed,
           pr_Latency = time_sub now (pt_StartTime task), pr_BytesIn = bytesIn, pr_BytesOut = bytesOut,
           pr_Compressed = pc_EnableCompression cfg\<rparr>)"

text \<open>\<^verbatim>\<open>compressMessage\<close> and \<^verbatim>\<open>decompressMessage\<close>; a nil message panics.\<close>

definition recoded :: "(byte list \<Rightarrow> byte list) \<Rightarrow> bool \<Rightarrow> instant \<Rightarrow> ProcessTask \<Rightarrow> ProcessResult option" where
  "recoded f compressed now task =
     (case pt_Message task of
        None \<Rightarrow> None
      | Some (msg, _) \<Rightarrow>
          Some \<lparr>pr_TaskID = pt_ID task, pr_Success = True, pr_Error = None,
            pr_Message = Some (zero_message\<lparr>m_ID := m_ID msg, m_Topic := m_Topic msg, m_Payload := f (m_Payload msg),
              m_Timestamp := m_Timestamp msg, m_Headers := m_Headers msg\<rparr>),
            pr_Batch = [], pr_Latency = time_sub now (pt_StartTime task),
            pr_BytesIn = of_nat (length (m_Payload msg)), pr_BytesOut = of_nat (length (f (m_Payload msg))),
            pr_Compressed = compressed\<rparr>)"

definition compressMessage :: "ProcessorConfig \<Rightarrow> instant \<Rightarrow> ProcessTask \<Rightarrow> ProcessResult option" where
  "compressMessage cfg = recoded (Compress (NewCompressor (pc_CompressionAlgorithm cfg))) True"

definition decompressMessage :: "ProcessorConfig \<Rightarrow> instant \<Rightarrow> ProcessTask \<Rightarrow> ProcessResult option" where
  "decompressMessage cfg = recoded (Decompress (NewCompressor (pc_CompressionAlgorithm cfg))) False"

record WorkerMetrics =
  wm_TasksProcessed :: u64
  wm_SuccessCount :: u64
  wm_ErrorCount :: u64
  wm_TotalLatency :: i64

datatype delivery = ViaCallback ProcessResult | ViaQueue ProcessResult

text \<open>Where the result goes. A panic is reported to the result queue, whether or not the task has a
  callback, and is not counted.\<close>

definition processTask :: "ProcessorConfig \<Rightarrow> instant \<Rightarrow> ProcessTask \<Rightarrow> WorkerMetrics \<Rightarrow> delivery \<times> WorkerMetrics" where
  "processTask cfg now task wm =
     (let wm = wm\<lparr>wm_TasksProcessed := wm_TasksProcessed wm + 1\<rparr>
      in case (case pt_Type task of
                 ProcessTypeSingle \<Rightarrow> Some (processSingleMessage cfg now task)
               | ProcessTypeBatch \<Rightarrow> Some (processBatchMessages cfg now task)
               | ProcessTypeCompress \<Rightarrow> compressMessage cfg now task
               | ProcessTypeDecompress \<Rightarrow> decompressMessage cfg now task
               | ProcessTypeOther _ \<Rightarrow> Some (failed task now ErrUnknownProcessType)) of
        None \<Rightarrow> (ViaQueue (failed task now ErrProcessingPanic), wm)
      | Some result \<Rightarrow>
          ((if pt_Callback task then ViaCallback result else ViaQueue result),
           wm\<lparr>wm_TotalLatency := wm_TotalLatency wm + word_of_int (pr_Latency result),
              wm_SuccessCount := wm_SuccessCount wm + (if pr_Success result then 1 else 0),
              wm_ErrorCount := wm_ErrorCount wm + (if pr_Success result then 0 else 1)\<rparr>))"

definition ProcessMessage :: "ProcessorConfig \<Rightarrow> bool \<Rightarrow> PortaskMessage option \<Rightarrow> proc_error + PortaskMessage" where
  "ProcessMessage cfg nilPayload msg =
     (case processSingleMessage cfg 0
        \<lparr>pt_ID = 0, pt_Message = map_option (\<lambda>m. (m, nilPayload)) msg, pt_Batch = [], pt_Type = ProcessTypeSingle,
         pt_StartTime = 0, pt_Callback = True\<rparr> of
        result \<Rightarrow> (case pr_Error result of Some err \<Rightarrow> Inl err | None \<Rightarrow> Inr (the (pr_Message result))))"

section \<open>Events\<close>

record ProcessorEvent =
  ev_Time :: instant
  ev_Type :: string
  ev_WorkerID :: int
  ev_Error :: "proc_error option"

record WorkerHealth =
  wh_LastError :: "proc_error option"
  wh_Healthy :: bool
  wh_LastEvent :: instant

record proc_events =
  pe_events :: "ProcessorEvent list"
  pe_workerHealth :: "int \<rightharpoonup> WorkerHealth"

definition AddEvent :: "ProcessorEvent \<Rightarrow> proc_events \<Rightarrow> proc_events" where
  "AddEvent ev mp =
     (let mp = mp\<lparr>pe_events := (if length (pe_events mp) > 200 then drop 1 (pe_events mp) else pe_events mp) @ [ev]\<rparr>
      in if ev_WorkerID ev \<ge> 0
         then let h = (case pe_workerHealth mp (ev_WorkerID ev) of
                         None \<Rightarrow> \<lparr>wh_LastError = None, wh_Healthy = False, wh_LastEvent = 0\<rparr> | Some h \<Rightarrow> h);
                  h = h\<lparr>wh_LastEvent := ev_Time ev\<rparr>;
                  h = (if ev_Type ev = ''panic'' \<or> ev_Type ev = ''error''
                       then h\<lparr>wh_LastError := ev_Error ev, wh_Healthy := False\<rparr>
                       else if ev_Type ev = ''worker_start'' then h\<lparr>wh_Healthy := True\<rparr> else h)
              in mp\<lparr>pe_workerHealth := (pe_workerHealth mp)(ev_WorkerID ev \<mapsto> h)\<rparr>
         else mp)"

section \<open>What processing does\<close>

lemma go_copy_full: "length dst = length src \<Longrightarrow> go_copy dst src = src"
  by (simp add: go_copy_def)

lemma go_copy_empty [simp]: "go_copy [] src = []"
  by (simp add: go_copy_def)

lemma Compress_id [simp]: "Compress c data = data" "Decompress c data = data"
  by (cases c; simp add: go_copy_full)+

lemma compressMessageData_id [simp]: "compressMessageData cfg msg = msg"
  by (simp add: compressMessageData_def Let_def)

lemma crc_bits_funpow: "crc_bits n crc = (crc_bit ^^ n) crc"
  by (induction n arbitrary: crc) (simp_all add: crc_bit_def funpow_swap1)

lemma crc_loop_foldl: "crc_loop crc data = NOT (foldl crc_byte crc data)"
  by (induction crc data rule: crc_loop.induct) (simp_all add: crc_byte_def crc_bits_funpow)

lemma standardCRC32_eq: "standardCRC32 data = crc32Checksum data" "simdCRC32 data = crc32Checksum data"
  by (simp_all add: standardCRC32_def simdCRC32_def crc32Checksum_def crc_loop_foldl)

text \<open>The message a worker makes of a valid one.\<close>

definition worked :: "ProcessorConfig \<Rightarrow> PortaskMessage \<Rightarrow> PortaskMessage" where
  "worked cfg m =
     zero_message\<lparr>m_ID := dec (unat (hash (m_ID m))), m_Topic := m_Topic m,
       m_Payload := (if pc_EnableZeroCopy cfg then m_Payload m else []), m_Timestamp := m_Timestamp m,
       m_Headers := Some (map (\<lambda>(k, v). (k, AnyString (string_of v)))
         (case m_Headers m of None \<Rightarrow> [] | Some hs \<Rightarrow> string_headers hs))\<rparr>"

lemma process_one_eq:
  "process_one cfg nilPayload msg =
    (case msg of
       None \<Rightarrow> Inl ErrNilMessage
     | Some m \<Rightarrow> if m_Topic m = [] then Inl ErrEmptyTopic else if nilPayload then Inl ErrNilValue
         else Inr (worked cfg m))"
  by (simp add: process_one_def validateMessage_def copyMessage_def reset_Message_def calculateChecksum_def
      convertToPortaskMessage_def worked_def BufferPool_Get_def Let_def split: option.split)

lemma ProcessMessage_eq: "ProcessMessage cfg nilPayload msg = process_one cfg nilPayload msg"
  by (simp add: ProcessMessage_def processSingleMessage_def process_one_eq failed_def split: option.split)

lemma string_of_bytes_of_headers:
  "map (\<lambda>(k, v). (k, AnyString (string_of v))) (string_headers hs) = filter (\<lambda>(k, v). \<exists>s. v = AnyString s) hs"
  by (induction hs rule: string_headers.induct) (auto split: dynval.split)

section \<open>Properties\<close>

text \<open>The result of processing a message, for every configuration. A message with a topic and a payload
  keeps its topic, timestamp and string headers; its identifier is replaced by a hash of it, and its
  partition, key, metadata and all other fields are reset to zero. The payload is kept if copies are
  avoided and lost otherwise, since the deep copy copies into a buffer without elements; no compressor
  changes it. Anything else is refused with the error of the first check that fails.\<close>

theorem processor_result:
  "ProcessMessage cfg nilPayload msg =
    (case msg of
       None \<Rightarrow> Inl ErrNilMessage
     | Some m \<Rightarrow>
         if m_Topic m = [] then Inl ErrEmptyTopic
         else if nilPayload then Inl ErrNilValue
         else Inr (zero_message\<lparr>m_ID := dec (unat (hash (m_ID m))), m_Topic := m_Topic m,
                m_Payload := (if pc_EnableZeroCopy cfg then m_Payload m else []), m_Timestamp := m_Timestamp m,
                m_Headers := Some (case m_Headers m of None \<Rightarrow> []
                  | Some hs \<Rightarrow> filter (\<lambda>(k, v). \<exists>s. v = AnyString s) hs)\<rparr>))"
  by (simp add: ProcessMessage_eq process_one_eq worked_def string_of_bytes_of_headers split: option.split)

text \<open>Processing a batch is processing its messages one by one: the results are those of the single
  messages in order, the byte counts are the sums, and the first message that fails fails the batch with
  its error.\<close>

theorem batch_is_map:
  "processBatchMessages cfg now task =
    (case find (\<lambda>(m, n). \<exists>err. ProcessMessage cfg n (Some m) = Inl err) (pt_Batch task) of
       Some (m, n) \<Rightarrow> failed task now (projl (ProcessMessage cfg n (Some m)))
     | None \<Rightarrow>
         \<lparr>pr_TaskID = pt_ID task, pr_Success = True, pr_Error = None, pr_Message = None,
          pr_Batch = map (\<lambda>(m, n). projr (ProcessMessage cfg n (Some m))) (pt_Batch task),
          pr_Latency = time_sub now (pt_StartTime task),
          pr_BytesIn = sum_list (map (\<lambda>(m, n). of_nat (length (m_Payload m))) (pt_Batch task)),
          pr_BytesOut = sum_list (map (\<lambda>(m, n). of_nat (length (m_Payload (projr (ProcessMessage cfg n (Some m)))))) (pt_Batch task)),
          pr_Compressed = pc_EnableCompression cfg\<rparr>)"
proof -
  have "batch_loop cfg batch acc i o' =
      (case find (\<lambda>(m, n). \<exists>err. ProcessMessage cfg n (Some m) = Inl err) batch of
         Some (m, n) \<Rightarrow> Inl (projl (ProcessMessage cfg n (Some m)))
       | None \<Rightarrow> Inr (acc @ map (\<lambda>(m, n). projr (ProcessMessage cfg n (Some m))) batch,
           i + sum_list (map (\<lambda>(m, n). of_nat (length (m_Payload m))) batch),
           o' + sum_list (map (\<lambda>(m, n). of_nat (length (m_Payload (projr (ProcessMessage cfg n (Some m)))))) batch)))"
    for batch acc i o'
  proof (induction cfg batch acc i o' rule: batch_loop.induct)
    case (2 cfg msg n batch processed bytesIn bytesOut)
    then show ?case
      by (auto simp: ProcessMessage_eq ac_simps split: sum.split option.split)
  qed simp
  then show ?thesis
    by (simp add: processBatchMessages_def split: option.split prod.split)
qed

definition no_events :: proc_events where
  "no_events = \<lparr>pe_events = [], pe_workerHealth = Map.empty\<rparr>"

definition health_event :: "nat \<Rightarrow> ProcessorEvent \<Rightarrow> bool" where
  "health_event w ev \<longleftrightarrow> ev_WorkerID ev = int w \<and> ev_Type ev \<in> {''panic'', ''error'', ''worker_start''}"

definition healthy :: "nat \<Rightarrow> proc_events \<Rightarrow> bool" where
  "healthy w mp = (case pe_workerHealth mp (int w) of None \<Rightarrow> False | Some h \<Rightarrow> wh_Healthy h)"

lemma AddEvent_events:
  "pe_events (AddEvent ev mp) = (if length (pe_events mp) > 200 then drop 1 (pe_events mp) else pe_events mp) @ [ev]"
  by (simp add: AddEvent_def Let_def)

lemma AddEvent_healthy:
  "healthy w (AddEvent ev mp) \<longleftrightarrow> (if health_event w ev then ev_Type ev = ''worker_start'' else healthy w mp)"
  by (auto simp: AddEvent_def Let_def healthy_def health_event_def split: option.split)

text \<open>At most 201 events are kept, always the most recent ones, in order; whether a worker is healthy is
  decided by the last of its events that is a start, an error or a panic.\<close>

theorem processor_events:
  "pe_events (fold AddEvent evs no_events) = drop (length evs - 201) evs \<and>
   (healthy w (fold AddEvent evs no_events) \<longleftrightarrow>
      filter (health_event w) evs \<noteq> [] \<and> ev_Type (last (filter (health_event w) evs)) = ''worker_start'')"
proof (induction evs rule: rev_induct)
  case (snoc ev evs)
  have "200 < length evs - (length evs - 201) \<Longrightarrow> Suc (length evs - 201) = length evs - 200"
    by arith
  then show ?case
    using snoc by (auto simp: AddEvent_events AddEvent_healthy)
qed (simp add: no_events_def healthy_def)

end
