(* ===== verification/Batch_Writer.thy ===== *)
theory Batch_Writer
  imports Processor "HOL-Library.Multiset"
begin

text \<open>
  The writers that collect messages and store them in batches:
  \<^verbatim>\<open>src/pkg/processor/batch_writer.go\<close> and
  \<^verbatim>\<open>src/pkg/processor/parallel_batch_writer.go\<close>. The storage is an interface of the source, an
  argument \<open>storeBatch\<close> here: it changes a state and may fail. The locale \<open>batch_backend\<close> is what a storage
  promises that stores every batch it can; its theorems say what becomes of the messages. Waiting between
  attempts and the latency statistics are left out.
\<close>

type_synonym ('e, 'st) backend = "PortaskMessage list \<Rightarrow> 'st \<Rightarrow> 'e option \<times> 'st"

section \<open>The batch writer\<close>

record BatchWriter =
  bw_BatchSize :: int
  bw_MaxRetries :: int
  bw_buffer :: "PortaskMessage list"
  bw_messageCount :: i64
  bw_batchCount :: i64
  bw_running :: bool

definition NewBatchWriter :: "int \<Rightarrow> int \<Rightarrow> BatchWriter" where
  "NewBatchWriter batchSize maxRetries =
     \<lparr>bw_BatchSize = batchSize, bw_MaxRetries = maxRetries, bw_buffer = [], bw_messageCount = 0, bw_batchCount = 0,
      bw_running = False\<rparr>"

definition DefaultBatchWriter :: BatchWriter where
  "DefaultBatchWriter = NewBatchWriter 1000 3"

definition bw_Start :: "BatchWriter \<Rightarrow> BatchWriter option" where
  "bw_Start bw = (if bw_running bw then None else Some (bw\<lparr>bw_running := True\<rparr>))"

text \<open>The loop over the attempts; without an attempt there is no error.\<close>

fun store_attempts :: "('e, 'st) backend \<Rightarrow> nat \<Rightarrow> PortaskMessage list \<Rightarrow> 'e option \<Rightarrow> 'st \<Rightarrow> 'e option \<times> 'st" where
  "store_attempts storeBatch 0 batch err st = (err, st)"
| "store_attempts storeBatch (Suc n) batch err st =
     (case storeBatch batch st of
        (None, st) \<Rightarrow> (None, st)
      | (Some e, st) \<Rightarrow> store_attempts storeBatch n batch (Some e) st)"

definition flushLocked :: "('e, 'st) backend \<Rightarrow> BatchWriter \<times> 'st \<Rightarrow> 'e option \<times> BatchWriter \<times> 'st" where
  "flushLocked storeBatch = (\<lambda>(bw, st).
     if bw_buffer bw = [] then (None, bw, st)
     else (case store_attempts storeBatch (nat (bw_MaxRetries bw + 1)) (bw_buffer bw) None st of
             (Some e, st) \<Rightarrow> (Some e, bw, st)
           | (None, st) \<Rightarrow> (None, bw\<lparr>bw_batchCount := bw_batchCount bw + 1, bw_buffer := []\<rparr>, st)))"

definition bw_Write :: "('e, 'st) backend \<Rightarrow> PortaskMessage \<Rightarrow> BatchWriter \<times> 'st \<Rightarrow> 'e option \<times> BatchWriter \<times> 'st" where
  "bw_Write storeBatch msg = (\<lambda>(bw, st).
     let bw = bw\<lparr>bw_buffer := bw_buffer bw @ [msg], bw_messageCount := bw_messageCount bw + 1\<rparr>
     in if int (length (bw_buffer bw)) \<ge> bw_BatchSize bw then flushLocked storeBatch (bw, st) else (None, bw, st))"

text \<open>A tick of the timer in \<^verbatim>\<open>flushLoop\<close>; the error is dropped.\<close>

definition bw_tick :: "('e, 'st) backend \<Rightarrow> BatchWriter \<times> 'st \<Rightarrow> BatchWriter \<times> 'st" where
  "bw_tick storeBatch s = (if bw_buffer (fst s) \<noteq> [] then snd (flushLocked storeBatch s) else s)"

definition bw_Stop :: "('e, 'st) backend \<Rightarrow> BatchWriter \<times> 'st \<Rightarrow> 'e option \<times> BatchWriter \<times> 'st" where
  "bw_Stop storeBatch = (\<lambda>(bw, st).
     if \<not> bw_running bw then (None, bw, st) else flushLocked storeBatch (bw\<lparr>bw_running := False\<rparr>, st))"

datatype bw_op = OpWrite PortaskMessage | OpTick

fun bw_step :: "('e, 'st) backend \<Rightarrow> bw_op \<Rightarrow> BatchWriter \<times> 'st \<Rightarrow> BatchWriter \<times> 'st" where
  "bw_step storeBatch (OpWrite m) s = snd (bw_Write storeBatch m s)"
| "bw_step storeBatch OpTick s = bw_tick storeBatch s"

fun written :: "bw_op list \<Rightarrow> PortaskMessage list" where
  "written [] = []"
| "written (OpWrite m # ops) = m # written ops"
| "written (OpTick # ops) = written ops"

section \<open>The parallel batch writer\<close>

record batchShard =
  sh_buffer :: "PortaskMessage list"
  sh_bufferChan :: "PortaskMessage list"
  sh_localBatchCnt :: i64
  sh_localMsgCnt :: i64
  sh_done :: bool  \<comment> \<open>the worker has returned\<close>

record ParallelBatchWriter =
  pb_BatchSize :: nat
  pb_MaxRetries :: int
  pb_shards :: "batchShard list"
  pb_running :: bool
  pb_messageCount :: i64
  pb_batchCount :: i64
  pb_errorCount :: i64

definition new_shard :: batchShard where
  "new_shard = \<lparr>sh_buffer = [], sh_bufferChan = [], sh_localBatchCnt = 0, sh_localMsgCnt = 0, sh_done = False\<rparr>"

definition NewParallelBatchWriter :: "nat \<Rightarrow> nat \<Rightarrow> int \<Rightarrow> ParallelBatchWriter" where
  "NewParallelBatchWriter numShards batchSize maxRetries =
     \<lparr>pb_BatchSize = batchSize, pb_MaxRetries = maxRetries, pb_shards = replicate numShards new_shard, pb_running = False,
      pb_messageCount = 0, pb_batchCount = 0, pb_errorCount = 0\<rparr>"

definition pbw_Start :: "ParallelBatchWriter \<Rightarrow> ParallelBatchWriter option" where
  "pbw_Start w = (if pb_running w then None else Some (w\<lparr>pb_running := True\<rparr>))"

definition getShardID :: "nat \<Rightarrow> PortaskMessage \<Rightarrow> nat" where
  "getShardID numShards msg =
     unat ((foldl (\<lambda>h c. h * 31 + of_nat c) (0 :: u32) (runes (map of_char (m_Topic msg)))) mod of_nat numShards)"

text \<open>A send that does not block; the channel holds twice the batch size.\<close>

definition try_send :: "nat \<Rightarrow> PortaskMessage \<Rightarrow> ParallelBatchWriter \<Rightarrow> ParallelBatchWriter option" where
  "try_send i msg w =
     (let sh = pb_shards w ! i
      in if length (sh_bufferChan sh) < pb_BatchSize w * 2
         then Some (w\<lparr>pb_shards := (pb_shards w)[i := sh\<lparr>sh_bufferChan := sh_bufferChan sh @ [msg]\<rparr>],
                      pb_messageCount := pb_messageCount w + 1\<rparr>)
         else None)"

text \<open>Whether the message was accepted.\<close>

definition pbw_Write :: "PortaskMessage \<Rightarrow> ParallelBatchWriter \<Rightarrow> bool \<times> ParallelBatchWriter" where
  "pbw_Write msg w =
     (if \<not> pb_running w then (False, w)
      else let n = length (pb_shards w); i = getShardID n msg
           in case try_send i msg w of
                Some w \<Rightarrow> (True, w)
              | None \<Rightarrow>
                  (case try_send ((i + 1) mod n) msg w of
                     Some w \<Rightarrow> (True, w)
                   | None \<Rightarrow> (False, w)))"

definition flushShard :: "('e, 'st) backend \<Rightarrow> nat \<Rightarrow> ParallelBatchWriter \<times> 'st \<Rightarrow> ParallelBatchWriter \<times> 'st" where
  "flushShard storeBatch i = (\<lambda>(w, st).
     let sh = pb_shards w ! i
     in if sh_buffer sh = [] then (w, st)
        else (case store_attempts storeBatch (nat (pb_MaxRetries w + 1)) (sh_buffer sh) None st of
                (Some e, st) \<Rightarrow> (w\<lparr>pb_errorCount := pb_errorCount w + 1\<rparr>, st)
              | (None, st) \<Rightarrow>
                  (w\<lparr>pb_shards := (pb_shards w)[i := sh\<lparr>sh_buffer := [], sh_localBatchCnt := sh_localBatchCnt sh + 1\<rparr>],
                     pb_batchCount := pb_batchCount w + 1\<rparr>, st)))"

text \<open>The three cases of \<^verbatim>\<open>runShard\<close>: a message arrives, the timer ticks, the shard is stopped.\<close>

definition shard_recv :: "('e, 'st) backend \<Rightarrow> nat \<Rightarrow> ParallelBatchWriter \<times> 'st \<Rightarrow> ParallelBatchWriter \<times> 'st" where
  "shard_recv storeBatch i = (\<lambda>(w, st).
     case sh_bufferChan (pb_shards w ! i) of
       [] \<Rightarrow> (w, st)
     | msg # chan \<Rightarrow>
         let sh = pb_shards w ! i;
             sh = sh\<lparr>sh_bufferChan := chan, sh_buffer := sh_buffer sh @ [msg], sh_localMsgCnt := sh_localMsgCnt sh + 1\<rparr>;
             w = w\<lparr>pb_shards := (pb_shards w)[i := sh]\<rparr>
         in if length (sh_buffer sh) \<ge> pb_BatchSize w then flushShard storeBatch i (w, st) else (w, st))"

definition shard_stop :: "('e, 'st) backend \<Rightarrow> nat \<Rightarrow> ParallelBatchWriter \<times> 'st \<Rightarrow> ParallelBatchWriter \<times> 'st" where
  "shard_stop storeBatch i s =
     (case flushShard storeBatch i s of
        (w, st) \<Rightarrow> (w\<lparr>pb_shards := (pb_shards w)[i := (pb_shards w ! i)\<lparr>sh_done := True\<rparr>]\<rparr>, st))"

text \<open>\<^verbatim>\<open>Stop\<close> closes the stop channels; from then on a worker may choose to return whenever it
  waits. Cancelling the context makes a worker return without a flush. The accepted messages are recorded.\<close>

inductive pbw_step ::
  "('e, 'st) backend \<Rightarrow> PortaskMessage list \<times> ParallelBatchWriter \<times> 'st \<Rightarrow> PortaskMessage list \<times> ParallelBatchWriter \<times> 'st \<Rightarrow> bool"
  for storeBatch where
  step_write: "pbw_Write msg w = (ok, w') \<Longrightarrow>
     pbw_step storeBatch (acc, w, st) (if ok then acc @ [msg] else acc, w', st)"
| step_recv: "i < length (pb_shards w) \<Longrightarrow> \<not> sh_done (pb_shards w ! i) \<Longrightarrow> shard_recv storeBatch i (w, st) = (w', st') \<Longrightarrow>
     pbw_step storeBatch (acc, w, st) (acc, w', st')"
| step_tick: "i < length (pb_shards w) \<Longrightarrow> \<not> sh_done (pb_shards w ! i) \<Longrightarrow> flushShard storeBatch i (w, st) = (w', st') \<Longrightarrow>
     pbw_step storeBatch (acc, w, st) (acc, w', st')"
| step_stop: "pbw_step storeBatch (acc, w, st) (acc, w\<lparr>pb_running := False\<rparr>, st)"
| step_done: "i < length (pb_shards w) \<Longrightarrow> \<not> sh_done (pb_shards w ! i) \<Longrightarrow> \<not> pb_running w \<Longrightarrow>
     shard_stop storeBatch i (w, st) = (w', st') \<Longrightarrow> pbw_step storeBatch (acc, w, st) (acc, w', st')"
| step_cancel: "i < length (pb_shards w) \<Longrightarrow> \<not> sh_done (pb_shards w ! i) \<Longrightarrow>
     pbw_step storeBatch (acc, w, st) (acc, w\<lparr>pb_shards := (pb_shards w)[i := (pb_shards w ! i)\<lparr>sh_done := True\<rparr>]\<rparr>, st)"

inductive_cases pbw_stepE: "pbw_step storeBatch (acc, w, st) (acc', w', st')"

section \<open>A storage that keeps its promise\<close>

text \<open>What the messages of a list put into the log of a key.\<close>

definition entries :: "(PortaskMessage \<Rightarrow> 'k) \<Rightarrow> (PortaskMessage \<Rightarrow> 'v) \<Rightarrow> 'k \<Rightarrow> PortaskMessage list \<Rightarrow> 'v list" where
  "entries key val k ms = map val (filter (\<lambda>m. key m = k) ms)"

lemma entries_simps [simp]:
  "entries key val k [] = []" "entries key val k (ms @ ns) = entries key val k ms @ entries key val k ns"
  "entries key val k (m # ms) = (if key m = k then val m # entries key val k ms else entries key val k ms)"
  by (simp_all add: entries_def)

definition pending :: "ParallelBatchWriter \<Rightarrow> PortaskMessage list" where
  "pending w = concat (map (\<lambda>sh. sh_buffer sh @ sh_bufferChan sh) (pb_shards w))"

lemma mset_concat_update:
  assumes "i < length xs"
  shows "mset (concat (map f (xs[i := y]))) + mset (f (xs ! i)) = mset (concat (map f xs)) + mset (f y)"
  using assms
proof (induction xs arbitrary: i)
  case (Cons x xs)
  then show ?case by (cases i) (auto simp: ac_simps)
qed simp

lemma mset_entries_cong: "mset ms = mset ns \<Longrightarrow> mset (entries key val k ms) = mset (entries key val k ns)"
  by (simp add: entries_def)

locale batch_backend =
  fixes storeBatch :: "('e, 'st) backend"
    and accepts :: "'st \<Rightarrow> PortaskMessage \<Rightarrow> bool"
    and log :: "'st \<Rightarrow> 'k \<Rightarrow> 'v list"
    and key :: "PortaskMessage \<Rightarrow> 'k"
    and val :: "PortaskMessage \<Rightarrow> 'v"
  assumes stores: "list_all (accepts st) ms \<Longrightarrow>
    \<exists>st'. storeBatch ms st = (None, st') \<and> accepts st' = accepts st \<and> (\<forall>k. log st' k = log st k @ entries key val k ms)"
begin

lemma attempts:
  assumes "list_all (accepts st) ms" "n > 0"
  shows "\<exists>st'. store_attempts storeBatch n ms err st = (None, st') \<and> accepts st' = accepts st \<and>
    (\<forall>k. log st' k = log st k @ entries key val k ms)"
  using stores [OF assms(1)] assms(2) by (cases n) auto

lemma flush:
  assumes "list_all (accepts st) (bw_buffer bw)" "bw_MaxRetries bw \<ge> 0"
  shows "\<exists>bw' st'. flushLocked storeBatch (bw, st) = (None, bw', st') \<and> bw_buffer bw' = [] \<and>
    bw_MaxRetries bw' = bw_MaxRetries bw \<and> bw_running bw' = bw_running bw \<and> accepts st' = accepts st \<and>
    (\<forall>k. log st' k = log st k @ entries key val k (bw_buffer bw))"
proof (cases "bw_buffer bw = []")
  case False
  then show ?thesis
    using attempts [OF assms(1), of "nat (bw_MaxRetries bw + 1)" None] assms(2) by (auto simp: flushLocked_def)
qed (simp add: flushLocked_def)

text \<open>Nothing is lost, repeated or reordered: the log of a key followed by what is buffered for it.\<close>

lemma step:
  assumes "list_all (accepts st) (bw_buffer bw @ written [op])" "bw_MaxRetries bw \<ge> 0"
  shows "\<exists>bw' st'. bw_step storeBatch op (bw, st) = (bw', st') \<and> accepts st' = accepts st \<and>
    list_all (accepts st) (bw_buffer bw') \<and> bw_MaxRetries bw' = bw_MaxRetries bw \<and> bw_running bw' = bw_running bw \<and>
    (\<forall>k. log st' k @ entries key val k (bw_buffer bw') = log st k @ entries key val k (bw_buffer bw @ written [op]))"
proof (cases op)
  case (OpWrite m)
  define bw1 where "bw1 = bw\<lparr>bw_buffer := bw_buffer bw @ [m], bw_messageCount := bw_messageCount bw + 1\<rparr>"
  have "list_all (accepts st) (bw_buffer bw1)" "bw_MaxRetries bw1 \<ge> 0"
    using assms by (simp_all add: bw1_def OpWrite)
  from flush [OF this] show ?thesis
    using assms by (auto simp: OpWrite bw_Write_def Let_def simp flip: bw1_def) (auto simp: bw1_def)
next
  case OpTick
  have "list_all (accepts st) (bw_buffer bw)"
    using assms by simp
  from flush [OF this assms(2)] show ?thesis
    using assms by (auto simp: OpTick bw_tick_def)
qed

lemma run:
  assumes "list_all (accepts st) (bw_buffer bw @ written ops)" "bw_MaxRetries bw \<ge> 0"
  shows "\<exists>bw' st'. fold (bw_step storeBatch) ops (bw, st) = (bw', st') \<and> accepts st' = accepts st \<and>
    list_all (accepts st) (bw_buffer bw') \<and> bw_MaxRetries bw' = bw_MaxRetries bw \<and> bw_running bw' = bw_running bw \<and>
    (\<forall>k. log st' k @ entries key val k (bw_buffer bw') = log st k @ entries key val k (bw_buffer bw @ written ops))"
  using assms
proof (induction ops arbitrary: bw st)
  case (Cons op ops)
  have w: "written (op # ops) = written [op] @ written ops"
    by (cases op) simp_all
  have "list_all (accepts st) (bw_buffer bw @ written [op])"
    using Cons.prems(1) by (simp add: w)
  from step [OF this Cons.prems(2)]
  obtain bw1 st1 where 1: "bw_step storeBatch op (bw, st) = (bw1, st1)" "accepts st1 = accepts st"
      "list_all (accepts st) (bw_buffer bw1)" "bw_MaxRetries bw1 = bw_MaxRetries bw" "bw_running bw1 = bw_running bw"
      "\<And>k. log st1 k @ entries key val k (bw_buffer bw1) = log st k @ entries key val k (bw_buffer bw @ written [op])"
    by blast
  have "list_all (accepts st1) (bw_buffer bw1 @ written ops)" "bw_MaxRetries bw1 \<ge> 0"
    using 1 Cons.prems by (simp_all add: w)
  from Cons.IH [OF this] obtain bw' st' where 2: "fold (bw_step storeBatch) ops (bw1, st1) = (bw', st')" "accepts st' = accepts st1"
      "list_all (accepts st1) (bw_buffer bw')" "bw_MaxRetries bw' = bw_MaxRetries bw1" "bw_running bw' = bw_running bw1"
      "\<And>k. log st' k @ entries key val k (bw_buffer bw') = log st1 k @ entries key val k (bw_buffer bw1 @ written ops)"
    by blast
  have "log st' k @ entries key val k (bw_buffer bw') = log st k @ entries key val k (bw_buffer bw @ written (op # ops))" for k
    using 2(6) [of k] 1(6) [of k] by (simp add: w)
  then show ?case
    using 1 2 by simp
qed simp

lemma run_stop:
  assumes "list_all (accepts st) (bw_buffer bw @ written ops)" "bw_MaxRetries bw \<ge> 0" "bw_running bw"
  shows "\<exists>bw' st'. bw_Stop storeBatch (fold (bw_step storeBatch) ops (bw, st)) = (None, bw', st') \<and> bw_buffer bw' = [] \<and>
    (\<forall>k. log st' k = log st k @ entries key val k (bw_buffer bw @ written ops))"
proof -
  obtain bw1 st1 where 1: "fold (bw_step storeBatch) ops (bw, st) = (bw1, st1)" "accepts st1 = accepts st"
      "list_all (accepts st) (bw_buffer bw1)" "bw_MaxRetries bw1 = bw_MaxRetries bw" "bw_running bw1 = bw_running bw"
      "\<And>k. log st1 k @ entries key val k (bw_buffer bw1) = log st k @ entries key val k (bw_buffer bw @ written ops)"
    using run [OF assms(1,2)] by blast
  then show ?thesis
    using flush [of st1 "bw1\<lparr>bw_running := False\<rparr>"] assms(2,3) by (auto simp: bw_Stop_def)
qed

end

section \<open>The parallel writer keeps its messages\<close>

lemma pending_update:
  assumes "i < length (pb_shards w)" "w' = w\<lparr>pb_shards := (pb_shards w)[i := sh]\<rparr> \<or>
      (\<exists>c. w' = w\<lparr>pb_shards := (pb_shards w)[i := sh], pb_messageCount := c\<rparr>) \<or>
      (\<exists>c. w' = w\<lparr>pb_shards := (pb_shards w)[i := sh], pb_batchCount := c\<rparr>)"
  shows "mset (pending w') + mset (sh_buffer (pb_shards w ! i) @ sh_bufferChan (pb_shards w ! i)) =
    mset (pending w) + mset (sh_buffer sh @ sh_bufferChan sh)"
  using mset_concat_update [OF assms(1), of "\<lambda>sh. sh_buffer sh @ sh_bufferChan sh" sh] assms(2)
  by (auto simp: pending_def)

lemma mset_entries: "mset (entries key val k ms) = image_mset val (filter_mset (\<lambda>m. key m = k) (mset ms))"
  by (simp add: entries_def)

lemma try_send_pending:
  assumes "i < length (pb_shards w)" "try_send i msg w = Some w'"
  shows "mset (pending w') = mset (pending w) + {#msg#} \<and> length (pb_shards w') = length (pb_shards w) \<and>
    pb_MaxRetries w' = pb_MaxRetries w"
  using pending_update [OF assms(1), of w' "(pb_shards w ! i)\<lparr>sh_bufferChan := sh_bufferChan (pb_shards w ! i) @ [msg]\<rparr>"] assms(2)
  by (auto simp: try_send_def Let_def split: if_splits)

lemma getShardID_less: "0 < n \<Longrightarrow> n < 2 ^ 32 \<Longrightarrow> getShardID n msg < n"
  by (simp add: getShardID_def unat_mod_distrib unat_of_nat)

lemma pbw_Write_pending:
  assumes "pbw_Write msg w = (ok, w')" "0 < length (pb_shards w)" "length (pb_shards w) < 2 ^ 32"
  shows "mset (pending w') = mset (pending w) + (if ok then {#msg#} else {#}) \<and>
    length (pb_shards w') = length (pb_shards w) \<and> pb_MaxRetries w' = pb_MaxRetries w"
proof -
  define i where "i = getShardID (length (pb_shards w)) msg"
  define j where "j = (i + 1) mod length (pb_shards w)"
  have i: "i < length (pb_shards w)" and j: "j < length (pb_shards w)"
    using getShardID_less assms(2,3) by (auto simp: i_def j_def)
  have eq: "pbw_Write msg w = (if \<not> pb_running w then (False, w) else case try_send i msg w of Some w \<Rightarrow> (True, w)
      | None \<Rightarrow> (case try_send j msg w of Some w \<Rightarrow> (True, w) | None \<Rightarrow> (False, w)))"
    unfolding pbw_Write_def Let_def i_def j_def by (rule refl)
  consider "ok" "try_send i msg w = Some w'" | "ok" "try_send j msg w = Some w'" | "\<not> ok" "w' = w"
    using assms(1) unfolding eq by (auto split: if_splits option.splits)
  then show ?thesis
    by cases (use try_send_pending [OF i] try_send_pending [OF j] in simp_all)
qed

context batch_backend
begin

lemma flushShard_pending:
  assumes "i < length (pb_shards w)" "list_all (accepts st) (pending w)" "pb_MaxRetries w \<ge> 0"
    "flushShard storeBatch i (w, st) = (w', st')"
  shows "mset (log st' k) + mset (entries key val k (pending w')) = mset (log st k) + mset (entries key val k (pending w)) \<and>
    accepts st' = accepts st \<and> length (pb_shards w') = length (pb_shards w) \<and> pb_MaxRetries w' = pb_MaxRetries w \<and>
    mset (pending w') \<subseteq># mset (pending w)"
proof (cases "sh_buffer (pb_shards w ! i) = []")
  case False
  let ?sh = "pb_shards w ! i"
  have "set (sh_buffer ?sh) \<subseteq> set (pending w)"
    using assms(1) by (auto simp: pending_def) (use nth_mem in blast)
  then have "list_all (accepts st) (sh_buffer ?sh)"
    using assms(2) by (auto simp: list_all_iff)
  from attempts [OF this, of "nat (pb_MaxRetries w + 1)" None]
  obtain st1 where 1: "store_attempts storeBatch (nat (pb_MaxRetries w + 1)) (sh_buffer ?sh) None st = (None, st1)"
      "accepts st1 = accepts st" "\<And>k. log st1 k = log st k @ entries key val k (sh_buffer ?sh)"
    using assms(3) by auto
  have w': "w' = w\<lparr>pb_shards := (pb_shards w)[i := ?sh\<lparr>sh_buffer := [], sh_localBatchCnt := sh_localBatchCnt ?sh + 1\<rparr>],
      pb_batchCount := pb_batchCount w + 1\<rparr>" "st' = st1"
    using assms(4) False 1(1) by (auto simp: flushShard_def Let_def)
  have p: "mset (pending w') + mset (sh_buffer ?sh) = mset (pending w)"
    using pending_update [OF assms(1), of w' "?sh\<lparr>sh_buffer := [], sh_localBatchCnt := sh_localBatchCnt ?sh + 1\<rparr>"] w'
    by auto
  then have "mset (entries key val k (pending w')) + mset (entries key val k (sh_buffer ?sh)) = mset (entries key val k (pending w))"
    by (simp add: mset_entries flip: p)
  moreover have "mset (pending w') \<subseteq># mset (pending w)"
    by (simp flip: p)
  moreover have "length (pb_shards w') = length (pb_shards w)" "pb_MaxRetries w' = pb_MaxRetries w"
    by (simp_all add: w'(1))
  ultimately show ?thesis
    using 1(2,3) by (simp add: w'(2) ac_simps)
qed (use assms in \<open>auto simp: flushShard_def Let_def\<close>)

lemma shard_recv_pending:
  assumes "i < length (pb_shards w)" "list_all (accepts st) (pending w)" "pb_MaxRetries w \<ge> 0"
    "shard_recv storeBatch i (w, st) = (w', st')"
  shows "mset (log st' k) + mset (entries key val k (pending w')) = mset (log st k) + mset (entries key val k (pending w)) \<and>
    accepts st' = accepts st \<and> length (pb_shards w') = length (pb_shards w) \<and> pb_MaxRetries w' = pb_MaxRetries w \<and>
    mset (pending w') \<subseteq># mset (pending w)"
proof (cases "sh_bufferChan (pb_shards w ! i)")
  case (Cons msg chan)
  define sh where "sh = (pb_shards w ! i)\<lparr>sh_bufferChan := chan, sh_buffer := sh_buffer (pb_shards w ! i) @ [msg],
    sh_localMsgCnt := sh_localMsgCnt (pb_shards w ! i) + 1\<rparr>"
  define w1 where "w1 = w\<lparr>pb_shards := (pb_shards w)[i := sh]\<rparr>"
  have p: "mset (pending w1) = mset (pending w)"
    using pending_update [OF assms(1), of w1 sh] Cons by (auto simp: w1_def sh_def)
  have ok: "i < length (pb_shards w1)" "list_all (accepts st) (pending w1)" "pb_MaxRetries w1 \<ge> 0"
    using assms p by (auto simp: w1_def list_all_iff dest: mset_eq_setD)
  have w1: "length (pb_shards w1) = length (pb_shards w)" "pb_MaxRetries w1 = pb_MaxRetries w"
    by (simp_all add: w1_def)
  have eq: "shard_recv storeBatch i (w, st) =
      (if length (sh_buffer sh) \<ge> pb_BatchSize w1 then flushShard storeBatch i (w1, st) else (w1, st))"
    by (simp add: shard_recv_def Cons Let_def sh_def w1_def)
  show ?thesis
  proof (cases "length (sh_buffer sh) \<ge> pb_BatchSize w1")
    case True
    then have "flushShard storeBatch i (w1, st) = (w', st')"
      using assms(4) eq by simp
    from flushShard_pending [OF ok this, of k] show ?thesis
      unfolding w1 p mset_entries_cong [OF p, of key val k] .
  next
    case False
    then have "w' = w1" "st' = st"
      using assms(4) eq by simp_all
    then show ?thesis
      using w1 p mset_entries_cong [OF p, of key val k] by simp
  qed
qed (use assms in \<open>auto simp: shard_recv_def\<close>)

end

lemma pending_done: "pending (w\<lparr>pb_shards := (pb_shards w)[i := (pb_shards w ! i)\<lparr>sh_done := True\<rparr>]\<rparr>) = pending w"
proof (cases "i < length (pb_shards w)")
  case True
  have "map (\<lambda>sh. sh_buffer sh @ sh_bufferChan sh) ((pb_shards w)[i := (pb_shards w ! i)\<lparr>sh_done := True\<rparr>]) =
      map (\<lambda>sh. sh_buffer sh @ sh_bufferChan sh) (pb_shards w)"
    by (rule nth_equalityI) (auto simp: nth_list_update True)
  then show ?thesis by (simp add: pending_def)
qed (simp add: pending_def list_update_beyond)

lemmas pbw_step_cases = pbw_stepE [consumes 1, case_names accept recv tick stop worker_done cancel]

context batch_backend
begin

text \<open>One step of the parallel writer, given that what it holds can be stored.\<close>

lemma pbw_step_pending:
  assumes "pbw_step storeBatch (acc, w, st) (acc', w', st')" "list_all (accepts st) (pending w)"
    "pb_MaxRetries w \<ge> 0" "0 < length (pb_shards w)" "length (pb_shards w) < 2 ^ 32"
  shows "\<exists>new. acc' = acc @ new \<and>
    mset (log st' k) + mset (entries key val k (pending w')) =
      mset (log st k) + mset (entries key val k (pending w)) + mset (entries key val k new) \<and>
    accepts st' = accepts st \<and> length (pb_shards w') = length (pb_shards w) \<and> pb_MaxRetries w' = pb_MaxRetries w \<and>
    mset (pending w') \<subseteq># mset (pending w) + mset new"
  using assms(1)
proof (cases rule: pbw_step_cases)
  case (accept msg ok)
  from pbw_Write_pending [OF accept(1) assms(4,5)]
  have p: "mset (pending w') = mset (pending w @ (if ok then [msg] else []))" "length (pb_shards w') = length (pb_shards w)"
      "pb_MaxRetries w' = pb_MaxRetries w"
    by auto
  show ?thesis
    using p accept(2,3) mset_entries_cong [OF p(1), of key val k] by (intro exI [of _ "if ok then [msg] else []"]) simp
next
  case (recv i)
  from shard_recv_pending [OF recv(2) assms(2,3) recv(4), of k] show ?thesis
    using recv(1) by (intro exI [of _ "[]"]) simp
next
  case (tick i)
  from flushShard_pending [OF tick(2) assms(2,3) tick(4), of k] show ?thesis
    using tick(1) by (intro exI [of _ "[]"]) simp
next
  case stop
  then show ?thesis by (intro exI [of _ "[]"]) (simp add: pending_def)
next
  case (worker_done i)
  obtain w1 where w1: "flushShard storeBatch i (w, st) = (w1, st')"
      "w' = w1\<lparr>pb_shards := (pb_shards w1)[i := (pb_shards w1 ! i)\<lparr>sh_done := True\<rparr>]\<rparr>"
    using worker_done(5) by (auto simp: shard_stop_def split: prod.splits)
  from flushShard_pending [OF worker_done(2) assms(2,3) w1(1), of k] show ?thesis
    using worker_done(1) by (intro exI [of _ "[]"]) (simp add: w1(2) pending_done)
next
  case (cancel i)
  then show ?thesis by (intro exI [of _ "[]"]) (simp add: pending_done)
qed

lemma pbw_conserves:
  assumes "(pbw_step storeBatch)\<^sup>*\<^sup>* ([], w, st) (acc', w', st')" "list_all (accepts st) acc'"
    "pending w = []" "pb_MaxRetries w \<ge> 0" "0 < length (pb_shards w)" "length (pb_shards w) < 2 ^ 32"
  shows "mset (log st' k) + mset (entries key val k (pending w')) = mset (log st k) + mset (entries key val k acc') \<and>
    accepts st' = accepts st \<and> length (pb_shards w') = length (pb_shards w) \<and> pb_MaxRetries w' = pb_MaxRetries w \<and>
    mset (pending w') \<subseteq># mset acc'"
  using assms(1,2)
proof (induction "(acc', w', st')" arbitrary: acc' w' st' rule: rtranclp_induct)
  case (step y)
  obtain acc1 w1 st1 where y: "y = (acc1, w1, st1)"
    by (cases y) auto
  have "\<exists>new. acc' = acc1 @ new"
    using step(2) unfolding y by (cases rule: pbw_step_cases) auto
  then have "list_all (accepts st) acc1"
    using step(4) by auto
  from step(3) [OF y this] have 1: "mset (log st1 k) + mset (entries key val k (pending w1)) =
      mset (log st k) + mset (entries key val k acc1)" "accepts st1 = accepts st"
      "length (pb_shards w1) = length (pb_shards w)" "pb_MaxRetries w1 = pb_MaxRetries w" "mset (pending w1) \<subseteq># mset acc1"
    by auto
  have "list_all (accepts st1) (pending w1)"
    using \<open>list_all (accepts st) acc1\<close> 1(2) set_mset_mono [OF 1(5)] by (auto simp: list_all_iff)
  from pbw_step_pending [OF step(2) [unfolded y] this, of k] 1 assms(4-6)
  obtain new where 2: "acc' = acc1 @ new" "mset (log st' k) + mset (entries key val k (pending w')) =
      mset (log st1 k) + mset (entries key val k (pending w1)) + mset (entries key val k new)" "accepts st' = accepts st1"
      "length (pb_shards w') = length (pb_shards w1)" "pb_MaxRetries w' = pb_MaxRetries w1"
      "mset (pending w') \<subseteq># mset (pending w1) + mset new"
    by auto
  have "mset (pending w') \<subseteq># mset acc'"
    using 2(6) 1(5) by (simp add: 2(1)) (meson subset_mset.add_mono subset_mset.order_refl subset_mset.order_trans)
  then show ?case
    using 1 2 by simp
qed (use assms(3) in simp)

end

section \<open>Accepted and lost\<close>

text \<open>A writer that is stopped and whose workers have returned does nothing any more.\<close>

lemma stopped_stays:
  assumes "(pbw_step storeBatch)\<^sup>*\<^sup>* (acc, w, st) s'" "\<not> pb_running w" "list_all sh_done (pb_shards w)"
  shows "s' = (acc, w, st)"
  using assms(1)
proof (induction rule: rtranclp_induct)
  case (step y z)
  have "w\<lparr>pb_running := False\<rparr> = w"
    using assms(2) by simp
  obtain acc' w' st' where z: "z = (acc', w', st')"
    by (cases z) auto
  have d: "\<not> (i < length (pb_shards w) \<and> \<not> sh_done (pb_shards w ! i))" for i
    using assms(3) by (auto simp: list_all_length)
  have "pbw_step storeBatch (acc, w, st) (acc', w', st')"
    using step z by simp
  then show ?case
    unfolding z
    by (cases rule: pbw_step_cases) (use d assms(2) \<open>w\<lparr>pb_running := False\<rparr> = w\<close> in \<open>auto simp: pbw_Write_def\<close>)
qed simp

end
