(* ===== verification/Kafka_Bridge.thy ===== *)
theory Kafka_Bridge
  imports Batch_Writer Kafka_Store
begin

text \<open>
  The way of a Kafka message into the store: \<^verbatim>\<open>src/pkg/kafka/translator.go\<close> makes a Portask
  message of it, with an identifier of \<^verbatim>\<open>src/pkg/common/idgen.go\<close>;
  \<^verbatim>\<open>src/pkg/kafka/processor_bridge.go\<close> has it processed and hands it to the batch writer, whose
  storage is the Kafka message store. A message of the pool is a fresh one: nothing in the server puts
  messages back. The messages of one batch are stored at one instant.
\<close>

section \<open>Identifiers\<close>

record IDGenerator =
  ig_counter :: u64
  ig_prefix :: u64

definition NewIDGenerator :: "instant \<Rightarrow> string \<Rightarrow> IDGenerator" where
  "NewIDGenerator now prefix =
     (let prefixNum = (if prefix = ''kafka'' then 1 else if prefix = ''amqp'' then 2 else 0 :: u64)
      in \<lparr>ig_counter = 0, ig_prefix = push_bit 56 prefixNum OR push_bit 24 (word_of_int (now div Second))\<rparr>)"

definition ig_Next :: "IDGenerator \<Rightarrow> u64 \<times> IDGenerator" where
  "ig_Next g =
     (let counter = ig_counter g + 1
      in (ig_prefix g OR (counter AND 0xFFFFFF), g\<lparr>ig_counter := counter\<rparr>))"

section \<open>Translation\<close>

text \<open>With the message comes whether its payload is nil: a slice of a nil payload is nil.\<close>

definition TranslateProduce ::
  "instant \<Rightarrow> string \<Rightarrow> i32 \<Rightarrow> byte list \<Rightarrow> byte list \<Rightarrow> IDGenerator \<Rightarrow> (PortaskMessage \<times> bool) option \<times> IDGenerator" where
  "TranslateProduce now topic part key val g =
     (if topic = [] then (None, g)
      else case ig_Next g of (i, g) \<Rightarrow>
        (Some (zero_message\<lparr>m_ID := dec (unat i), m_Topic := topic, m_Partition := part, m_Key := string_of key,
            m_Payload := val, m_Timestamp := word_of_int now, m_TTL := 0, m_Headers := Some [],
            m_Metadata := Some [(''source'', ''kafka''), (''protocol'', ''kafka-wire''), (''version'', ''2.0'')]\<rparr>,
          val = []), g))"

text \<open>Go's division drops the fraction.\<close>

definition TranslateFetch :: "string \<Rightarrow> i32 \<Rightarrow> i64 \<Rightarrow> i32 \<Rightarrow> FetchRequest option" where
  "TranslateFetch topic part offset maxBytes =
     (if topic = [] then None
      else let estimatedLimit = sgn (sint maxBytes) * (\<bar>sint maxBytes\<bar> div 1024)
           in Some \<lparr>fr_Topic = topic, fr_Partition = part, fr_Offset = offset,
                fr_Limit = (if estimatedLimit \<le> 0 then 100 else word_of_int estimatedLimit)\<rparr>)"

section \<open>The storage of the batch writer\<close>

fun StoreBatch :: "instant \<Rightarrow> (store_error, InMemoryMessageStore) backend" where
  "StoreBatch now [] s = (None, s)"
| "StoreBatch now (msg # msgs) s =
     (case ProduceMessage now (m_Topic msg) (m_Partition msg) (bytes_of (m_Key msg)) (m_Payload msg) s of
        (Inl err, s) \<Rightarrow> (Some err, s)
      | (Inr _, s) \<Rightarrow> StoreBatch now msgs s)"

section \<open>The bridge\<close>

datatype bridge_error = ProcessorFailed proc_error | BatchWriteFailed store_error

definition bridge_ProduceMessage ::
  "ProcessorConfig \<Rightarrow> instant \<Rightarrow> PortaskMessage \<times> bool \<Rightarrow> BatchWriter \<times> InMemoryMessageStore \<Rightarrow>
     (bridge_error + i64) \<times> BatchWriter \<times> InMemoryMessageStore" where
  "bridge_ProduceMessage cfg now = (\<lambda>(msg, nilPayload) s.
     case ProcessMessage cfg nilPayload (Some msg) of
       Inl err \<Rightarrow> (Inl (ProcessorFailed err), s)
     | Inr processedMsg \<Rightarrow>
         (case bw_Write (StoreBatch now) processedMsg s of
            (Some err, s) \<Rightarrow> (Inl (BatchWriteFailed err), s)
          | (None, s) \<Rightarrow> (Inr (m_Timestamp processedMsg), s)))"

definition bridge_Stop ::
  "instant \<Rightarrow> BatchWriter \<times> InMemoryMessageStore \<Rightarrow> store_error option \<times> BatchWriter \<times> InMemoryMessageStore" where
  "bridge_Stop now = bw_Stop (StoreBatch now)"

text \<open>A negative offset panics in the store.\<close>

definition FetchMessages :: "FetchRequest \<Rightarrow> InMemoryMessageStore \<Rightarrow> (store_error + PortaskMessage list) option" where
  "FetchMessages req s =
     (case ConsumeMessages (fr_Topic req) (fr_Partition req) (fr_Offset req) (scast (fr_Limit req * 1024)) s of
        None \<Rightarrow> None
      | Some (Inl err) \<Rightarrow> Some (Inl err)
      | Some (Inr kafkaMessages) \<Rightarrow>
          Some (Inr (map (\<lambda>k. zero_message\<lparr>m_ID := (if sint (msg_Offset k) < 0 then CHR ''-'' # dec (nat (- sint (msg_Offset k)))
                 else dec (nat (sint (msg_Offset k)))),
               m_Topic := fr_Topic req, m_Partition := fr_Partition req, m_Key := string_of (msg_Key k),
               m_Payload := msg_Value k, m_Timestamp := msg_Offset k\<rparr>) kafkaMessages)))"

section \<open>The store takes batches\<close>

definition part_log :: "InMemoryMessageStore \<Rightarrow> string \<times> i32 \<Rightarrow> (byte list \<times> byte list) list" where
  "part_log s = (\<lambda>(t, p). case s t of None \<Rightarrow> [] | Some tpc \<Rightarrow> map (\<lambda>m. (msg_Key m, msg_Value m)) (partition_of p tpc))"

definition msg_slot :: "PortaskMessage \<Rightarrow> string \<times> i32" where
  "msg_slot m = (m_Topic m, m_Partition m)"

definition msg_entry :: "PortaskMessage \<Rightarrow> byte list \<times> byte list" where
  "msg_entry m = (bytes_of (m_Key m), m_Payload m)"

definition has_topic :: "InMemoryMessageStore \<Rightarrow> PortaskMessage \<Rightarrow> bool" where
  "has_topic s m \<longleftrightarrow> s (m_Topic m) \<noteq> None"

lemma ProduceMessage_log:
  assumes "s topic \<noteq> None"
  shows "\<exists>off s'. ProduceMessage now topic p key val s = (Inr off, s') \<and> has_topic s' = has_topic s \<and>
    part_log s' k = part_log s k @ (if k = (topic, p) then [(key, val)] else [])"
proof -
  obtain t where "s topic = Some t"
    using assms by blast
  moreover from this have "has_topic (s(topic \<mapsto> t')) = has_topic s" for t'
    by (auto simp: has_topic_def fun_eq_iff)
  ultimately show ?thesis
    by (cases k) (auto simp: ProduceMessage_def part_log_def partition_of_def Let_def)
qed

lemma StoreBatch_stores:
  "list_all (has_topic s) ms \<Longrightarrow>
    \<exists>s'. StoreBatch now ms s = (None, s') \<and> has_topic s' = has_topic s \<and> (\<forall>k. part_log s' k = part_log s k @ entries msg_slot msg_entry k ms)"
proof (induction ms arbitrary: s)
  case (Cons m ms)
  then have "s (m_Topic m) \<noteq> None"
    by (simp add: has_topic_def)
  note P = ProduceMessage_log [where s = s and topic = "m_Topic m" and now = now and p = "m_Partition m" and
      key = "bytes_of (m_Key m)" and val = "m_Payload m", OF this]
  then obtain off s1 where 1: "ProduceMessage now (m_Topic m) (m_Partition m) (bytes_of (m_Key m)) (m_Payload m) s = (Inr off, s1)"
      "has_topic s1 = has_topic s"
    by blast
  have log: "part_log s1 k = part_log s k @ (if k = msg_slot m then [msg_entry m] else [])" for k
    using P [of k] 1 by (auto simp: msg_slot_def msg_entry_def)
  have "list_all (has_topic s1) ms"
    using Cons.prems 1(2) by simp
  from Cons.IH [OF this] show ?case
    using 1 log by auto
qed simp

text \<open>The store at the times a clock gives, which may depend on anything.\<close>

definition store_at :: "(InMemoryMessageStore \<Rightarrow> instant) \<Rightarrow> (store_error, InMemoryMessageStore) backend" where
  "store_at clk ms s = StoreBatch (clk s) ms s"

interpretation kafka_batch: batch_backend "store_at clk" has_topic part_log msg_slot msg_entry for clk
  by unfold_locales (unfold store_at_def, rule StoreBatch_stores)

section \<open>Batches that cannot be stored\<close>

lemma StoreBatch_poison:
  assumes "list_all (has_topic s) good" "\<not> has_topic s bad"
  shows "\<exists>s'. StoreBatch now (good @ bad # rest) s = (Some (TopicNotFound (m_Topic bad)), s') \<and> has_topic s' = has_topic s \<and>
    (\<forall>k. part_log s' k = part_log s k @ entries msg_slot msg_entry k good)"
  using assms
proof (induction good arbitrary: s)
  case Nil
  then show ?case by (simp add: ProduceMessage_def has_topic_def)
next
  case (Cons m good)
  then have "s (m_Topic m) \<noteq> None"
    by (simp add: has_topic_def)
  note P = ProduceMessage_log [where s = s and topic = "m_Topic m" and now = now and p = "m_Partition m" and
      key = "bytes_of (m_Key m)" and val = "m_Payload m", OF this]
  then obtain off s1 where 1: "ProduceMessage now (m_Topic m) (m_Partition m) (bytes_of (m_Key m)) (m_Payload m) s = (Inr off, s1)"
      "has_topic s1 = has_topic s"
    by blast
  have log: "part_log s1 k = part_log s k @ (if k = msg_slot m then [msg_entry m] else [])" for k
    using P [of k] 1 by (auto simp: msg_slot_def msg_entry_def)
  have "list_all (has_topic s1) good" "\<not> has_topic s1 bad"
    using Cons.prems 1(2) by simp_all
  from Cons.IH [OF this] show ?case
    using 1 log by auto
qed

lemma attempts_poison:
  assumes "list_all (has_topic s) good" "\<not> has_topic s bad"
  shows "\<exists>s'. store_attempts (store_at clk) n (good @ bad # rest) err s = (if n = 0 then err else Some (TopicNotFound (m_Topic bad)), s') \<and>
    has_topic s' = has_topic s \<and> (\<forall>k. part_log s' k = part_log s k @ concat (replicate n (entries msg_slot msg_entry k good)))"
  using assms
proof (induction n arbitrary: s err)
  case (Suc n)
  obtain s1 where 1: "StoreBatch (clk s) (good @ bad # rest) s = (Some (TopicNotFound (m_Topic bad)), s1)" "has_topic s1 = has_topic s"
      "\<And>k. part_log s1 k = part_log s k @ entries msg_slot msg_entry k good"
    using StoreBatch_poison [OF Suc.prems] by blast
  have "list_all (has_topic s1) good" "\<not> has_topic s1 bad"
    using Suc.prems 1(2) by simp_all
  from Suc.IH [OF this, of "Some (TopicNotFound (m_Topic bad))"] show ?case
    using 1 by (auto simp: store_at_def)
qed simp

lemma concat_replicate_add: "concat (replicate m xs) @ concat (replicate n xs) = concat (replicate (m + n) xs)"
  by (simp add: replicate_add)

section \<open>Properties\<close>

text \<open>C21. A batch writer over the Kafka store loses, repeats and reorders nothing as long as the topics
  exist: whatever writes and ticks of its timer come, once it is stopped every partition has received
  exactly the messages written for it, in the order they were written.\<close>

theorem batch_writer_exactly_once:
  assumes "list_all (has_topic s) (bw_buffer bw @ written ops)" "bw_MaxRetries bw \<ge> 0" "bw_running bw"
  shows "\<exists>bw' s'. bw_Stop (store_at clk) (fold (bw_step (store_at clk)) ops (bw, s)) = (None, bw', s') \<and> bw_buffer bw' = [] \<and>
    (\<forall>t p. part_log s' (t, p) =
       part_log s (t, p) @ map msg_entry (filter (\<lambda>m. m_Topic m = t \<and> m_Partition m = p) (bw_buffer bw @ written ops)))"
  using kafka_batch.run_stop [OF assms] by (simp add: entries_def msg_slot_def)

text \<open>A message for a topic that does not exist blocks the batch writer for good and makes it repeat what
  it buffered before it: after \<open>n\<close> ticks the buffer is what it was, each message before the bad one has been
  stored \<open>n * (MaxRetries + 1)\<close> times, and no message after it has been stored.\<close>

theorem poison_message:
  assumes "bw_buffer bw = good @ bad # rest" "list_all (has_topic s) good" "\<not> has_topic s bad" "bw_MaxRetries bw \<ge> 0"
  shows "\<exists>s'. (bw_tick (store_at clk) ^^ n) (bw, s) = (bw, s') \<and>
    (\<forall>t p. part_log s' (t, p) = part_log s (t, p) @
       concat (replicate (n * nat (bw_MaxRetries bw + 1)) (map msg_entry (filter (\<lambda>m. m_Topic m = t \<and> m_Partition m = p) good))))"
proof -
  let ?r = "nat (bw_MaxRetries bw + 1)"
  have "\<exists>s'. (bw_tick (store_at clk) ^^ n) (bw, s) = (bw, s') \<and> has_topic s' = has_topic s \<and>
      (\<forall>k. part_log s' k = part_log s k @ concat (replicate (n * ?r) (entries msg_slot msg_entry k good)))"
  proof (induction n)
    case (Suc n)
    then obtain s1 where 1: "(bw_tick (store_at clk) ^^ n) (bw, s) = (bw, s1)" "has_topic s1 = has_topic s"
        "\<And>k. part_log s1 k = part_log s k @ concat (replicate (n * ?r) (entries msg_slot msg_entry k good))"
      by blast
    have "list_all (has_topic s1) good" "\<not> has_topic s1 bad"
      using assms(2,3) 1(2) by simp_all
    from attempts_poison [OF this, of clk ?r rest None] obtain s2 where
      2: "store_attempts (store_at clk) ?r (bw_buffer bw) None s1 = (Some (TopicNotFound (m_Topic bad)), s2)" "has_topic s2 = has_topic s1"
        "\<And>k. part_log s2 k = part_log s1 k @ concat (replicate ?r (entries msg_slot msg_entry k good))"
      using assms(1,4) by auto
    have "bw_tick (store_at clk) (bw, s1) = (bw, s2)"
      using 2(1) assms(1) by (simp add: bw_tick_def flushLocked_def)
    then show ?case
      using 1 2 by (simp add: concat_replicate_add add.commute)
  qed simp
  then show ?thesis
    by (auto simp: entries_def msg_slot_def)
qed


lemma getShardID_1: "getShardID 1 m = 0"
  using getShardID_less [of 1 m] by simp

text \<open>A message the parallel batch writer accepts can be lost: a worker that is stopped flushes its buffer
  and returns without reading its channel. A writer with one worker reaches a state in which it has accepted a
  message, nothing is stored, and nothing will ever change again.\<close>

theorem parallel_writer_loses:
  "\<exists>w'. (pbw_step storeBatch)\<^sup>*\<^sup>* ([], (NewParallelBatchWriter 1 (Suc b) maxRetries)\<lparr>pb_running := True\<rparr>, s) ([m], w', s) \<and>
    pending w' = [m] \<and> (\<forall>x. (pbw_step storeBatch)\<^sup>*\<^sup>* ([m], w', s) x \<longrightarrow> x = ([m], w', s))"
proof -
  define w where "w = (NewParallelBatchWriter 1 (Suc b) maxRetries)\<lparr>pb_running := True\<rparr>"
  define w1 where "w1 = w\<lparr>pb_shards := [new_shard\<lparr>sh_bufferChan := [m]\<rparr>], pb_messageCount := 1\<rparr>"
  define w2 where "w2 = w1\<lparr>pb_running := False\<rparr>"
  define w3 where "w3 = w2\<lparr>pb_shards := [new_shard\<lparr>sh_bufferChan := [m], sh_done := True\<rparr>]\<rparr>"
  have "pbw_Write m w = (True, w1)"
    using getShardID_1 [of m]
    by (simp add: pbw_Write_def try_send_def Let_def w_def w1_def NewParallelBatchWriter_def new_shard_def)
  from step_write [OF this, of storeBatch "[]" s] have 1: "pbw_step storeBatch ([], w, s) ([m], w1, s)" by simp
  have 2: "pbw_step storeBatch ([m], w1, s) ([m], w2, s)"
    unfolding w2_def by (rule step_stop)
  have "shard_stop storeBatch 0 (w2, s) = (w3, s)"
    by (simp add: shard_stop_def flushShard_def Let_def w1_def w2_def w3_def new_shard_def)
  with step_done [of 0 w2 storeBatch s w3 s "[m]"] have 3: "pbw_step storeBatch ([m], w2, s) ([m], w3, s)"
    by (simp add: w1_def w2_def new_shard_def)
  have "x = ([m], w3, s)" if "(pbw_step storeBatch)\<^sup>*\<^sup>* ([m], w3, s) x" for x
    by (rule stopped_stays [OF that]) (simp_all add: w3_def w2_def)
  moreover have "(pbw_step storeBatch)\<^sup>*\<^sup>* ([], w, s) ([m], w3, s)"
    using 1 2 3 by (meson converse_rtranclp_into_rtranclp rtranclp.rtrancl_refl)
  moreover have "pending w3 = [m]"
    by (simp add: pending_def w3_def new_shard_def)
  ultimately show ?thesis
    unfolding w_def by blast
qed

theorem parallel_writer_loses_witness:
  "\<exists>w'. (pbw_step (store_at (\<lambda>_. 0)))\<^sup>*\<^sup>* ([], (NewParallelBatchWriter 1 2 3)\<lparr>pb_running := True\<rparr>, Map.empty) ([zero_message], w', Map.empty) \<and>
    pending w' = [zero_message]"
  using parallel_writer_loses [where storeBatch = "store_at (\<lambda>_. 0)" and b = 1 and maxRetries = 3 and s = Map.empty and m = zero_message]
  by (auto simp: numeral_2_eq_2)

section \<open>From a produce request to the store\<close>

lemma store_at_const: "store_at (\<lambda>_. now) = StoreBatch now"
  by (simp add: store_at_def fun_eq_iff)

lemma bw_Write_ok:
  assumes "bw_buffer bw = []" "has_topic s m" "bw_MaxRetries bw \<ge> 0" "bw_running bw"
  shows "\<exists>bw' s' bw'' s''. bw_Write (StoreBatch now) m (bw, s) = (None, bw', s') \<and> bw_Stop (StoreBatch now) (bw', s') = (None, bw'', s'') \<and>
    bw_buffer bw'' = [] \<and> (\<forall>k. part_log s'' k = part_log s k @ entries msg_slot msg_entry k [m])"
proof -
  define bw1 where "bw1 = bw\<lparr>bw_buffer := [m], bw_messageCount := bw_messageCount bw + 1\<rparr>"
  have b: "bw_buffer bw1 = [m]" "bw_MaxRetries bw1 \<ge> 0" "list_all (has_topic s) (bw_buffer bw1)"
    using assms by (simp_all add: bw1_def)
  from kafka_batch.flush [OF b(3,2), where clk = "\<lambda>_. now", unfolded store_at_const]
  obtain bw2 s2 where 2: "flushLocked (StoreBatch now) (bw1, s) = (None, bw2, s2)" "bw_buffer bw2 = []"
      "\<And>k. part_log s2 k = part_log s k @ entries msg_slot msg_entry k [m]"
    using b(1) by auto
  have w: "bw_Write (StoreBatch now) m (bw, s) = (if int 1 \<ge> bw_BatchSize bw1 then flushLocked (StoreBatch now) (bw1, s) else (None, bw1, s))"
    using assms(1) by (simp add: bw_Write_def bw1_def)
  have "\<exists>bw' s' . bw_Write (StoreBatch now) m (bw, s) = (None, bw', s') \<and> bw_running bw' \<and>
      ((bw_buffer bw' = [] \<and> (\<forall>k. part_log s' k = part_log s k @ entries msg_slot msg_entry k [m])) \<or> (bw' = bw1 \<and> s' = s))"
    using 2 kafka_batch.flush [OF b(3,2), where clk = "\<lambda>_. now", unfolded store_at_const] assms(4)
    by (auto simp: w bw1_def)
  then obtain bw' s' where 3: "bw_Write (StoreBatch now) m (bw, s) = (None, bw', s')" "bw_running bw'"
      "(bw_buffer bw' = [] \<and> (\<forall>k. part_log s' k = part_log s k @ entries msg_slot msg_entry k [m])) \<or> (bw' = bw1 \<and> s' = s)"
    by blast
  define bw3 where "bw3 = bw'\<lparr>bw_running := False\<rparr>"
  have "list_all (has_topic s') (bw_buffer bw3)" "bw_MaxRetries bw3 \<ge> 0 \<or> bw_buffer bw3 = []"
    using 3(3) b by (auto simp: bw3_def)
  then have "\<exists>bw'' s''. flushLocked (StoreBatch now) (bw3, s') = (None, bw'', s'') \<and> bw_buffer bw'' = [] \<and>
      (\<forall>k. part_log s'' k = part_log s' k @ entries msg_slot msg_entry k (bw_buffer bw3))"
    using kafka_batch.flush [where clk = "\<lambda>_. now" and st = s' and bw = bw3, unfolded store_at_const]
    by (auto simp: flushLocked_def)
  then show ?thesis
    using 3 b(1) by (auto simp: bw_Stop_def bw3_def)
qed

text \<open>What becomes of a Kafka message produced through the bridge. Whatever partition and key the client
  names, the message ends up in partition 0 with an empty key, because processing resets both; the offset the
  client is told is the time in nanoseconds, not the position in the log.\<close>

theorem kafka_produce_stored:
  assumes "TranslateProduce now topic part key val g = (Some msg, g')" "s topic \<noteq> None" "val \<noteq> []"
    "pc_EnableZeroCopy cfg" "bw_buffer bw = []" "bw_MaxRetries bw \<ge> 0" "bw_running bw"
  shows "\<exists>bw' s' bw'' s''. bridge_ProduceMessage cfg now msg (bw, s) = (Inr (word_of_int now), bw', s') \<and>
    bridge_Stop now (bw', s') = (None, bw'', s'') \<and>
    part_log s'' = (part_log s)((topic, 0) := part_log s (topic, 0) @ [([], val)])"
proof -
  obtain m where m: "msg = (m, False)" "m_Topic m = topic" "topic \<noteq> []" "m_Payload m = val" "m_Timestamp m = word_of_int now"
    using assms(1,3) by (auto simp: TranslateProduce_def case_prod_unfold split: if_splits)
  have p: "ProcessMessage cfg False (Some m) = Inr (worked cfg m)"
    using m by (simp add: ProcessMessage_eq process_one_eq)
  have w: "msg_slot (worked cfg m) = (topic, 0)" "msg_entry (worked cfg m) = ([], val)" "m_Timestamp (worked cfg m) = word_of_int now"
      "has_topic s (worked cfg m)"
    using m assms(2,4) by (simp_all add: worked_def msg_slot_def msg_entry_def zero_message_def has_topic_def bytes_of_def)
  from bw_Write_ok [OF assms(5) w(4) assms(6,7), of now] obtain bw' s' bw'' s'' where
    1: "bw_Write (StoreBatch now) (worked cfg m) (bw, s) = (None, bw', s')" "bw_Stop (StoreBatch now) (bw', s') = (None, bw'', s'')"
      "\<And>k. part_log s'' k = part_log s k @ entries msg_slot msg_entry k [worked cfg m]"
    by blast
  have "part_log s'' = (part_log s)((topic, 0) := part_log s (topic, 0) @ [([], val)])"
    by (rule ext) (simp add: 1(3) w)
  then show ?thesis
    using p w(3) 1(1,2) by (simp add: bridge_ProduceMessage_def bridge_Stop_def m(1))
qed

definition demo_store :: InMemoryMessageStore where
  "demo_store = CreateTopic ''t'' 3 NewInMemoryMessageStore"

lemma demo_store_topic: "demo_store ''t'' \<noteq> None" "demo_store ''u'' = None"
  by (simp_all add: demo_store_def CreateTopic_def NewInMemoryMessageStore_def Let_def)

theorem kafka_produce_stored_witness:
  "\<exists>bw' s' bw'' s''.
    bridge_ProduceMessage DefaultProcessorConfig 5
      (the (fst (TranslateProduce 5 ''t'' 2 [7] [1] (NewIDGenerator 0 ''kafka'')))) (DefaultBatchWriter\<lparr>bw_running := True\<rparr>, demo_store)
      = (Inr 5, bw', s') \<and>
    bridge_Stop 5 (bw', s') = (None, bw'', s'') \<and>
    part_log s'' = (part_log demo_store)((''t'', 0) := part_log demo_store (''t'', 0) @ [([], [1])])"
proof -
  obtain msg g' where t: "TranslateProduce 5 ''t'' 2 [7] [1] (NewIDGenerator 0 ''kafka'') = (Some msg, g')"
    by (simp add: TranslateProduce_def case_prod_unfold)
  show ?thesis
    using kafka_produce_stored [where s = demo_store and cfg = DefaultProcessorConfig and bw = "DefaultBatchWriter\<lparr>bw_running := True\<rparr>",
        OF t demo_store_topic(1)] t
    by (simp add: DefaultProcessorConfig_def DefaultBatchWriter_def NewBatchWriter_def)
qed

definition demo_message :: "string \<Rightarrow> byte list \<Rightarrow> PortaskMessage" where
  "demo_message topic val = zero_message\<lparr>m_Topic := topic, m_Payload := val\<rparr>"

theorem batch_writer_exactly_once_witness:
  "\<exists>bw' s'. bw_Stop (store_at (\<lambda>_. 0)) (fold (bw_step (store_at (\<lambda>_. 0)))
      [OpWrite (demo_message ''t'' [1]), OpTick, OpWrite (demo_message ''t'' [2])] ((NewBatchWriter 2 3)\<lparr>bw_running := True\<rparr>, demo_store))
      = (None, bw', s') \<and> part_log s' (''t'', 0) = part_log demo_store (''t'', 0) @ [([], [1]), ([], [2])]"
proof -
  have "list_all (has_topic demo_store) (bw_buffer ((NewBatchWriter 2 3)\<lparr>bw_running := True\<rparr>) @
      written [OpWrite (demo_message ''t'' [1]), OpTick, OpWrite (demo_message ''t'' [2])])"
    using demo_store_topic by (simp add: has_topic_def demo_message_def NewBatchWriter_def)
  from batch_writer_exactly_once [OF this, of "\<lambda>_. 0"] show ?thesis
    by (fastforce simp: NewBatchWriter_def demo_message_def msg_entry_def zero_message_def bytes_of_def)
qed

theorem poison_message_witness:
  "\<exists>s'. (bw_tick (store_at (\<lambda>_. 0)) ^^ 2)
      ((NewBatchWriter 9 1)\<lparr>bw_buffer := [demo_message ''t'' [1], demo_message ''u'' [2], demo_message ''t'' [3]]\<rparr>, demo_store) =
      ((NewBatchWriter 9 1)\<lparr>bw_buffer := [demo_message ''t'' [1], demo_message ''u'' [2], demo_message ''t'' [3]]\<rparr>, s') \<and>
    part_log s' (''t'', 0) = part_log demo_store (''t'', 0) @ [([], [1]), ([], [1]), ([], [1]), ([], [1])]"
proof -
  let ?bw = "(NewBatchWriter 9 1)\<lparr>bw_buffer := [demo_message ''t'' [1], demo_message ''u'' [2], demo_message ''t'' [3]]\<rparr>"
  have "bw_buffer ?bw = [demo_message ''t'' [1]] @ demo_message ''u'' [2] # [demo_message ''t'' [3]]" "bw_MaxRetries ?bw = 1"
    "list_all (has_topic demo_store) [demo_message ''t'' [1]]" "\<not> has_topic demo_store (demo_message ''u'' [2])"
    using demo_store_topic by (simp_all add: has_topic_def demo_message_def NewBatchWriter_def)
  from poison_message [OF this(1,3,4), where clk = "\<lambda>_. 0" and n = 2] this(2) show ?thesis
    by (fastforce simp: demo_message_def msg_entry_def zero_message_def bytes_of_def numeral_eq_Suc)
qed


section \<open>Identifiers\<close>

definition nth_id :: "nat \<Rightarrow> IDGenerator \<Rightarrow> u64" where
  "nth_id n g = fst (ig_Next (((snd \<circ> ig_Next) ^^ n) g))"

lemma ig_Next_pow: "((snd \<circ> ig_Next) ^^ n) g = g\<lparr>ig_counter := ig_counter g + of_nat n\<rparr>"
  by (induction n) (simp_all add: ig_Next_def Let_def ac_simps)

lemma prefix_low: "take_bit 24 (ig_prefix (NewIDGenerator now prefix)) = 0"
  by (rule bit_eqI) (auto simp: NewIDGenerator_def Let_def bit_take_bit_iff bit_or_iff bit_push_bit_iff)

lemma and_mask24: "(x :: u64) AND 0xFFFFFF = take_bit 24 x"
  by (simp add: take_bit_eq_mask mask_eq_exp_minus_1)

text \<open>The identifiers of a generator repeat with period \<open>2 ^ 24\<close> and no sooner: two identifiers are the
  same exactly if their numbers agree modulo \<open>2 ^ 24\<close>, since the counter is cut to 24 bits.\<close>

theorem ids_period:
  "nth_id i (NewIDGenerator now prefix) = nth_id j (NewIDGenerator now prefix) \<longleftrightarrow> i mod 2 ^ 24 = j mod 2 ^ 24"
proof -
  let ?p = "ig_prefix (NewIDGenerator now prefix)"
  have id: "nth_id n (NewIDGenerator now prefix) = ?p OR take_bit 24 (of_nat (Suc n))" for n
    by (simp add: nth_id_def ig_Next_pow ig_Next_def Let_def and_mask24 NewIDGenerator_def ac_simps)
  have low: "take_bit 24 (?p OR take_bit 24 x) = take_bit 24 x" for x
    by (simp add: take_bit_or prefix_low)
  have "nth_id i (NewIDGenerator now prefix) = nth_id j (NewIDGenerator now prefix) \<longleftrightarrow>
      take_bit 24 (of_nat (Suc i) :: u64) = take_bit 24 (of_nat (Suc j))"
    unfolding id using low by metis
  also have "\<dots> \<longleftrightarrow> Suc i mod 2 ^ 24 = Suc j mod 2 ^ 24"
  proof -
    have "unat (take_bit 24 (of_nat n :: u64)) = n mod 2 ^ 24" for n
    proof -
      have "(2 :: nat) ^ 24 dvd 2 ^ 64"
        by (rule le_imp_power_dvd) simp
      have "unat (take_bit 24 (of_nat n :: u64)) = take_bit 24 (unat (of_nat n :: u64))"
        by (rule unsigned_take_bit_eq)
      also have "\<dots> = n mod 2 ^ 64 mod 2 ^ 24"
        by (simp add: unat_of_nat take_bit_eq_mod)
      also have "\<dots> = n mod 2 ^ 24"
        using \<open>2 ^ 24 dvd 2 ^ 64\<close> by (rule mod_mod_cancel)
      finally show ?thesis .
    qed
    then show ?thesis
      by (metis word_unat_eq_iff)
  qed
  also have "\<dots> \<longleftrightarrow> i mod 2 ^ 24 = j mod 2 ^ 24"
    by (auto simp: mod_Suc)
  finally show ?thesis .
qed

end
