(* ===== verification/Kafka_Handlers.thy ===== *)
theory Kafka_Handlers
  imports Kafka_Wire Kafka_Bridge Kafka_Offsets
begin

text \<open>
  The Kafka request handlers: \<^verbatim>\<open>src/pkg/kafka/handlers.go\<close> and
  \<^verbatim>\<open>handlers_extended.go\<close>, with the dispatch and the connection loop of
  \<^verbatim>\<open>protocol.go\<close>. A handler reads the body of a request, works on the coordinators and the store,
  and returns the body of the answer; \<open>None\<close> is a panic, which ends the server. The store is the in-memory
  one. The record \<open>kenv\<close> has what a request finds outside: the time, and the orders in which the maps of
  partitions, members and groups are iterated over. The nil byte slice is \<open>None\<close>; the store does
  not tell it from the empty key, and only a handler without a bridge stores nil keys.
\<close>

record kenv =
  ke_now :: instant
  ke_cfg :: ProcessorConfig
  ke_parts :: "i32 list"
  ke_members :: "string \<Rightarrow> string list"
  ke_groups :: "string list"

text \<open>The bridge is its batch writer; its store is the handler's.\<close>

record KafkaProtocolHandler =
  kh_translator :: bool
  kh_bridge :: "BatchWriter option"
  kh_ids :: IDGenerator
  kh_messageStore :: InMemoryMessageStore
  kh_groupCoordinator :: "GroupCoordinator option"
  kh_offsetManager :: "OffsetManagerWithMetadata option"

definition NewKafkaProtocolHandler :: "IDGenerator \<Rightarrow> InMemoryMessageStore \<Rightarrow> KafkaProtocolHandler" where
  "NewKafkaProtocolHandler ids s =
     \<lparr>kh_translator = True, kh_bridge = bw_Start DefaultBatchWriter, kh_ids = ids, kh_messageStore = s,
      kh_groupCoordinator = None, kh_offsetManager = None\<rparr>"

definition NewKafkaProtocolHandlerWithCoordinators ::
  "IDGenerator \<Rightarrow> InMemoryMessageStore \<Rightarrow> GroupCoordinator option \<Rightarrow> OffsetManagerWithMetadata option \<Rightarrow> KafkaProtocolHandler" where
  "NewKafkaProtocolHandlerWithCoordinators ids s gc om =
     \<lparr>kh_translator = True, kh_bridge = bw_Start DefaultBatchWriter, kh_ids = ids, kh_messageStore = s,
      kh_groupCoordinator = gc, kh_offsetManager = om\<rparr>"

section \<open>Reading and writing\<close>

text \<open>\<^verbatim>\<open>binary.Read\<close> into a variable, ignoring the error: the variable keeps its value if there
  are not enough bytes.\<close>

definition binary_Read :: "'a::len word \<Rightarrow> byte list \<Rightarrow> 'a word \<times> byte list" where
  "binary_Read d r =
     (case ReadFull (LENGTH('a) div 8) r of (Inr b, r) \<Rightarrow> (be_get b, r) | (Inl _, r) \<Rightarrow> (d, r))"

definition read_str :: "byte list \<Rightarrow> string \<times> byte list" where
  "read_str r = (case readString r of (Inr s, r) \<Rightarrow> (s, r) | (Inl _, r) \<Rightarrow> ([], r))"

fun read_strs :: "nat \<Rightarrow> byte list \<Rightarrow> string list \<times> byte list" where
  "read_strs 0 r = ([], r)"
| "read_strs (Suc n) r = (let (s, r) = read_str r; (ss, r) = read_strs n r in (s # ss, r))"

definition int16 :: "i16 \<Rightarrow> byte list" where "int16 x = be_put 2 x"
definition int32 :: "i32 \<Rightarrow> byte list" where "int32 x = be_put 4 x"
definition int64 :: "i64 \<Rightarrow> byte list" where "int64 x = be_put 8 x"

definition NoError :: i16 where "NoError = 0"
definition UnknownTopicOrPartition :: i16 where "UnknownTopicOrPartition = 3"

section \<open>Topics\<close>

definition partition_bytes :: "PartitionMetadata \<Rightarrow> byte list" where
  "partition_bytes p =
     int16 (pm_Error p) @ int32 (pm_ID p) @ int32 (pm_Leader p) @
     int32 (of_nat (length (pm_Replicas p))) @ concat (map int32 (pm_Replicas p)) @
     int32 (of_nat (length (pm_ISR p))) @ concat (map int32 (pm_ISR p)) @ int32 0"

definition handleMetadata :: "kenv \<Rightarrow> KafkaRequest \<Rightarrow> KafkaProtocolHandler \<Rightarrow> (byte list \<times> KafkaProtocolHandler) option" where
  "handleMetadata e request h =
     (let (topicCount, r) = binary_Read (0 :: i32) (rq_Body request);
          requestedTopics =
            (if topicCount = -1 then [''test-topic'']
             else if sint topicCount > 0 then fst (read_strs (nat (sint topicCount)) r)
             else [''test-topic''])
      in case GetTopicMetadata (ke_parts e) requestedTopics (kh_messageStore h) of
           (Inl _, s) \<Rightarrow> Some (int32 0 @ int32 0 @ int32 (-1) @ int32 0 @ int32 0, h\<lparr>kh_messageStore := s\<rparr>)
         | (Inr metadata, s) \<Rightarrow>
             Some (int32 0 @ int32 1 @ int32 0 @ writeString ''localhost'' @ int32 9092 @ writeString [] @ writeString [] @
                   int32 0 @ int32 1 @ int16 (td_Error metadata) @ writeString (td_Name metadata) @ [0] @
                   int32 (of_nat (length (td_Partitions metadata))) @ concat (map partition_bytes (td_Partitions metadata)),
                   h\<lparr>kh_messageStore := s\<rparr>))"

fun create_topics :: "nat \<Rightarrow> byte list \<Rightarrow> InMemoryMessageStore \<Rightarrow> byte list \<times> InMemoryMessageStore" where
  "create_topics 0 r s = ([], s)"
| "create_topics (Suc n) r s =
     (let (topic, r) = read_str r;
          (numPartitions, r) = binary_Read (0 :: i32) r;
          (replicationFactor, r) = binary_Read (0 :: i16) r;
          (assignmentCount, r) = binary_Read (0 :: i32) r;
          (configCount, r) = binary_Read (0 :: i32) r;
          (out, s) = create_topics n r (CreateTopic topic numPartitions s)
      in (writeString topic @ int16 NoError @ writeString [] @ out, s))"

definition handleCreateTopics :: "KafkaRequest \<Rightarrow> KafkaProtocolHandler \<Rightarrow> (byte list \<times> KafkaProtocolHandler) option" where
  "handleCreateTopics request h =
     (let (topicCount, r) = binary_Read (0 :: i32) (rq_Body request);
          (out, s) = create_topics (nat (sint topicCount)) r (kh_messageStore h)
      in Some (int32 0 @ int32 topicCount @ out, h\<lparr>kh_messageStore := s\<rparr>))"

fun delete_topics :: "nat \<Rightarrow> byte list \<Rightarrow> InMemoryMessageStore \<Rightarrow> byte list \<times> InMemoryMessageStore" where
  "delete_topics 0 r s = ([], s)"
| "delete_topics (Suc n) r s =
     (let (topic, r) = read_str r; (out, s) = delete_topics n r (DeleteTopic topic s)
      in (writeString topic @ int16 NoError @ out, s))"

definition handleDeleteTopics :: "KafkaRequest \<Rightarrow> KafkaProtocolHandler \<Rightarrow> (byte list \<times> KafkaProtocolHandler) option" where
  "handleDeleteTopics request h =
     (let (topicCount, r) = binary_Read (0 :: i32) (rq_Body request);
          (out, s) = delete_topics (nat (sint topicCount)) r (kh_messageStore h)
      in Some (int32 0 @ int32 topicCount @ out, h\<lparr>kh_messageStore := s\<rparr>))"

section \<open>Producing\<close>

text \<open>\<open>None\<close> is an error.\<close>

definition produce_one :: "kenv \<Rightarrow> string \<Rightarrow> i32 \<Rightarrow> byte list \<Rightarrow> KafkaProtocolHandler \<Rightarrow> i64 option \<times> KafkaProtocolHandler" where
  "produce_one e topic part messageSet h =
     (case kh_bridge h of
        Some bw \<Rightarrow>
          (case TranslateProduce (ke_now e) topic part [] messageSet (kh_ids h) of
             (None, g) \<Rightarrow> (None, h\<lparr>kh_ids := g\<rparr>)
           | (Some msg, g) \<Rightarrow>
               (case bridge_ProduceMessage (ke_cfg e) (ke_now e) msg (bw, kh_messageStore h) of
                  (res, bw, s) \<Rightarrow>
                    ((case res of Inl _ \<Rightarrow> None | Inr offset \<Rightarrow> Some offset),
                     h\<lparr>kh_ids := g, kh_bridge := Some bw, kh_messageStore := s\<rparr>)))
      | None \<Rightarrow>
          (case ProduceMessage (ke_now e) topic part [] messageSet (kh_messageStore h) of
             (res, s) \<Rightarrow> ((case res of Inl _ \<Rightarrow> None | Inr offset \<Rightarrow> Some offset), h\<lparr>kh_messageStore := s\<rparr>)))"

definition produce_answer :: "i32 \<Rightarrow> i64 option \<Rightarrow> byte list" where
  "produce_answer part res =
     int32 part @
     (case res of None \<Rightarrow> int16 UnknownTopicOrPartition @ int64 (-1) | Some offset \<Rightarrow> int16 NoError @ int64 offset) @
     int64 (-1) @ int64 (-1)"

text \<open>\<^verbatim>\<open>make([]byte, messageSetSize)\<close> panics for a negative size.\<close>

fun produce_partitions ::
  "kenv \<Rightarrow> string \<Rightarrow> nat \<Rightarrow> byte list \<Rightarrow> KafkaProtocolHandler \<Rightarrow> (byte list \<times> byte list \<times> KafkaProtocolHandler) option" where
  "produce_partitions e topic 0 r h = Some ([], r, h)"
| "produce_partitions e topic (Suc n) r h =
     (let (part, r) = binary_Read (0 :: i32) r;
          (messageSetSize, r) = binary_Read (0 :: i32) r;
          sz = nat (sint messageSetSize)
      in if sint messageSetSize < 0 then None
         else let (res, h) = produce_one e topic part (take sz r @ replicate (sz - length r) 0) h
              in case produce_partitions e topic n (drop sz r) h of
                   None \<Rightarrow> None
                 | Some (out, r, h) \<Rightarrow> Some (produce_answer part res @ out, r, h))"

fun produce_topics :: "kenv \<Rightarrow> nat \<Rightarrow> byte list \<Rightarrow> KafkaProtocolHandler \<Rightarrow> (byte list \<times> KafkaProtocolHandler) option" where
  "produce_topics e 0 r h = Some ([], h)"
| "produce_topics e (Suc n) r h =
     (let (topic, r) = read_str r;
          (partitionCount, r) = binary_Read (0 :: i32) r
      in case produce_partitions e topic (nat (sint partitionCount)) r h of
           None \<Rightarrow> None
         | Some (out, r, h) \<Rightarrow>
             (case produce_topics e n r h of
                None \<Rightarrow> None
              | Some (out', h) \<Rightarrow> Some (writeString topic @ int32 partitionCount @ out @ out', h)))"

definition handleProduce :: "kenv \<Rightarrow> KafkaRequest \<Rightarrow> KafkaProtocolHandler \<Rightarrow> (byte list \<times> KafkaProtocolHandler) option" where
  "handleProduce e request h =
     (let (requiredAcks, r) = binary_Read (0 :: i16) (rq_Body request);
          (timeout, r) = binary_Read (0 :: i32) r;
          (topicCount, r) = binary_Read (0 :: i32) r
      in case produce_topics e (nat (sint topicCount)) r h of
           None \<Rightarrow> None
         | Some (out, h) \<Rightarrow> Some (int32 0 @ int32 topicCount @ out, h))"

section \<open>Fetching\<close>

text \<open>The outer \<open>None\<close> is a panic, the inner one an error.\<close>

definition fetch_one ::
  "string \<Rightarrow> i32 \<Rightarrow> i64 \<Rightarrow> i32 \<Rightarrow> KafkaProtocolHandler \<Rightarrow> (i64 \<times> byte list option \<times> byte list) list option option" where
  "fetch_one topic part fetchOffset partitionMaxBytes h =
     (if kh_bridge h \<noteq> None \<and> kh_translator h
      then (case TranslateFetch topic part fetchOffset partitionMaxBytes of
              None \<Rightarrow> Some None
            | Some req \<Rightarrow>
                (case FetchMessages req (kh_messageStore h) of
                   None \<Rightarrow> None
                 | Some (Inl _) \<Rightarrow> Some None
                 | Some (Inr ms) \<Rightarrow> Some (Some (map (\<lambda>m. (m_Timestamp m, Some (bytes_of (m_Key m)), m_Payload m)) ms))))
      else (case ConsumeMessages topic part fetchOffset partitionMaxBytes (kh_messageStore h) of
              None \<Rightarrow> None
            | Some (Inl _) \<Rightarrow> Some None
            | Some (Inr ms) \<Rightarrow>
                Some (Some (map (\<lambda>m. (msg_Offset m, if msg_Key m = [] \<and> kh_bridge h = None then None else Some (msg_Key m), msg_Value m)) ms))))"

definition record_bytes :: "i64 \<times> byte list option \<times> byte list \<Rightarrow> byte list" where
  "record_bytes = (\<lambda>(offset, key, val). int64 offset @ writeBytes key @ writeBytes (Some val))"

definition fetch_answer :: "i32 \<Rightarrow> (i64 \<times> byte list option \<times> byte list) list option \<Rightarrow> byte list" where
  "fetch_answer part res =
     int32 part @
     (case res of
        None \<Rightarrow> int16 UnknownTopicOrPartition @ int64 (-1) @ int64 (-1) @ int64 (-1) @ int32 0 @ int32 0
      | Some messages \<Rightarrow>
          let recordBuf = concat (map record_bytes messages)
          in int16 NoError @ int64 1000 @ int64 (-1) @ int64 0 @ int32 0 @ int32 (of_nat (length recordBuf)) @ recordBuf)"

fun fetch_partitions :: "string \<Rightarrow> nat \<Rightarrow> byte list \<Rightarrow> KafkaProtocolHandler \<Rightarrow> (byte list \<times> byte list) option" where
  "fetch_partitions topic 0 r h = Some ([], r)"
| "fetch_partitions topic (Suc n) r h =
     (let (part, r) = binary_Read (0 :: i32) r;
          (fetchOffset, r) = binary_Read (0 :: i64) r;
          (partitionMaxBytes, r) = binary_Read (0 :: i32) r
      in case fetch_one topic part fetchOffset partitionMaxBytes h of
           None \<Rightarrow> None
         | Some res \<Rightarrow>
             (case fetch_partitions topic n r h of
                None \<Rightarrow> None
              | Some (out, r) \<Rightarrow> Some (fetch_answer part res @ out, r)))"

fun fetch_topics :: "nat \<Rightarrow> byte list \<Rightarrow> KafkaProtocolHandler \<Rightarrow> byte list option" where
  "fetch_topics 0 r h = Some []"
| "fetch_topics (Suc n) r h =
     (let (topic, r) = read_str r;
          (partitionCount, r) = binary_Read (0 :: i32) r
      in case fetch_partitions topic (nat (sint partitionCount)) r h of
           None \<Rightarrow> None
         | Some (out, r) \<Rightarrow>
             (case fetch_topics n r h of
                None \<Rightarrow> None
              | Some out' \<Rightarrow> Some (writeString topic @ int32 partitionCount @ out @ out')))"

definition handleFetch :: "KafkaRequest \<Rightarrow> KafkaProtocolHandler \<Rightarrow> (byte list \<times> KafkaProtocolHandler) option" where
  "handleFetch request h =
     (let (replicaId, r) = binary_Read (0 :: i32) (rq_Body request);
          (maxWaitTime, r) = binary_Read (0 :: i32) r;
          (minBytes, r) = binary_Read (0 :: i32) r;
          (maxBytes, r) = (if sint (rh_APIVersion (rq_Header request)) \<ge> 3 then binary_Read (1024 * 1024 :: i32) r
                           else (1024 * 1024, r));
          (topicCount, r) = binary_Read (0 :: i32) r
      in case fetch_topics (nat (sint topicCount)) r h of
           None \<Rightarrow> None
         | Some out \<Rightarrow> Some (int32 0 @ int32 topicCount @ out, h))"

section \<open>Fixed answers\<close>

definition handleListOffsets :: "byte list" where
  "handleListOffsets = int32 0 @ int32 0"

definition handleSaslHandshake :: "byte list" where
  "handleSaslHandshake =
     int16 NoError @ int32 3 @ writeString ''PLAIN'' @ writeString ''SCRAM-SHA-256'' @ writeString ''SCRAM-SHA-512''"

definition handleSaslAuthenticate :: "byte list" where
  "handleSaslAuthenticate = int16 NoError @ writeString [] @ writeBytes (Some (bytes_of ''auth-success'')) @ int64 0"

definition handleFindCoordinator :: "byte list" where
  "handleFindCoordinator = int32 0 @ int16 0 @ int16 0 @ int32 0 @ writeString ''localhost'' @ int32 9092"

definition handleInitProducerId :: "kenv \<Rightarrow> byte list" where
  "handleInitProducerId e = int32 0 @ int16 0 @ int64 (word_of_int (ke_now e)) @ int16 0"

definition handleAddPartitionsToTxn :: "byte list" where
  "handleAddPartitionsToTxn = int32 0 @ int32 0"

definition handleEndTxn :: "byte list" where
  "handleEndTxn = int32 0 @ int16 0"

section \<open>Groups\<close>

definition handleJoinGroup :: "kenv \<Rightarrow> KafkaRequest \<Rightarrow> KafkaProtocolHandler \<Rightarrow> byte list \<times> KafkaProtocolHandler" where
  "handleJoinGroup e request h =
     (let (groupID, r) = read_str (rq_Body request);
          (sessionTimeout, r) = binary_Read (0 :: i32) r;
          (rebalanceTimeout, r) = binary_Read (0 :: i32) r;
          (memberID, r) = read_str r;
          (protocolType, r) = read_str r
      in case kh_groupCoordinator h of
           Some gc \<Rightarrow>
             (case JoinGroup (ke_now e) (ke_members e groupID) groupID memberID ''client-1'' ''localhost''
                     (sint sessionTimeout * Millisecond) (sint rebalanceTimeout * Millisecond) (Some []) gc of
                (resp, gc) \<Rightarrow>
                  (int32 0 @ int16 0 @ int32 (jr_GenerationID resp) @ writeString (jr_ProtocolName resp) @
                   writeString (jr_LeaderID resp) @ writeString (jr_MemberID resp) @
                   int32 (of_nat (length (jr_Members resp))) @
                   concat (map (\<lambda>m. writeString (mi_MemberID m) @ writeBytes (mi_Metadata m)) (jr_Members resp)),
                   h\<lparr>kh_groupCoordinator := Some gc\<rparr>))
         | None \<Rightarrow> (int32 0 @ int16 15 @ int32 0 @ writeString [] @ writeString [] @ writeString [] @ int32 0, h))"

fun read_assignments :: "nat \<Rightarrow> byte list \<Rightarrow> (string, byte list option) fmap \<Rightarrow> (string, byte list option) fmap" where
  "read_assignments 0 r asg = asg"
| "read_assignments (Suc n) r asg =
     (let (member, r) = read_str r;
          (b, r) = readBytes r
      in read_assignments n r (fmupd member (case b of Inr b \<Rightarrow> b | Inl _ \<Rightarrow> None) asg))"

definition handleSyncGroup :: "kenv \<Rightarrow> KafkaRequest \<Rightarrow> KafkaProtocolHandler \<Rightarrow> byte list \<times> KafkaProtocolHandler" where
  "handleSyncGroup e request h =
     (let (groupID, r) = read_str (rq_Body request);
          (generationID, r) = binary_Read (0 :: i32) r;
          (memberID, r) = read_str r;
          (assignmentCount, r) = binary_Read (0 :: i32) r;
          assignments = read_assignments (nat (sint assignmentCount)) r fmempty
      in case kh_groupCoordinator h of
           Some gc \<Rightarrow>
             (case SyncGroup (ke_now e) groupID memberID generationID assignments gc of
                (Inl _, gc) \<Rightarrow> (int32 0 @ int16 15 @ writeBytes (Some []), h\<lparr>kh_groupCoordinator := Some gc\<rparr>)
              | (Inr resp, gc) \<Rightarrow>
                  (int32 0 @ int16 0 @ writeBytes (sr_Assignment resp), h\<lparr>kh_groupCoordinator := Some gc\<rparr>))
         | None \<Rightarrow> (int32 0 @ int16 15 @ writeBytes (Some []), h))"

definition handleHeartbeat :: "kenv \<Rightarrow> KafkaRequest \<Rightarrow> KafkaProtocolHandler \<Rightarrow> byte list \<times> KafkaProtocolHandler" where
  "handleHeartbeat e request h =
     (let (groupID, r) = read_str (rq_Body request);
          (generationID, r) = binary_Read (0 :: i32) r;
          (memberID, r) = read_str r
      in case kh_groupCoordinator h of
           Some gc \<Rightarrow>
             (case Heartbeat (ke_now e) groupID memberID generationID gc of
                (err, gc) \<Rightarrow> (int32 0 @ int16 (if err = None then 0 else 27), h\<lparr>kh_groupCoordinator := Some gc\<rparr>))
         | None \<Rightarrow> (int32 0 @ int16 15, h))"

definition handleLeaveGroup :: "kenv \<Rightarrow> KafkaRequest \<Rightarrow> KafkaProtocolHandler \<Rightarrow> byte list \<times> KafkaProtocolHandler" where
  "handleLeaveGroup e request h =
     (let (groupID, r) = read_str (rq_Body request);
          (memberID, r) = read_str r
      in case kh_groupCoordinator h of
           Some gc \<Rightarrow>
             (case LeaveGroup (ke_members e groupID) groupID memberID gc of
                (err, gc) \<Rightarrow> (int32 0 @ int16 (if err = None then 0 else 69), h\<lparr>kh_groupCoordinator := Some gc\<rparr>))
         | None \<Rightarrow> (int32 0 @ int16 15, h))"

text \<open>\<^verbatim>\<open>make([]string, groupCount)\<close> panics for a negative count and otherwise makes that many
  empty names, to which the names read are appended.\<close>

definition description_bytes :: "GroupDescription \<Rightarrow> byte list" where
  "description_bytes d =
     int16 0 @ writeString (gd_GroupID d) @ writeString (gd_State d) @ writeString (gd_ProtocolType d) @
     writeString (gd_Protocol d) @ int32 (of_nat (length (gd_Members d))) @
     concat (map (\<lambda>m. writeString (md_MemberID m) @ writeString (md_ClientID m) @ writeString (md_ClientHost m) @
       writeBytes (md_Metadata m) @ writeBytes (md_Assignment m)) (gd_Members d))"

definition handleDescribeGroups :: "kenv \<Rightarrow> KafkaRequest \<Rightarrow> KafkaProtocolHandler \<Rightarrow> byte list option" where
  "handleDescribeGroups e request h =
     (let (groupCount, r) = binary_Read (0 :: i32) (rq_Body request);
          n = nat (sint groupCount);
          groupIDs = replicate n [] @ fst (read_strs n r)
      in if sint groupCount < 0 then None
         else Some (case kh_groupCoordinator h of
           Some gc \<Rightarrow>
             let descriptions = concat (map (\<lambda>i. case DescribeGroups (ke_members e) groupIDs gc i of
                   None \<Rightarrow> [] | Some d \<Rightarrow> [d]) (ke_groups e))
             in int32 0 @ int32 (of_nat (length descriptions)) @ concat (map description_bytes descriptions)
         | None \<Rightarrow> int32 0 @ int32 0))"

definition handleListGroups :: "kenv \<Rightarrow> KafkaProtocolHandler \<Rightarrow> byte list" where
  "handleListGroups e h =
     (case kh_groupCoordinator h of
        Some gc \<Rightarrow>
          let groups = ListGroups (ke_groups e) gc
          in int32 0 @ int16 0 @ int32 (of_nat (length groups)) @
             concat (map (\<lambda>g. writeString (go_GroupID g) @ writeString (go_ProtocolType g)) groups)
      | None \<Rightarrow> int32 0 @ int16 15 @ int32 0)"

section \<open>Offsets\<close>

fun commit_partitions ::
  "instant \<Rightarrow> string \<Rightarrow> string \<Rightarrow> nat \<Rightarrow> byte list \<Rightarrow> OffsetManagerWithMetadata \<Rightarrow> byte list \<times> OffsetManagerWithMetadata" where
  "commit_partitions now groupID topicName 0 r om = (r, om)"
| "commit_partitions now groupID topicName (Suc n) r om =
     (let (part, r) = binary_Read (0 :: i32) r;
          (offset, r) = binary_Read (0 :: i64) r;
          (metadata, r) = read_str r
      in commit_partitions now groupID topicName n r (CommitOffsetWithMetadata now groupID topicName part offset metadata om))"

fun commit_topics ::
  "instant \<Rightarrow> string \<Rightarrow> nat \<Rightarrow> byte list \<Rightarrow> OffsetManagerWithMetadata \<Rightarrow> OffsetManagerWithMetadata" where
  "commit_topics now groupID 0 r om = om"
| "commit_topics now groupID (Suc n) r om =
     (let (topicName, r) = read_str r;
          (partitionCount, r) = binary_Read (0 :: i32) r;
          (r, om) = commit_partitions now groupID topicName (nat (sint partitionCount)) r om
      in commit_topics now groupID n r om)"

definition handleOffsetCommit :: "kenv \<Rightarrow> KafkaRequest \<Rightarrow> KafkaProtocolHandler \<Rightarrow> byte list \<times> KafkaProtocolHandler" where
  "handleOffsetCommit e request h =
     (let (groupID, r) = read_str (rq_Body request);
          (generationID, r) = binary_Read (0 :: i32) r;
          (topicCount, r) = binary_Read (0 :: i32) r
      in case kh_offsetManager h of
           Some om \<Rightarrow>
             (int32 0 @ int32 topicCount @ concat (replicate (nat (sint topicCount)) (writeString ''topic'' @ int32 0)),
              h\<lparr>kh_offsetManager := Some (commit_topics (ke_now e) groupID (nat (sint topicCount)) r om)\<rparr>)
         | None \<Rightarrow> (int32 0 @ int32 0, h))"

fun offset_partitions ::
  "string \<Rightarrow> string \<Rightarrow> nat \<Rightarrow> byte list \<Rightarrow> OffsetManagerWithMetadata \<Rightarrow> byte list \<times> byte list" where
  "offset_partitions groupID topicName 0 r om = ([], r)"
| "offset_partitions groupID topicName (Suc n) r om =
     (let (part, r) = binary_Read (0 :: i32) r;
          offset = (case FetchOffsetMetadata groupID topicName part om of Inl _ \<Rightarrow> -1 | Inr meta \<Rightarrow> om_Offset meta);
          (out, r) = offset_partitions groupID topicName n r om
      in (int32 part @ int64 offset @ writeString [] @ int16 0 @ out, r))"

fun offset_topics :: "string \<Rightarrow> nat \<Rightarrow> byte list \<Rightarrow> OffsetManagerWithMetadata \<Rightarrow> byte list" where
  "offset_topics groupID 0 r om = []"
| "offset_topics groupID (Suc n) r om =
     (let (topicName, r) = read_str r;
          (partitionCount, r) = binary_Read (0 :: i32) r;
          (out, r) = offset_partitions groupID topicName (nat (sint partitionCount)) r om
      in writeString topicName @ int32 partitionCount @ out @ offset_topics groupID n r om)"

definition handleOffsetFetch :: "KafkaRequest \<Rightarrow> KafkaProtocolHandler \<Rightarrow> byte list" where
  "handleOffsetFetch request h =
     (let (groupID, r) = read_str (rq_Body request);
          (topicCount, r) = binary_Read (0 :: i32) r
      in int32 0 @
         (case kh_offsetManager h of
            Some om \<Rightarrow> int32 topicCount @ offset_topics groupID (nat (sint topicCount)) r om @ int16 0
          | None \<Rightarrow> int32 0 @ int16 15))"

section \<open>Requests and connections\<close>

definition response_body :: "kenv \<Rightarrow> KafkaRequest \<Rightarrow> KafkaProtocolHandler \<Rightarrow> (byte list \<times> KafkaProtocolHandler) option" where
  "response_body e request h =
     (case handler_of (rh_APIKey (rq_Header request)) of
        None \<Rightarrow> Some (createErrorResponse UnsupportedVersion, h)
      | Some ApiVersions_h \<Rightarrow> Some (handleApiVersions, h)
      | Some Metadata_h \<Rightarrow> handleMetadata e request h
      | Some Produce_h \<Rightarrow> handleProduce e request h
      | Some Fetch_h \<Rightarrow> handleFetch request h
      | Some ListOffsets_h \<Rightarrow> Some (handleListOffsets, h)
      | Some CreateTopics_h \<Rightarrow> handleCreateTopics request h
      | Some DeleteTopics_h \<Rightarrow> handleDeleteTopics request h
      | Some SaslHandshake_h \<Rightarrow> Some (handleSaslHandshake, h)
      | Some SaslAuthenticate_h \<Rightarrow> Some (handleSaslAuthenticate, h)
      | Some DescribeGroups_h \<Rightarrow> map_option (\<lambda>out. (out, h)) (handleDescribeGroups e request h)
      | Some OffsetCommit_h \<Rightarrow> Some (handleOffsetCommit e request h)
      | Some OffsetFetch_h \<Rightarrow> Some (handleOffsetFetch request h, h)
      | Some FindCoordinator_h \<Rightarrow> Some (handleFindCoordinator, h)
      | Some JoinGroup_h \<Rightarrow> Some (handleJoinGroup e request h)
      | Some SyncGroup_h \<Rightarrow> Some (handleSyncGroup e request h)
      | Some Heartbeat_h \<Rightarrow> Some (handleHeartbeat e request h)
      | Some InitProducerId_h \<Rightarrow> Some (handleInitProducerId e, h)
      | Some AddPartitionsToTxn_h \<Rightarrow> Some (handleAddPartitionsToTxn, h)
      | Some EndTxn_h \<Rightarrow> Some (handleEndTxn, h))"

definition handleRequest :: "kenv \<Rightarrow> KafkaRequest \<Rightarrow> KafkaProtocolHandler \<Rightarrow> (KafkaResponse \<times> KafkaProtocolHandler) option" where
  "handleRequest e request h =
     (case response_body e request h of
        None \<Rightarrow> None
      | Some (body, h) \<Rightarrow>
          Some (\<lparr>rp_Header = \<lparr>rs_CorrelationID = rh_CorrelationID (rq_Header request)\<rparr>, rp_Body = body\<rparr>, h))"

text \<open>A request read leaves fewer bytes.\<close>

lemma readRequest_shorter: "readRequest conn = (Inr req, conn') \<Longrightarrow> length conn' < length conn"
  by (auto simp: readRequest_def Let_def split: prod.splits sum.splits if_splits dest!: ReadFull_Inr)

text \<open>The timer of the batch writer.\<close>

definition flush_tick :: "instant \<Rightarrow> KafkaProtocolHandler \<Rightarrow> KafkaProtocolHandler" where
  "flush_tick now h =
     (case kh_bridge h of
        None \<Rightarrow> h
      | Some bw \<Rightarrow>
          (case bw_tick (StoreBatch now) (bw, kh_messageStore h) of
             (bw, s) \<Rightarrow> h\<lparr>kh_bridge := Some bw, kh_messageStore := s\<rparr>))"

text \<open>The loop of \<^verbatim>\<open>HandleConnection\<close>, for a client that takes every answer: why it ends, what was
  sent, and the handler. Request number \<open>k\<close> finds \<open>env k\<close>, and \<open>others k\<close> is what the other
  connections and the timers did to the handler before it.\<close>

function HandleConnection ::
  "(nat \<Rightarrow> kenv) \<Rightarrow> (nat \<Rightarrow> KafkaProtocolHandler \<Rightarrow> KafkaProtocolHandler) \<Rightarrow> nat \<Rightarrow> byte list \<Rightarrow> KafkaProtocolHandler \<Rightarrow>
     (read_error \<times> byte list \<times> KafkaProtocolHandler) option" where
  "HandleConnection env others k conn h =
     (case readRequest conn of
        (Inl err, _) \<Rightarrow> Some (err, [], h)
      | (Inr request, conn) \<Rightarrow>
          (case handleRequest (env k) request (others k h) of
             None \<Rightarrow> None
           | Some (response, h) \<Rightarrow>
               (case HandleConnection env others (Suc k) conn h of
                  None \<Rightarrow> None
                | Some (err, sent, h) \<Rightarrow> Some (err, writeResponse response @ sent, h))))"
  by pat_completeness auto
termination
  by (relation "measure (\<lambda>(env, others, k, conn, h). length conn)") (auto dest: readRequest_shorter [OF sym])

declare HandleConnection.simps [simp del]

section \<open>What a handler reads of what a client writes\<close>

lemma binary_Read_int [simp]:
  "binary_Read d (int16 x @ r) = (x, r)"
  "binary_Read d' (int32 y @ r) = (y, r)"
  "binary_Read d'' (int64 z @ r) = (z, r)"
  by (simp_all add: binary_Read_def int16_def int32_def int64_def ReadFull_enough be16.get_put be32.get_put be64.get_put)

lemma read_str_writeString: "length s < 2 ^ 15 \<Longrightarrow> read_str (writeString s @ r) = (s, r)"
  by (simp add: read_str_def readString_writeString)

lemma nat_sint_of_nat32: "n < 2 ^ 31 \<Longrightarrow> nat (sint (of_nat n :: i32)) = n"
  by (simp add: sint_of_nat32)

section \<open>Connections\<close>

text \<open>Requests one after the other, with the answers.\<close>

fun serve ::
  "(nat \<Rightarrow> kenv) \<Rightarrow> (nat \<Rightarrow> KafkaProtocolHandler \<Rightarrow> KafkaProtocolHandler) \<Rightarrow> nat \<Rightarrow> KafkaRequest list \<Rightarrow> KafkaProtocolHandler \<Rightarrow>
     (KafkaResponse list \<times> KafkaProtocolHandler) option" where
  "serve env others k [] h = Some ([], h)"
| "serve env others k (rq # rqs) h =
     (case handleRequest (env k) rq (others k h) of
        None \<Rightarrow> None
      | Some (resp, h) \<Rightarrow> map_option (\<lambda>(resps, h). (resp # resps, h)) (serve env others (Suc k) rqs h))"

definition sendable :: "KafkaRequest \<Rightarrow> bool" where
  "sendable rq \<longleftrightarrow> length (rh_ClientID (rq_Header rq)) < 2 ^ 15 \<and> length (request_bytes rq) \<le> maxRequestSize"

lemma readRequest_sendable: "sendable rq \<Longrightarrow> readRequest (encode_request rq @ rest) = (Inr rq, rest)"
  by (simp add: sendable_def readRequest_def encode_request_def ReadFull_enough be32.get_put parse_request_bytes
      unat_of_nat Let_def maxRequestSize_def)

lemma readRequest_Nil: "readRequest [] = (Inl (ReadError EOF), [])"
  by (simp add: readRequest_def ReadFull_def)

lemma serve_correlation:
  "serve env others k rqs h = Some (resps, h') \<Longrightarrow>
     map (\<lambda>r. rs_CorrelationID (rp_Header r)) resps = map (\<lambda>r. rh_CorrelationID (rq_Header r)) rqs"
  by (induction rqs arbitrary: k h resps) (auto simp: handleRequest_def split: option.splits prod.splits)

lemma HandleConnection_serve:
  "list_all sendable rqs \<Longrightarrow>
   HandleConnection env others k (concat (map encode_request rqs)) h =
     map_option (\<lambda>(resps, h'). (ReadError EOF, concat (map writeResponse resps), h')) (serve env others k rqs h)"
proof (induction rqs arbitrary: k h)
  case Nil
  then show ?case
    by (subst HandleConnection.simps) (simp add: readRequest_Nil)
next
  case (Cons rq rqs)
  then show ?case
    by (subst HandleConnection.simps)
      (simp add: readRequest_sendable option.map_comp comp_def case_prod_unfold split: option.split)
qed

lemma handleRequest_answers: "rh_APIKey (rq_Header rq) \<notin> {0, 1, 15} \<Longrightarrow> handleRequest e rq h \<noteq> None"
  by (auto simp: handleRequest_def response_body_def handler_of_def handleMetadata_def handleCreateTopics_def
      handleDeleteTopics_def Let_def case_prod_unfold split: sum.splits option.splits)

lemma serve_answers:
  "list_all (\<lambda>r. rh_APIKey (rq_Header r) \<notin> {0, 1, 15}) rqs \<Longrightarrow> serve env others k rqs h \<noteq> None"
proof (induction rqs arbitrary: k h)
  case (Cons rq rqs)
  then obtain resp h1 where "handleRequest (env k) rq (others k h) = Some (resp, h1)"
    using handleRequest_answers [of rq "env k" "others k h"] by auto
  then show ?case
    using Cons by simp
qed simp

text \<open>C19. A connection serves its requests one by one. For any sequence of requests within the size limit,
  whatever the other connections do in between, the client is sent exactly one answer for each request, in
  order and with the request's correlation identifier, and the loop ends with the end of the input; unless a
  handler panics, which only the produce, fetch and describe-groups handlers can.\<close>

theorem kafka_connection:
  assumes "list_all sendable rqs"
  shows "HandleConnection env others 0 (concat (map encode_request rqs)) h =
      map_option (\<lambda>(resps, h'). (ReadError EOF, concat (map writeResponse resps), h')) (serve env others 0 rqs h) \<and>
    (serve env others 0 rqs h = Some (resps, h') \<longrightarrow>
      map (\<lambda>r. rs_CorrelationID (rp_Header r)) resps = map (\<lambda>r. rh_CorrelationID (rq_Header r)) rqs) \<and>
    (list_all (\<lambda>r. rh_APIKey (rq_Header r) \<notin> {0, 1, 15}) rqs \<longrightarrow> serve env others 0 rqs h \<noteq> None)"
  using HandleConnection_serve [OF assms] serve_correlation serve_answers by blast

definition demo_handler :: KafkaProtocolHandler where
  "demo_handler =
     NewKafkaProtocolHandlerWithCoordinators (NewIDGenerator 0 ''kafka'') demo_store (Some NewGroupCoordinator)
       (Some NewOffsetManagerWithMetadata)"

definition demo_kenv :: "nat \<Rightarrow> kenv" where
  "demo_kenv k = \<lparr>ke_now = int k, ke_cfg = DefaultProcessorConfig, ke_parts = [0], ke_members = (\<lambda>_. []), ke_groups = []\<rparr>"

theorem kafka_connection_witness:
  "\<exists>resps h'. HandleConnection demo_kenv (\<lambda>k. flush_tick (int k)) 0
      (concat (map encode_request [metadata_request, metadata_request])) demo_handler =
      Some (ReadError EOF, concat (map writeResponse resps), h') \<and>
    map (\<lambda>r. rs_CorrelationID (rp_Header r)) resps = [7, 7]"
proof -
  let ?rqs = "[metadata_request, metadata_request]"
  have ok: "list_all sendable ?rqs" "list_all (\<lambda>r. rh_APIKey (rq_Header r) \<notin> {0, 1, 15}) ?rqs"
      "map (\<lambda>r. rh_CorrelationID (rq_Header r)) ?rqs = [7, 7]"
    by (simp_all add: sendable_def metadata_request_def request_bytes_def maxRequestSize_def)
  note served = kafka_connection [OF ok(1), where env = demo_kenv and others = "\<lambda>k. flush_tick (int k)" and h = demo_handler]
  obtain resps h' where "serve demo_kenv (\<lambda>k. flush_tick (int k)) 0 ?rqs demo_handler = Some (resps, h')"
    using served [of "[]" demo_handler] ok(2) by (metis (no_types, lifting) not_None_eq old.prod.exhaust)
  then show ?thesis
    using served [of resps h'] ok(3) by (metis (no_types, lifting) case_prod_conv option.simps(9))
qed

section \<open>Offsets over the wire\<close>

text \<open>The bodies a client sends to commit offsets and to ask for them, and the answer to the latter.\<close>

type_synonym topic_commit = "string \<times> (i32 \<times> i64 \<times> string) list"

definition commit_partition_bytes :: "i32 \<times> i64 \<times> string \<Rightarrow> byte list" where
  "commit_partition_bytes = (\<lambda>(p, n, md). int32 p @ int64 n @ writeString md)"

definition commit_topic_bytes :: "topic_commit \<Rightarrow> byte list" where
  "commit_topic_bytes = (\<lambda>(t, ps). writeString t @ int32 (of_nat (length ps)) @ concat (map commit_partition_bytes ps))"

definition commit_body :: "string \<Rightarrow> i32 \<Rightarrow> topic_commit list \<Rightarrow> byte list" where
  "commit_body g gen ts = writeString g @ int32 gen @ int32 (of_nat (length ts)) @ concat (map commit_topic_bytes ts)"

definition query_body :: "string \<Rightarrow> (string \<times> i32 list) list \<Rightarrow> byte list" where
  "query_body g qs = writeString g @ int32 (of_nat (length qs)) @
     concat (map (\<lambda>(t, ps). writeString t @ int32 (of_nat (length ps)) @ concat (map int32 ps)) qs)"

definition query_answer :: "(string \<Rightarrow> i32 \<Rightarrow> i64 option) \<Rightarrow> (string \<times> i32 list) list \<Rightarrow> byte list" where
  "query_answer offset qs = int32 0 @ int32 (of_nat (length qs)) @
     concat (map (\<lambda>(t, ps). writeString t @ int32 (of_nat (length ps)) @
       concat (map (\<lambda>p. int32 p @ int64 (case offset t p of None \<Rightarrow> -1 | Some n \<Rightarrow> n) @ writeString [] @ int16 0) ps)) qs) @
     int16 0"

text \<open>Names and lists whose lengths fit.\<close>

definition commits_fit :: "topic_commit list \<Rightarrow> bool" where
  "commits_fit ts \<longleftrightarrow> length ts < 2 ^ 31 \<and>
     list_all (\<lambda>(t, ps). length t < 2 ^ 15 \<and> length ps < 2 ^ 31 \<and> list_all (\<lambda>(p, n, md). length md < 2 ^ 15) ps) ts"

definition queries_fit :: "(string \<times> i32 list) list \<Rightarrow> bool" where
  "queries_fit qs \<longleftrightarrow> length qs < 2 ^ 31 \<and> list_all (\<lambda>(t, ps). length t < 2 ^ 15 \<and> length ps < 2 ^ 31) qs"

definition flat_commits :: "string \<Rightarrow> topic_commit list \<Rightarrow> commit list" where
  "flat_commits g ts = concat (map (\<lambda>(t, ps). map (\<lambda>(p, n, md). (g, t, p, n)) ps) ts)"

lemma commit_partitions_bytes:
  "list_all (\<lambda>(p, n, md). length md < 2 ^ 15) ps \<Longrightarrow>
   commit_partitions now g t (length ps) (concat (map commit_partition_bytes ps) @ r) om =
     (r, fold (\<lambda>(p, n, md). CommitOffsetWithMetadata now g t p n md) ps om)"
  by (induction ps arbitrary: om) (auto simp: commit_partition_bytes_def read_str_writeString)

lemma commit_topics_bytes:
  "list_all (\<lambda>(t, ps). length t < 2 ^ 15 \<and> length ps < 2 ^ 31 \<and> list_all (\<lambda>(p, n, md). length md < 2 ^ 15) ps) ts \<Longrightarrow>
   commit_topics now g (length ts) (concat (map commit_topic_bytes ts)) om =
     fold (\<lambda>(t, ps). fold (\<lambda>(p, n, md). CommitOffsetWithMetadata now g t p n md) ps) ts om"
  by (induction ts arbitrary: om)
    (auto simp: commit_topic_bytes_def read_str_writeString commit_partitions_bytes nat_sint_of_nat32)

lemma omm_fetch_commit:
  "omm_fetch g t p (CommitOffsetWithMetadata now g' t' p' n md om) =
     (if g = g' \<and> t = t' \<and> p = p' then Some n else omm_fetch g t p om)"
  using omm.fetch_same [where now = now and md = md and s = om and g = g and t = t and p = p and n = n]
    omm.fetch_other [where now = now and md = md and s = om and g = g' and t = t' and p = p' and n = n and g' = g and t' = t and p' = p]
  by (auto simp: omm_commit_def)

lemma expected_append: "expected g t p (xs @ ys) old = expected g t p ys (expected g t p xs old)"
  by (induction xs arbitrary: old) (auto simp: expected_def split: option.splits)

lemma omm_fetch_partitions:
  "omm_fetch g t p (fold (\<lambda>(p, n, md). CommitOffsetWithMetadata now g' t' p n md) ps om) =
     expected g t p (map (\<lambda>(p, n, md). (g', t', p, n)) ps) (omm_fetch g t p om)"
  by (induction ps arbitrary: om) (auto simp: expected_def omm_fetch_commit split: option.splits)

lemma omm_fetch_topics:
  "omm_fetch g t p (fold (\<lambda>(t, ps). fold (\<lambda>(p, n, md). CommitOffsetWithMetadata now g' t p n md) ps) ts om) =
     expected g t p (flat_commits g' ts) (omm_fetch g t p om)"
  by (induction ts arbitrary: om)
    (auto simp: flat_commits_def omm_fetch_partitions expected_append expected_def [of _ _ _ "[]"])

lemma offset_partitions_bytes:
  "offset_partitions g t (length ps) (concat (map int32 ps) @ r) om =
     (concat (map (\<lambda>p. int32 p @ int64 (case omm_fetch g t p om of None \<Rightarrow> -1 | Some n \<Rightarrow> n) @ writeString [] @ int16 0) ps), r)"
  by (induction ps) (auto simp: omm_fetch_def Let_def split: sum.splits)

lemma offset_topics_bytes:
  "list_all (\<lambda>(t, ps). length t < 2 ^ 15 \<and> length ps < 2 ^ 31) qs \<Longrightarrow>
   offset_topics g (length qs) (concat (map (\<lambda>(t, ps). writeString t @ int32 (of_nat (length ps)) @ concat (map int32 ps)) qs)) om =
     concat (map (\<lambda>(t, ps). writeString t @ int32 (of_nat (length ps)) @
       concat (map (\<lambda>p. int32 p @ int64 (case omm_fetch g t p om of None \<Rightarrow> -1 | Some n \<Rightarrow> n) @ writeString [] @ int16 0) ps)) qs)"
  by (induction qs)
    (auto simp: read_str_writeString nat_sint_of_nat32 offset_partitions_bytes split: prod.splits)

lemma handleOffsetCommit_body:
  assumes "rq_Body rq = commit_body g gen ts" "length g < 2 ^ 15" "commits_fit ts" "kh_offsetManager h = Some om"
  shows "snd (handleOffsetCommit e rq h) = h\<lparr>kh_offsetManager :=
    Some (fold (\<lambda>(t, ps). fold (\<lambda>(p, n, md). CommitOffsetWithMetadata (ke_now e) g t p n md) ps) ts om)\<rparr>"
  using assms
  by (simp add: handleOffsetCommit_def commit_body_def commits_fit_def read_str_writeString nat_sint_of_nat32 commit_topics_bytes)

lemma handleOffsetFetch_body:
  assumes "rq_Body rq = query_body g qs" "length g < 2 ^ 15" "queries_fit qs" "kh_offsetManager h = Some om"
  shows "handleOffsetFetch rq h = query_answer (\<lambda>t p. omm_fetch g t p om) qs"
  using assms
  by (simp add: handleOffsetFetch_def query_body_def queries_fit_def read_str_writeString nat_sint_of_nat32
      offset_topics_bytes query_answer_def)

text \<open>C22. Offsets round-trip over the wire. After an offset commit request, an offset fetch request of the same
  or another group is answered, for every partition it names, with the last offset the request committed for
  it, with the one committed before if the request does not name the partition, and with -1 if there is none.\<close>

theorem offsets_over_the_wire:
  assumes "rh_APIKey (rq_Header rq) = 8" "rq_Body rq = commit_body g gen ts" "length g < 2 ^ 15" "commits_fit ts"
    and "rh_APIKey (rq_Header rq') = 9" "rq_Body rq' = query_body g' qs" "length g' < 2 ^ 15" "queries_fit qs"
    and "kh_offsetManager h = Some om" "handleRequest e rq h = Some (resp, h')"
  shows "\<exists>hd. handleRequest e' rq' h' =
    Some (\<lparr>rp_Header = hd, rp_Body = query_answer (\<lambda>t p. expected g' t p (flat_commits g ts) (omm_fetch g' t p om)) qs\<rparr>, h')"
proof -
  have "h' = snd (handleOffsetCommit e rq h)"
    using assms(1,10) by (auto simp: handleRequest_def response_body_def handler_of_def split: prod.splits)
  then show ?thesis
    using handleOffsetFetch_body [OF assms(6-8)] assms(5) handleOffsetCommit_body [OF assms(2-4,9)]
    by (simp add: handleRequest_def response_body_def handler_of_def omm_fetch_topics)
qed

definition commit_request :: KafkaRequest where
  "commit_request = \<lparr>rq_Header = \<lparr>rh_APIKey = 8, rh_APIVersion = 2, rh_CorrelationID = 1, rh_ClientID = ''me''\<rparr>,
     rq_Body = commit_body ''g'' 1 [(''t'', [(0, 5, []), (1, 9, ''x''), (0, 6, [])])]\<rparr>"

definition offset_request :: KafkaRequest where
  "offset_request = \<lparr>rq_Header = \<lparr>rh_APIKey = 9, rh_APIVersion = 1, rh_CorrelationID = 2, rh_ClientID = ''me''\<rparr>,
     rq_Body = query_body ''g'' [(''t'', [0, 7])]\<rparr>"

theorem offsets_over_the_wire_witness:
  "\<exists>resp h' hd. handleRequest (demo_kenv 0) commit_request demo_handler = Some (resp, h') \<and>
     handleRequest (demo_kenv 1) offset_request h' =
       Some (\<lparr>rp_Header = hd, rp_Body = int32 0 @ int32 1 @ writeString ''t'' @ int32 2 @
         (int32 0 @ int64 6 @ writeString [] @ int16 0) @ (int32 7 @ int64 (-1) @ writeString [] @ int16 0) @ int16 0\<rparr>, h')"
proof -
  obtain resp h' where 1: "handleRequest (demo_kenv 0) commit_request demo_handler = Some (resp, h')"
    using handleRequest_answers [of commit_request "demo_kenv 0" demo_handler] by (auto simp: commit_request_def)
  have om: "kh_offsetManager demo_handler = Some NewOffsetManagerWithMetadata" "omm_fetch g t p NewOffsetManagerWithMetadata = None" for g t p
    by (simp_all add: demo_handler_def NewKafkaProtocolHandlerWithCoordinators_def omm_fetch_def FetchOffsetMetadata_def
        NewOffsetManagerWithMetadata_def)
  have "\<exists>hd. handleRequest (demo_kenv 1) offset_request h' = Some (\<lparr>rp_Header = hd,
      rp_Body = query_answer (\<lambda>t p. expected ''g'' t p (flat_commits ''g'' [(''t'', [(0, 5, []), (1, 9, ''x''), (0, 6, [])])])
        (omm_fetch ''g'' t p NewOffsetManagerWithMetadata)) [(''t'', [0, 7])]\<rparr>, h')"
    by (rule offsets_over_the_wire [where rq = commit_request, OF _ _ _ _ _ _ _ _ om(1) 1])
      (simp_all add: commit_request_def offset_request_def commits_fit_def queries_fit_def)
  then show ?thesis
    using 1 by (simp add: query_answer_def flat_commits_def expected_def om(2))
qed

section \<open>Producing and fetching over the wire\<close>

definition produce_body :: "i16 \<Rightarrow> i32 \<Rightarrow> string \<Rightarrow> i32 \<Rightarrow> byte list \<Rightarrow> byte list" where
  "produce_body acks timeout topic part val =
     int16 acks @ int32 timeout @ int32 1 @ writeString topic @ int32 1 @ int32 part @ int32 (of_nat (length val)) @ val"

text \<open>The maximal number of bytes is sent from version 3 of the API on.\<close>

definition fetch_body :: "i16 \<Rightarrow> i32 \<Rightarrow> string \<Rightarrow> i32 \<Rightarrow> i64 \<Rightarrow> byte list" where
  "fetch_body ver maxBytes topic part off =
     int32 (-1) @ int32 100 @ int32 1 @ (if sint ver \<ge> 3 then int32 maxBytes else []) @
     int32 1 @ writeString topic @ int32 1 @ int32 part @ int64 off @ int32 maxBytes"

lemma produce_one_buffers:
  assumes "kh_bridge h = Some bw" "topic \<noteq> []" "val \<noteq> []" "pc_EnableZeroCopy (ke_cfg e)"
    and "bw_buffer bw = []" "bw_BatchSize bw > 1"
  obtains m g where
    "produce_one e topic part val h = (Some (word_of_int (ke_now e)),
       h\<lparr>kh_ids := g, kh_bridge := Some (bw\<lparr>bw_buffer := [m], bw_messageCount := bw_messageCount bw + 1\<rparr>)\<rparr>)"
    "m_Topic m = topic" "m_Partition m = 0" "m_Key m = []" "m_Payload m = val"
proof -
  obtain i g where g: "ig_Next (kh_ids h) = (i, g)"
    by fastforce
  define m0 where "m0 = zero_message\<lparr>m_ID := dec (unat i), m_Topic := topic, m_Partition := part, m_Key := string_of [],
    m_Payload := val, m_Timestamp := word_of_int (ke_now e), m_TTL := 0, m_Headers := Some [],
    m_Metadata := Some [(''source'', ''kafka''), (''protocol'', ''kafka-wire''), (''version'', ''2.0'')]\<rparr>"
  have m0: "m_Topic m0 = topic" "m_Payload m0 = val" "m_Timestamp m0 = word_of_int (ke_now e)"
    by (simp_all add: m0_def)
  have t: "TranslateProduce (ke_now e) topic part [] val (kh_ids h) = (Some (m0, False), g)"
    using assms(2,3) g by (simp add: TranslateProduce_def m0_def)
  have p: "ProcessMessage (ke_cfg e) False (Some m0) = Inr (worked (ke_cfg e) m0)"
    using assms(2) m0(1) by (simp add: ProcessMessage_eq process_one_eq)
  have w: "m_Topic (worked (ke_cfg e) m0) = topic" "m_Partition (worked (ke_cfg e) m0) = 0" "m_Key (worked (ke_cfg e) m0) = []"
      "m_Payload (worked (ke_cfg e) m0) = val" "m_Timestamp (worked (ke_cfg e) m0) = word_of_int (ke_now e)"
    using assms(4) m0 by (simp_all add: worked_def zero_message_def)
  have "produce_one e topic part val h = (Some (word_of_int (ke_now e)),
     h\<lparr>kh_ids := g, kh_bridge := Some (bw\<lparr>bw_buffer := [worked (ke_cfg e) m0], bw_messageCount := bw_messageCount bw + 1\<rparr>)\<rparr>)"
    using assms(1,5,6) t p w(5) by (simp add: produce_one_def bridge_ProduceMessage_def bw_Write_def)
  then show thesis
    using that w by blast
qed

definition appended :: "instant \<Rightarrow> byte list \<Rightarrow> InMemoryTopic \<Rightarrow> InMemoryTopic" where
  "appended now val t = t\<lparr>it_Partitions := fmupd 0 (partition_of 0 t @
     [\<lparr>msg_Offset = of_nat (length (partition_of 0 t)), msg_Key = [], msg_Value = val, msg_Timestamp = now\<rparr>]) (it_Partitions t)\<rparr>"

lemma flush_tick_one:
  assumes "kh_bridge h = Some bw" "bw_buffer bw = [m]" "bw_MaxRetries bw \<ge> 0" "kh_messageStore h topic = Some t"
    and "m_Topic m = topic" "m_Partition m = 0" "m_Key m = []" "m_Payload m = val"
  shows "\<exists>bw'. flush_tick now h = h\<lparr>kh_bridge := Some bw', kh_messageStore := (kh_messageStore h)(topic \<mapsto> appended now val t)\<rparr>"
proof -
  obtain n where "nat (bw_MaxRetries bw + 1) = Suc n"
    using assms(3) by (metis Suc_nat_eq_nat_zadd1 add.commute)
  then show ?thesis
    using assms by (intro exI [where x = "bw\<lparr>bw_batchCount := bw_batchCount bw + 1, bw_buffer := []\<rparr>"])
      (simp add: flush_tick_def bw_tick_def flushLocked_def ProduceMessage_def appended_def bytes_of_def Let_def)
qed

lemma handleProduce_body:
  assumes "rq_Body rq = produce_body acks timeout topic part val" "length topic < 2 ^ 15" "length val < 2 ^ 31"
  shows "handleProduce e rq h =
    (case produce_one e topic part val h of (res, h) \<Rightarrow>
       Some (int32 0 @ int32 1 @ writeString topic @ int32 1 @ produce_answer part res, h))"
proof -
  have "sint (1 :: i32) = 1" "\<not> sint (of_nat (length val) :: i32) < 0"
    using assms(3) by (simp_all add: sint_of_nat32)
  then show ?thesis
    using assms by (simp add: handleProduce_def produce_body_def read_str_writeString nat_sint_of_nat32
        split: prod.split)
qed

lemma handleFetch_body:
  assumes "rq_Body rq = fetch_body (rh_APIVersion (rq_Header rq)) maxBytes topic part off" "length topic < 2 ^ 15"
  shows "handleFetch rq h =
    map_option (\<lambda>res. (int32 0 @ int32 1 @ writeString topic @ int32 1 @ fetch_answer part res, h))
      (fetch_one topic part off maxBytes h)"
proof -
  have "sint (1 :: i32) = 1"
    by simp
  then show ?thesis
    using assms binary_Read_int(2) [of 0 maxBytes "[]"]
    by (simp add: handleFetch_def fetch_body_def read_str_writeString split: option.split)
qed

lemma fetch_one_appended:
  assumes "kh_bridge h \<noteq> None" "kh_translator h" "topic \<noteq> []" "kh_messageStore h topic = Some (appended now val t)"
    and "length (partition_of 0 t) < 2 ^ 63"
  shows "fetch_one topic 0 (of_nat (length (partition_of 0 t))) maxBytes h =
    Some (Some [(of_nat (length (partition_of 0 t)), Some [], val)])"
proof -
  have "partition_of 0 (appended now val t) = partition_of 0 t @
      [\<lparr>msg_Offset = of_nat (length (partition_of 0 t)), msg_Key = [], msg_Value = val, msg_Timestamp = now\<rparr>]"
    by (simp add: partition_of_def appended_def)
  then have "ConsumeMessages topic 0 (of_nat (length (partition_of 0 t))) mb (kh_messageStore h) =
      Some (Inr [\<lparr>msg_Offset = of_nat (length (partition_of 0 t)), msg_Key = [], msg_Value = val, msg_Timestamp = now\<rparr>])" for mb
    using assms(4,5) by (simp add: ConsumeMessages_def sint_of_nat64)
  then show ?thesis
    using assms(1-3) by (simp add: fetch_one_def TranslateFetch_def FetchMessages_def Let_def string_of_def bytes_of_def)
qed

text \<open>C20. A message from producer to consumer over the wire, with the timer of the batch writer in between. The
  produce request is answered without an error and with the time as the offset. The fetch request for partition
  0 at the end of the log is answered with exactly the produced bytes at the next position of the log. The
  partition the producer asked for does not matter.\<close>

theorem produce_then_fetch:
  assumes "rh_APIKey (rq_Header rq) = 0" "rq_Body rq = produce_body acks timeout topic part val"
    and "rh_APIKey (rq_Header rq') = 1"
      "rq_Body rq' = fetch_body (rh_APIVersion (rq_Header rq')) maxBytes topic 0 (of_nat (length (partition_of 0 t)))"
    and "topic \<noteq> []" "length topic < 2 ^ 15" "val \<noteq> []" "length val < 2 ^ 31" "length (partition_of 0 t) < 2 ^ 63"
    and "kh_bridge h = Some bw" "bw_buffer bw = []" "bw_BatchSize bw > 1" "bw_MaxRetries bw \<ge> 0" "kh_translator h"
    and "kh_messageStore h topic = Some t" "pc_EnableZeroCopy (ke_cfg e)"
  shows "\<exists>hd h1 hd' h2. handleRequest e rq h = Some (\<lparr>rp_Header = hd, rp_Body =
      int32 0 @ int32 1 @ writeString topic @ int32 1 @
      int32 part @ int16 NoError @ int64 (word_of_int (ke_now e)) @ int64 (-1) @ int64 (-1)\<rparr>, h1) \<and>
    handleRequest e' rq' (flush_tick now h1) = Some (\<lparr>rp_Header = hd', rp_Body =
      int32 0 @ int32 1 @ writeString topic @ int32 1 @
      fetch_answer 0 (Some [(of_nat (length (partition_of 0 t)), Some [], val)])\<rparr>, h2)"
proof -
  obtain m g where 1: "produce_one e topic part val h = (Some (word_of_int (ke_now e)),
       h\<lparr>kh_ids := g, kh_bridge := Some (bw\<lparr>bw_buffer := [m], bw_messageCount := bw_messageCount bw + 1\<rparr>)\<rparr>)"
    "m_Topic m = topic" "m_Partition m = 0" "m_Key m = []" "m_Payload m = val"
    using produce_one_buffers [OF assms(10,5,7,16,11,12)] .
  define h1 where "h1 = h\<lparr>kh_ids := g, kh_bridge := Some (bw\<lparr>bw_buffer := [m], bw_messageCount := bw_messageCount bw + 1\<rparr>)\<rparr>"
  have h1: "kh_bridge h1 = Some (bw\<lparr>bw_buffer := [m], bw_messageCount := bw_messageCount bw + 1\<rparr>)"
      "kh_messageStore h1 = kh_messageStore h" "kh_translator h1"
    using assms(14) by (simp_all add: h1_def)
  obtain bw' where 2: "flush_tick now h1 = h1\<lparr>kh_bridge := Some bw', kh_messageStore := (kh_messageStore h1)(topic \<mapsto> appended now val t)\<rparr>"
    using flush_tick_one [OF h1(1) _ _ _ 1(2-5)] h1(2) assms(13,15) by auto
  have "fetch_one topic 0 (of_nat (length (partition_of 0 t))) maxBytes (flush_tick now h1) =
      Some (Some [(of_nat (length (partition_of 0 t)), Some [], val)])"
    using assms(5,9,15) h1 by (intro fetch_one_appended [where now = now]) (simp_all add: 2)
  then show ?thesis
    using handleProduce_body [OF assms(2,6,8)] handleFetch_body [OF assms(4,6)] 1(1)
    by (simp add: handleRequest_def response_body_def handler_of_def assms(1,3) produce_answer_def flip: h1_def)
qed

definition produce_request :: KafkaRequest where
  "produce_request = \<lparr>rq_Header = \<lparr>rh_APIKey = 0, rh_APIVersion = 3, rh_CorrelationID = 1, rh_ClientID = ''me''\<rparr>,
     rq_Body = produce_body 1 100 ''t'' 2 [7, 8]\<rparr>"

definition fetch_request :: KafkaRequest where
  "fetch_request = \<lparr>rq_Header = \<lparr>rh_APIKey = 1, rh_APIVersion = 4, rh_CorrelationID = 2, rh_ClientID = ''me''\<rparr>,
     rq_Body = fetch_body 4 1024 ''t'' 0 0\<rparr>"

theorem produce_then_fetch_witness:
  "\<exists>hd h1 hd' h2. handleRequest (demo_kenv 5) produce_request demo_handler = Some (\<lparr>rp_Header = hd, rp_Body =
      int32 0 @ int32 1 @ writeString ''t'' @ int32 1 @ int32 2 @ int16 NoError @ int64 5 @ int64 (-1) @ int64 (-1)\<rparr>, h1) \<and>
    handleRequest (demo_kenv 7) fetch_request (flush_tick 6 h1) = Some (\<lparr>rp_Header = hd', rp_Body =
      int32 0 @ int32 1 @ writeString ''t'' @ int32 1 @ fetch_answer 0 (Some [(0, Some [], [7, 8])])\<rparr>, h2)"
proof -
  obtain t where t: "demo_store ''t'' = Some t" "partition_of 0 t = []"
    by (simp add: demo_store_def CreateTopic_def NewInMemoryMessageStore_def Let_def partition_of_def fmlookup_of_list
        map_of_map_restrict upt_conv_Cons)
  have h: "kh_bridge demo_handler = Some (DefaultBatchWriter\<lparr>bw_running := True\<rparr>)" "kh_translator demo_handler"
      "kh_messageStore demo_handler ''t'' = Some t" "bw_BatchSize (DefaultBatchWriter\<lparr>bw_running := True\<rparr>) > 1"
      "bw_MaxRetries (DefaultBatchWriter\<lparr>bw_running := True\<rparr>) \<ge> 0" "bw_buffer (DefaultBatchWriter\<lparr>bw_running := True\<rparr>) = []"
    by (simp_all add: demo_handler_def NewKafkaProtocolHandlerWithCoordinators_def bw_Start_def DefaultBatchWriter_def
        NewBatchWriter_def t)
  have "word_of_int (ke_now (demo_kenv 5)) = (5 :: i64)" "pc_EnableZeroCopy (ke_cfg (demo_kenv 5))"
    by (simp_all add: demo_kenv_def DefaultProcessorConfig_def)
  then show ?thesis
    using produce_then_fetch [where rq = produce_request and rq' = fetch_request and topic = "''t''" and val = "[7, 8]" and t = t
        and part = 2 and acks = 1 and timeout = 100 and maxBytes = 1024 and h = demo_handler and e = "demo_kenv 5" and e' = "demo_kenv 7"
        and now = 6, OF _ _ _ _ _ _ _ _ _ h(1,6,4,5,2,3)] t(2)
    by (simp add: produce_request_def fetch_request_def)
qed

end
