(* ===== verification/AMQP_Server.thy ===== *)
theory AMQP_Server
  imports Errors "HOL-Library.Finite_Map" "HOL-Library.Multiset"
begin

text \<open>
  The AMQP 0-9-1 server: \<^verbatim>\<open>src/pkg/amqp/server.go\<close>. Connections, the handshake, channels,
  queues, publishing in three kinds of frames, consuming, acknowledging and refusing. A frame is handled as
  one step; the lock of the server is given up and taken again in between, which the model does not
  follow. The processor, the translator and the bridge that the server creates are not used by it, and so
  do not occur here. A network connection is a number; what the server writes to connections is collected
  in \<open>s_sent\<close>, in order. A channel number is the 16-bit number of the frame.
\<close>

section \<open>State\<close>

datatype ConnectionState = StateStart | StateStartOkReceived | StateTuneSent | StateTuneOkReceived
  | StateOpenReceived | StateConnected

type_synonym conn = nat

record UnackedMsg =
  um_DeliveryTag :: u64
  um_QueueName :: string
  um_Body :: "byte list"
  um_Redelivered :: bool

record PendingPublish =
  pp_Exchange :: string
  pp_RoutingKey :: string
  pp_BodySize :: u64
  pp_Body :: "byte list"

text \<open>A channel state may have the nil map for its messages; nothing is stored in it before it has
  been made, so that it is the empty map here.\<close>

record ChannelState =
  cs_PendingPublish :: "PendingPublish option"
  cs_BoundQueue :: string
  cs_UnackedMessages :: "(u64, UnackedMsg) fmap"
  cs_QoSPrefetchCount :: int
  cs_QoSPrefetchSize :: int
  cs_CurrentlyUnacked :: int
  cs_NextDeliveryTag :: u64
  cs_ConsumerTag :: string
  cs_Conn :: "conn option"

definition new_channel :: ChannelState where
  "new_channel =
     \<lparr>cs_PendingPublish = None, cs_BoundQueue = [], cs_UnackedMessages = fmempty, cs_QoSPrefetchCount = 0,
      cs_QoSPrefetchSize = 0, cs_CurrentlyUnacked = 0, cs_NextDeliveryTag = 0, cs_ConsumerTag = [], cs_Conn = None\<rparr>"

record Exchange =
  ex_Name :: string
  ex_Type :: string

text \<open>The two maps of consumers of a queue are never used.\<close>

record Queue =
  q_Name :: string
  q_Messages :: "byte list list"
  q_Durable :: bool
  q_AutoDelete :: bool
  q_Exclusive :: bool

record EnhancedAMQPServer =
  s_connections :: "string \<rightharpoonup> conn"
  s_connectionStates :: "string \<rightharpoonup> ConnectionState"
  s_exchanges :: "string \<rightharpoonup> Exchange"
  s_queues :: "string \<rightharpoonup> Queue"
  s_channelStates :: "u16 \<rightharpoonup> ChannelState"
  s_sent :: "(conn \<times> byte list) list"

definition NewEnhancedAMQPServer :: EnhancedAMQPServer where
  "NewEnhancedAMQPServer =
     \<lparr>s_connections = Map.empty, s_connectionStates = Map.empty, s_exchanges = Map.empty, s_queues = Map.empty,
      s_channelStates = Map.empty, s_sent = []\<rparr>"

datatype amqp_error =
    InvalidFrame string
  | UnknownFrameType nat
  | ChannelNotAllowed ConnectionState
  | ConnectionNotReady ConnectionState
  | NoTargetQueue
  | QueueNotFound string
  | ChannelNotFound u16

section \<open>Frames\<close>

definition FrameMethod :: nat where "FrameMethod = 1"
definition FrameHeader :: nat where "FrameHeader = 2"
definition FrameBody :: nat where "FrameBody = 3"
definition FrameHeartbeat :: nat where "FrameHeartbeat = 8"

definition amqp_frame :: "nat \<Rightarrow> u16 \<Rightarrow> byte list \<Rightarrow> byte list" where
  "amqp_frame frameType channelID payload =
     [of_nat frameType] @ be_put 2 channelID @ be_put 4 (of_nat (length payload) :: u32) @ payload @ [0xCE]"

definition sendAMQPFrame :: "u16 \<Rightarrow> nat \<Rightarrow> byte list \<Rightarrow> conn \<Rightarrow> EnhancedAMQPServer \<Rightarrow> EnhancedAMQPServer" where
  "sendAMQPFrame channelID frameType payload conn s =
     s\<lparr>s_sent := s_sent s @ [(conn, amqp_frame frameType channelID payload)]\<rparr>"

text \<open>A method is its class, its number and its arguments. The length of a short string is one byte.\<close>

definition amqp_method :: "u16 \<Rightarrow> u16 \<Rightarrow> byte list \<Rightarrow> byte list" where
  "amqp_method classID methodID args = be_put 2 classID @ be_put 2 methodID @ args"

definition short_str :: "string \<Rightarrow> byte list" where
  "short_str s = of_nat (length s) # bytes_of s"

definition long_str :: "string \<Rightarrow> byte list" where
  "long_str s = be_put 4 (of_nat (length s) :: u32) @ bytes_of s"

section \<open>The handshake\<close>

definition sendConnectionStart :: "conn \<Rightarrow> EnhancedAMQPServer \<Rightarrow> EnhancedAMQPServer" where
  "sendConnectionStart conn s =
     (let serverProps = short_str ''product'' @ bytes_of ''S'' @ long_str ''Portask'' @
            short_str ''version'' @ bytes_of ''S'' @ long_str ''1.0.0''
      in sendAMQPFrame 0 FrameMethod
           (amqp_method 10 10 ([0, 9] @ be_put 4 (of_nat (length serverProps) :: u32) @ serverProps @
              long_str ''PLAIN AMQPLAIN'' @ long_str ''en_US'')) conn s)"

definition set_state :: "string \<Rightarrow> ConnectionState \<Rightarrow> EnhancedAMQPServer \<Rightarrow> EnhancedAMQPServer" where
  "set_state connID st s = s\<lparr>s_connectionStates := (s_connectionStates s)(connID \<mapsto> st)\<rparr>"

definition sendConnectionTune :: "conn \<Rightarrow> string \<Rightarrow> EnhancedAMQPServer \<Rightarrow> EnhancedAMQPServer" where
  "sendConnectionTune conn connID s =
     set_state connID StateTuneSent
       (sendAMQPFrame 0 FrameMethod
          (amqp_method 10 30 (be_put 2 (2047 :: u16) @ be_put 4 (131072 :: u32) @ be_put 2 (60 :: u16))) conn s)"

definition sendConnectionOpenOk :: "conn \<Rightarrow> string \<Rightarrow> EnhancedAMQPServer \<Rightarrow> EnhancedAMQPServer" where
  "sendConnectionOpenOk conn connID s =
     set_state connID StateConnected (sendAMQPFrame 0 FrameMethod (amqp_method 10 41 [0]) conn s)"

definition sendConnectionCloseOk :: "conn \<Rightarrow> EnhancedAMQPServer \<Rightarrow> EnhancedAMQPServer" where
  "sendConnectionCloseOk conn s = sendAMQPFrame 0 FrameMethod (amqp_method 10 51 []) conn s"

definition sendChannelOpenOk :: "conn \<Rightarrow> u16 \<Rightarrow> EnhancedAMQPServer \<Rightarrow> EnhancedAMQPServer" where
  "sendChannelOpenOk conn channelID s =
     sendAMQPFrame channelID FrameMethod (amqp_method 20 11 (be_put 4 (0 :: u32))) conn s"

definition sendChannelCloseOk :: "conn \<Rightarrow> u16 \<Rightarrow> EnhancedAMQPServer \<Rightarrow> EnhancedAMQPServer" where
  "sendChannelCloseOk conn channelID s = sendAMQPFrame channelID FrameMethod (amqp_method 20 41 []) conn s"

section \<open>Queues and exchanges\<close>

text \<open>A change of a channel state, which is made if there is none.\<close>

definition upd_channel :: "u16 \<Rightarrow> (ChannelState \<Rightarrow> ChannelState) \<Rightarrow> EnhancedAMQPServer \<Rightarrow> EnhancedAMQPServer" where
  "upd_channel channelID f s =
     s\<lparr>s_channelStates := (s_channelStates s)(channelID \<mapsto>
        f (case s_channelStates s channelID of None \<Rightarrow> new_channel | Some c \<Rightarrow> c))\<rparr>"

definition set_messages :: "string \<Rightarrow> byte list list \<Rightarrow> EnhancedAMQPServer \<Rightarrow> EnhancedAMQPServer" where
  "set_messages name ms s = s\<lparr>s_queues := (s_queues s)(name := map_option (\<lambda>q. q\<lparr>q_Messages := ms\<rparr>) (s_queues s name))\<rparr>"

definition handleQueueDeclare ::
  "instant \<Rightarrow> conn \<Rightarrow> u16 \<Rightarrow> string \<Rightarrow> bool \<Rightarrow> bool \<Rightarrow> EnhancedAMQPServer \<Rightarrow> EnhancedAMQPServer" where
  "handleQueueDeclare now conn channelID name durable autoDelete s =
     (let name = (if name = [] then ''amq.gen-'' @ dec (nat now) else name);
          messageCount = (case s_queues s name of None \<Rightarrow> 0 | Some q \<Rightarrow> length (q_Messages q));
          s = (case s_queues s name of
                 Some _ \<Rightarrow> s
               | None \<Rightarrow> s\<lparr>s_queues := (s_queues s)(name \<mapsto>
                   \<lparr>q_Name = name, q_Messages = [], q_Durable = False, q_AutoDelete = False, q_Exclusive = False\<rparr>)\<rparr>);
          s = sendAMQPFrame channelID FrameMethod
                (amqp_method 50 11 (short_str name @ be_put 4 (of_nat messageCount :: u32) @ be_put 4 (0 :: u32))) conn s
      in upd_channel channelID (\<lambda>c. c\<lparr>cs_BoundQueue := name\<rparr>) s)"

definition handleExchangeDeclare ::
  "conn \<Rightarrow> u16 \<Rightarrow> string \<Rightarrow> string \<Rightarrow> EnhancedAMQPServer \<Rightarrow> EnhancedAMQPServer" where
  "handleExchangeDeclare conn channelID name exchangeType s =
     sendAMQPFrame channelID FrameMethod (amqp_method 40 11 []) conn
       (case s_exchanges s name of
          Some _ \<Rightarrow> s
        | None \<Rightarrow> s\<lparr>s_exchanges := (s_exchanges s)(name \<mapsto> \<lparr>ex_Name = name, ex_Type = exchangeType\<rparr>)\<rparr>)"

section \<open>Publishing and consuming\<close>

definition target_queue :: "u16 \<Rightarrow> string \<Rightarrow> EnhancedAMQPServer \<Rightarrow> string option" where
  "target_queue channelID routingKey s =
     (if routingKey \<noteq> [] then Some routingKey
      else case s_channelStates s channelID of
             Some c \<Rightarrow> if cs_BoundQueue c \<noteq> [] then Some (cs_BoundQueue c) else None
           | None \<Rightarrow> None)"

definition handleBasicPublish ::
  "u16 \<Rightarrow> string \<Rightarrow> string \<Rightarrow> byte list \<Rightarrow> EnhancedAMQPServer \<Rightarrow> amqp_error option \<times> EnhancedAMQPServer" where
  "handleBasicPublish channelID exchange routingKey body s =
     (case target_queue channelID routingKey s of
        None \<Rightarrow> (Some NoTargetQueue, s)
      | Some targetQueue \<Rightarrow>
          (case s_queues s targetQueue of
             None \<Rightarrow> (Some (QueueNotFound targetQueue), s)
           | Some queue \<Rightarrow> (None, set_messages targetQueue (q_Messages queue @ [body]) s)))"

definition deliverMessage ::
  "conn \<Rightarrow> u16 \<Rightarrow> string \<Rightarrow> string \<Rightarrow> u64 \<Rightarrow> byte list \<Rightarrow> bool \<Rightarrow> EnhancedAMQPServer \<Rightarrow> EnhancedAMQPServer" where
  "deliverMessage conn channelID queueName consumerTag deliveryTag msg redelivered s =
     sendAMQPFrame channelID FrameBody msg conn
       (sendAMQPFrame channelID FrameHeader
          (be_put 2 (60 :: u16) @ be_put 2 (0 :: u16) @ be_put 8 (of_nat (length msg) :: u64) @ be_put 2 (0 :: u16)) conn
          (sendAMQPFrame channelID FrameMethod
             (amqp_method 60 60 (short_str consumerTag @ be_put 8 deliveryTag @ [if redelivered then 1 else 0] @ [0] @
                short_str queueName)) conn s))"

text \<open>A message gets the next delivery tag and is kept until it is acknowledged.\<close>

definition track :: "string \<Rightarrow> byte list \<Rightarrow> bool \<Rightarrow> ChannelState \<Rightarrow> ChannelState" where
  "track queueName body redelivered c =
     c\<lparr>cs_UnackedMessages := fmupd (cs_NextDeliveryTag c)
         \<lparr>um_DeliveryTag = cs_NextDeliveryTag c, um_QueueName = queueName, um_Body = body, um_Redelivered = redelivered\<rparr>
         (cs_UnackedMessages c),
       cs_CurrentlyUnacked := cs_CurrentlyUnacked c + 1,
       cs_NextDeliveryTag := cs_NextDeliveryTag c + 1\<rparr>"

definition next_tag :: "u16 \<Rightarrow> EnhancedAMQPServer \<Rightarrow> u64" where
  "next_tag channelID s = (case s_channelStates s channelID of None \<Rightarrow> 0 | Some c \<Rightarrow> cs_NextDeliveryTag c)"

fun deliver_all :: "conn \<Rightarrow> u16 \<Rightarrow> string \<Rightarrow> string \<Rightarrow> byte list list \<Rightarrow> EnhancedAMQPServer \<Rightarrow> EnhancedAMQPServer" where
  "deliver_all conn channelID queueName consumerTag [] s = s"
| "deliver_all conn channelID queueName consumerTag (msg # msgs) s =
     deliver_all conn channelID queueName consumerTag msgs
       (deliverMessage conn channelID queueName consumerTag (next_tag channelID s) msg False
          (upd_channel channelID (track queueName msg False) s))"

definition handleBasicConsume ::
  "u16 \<Rightarrow> string \<Rightarrow> string \<Rightarrow> conn \<Rightarrow> EnhancedAMQPServer \<Rightarrow> amqp_error option \<times> EnhancedAMQPServer" where
  "handleBasicConsume channelID queueName consumerTag conn s =
     (case s_queues s queueName of
        None \<Rightarrow> (Some (QueueNotFound queueName), s)
      | Some queue \<Rightarrow>
          let s = sendAMQPFrame channelID FrameMethod (amqp_method 60 21 (short_str consumerTag)) conn s;
              s = upd_channel channelID (\<lambda>c. c\<lparr>cs_ConsumerTag := consumerTag, cs_Conn := Some conn\<rparr>) s;
              messages = q_Messages queue;
              s = set_messages queueName [] s;
              s = upd_channel channelID (\<lambda>c. if cs_NextDeliveryTag c = 0 then c\<lparr>cs_NextDeliveryTag := 1\<rparr> else c) s
          in (None, deliver_all conn channelID queueName consumerTag messages s))"

definition untrack :: "u64 \<Rightarrow> ChannelState \<Rightarrow> ChannelState" where
  "untrack deliveryTag c =
     c\<lparr>cs_UnackedMessages := fmdrop deliveryTag (cs_UnackedMessages c), cs_CurrentlyUnacked := cs_CurrentlyUnacked c - 1\<rparr>"

definition handleBasicAck :: "u16 \<Rightarrow> u64 \<Rightarrow> EnhancedAMQPServer \<Rightarrow> amqp_error option \<times> EnhancedAMQPServer" where
  "handleBasicAck channelID deliveryTag s =
     (case s_channelStates s channelID of
        None \<Rightarrow> (Some (ChannelNotFound channelID), s)
      | Some c \<Rightarrow>
          (None, if fmlookup (cs_UnackedMessages c) deliveryTag \<noteq> None then upd_channel channelID (untrack deliveryTag) s else s))"

definition handleBasicNack :: "u16 \<Rightarrow> u64 \<Rightarrow> EnhancedAMQPServer \<Rightarrow> amqp_error option \<times> EnhancedAMQPServer" where
  "handleBasicNack channelID deliveryTag s =
     (case s_channelStates s channelID of
        None \<Rightarrow> (Some (ChannelNotFound channelID), s)
      | Some c \<Rightarrow>
          (case fmlookup (cs_UnackedMessages c) deliveryTag of
             None \<Rightarrow> (None, s)
           | Some unacked \<Rightarrow>
               let s = upd_channel channelID (untrack deliveryTag) s;
                   queueName = um_QueueName unacked;
                   body = um_Body unacked
               in case s_queues s queueName of
                    None \<Rightarrow> (Some (QueueNotFound queueName), s)
                  | Some queue \<Rightarrow>
                      let s = set_messages queueName (q_Messages queue @ [body]) s;
                          newDeliveryTag = cs_NextDeliveryTag c;
                          s = upd_channel channelID (track queueName body True) s
                      in (None,
                          case cs_Conn c of
                            Some conn \<Rightarrow>
                              if cs_ConsumerTag c \<noteq> []
                              then deliverMessage conn channelID queueName (cs_ConsumerTag c) newDeliveryTag body True s
                              else s
                          | None \<Rightarrow> s)))"

section \<open>Methods\<close>

definition slice :: "nat \<Rightarrow> nat \<Rightarrow> 'a list \<Rightarrow> 'a list" where
  "slice a b xs = take (b - a) (drop a xs)"

text \<open>The short string at a position within the payload, and the position after it; \<open>None\<close> if the payload
  ends before the string does.\<close>

definition short_string_at :: "nat \<Rightarrow> byte list \<Rightarrow> (string \<times> nat) option" where
  "short_string_at pos payload =
     (let n = unat (payload ! pos)
      in if length payload < pos + 1 + n then None
         else Some (string_of (slice (pos + 1) (pos + 1 + n) payload), pos + 1 + n))"

text \<open>Two short strings, one after the other.\<close>

definition two_short_strings :: "string \<Rightarrow> string \<Rightarrow> string \<Rightarrow> nat \<Rightarrow> byte list \<Rightarrow> amqp_error + string \<times> string" where
  "two_short_strings method name1 name2 pos payload =
     (case short_string_at pos payload of
        None \<Rightarrow> Inl (InvalidFrame (method @ name1))
      | Some (a, pos) \<Rightarrow>
          if length payload < pos + 1 then Inl (InvalidFrame (method @ name2 @ '' length''))
          else case short_string_at pos payload of
                 None \<Rightarrow> Inl (InvalidFrame (method @ name2))
               | Some (b, _) \<Rightarrow> Inr (a, b))"

definition classID_of :: "byte list \<Rightarrow> u16" where
  "classID_of payload = be_get (slice 0 2 payload)"

definition methodID_of :: "byte list \<Rightarrow> u16" where
  "methodID_of payload = be_get (slice 2 4 payload)"

definition exchange_declare ::
  "conn \<Rightarrow> u16 \<Rightarrow> byte list \<Rightarrow> EnhancedAMQPServer \<Rightarrow> amqp_error option \<times> EnhancedAMQPServer" where
  "exchange_declare conn channelID payload s =
     (if length payload < 7 then (Some (InvalidFrame ''ExchangeDeclare''), s)
      else case two_short_strings ''ExchangeDeclare'' '' exchange'' '' type'' 6 payload of
             Inl e \<Rightarrow> (Some e, s)
           | Inr (exchangeName, exchangeType) \<Rightarrow> (None, handleExchangeDeclare conn channelID exchangeName exchangeType s))"

definition queue_declare ::
  "instant \<Rightarrow> conn \<Rightarrow> u16 \<Rightarrow> byte list \<Rightarrow> EnhancedAMQPServer \<Rightarrow> amqp_error option \<times> EnhancedAMQPServer" where
  "queue_declare now conn channelID payload s =
     (if length payload < 8 then (Some (InvalidFrame ''QueueDeclare''), s)
      else let nameLen = unat (payload ! 4)
           in if length payload < 5 + nameLen + 4 then (Some (InvalidFrame ''QueueDeclare name''), s)
              else let queueName = string_of (slice 5 (5 + nameLen) payload);
                       flags = payload ! (5 + nameLen)
                   in (None, handleQueueDeclare now conn channelID queueName (flags AND 2 \<noteq> 0) (flags AND 4 \<noteq> 0) s))"

definition basic_publish :: "u16 \<Rightarrow> byte list \<Rightarrow> EnhancedAMQPServer \<Rightarrow> amqp_error option \<times> EnhancedAMQPServer" where
  "basic_publish channelID payload s =
     (if length payload < 6 then (Some (InvalidFrame ''BasicPublish''), s)
      else case two_short_strings ''BasicPublish'' '' exchange'' '' routing key'' 4 payload of
             Inl e \<Rightarrow> (Some e, s)
           | Inr (exchange, routingKey) \<Rightarrow>
               (None, upd_channel channelID (\<lambda>c. c\<lparr>cs_PendingPublish :=
                  Some \<lparr>pp_Exchange = exchange, pp_RoutingKey = routingKey, pp_BodySize = 0, pp_Body = []\<rparr>\<rparr>) s))"

definition basic_qos :: "conn \<Rightarrow> u16 \<Rightarrow> byte list \<Rightarrow> EnhancedAMQPServer \<Rightarrow> amqp_error option \<times> EnhancedAMQPServer" where
  "basic_qos conn channelID payload s =
     (if length payload < 11 then (Some (InvalidFrame ''BasicQos''), s)
      else let prefetchSize = uint (be_get (slice 4 8 payload) :: u32);
               prefetchCount = uint (be_get (slice 8 10 payload) :: u16)
           in (None, sendAMQPFrame channelID FrameMethod (amqp_method 60 11 []) conn
                 (upd_channel channelID (\<lambda>c. c\<lparr>cs_QoSPrefetchCount := prefetchCount, cs_QoSPrefetchSize := prefetchSize\<rparr>) s)))"

definition basic_consume :: "conn \<Rightarrow> u16 \<Rightarrow> byte list \<Rightarrow> EnhancedAMQPServer \<Rightarrow> amqp_error option \<times> EnhancedAMQPServer" where
  "basic_consume conn channelID payload s =
     (if length payload < 7 then (Some (InvalidFrame ''BasicConsume''), s)
      else case two_short_strings ''BasicConsume'' '' queue'' '' consumer tag'' 6 payload of
             Inl e \<Rightarrow> (Some e, s)
           | Inr (queueName, consumerTag) \<Rightarrow> handleBasicConsume channelID queueName consumerTag conn s)"

definition basic_ack :: "u16 \<Rightarrow> byte list \<Rightarrow> EnhancedAMQPServer \<Rightarrow> amqp_error option \<times> EnhancedAMQPServer" where
  "basic_ack channelID payload s =
     (if length payload < 12 then (Some (InvalidFrame ''BasicAck''), s)
      else handleBasicAck channelID (be_get (slice 4 12 payload)) s)"

definition basic_nack :: "u16 \<Rightarrow> byte list \<Rightarrow> EnhancedAMQPServer \<Rightarrow> amqp_error option \<times> EnhancedAMQPServer" where
  "basic_nack channelID payload s =
     (if length payload < 13 then (Some (InvalidFrame ''BasicNack''), s)
      else let deliveryTag = be_get (slice 4 12 payload);
               flags = payload ! 12
           in if flags AND 2 \<noteq> 0 then handleBasicNack channelID deliveryTag s else handleBasicAck channelID deliveryTag s)"

definition handleMethodFrameWithChannel ::
  "instant \<Rightarrow> conn \<Rightarrow> u16 \<Rightarrow> byte list \<Rightarrow> EnhancedAMQPServer \<Rightarrow> amqp_error option \<times> EnhancedAMQPServer" where
  "handleMethodFrameWithChannel now conn channelID payload s =
     (if length payload < 4 then (Some (InvalidFrame ''method''), s)
      else let classID = classID_of payload; methodID = methodID_of payload
           in if classID = 40 \<and> methodID = 10 then exchange_declare conn channelID payload s
              else if classID = 50 \<and> methodID = 10 then queue_declare now conn channelID payload s
              else if classID = 60 \<and> methodID = 40 then basic_publish channelID payload s
              else if classID = 60 \<and> methodID = 10 then basic_qos conn channelID payload s
              else if classID = 60 \<and> methodID = 20 then basic_consume conn channelID payload s
              else if classID = 60 \<and> methodID = 80 then basic_ack channelID payload s
              else if classID = 60 \<and> methodID = 120 then basic_nack channelID payload s
              else (None, s))"

section \<open>Frames of all kinds\<close>

text \<open>\<^verbatim>\<open>make([]byte, 0, bodySize)\<close> panics if there is no room for so many bytes; \<open>room\<close> says for
  which sizes there is. \<open>None\<close> is a panic, which ends the server.\<close>

definition content_header ::
  "(u64 \<Rightarrow> bool) \<Rightarrow> u16 \<Rightarrow> byte list \<Rightarrow> EnhancedAMQPServer \<Rightarrow> (amqp_error option \<times> EnhancedAMQPServer) option" where
  "content_header room channelID payload s =
     (if length payload < 12 then Some (Some (InvalidFrame ''header''), s)
      else let bodySize = be_get (slice 4 12 payload)
           in case s_channelStates s channelID of
                None \<Rightarrow> Some (None, s)
              | Some c \<Rightarrow>
                  (case cs_PendingPublish c of
                     None \<Rightarrow> Some (None, s)
                   | Some pending \<Rightarrow>
                       if room bodySize
                       then Some (None, upd_channel channelID (\<lambda>c. c\<lparr>cs_PendingPublish :=
                              Some (pending\<lparr>pp_BodySize := bodySize, pp_Body := []\<rparr>)\<rparr>) s)
                       else None))"

definition content_body :: "u16 \<Rightarrow> byte list \<Rightarrow> EnhancedAMQPServer \<Rightarrow> amqp_error option \<times> EnhancedAMQPServer" where
  "content_body channelID payload s =
     (case s_channelStates s channelID of
        None \<Rightarrow> (None, s)
      | Some c \<Rightarrow>
          (case cs_PendingPublish c of
             None \<Rightarrow> (None, s)
           | Some pending \<Rightarrow>
               let body = pp_Body pending @ payload
               in if (of_nat (length body) :: u64) \<ge> pp_BodySize pending
                  then handleBasicPublish channelID (pp_Exchange pending) (pp_RoutingKey pending) body
                         (upd_channel channelID (\<lambda>c. c\<lparr>cs_PendingPublish := None\<rparr>) s)
                  else (None, upd_channel channelID (\<lambda>c. c\<lparr>cs_PendingPublish := Some (pending\<lparr>pp_Body := body\<rparr>)\<rparr>) s)))"

definition handleAMQPFrameWithChannel ::
  "(u64 \<Rightarrow> bool) \<Rightarrow> instant \<Rightarrow> conn \<Rightarrow> u16 \<Rightarrow> nat \<Rightarrow> byte list \<Rightarrow> EnhancedAMQPServer \<Rightarrow>
     (amqp_error option \<times> EnhancedAMQPServer) option" where
  "handleAMQPFrameWithChannel room now conn channelID frameType payload s =
     (if frameType = FrameMethod then Some (handleMethodFrameWithChannel now conn channelID payload s)
      else if frameType = FrameHeader then content_header room channelID payload s
      else if frameType = FrameBody then Some (content_body channelID payload s)
      else if frameType = FrameHeartbeat then Some (None, s)
      else Some (Some (UnknownFrameType frameType), s))"

definition state_of :: "string \<Rightarrow> EnhancedAMQPServer \<Rightarrow> ConnectionState" where
  "state_of connID s = (case s_connectionStates s connID of None \<Rightarrow> StateStart | Some st \<Rightarrow> st)"

definition handleFrameWithState ::
  "(u64 \<Rightarrow> bool) \<Rightarrow> instant \<Rightarrow> conn \<Rightarrow> string \<Rightarrow> nat \<Rightarrow> u16 \<Rightarrow> byte list \<Rightarrow> EnhancedAMQPServer \<Rightarrow>
     (amqp_error option \<times> EnhancedAMQPServer) option" where
  "handleFrameWithState room now conn connID frameType channelID payload s =
     (let state = state_of connID s
      in if frameType \<noteq> FrameMethod then handleAMQPFrameWithChannel room now conn channelID frameType payload s
         else if length payload < 4 then Some (Some (InvalidFrame ''method''), s)
         else let classID = classID_of payload; methodID = methodID_of payload
              in if classID = 10 \<and> methodID = 11
                   then Some (None, sendConnectionTune conn connID (set_state connID StateStartOkReceived s))
                 else if classID = 10 \<and> methodID = 31 then Some (None, set_state connID StateTuneOkReceived s)
                 else if classID = 10 \<and> methodID = 40
                   then Some (None, sendConnectionOpenOk conn connID (set_state connID StateOpenReceived s))
                 else if classID = 10 \<and> methodID = 50 then Some (None, sendConnectionCloseOk conn s)
                 else if classID = 20 \<and> state \<noteq> StateConnected then Some (Some (ChannelNotAllowed state), s)
                 else if classID = 20 \<and> methodID = 10 then Some (None, sendChannelOpenOk conn channelID s)
                 else if classID = 20 \<and> methodID = 40 then Some (None, sendChannelCloseOk conn channelID s)
                 else if state \<noteq> StateConnected then Some (Some (ConnectionNotReady state), s)
                 else Some (handleMethodFrameWithChannel now conn channelID payload s))"

section \<open>Connections\<close>

text \<open>What the client sends arrives in pieces. \<^verbatim>\<open>conn.Read\<close> returns bytes of one piece only, at most as
  many as asked for; it fails at the end of the input.\<close>

fun conn_Read :: "nat \<Rightarrow> byte list list \<Rightarrow> (byte list \<times> byte list list) option" where
  "conn_Read n [] = None"
| "conn_Read n (p # ps) = (if length p \<le> n then Some (p, ps) else Some (take n p, drop n p # ps))"

text \<open>One frame: kind, channel and payload. \<open>None\<close> ends the connection.\<close>

definition read_amqp_frame :: "byte list list \<Rightarrow> ((nat \<times> u16 \<times> byte list) \<times> byte list list) option" where
  "read_amqp_frame ps =
     (case conn_Read 7 ps of
        None \<Rightarrow> None
      | Some (head, ps) \<Rightarrow>
          if length head \<noteq> 7 then None
          else let frameType = unat (head ! 0);
                   channelID = be_get (slice 1 3 head);
                   sz = unat (be_get (slice 3 7 head) :: u32)
               in if sz > 1024 * 1024 then None
                  else case (if sz > 0 then conn_Read sz ps else Some ([], ps)) of
                         None \<Rightarrow> None
                       | Some (payload, ps) \<Rightarrow>
                           if length payload \<noteq> sz then None
                           else (case conn_Read 1 ps of
                                   None \<Rightarrow> None
                                 | Some (end, ps) \<Rightarrow>
                                     if end = [0xCE] then Some ((frameType, channelID, payload), ps) else None))"

definition bytes_left :: "byte list list \<Rightarrow> nat" where
  "bytes_left ps = sum_list (map length ps)"

lemma conn_Read_left: "conn_Read n ps = Some (bs, ps') \<Longrightarrow> bytes_left ps = length bs + bytes_left ps'"
  by (cases ps) (auto simp: bytes_left_def split: if_splits)

lemma read_amqp_frame_left: "read_amqp_frame ps = Some (f, ps') \<Longrightarrow> bytes_left ps' < bytes_left ps"
  by (auto simp: read_amqp_frame_def Let_def split: option.splits if_splits prod.splits dest!: conn_Read_left)

text \<open>The loop. Frame number \<open>k\<close> is handled at the time \<open>clk k\<close>, and \<open>others k\<close> is what the other
  connections did to the server before it. Errors are only logged.\<close>

function frame_loop ::
  "(u64 \<Rightarrow> bool) \<Rightarrow> (nat \<Rightarrow> instant) \<Rightarrow> (nat \<Rightarrow> EnhancedAMQPServer \<Rightarrow> EnhancedAMQPServer) \<Rightarrow> conn \<Rightarrow> string \<Rightarrow> nat \<Rightarrow>
     byte list list \<Rightarrow> EnhancedAMQPServer \<Rightarrow> EnhancedAMQPServer option" where
  "frame_loop room clk others conn connID k ps s =
     (case read_amqp_frame ps of
        None \<Rightarrow> Some s
      | Some ((frameType, channelID, payload), ps) \<Rightarrow>
          (case handleFrameWithState room (clk k) conn connID frameType channelID payload (others k s) of
             None \<Rightarrow> None
           | Some (_, s) \<Rightarrow> frame_loop room clk others conn connID (Suc k) ps s))"
  by pat_completeness auto
termination
  by (relation "measure (\<lambda>(room, clk, others, conn, connID, k, ps, s). bytes_left ps)") (auto dest: read_amqp_frame_left)

declare frame_loop.simps [simp del]

definition protocol_header :: "byte list" where
  "protocol_header = bytes_of ''AMQP'' @ [0, 0, 9, 1]"

definition amqp_handleConnection ::
  "(u64 \<Rightarrow> bool) \<Rightarrow> (nat \<Rightarrow> instant) \<Rightarrow> (nat \<Rightarrow> EnhancedAMQPServer \<Rightarrow> EnhancedAMQPServer) \<Rightarrow> conn \<Rightarrow> string \<Rightarrow>
     byte list list \<Rightarrow> EnhancedAMQPServer \<Rightarrow> EnhancedAMQPServer option" where
  "amqp_handleConnection room clk others conn connID ps s =
     (let s = s\<lparr>s_connections := (s_connections s)(connID \<mapsto> conn)\<rparr>
      in case conn_Read 8 ps of
           None \<Rightarrow> Some s
         | Some (header, ps) \<Rightarrow>
             if length header \<noteq> 8 \<or> header \<noteq> protocol_header then Some s
             else map_option (\<lambda>s. s\<lparr>s_connectionStates := (s_connectionStates s)(connID := None),
                                     s_connections := (s_connections s)(connID := None)\<rparr>)
                    (frame_loop room clk others conn connID 0 ps (sendConnectionStart conn (set_state connID StateStart s))))"

section \<open>Projections\<close>

lemma send_proj [simp]:
  "s_connections (sendAMQPFrame ch ty p conn s) = s_connections s"
  "s_connectionStates (sendAMQPFrame ch ty p conn s) = s_connectionStates s"
  "s_exchanges (sendAMQPFrame ch ty p conn s) = s_exchanges s"
  "s_queues (sendAMQPFrame ch ty p conn s) = s_queues s"
  "s_channelStates (sendAMQPFrame ch ty p conn s) = s_channelStates s"
  "s_sent (sendAMQPFrame ch ty p conn s) = s_sent s @ [(conn, amqp_frame ty ch p)]"
  by (simp_all add: sendAMQPFrame_def)

lemma deliver_proj [simp]:
  "s_connectionStates (deliverMessage conn ch q tag n msg r s) = s_connectionStates s"
  "s_queues (deliverMessage conn ch q tag n msg r s) = s_queues s"
  "s_channelStates (deliverMessage conn ch q tag n msg r s) = s_channelStates s"
  by (simp_all add: deliverMessage_def)

lemma upd_channel_proj [simp]:
  "s_connectionStates (upd_channel ch f s) = s_connectionStates s"
  "s_queues (upd_channel ch f s) = s_queues s"
  "s_sent (upd_channel ch f s) = s_sent s"
  "s_channelStates (upd_channel ch f s) = (s_channelStates s)(ch \<mapsto> f (case s_channelStates s ch of None \<Rightarrow> new_channel | Some c \<Rightarrow> c))"
  by (simp_all add: upd_channel_def)

lemma set_messages_proj [simp]:
  "s_connectionStates (set_messages q ms s) = s_connectionStates s"
  "s_channelStates (set_messages q ms s) = s_channelStates s"
  "s_sent (set_messages q ms s) = s_sent s"
  "s_queues (set_messages q ms s) = (s_queues s)(q := map_option (\<lambda>Q. Q\<lparr>q_Messages := ms\<rparr>) (s_queues s q))"
  by (simp_all add: set_messages_def)

lemma set_state_proj [simp]:
  "s_queues (set_state connID st s) = s_queues s"
  "s_channelStates (set_state connID st s) = s_channelStates s"
  "s_sent (set_state connID st s) = s_sent s"
  "s_connectionStates (set_state connID st s) = (s_connectionStates s)(connID \<mapsto> st)"
  by (simp_all add: set_state_def)

section \<open>The invariant\<close>

definition channel_ok :: "nat \<Rightarrow> ChannelState \<Rightarrow> bool" where
  "channel_ok n c \<longleftrightarrow>
     unat (cs_NextDeliveryTag c) \<le> n \<and>
     cs_CurrentlyUnacked c = int (fcard (fmdom (cs_UnackedMessages c))) \<and>
     (\<forall>t m. fmlookup (cs_UnackedMessages c) t = Some m \<longrightarrow> um_DeliveryTag m = t \<and> 0 < t \<and> t < cs_NextDeliveryTag c)"

definition queues_ok :: "nat \<Rightarrow> EnhancedAMQPServer \<Rightarrow> bool" where
  "queues_ok n s \<longleftrightarrow> (\<forall>q Q. s_queues s q = Some Q \<longrightarrow> q_Name Q = q \<and> length (q_Messages Q) \<le> n)"

definition channels_ok :: "nat \<Rightarrow> EnhancedAMQPServer \<Rightarrow> bool" where
  "channels_ok n s \<longleftrightarrow> (\<forall>ch c. s_channelStates s ch = Some c \<longrightarrow> channel_ok n c)"

definition unacked_known :: "EnhancedAMQPServer \<Rightarrow> bool" where
  "unacked_known s \<longleftrightarrow> (\<forall>ch c t m. s_channelStates s ch = Some c \<longrightarrow> fmlookup (cs_UnackedMessages c) t = Some m \<longrightarrow>
     s_queues s (um_QueueName m) \<noteq> None)"

lemma channel_ok_new: "channel_ok n new_channel"
  by (simp add: channel_ok_def new_channel_def fcard.rep_eq)

lemma channel_ok_mono: "channel_ok m c \<Longrightarrow> m \<le> n \<Longrightarrow> channel_ok n c"
  by (auto simp: channel_ok_def)

lemma channel_ok_fresh: "channel_ok n c \<Longrightarrow> cs_NextDeliveryTag c |\<notin>| fmdom (cs_UnackedMessages c)"
  by (auto simp: channel_ok_def fmlookup_dom_iff dest: spec [of _ "cs_NextDeliveryTag c"])

lemma unat_Suc_word: "unat (x :: 'a::len word) \<le> n \<Longrightarrow> n + 1 < 2 ^ LENGTH('a) \<Longrightarrow> unat (x + 1) = unat x + 1"
  by (simp add: unat_word_ariths unat_of_nat)

lemma channel_ok_track:
  assumes "channel_ok n c" "n + 1 < 2 ^ 64" "cs_NextDeliveryTag c \<noteq> 0"
  shows "channel_ok (n + 1) (track q body r c)" "cs_NextDeliveryTag (track q body r c) \<noteq> 0"
proof -
  have next_tag: "unat (cs_NextDeliveryTag c + 1) = unat (cs_NextDeliveryTag c) + 1"
    using assms(1,2) by (intro unat_Suc_word) (auto simp: channel_ok_def)
  have fresh: "cs_NextDeliveryTag c |\<notin>| fmdom (cs_UnackedMessages c)"
    using assms(1) by (rule channel_ok_fresh)
  have "x < cs_NextDeliveryTag c + 1" if "x \<le> cs_NextDeliveryTag c" for x
    using that next_tag by (simp add: word_less_nat_alt word_le_nat_alt)
  moreover have "0 < cs_NextDeliveryTag c"
    using assms(3) by (simp add: word_gt_0)
  ultimately show "channel_ok (n + 1) (track q body r c)"
    using assms(1) fresh next_tag
    by (auto simp: channel_ok_def track_def fcard_finsert_disjoint less_imp_le split: if_splits)
  show "cs_NextDeliveryTag (track q body r c) \<noteq> 0"
    using next_tag by (auto simp: track_def)
qed

lemma channel_ok_untrack:
  assumes "channel_ok n c" "fmlookup (cs_UnackedMessages c) t = Some m"
  shows "channel_ok n (untrack t c)"
proof -
  have "t |\<in>| fmdom (cs_UnackedMessages c)"
    using assms(2) by (simp add: fmlookup_dom_iff)
  then have "int (fcard (fmdom (cs_UnackedMessages c) |-| {|t|})) = int (fcard (fmdom (cs_UnackedMessages c))) - 1"
    using fcard_Suc_fminus1 by (metis add_diff_cancel_left' of_nat_Suc)
  then show ?thesis
    using assms by (auto simp: channel_ok_def untrack_def split: if_splits)
qed

lemma channels_ok_upd:
  assumes "channels_ok n s" "n \<le> n'" "\<And>c. channel_ok n c \<Longrightarrow> channel_ok n' (f c)"
  shows "channels_ok n' (upd_channel ch f s)"
  using assms by (auto simp: channels_ok_def channel_ok_new split: option.splits intro: channel_ok_mono)

section \<open>The effect of a frame\<close>

text \<open>A change of a channel that leaves the messages and their tags alone.\<close>

definition same_messages :: "ChannelState \<Rightarrow> ChannelState \<Rightarrow> bool" where
  "same_messages c' c \<longleftrightarrow> cs_UnackedMessages c' = cs_UnackedMessages c \<and> cs_CurrentlyUnacked c' = cs_CurrentlyUnacked c \<and>
     cs_NextDeliveryTag c' = cs_NextDeliveryTag c"

inductive amqp_op :: "EnhancedAMQPServer \<Rightarrow> EnhancedAMQPServer \<Rightarrow> bool" where
  quiet: "s_queues s' = s_queues s \<Longrightarrow> s_channelStates s' = s_channelStates s \<Longrightarrow> amqp_op s s'"
| channel: "\<forall>c. same_messages (f c) c \<Longrightarrow> s_queues s' = s_queues s \<Longrightarrow>
    s_channelStates s' = s_channelStates (upd_channel ch f s) \<Longrightarrow> amqp_op s s'"
| declare_queue: "amqp_op s (handleQueueDeclare now conn ch name d a s)"
| publish: "amqp_op s (snd (handleBasicPublish ch ex rk body (upd_channel ch (\<lambda>c. c\<lparr>cs_PendingPublish := None\<rparr>) s)))"
| consume: "amqp_op s (snd (handleBasicConsume ch q tag conn s))"
| ack: "amqp_op s (snd (handleBasicAck ch t s))"
| nack: "amqp_op s (snd (handleBasicNack ch t s))"

lemma op_refl: "amqp_op s s"
  by (rule amqp_op.quiet) simp_all

lemma op_channel: "\<forall>c. same_messages (f c) c \<Longrightarrow> amqp_op s (upd_channel ch f s)"
  by (rule amqp_op.channel) simp_all

lemma op_channel_send: "\<forall>c. same_messages (f c) c \<Longrightarrow> amqp_op s (sendAMQPFrame ch ty p conn (upd_channel ch f s))"
  by (rule amqp_op.channel [where ch = ch and f = f]) simp_all

lemma method_op: "amqp_op s (snd (handleMethodFrameWithChannel now conn ch payload s))"
proof -
  have "amqp_op s (snd (exchange_declare conn ch payload s))"
    by (auto simp: exchange_declare_def handleExchangeDeclare_def intro!: amqp_op.quiet split: sum.split option.split)
  moreover have "amqp_op s (snd (queue_declare now conn ch payload s))"
    by (auto simp: queue_declare_def Let_def intro: amqp_op.quiet amqp_op.declare_queue)
  moreover have "amqp_op s (snd (basic_publish ch payload s))"
    by (auto simp: basic_publish_def same_messages_def split: sum.split intro: op_refl op_channel)
  moreover have "amqp_op s (snd (basic_qos conn ch payload s))"
    by (auto simp: basic_qos_def Let_def same_messages_def intro: op_refl op_channel_send)
  moreover have "amqp_op s (snd (basic_consume conn ch payload s))"
    by (auto simp: basic_consume_def intro: amqp_op.quiet amqp_op.consume split: sum.split)
  moreover have "amqp_op s (snd (basic_ack ch payload s))" "amqp_op s (snd (basic_nack ch payload s))"
    by (auto simp: basic_ack_def basic_nack_def Let_def intro: amqp_op.quiet amqp_op.ack amqp_op.nack)
  ultimately show ?thesis
    by (auto simp: handleMethodFrameWithChannel_def Let_def intro: amqp_op.quiet)
qed

lemma content_header_op:
  assumes "content_header room ch payload s = Some (e, s')"
  shows "amqp_op s s'"
  using assms
  by (auto simp: content_header_def Let_def same_messages_def split: if_splits option.splits intro: op_refl op_channel)

lemma content_body_op: "amqp_op s (snd (content_body ch payload s))"
  by (auto simp: content_body_def Let_def same_messages_def split: option.splits intro: op_refl op_channel amqp_op.publish)

lemma frame_op:
  assumes "handleFrameWithState room now conn connID ty ch payload s = Some (e, s')"
  shows "amqp_op s s'"
proof -
  have other: "amqp_op s s'" if "handleAMQPFrameWithChannel room now conn ch ty payload s = Some (e, s')"
    using that method_op [of s now conn ch payload] content_body_op [of s ch payload]
    by (auto simp: handleAMQPFrameWithChannel_def split: if_splits intro: content_header_op amqp_op.quiet)
  show ?thesis
    using assms method_op [of s now conn ch payload]
    by (auto simp: handleFrameWithState_def Let_def sendConnectionTune_def sendConnectionOpenOk_def sendConnectionCloseOk_def
        sendChannelOpenOk_def sendChannelCloseOk_def split: if_splits intro: other amqp_op.quiet)
qed

lemma channel_ok_same: "same_messages c' c \<Longrightarrow> channel_ok n c' = channel_ok n c"
  by (simp add: channel_ok_def same_messages_def)

lemma channels_ok_mono: "channels_ok m s \<Longrightarrow> m \<le> n \<Longrightarrow> channels_ok n s"
  by (auto simp: channels_ok_def intro: channel_ok_mono)

lemma channels_ok_insert:
  assumes "channels_ok n s" "n \<le> n'" "channel_ok n' c" "s_channelStates s' = (s_channelStates s)(ch \<mapsto> c)"
  shows "channels_ok n' s'"
  using channels_ok_mono [OF assms(1,2)] assms(3,4) by (auto simp: channels_ok_def)

lemma queues_ok_mono: "queues_ok m s \<Longrightarrow> m \<le> n \<Longrightarrow> queues_ok n s"
  by (fastforce simp: queues_ok_def)

lemma deliver_all_queues [simp]: "s_queues (deliver_all conn ch q tag msgs s) = s_queues s"
  by (induction msgs arbitrary: s) auto

lemma deliver_all_channels:
  assumes "channels_ok n s" "s_channelStates s ch = Some c" "cs_NextDeliveryTag c \<noteq> 0" "n + length msgs < 2 ^ 64"
  shows "channels_ok (n + length msgs) (deliver_all conn ch q tag msgs s)"
  using assms
proof (induction msgs arbitrary: n s c)
  case (Cons msg msgs)
  let ?s = "deliverMessage conn ch q tag (next_tag ch s) msg False (upd_channel ch (track q msg False) s)"
  have c: "channel_ok (n + 1) (track q msg False c)" "cs_NextDeliveryTag (track q msg False c) \<noteq> 0"
    using channel_ok_track [of n c q msg False] Cons.prems by (auto simp: channels_ok_def)
  have "channels_ok (n + 1) ?s"
    by (rule channels_ok_insert [OF Cons.prems(1) _ c(1)]) (simp_all add: Cons.prems(2))
  then show ?case
    using Cons.IH [of "n + 1" ?s "track q msg False c"] c(2) Cons.prems(2,4) by simp
qed simp

lemma deliver_all_known:
  assumes "unacked_known s" "s_queues s q \<noteq> None"
  shows "unacked_known (deliver_all conn ch q tag msgs s)"
  using assms
proof (induction msgs arbitrary: s)
  case (Cons msg msgs)
  have "unacked_known (deliverMessage conn ch q tag (next_tag ch s) msg False (upd_channel ch (track q msg False) s))"
    using Cons.prems by (auto simp: unacked_known_def track_def new_channel_def split: option.splits if_splits)
  then show ?case
    using Cons by simp
qed simp

text \<open>The server just before the messages are delivered to a new consumer.\<close>

definition prepared :: "u16 \<Rightarrow> string \<Rightarrow> string \<Rightarrow> conn \<Rightarrow> EnhancedAMQPServer \<Rightarrow> EnhancedAMQPServer" where
  "prepared ch q tag conn s =
     upd_channel ch (\<lambda>c. if cs_NextDeliveryTag c = 0 then c\<lparr>cs_NextDeliveryTag := 1\<rparr> else c)
       (set_messages q [] (upd_channel ch (\<lambda>c. c\<lparr>cs_ConsumerTag := tag, cs_Conn := Some conn\<rparr>)
          (sendAMQPFrame ch FrameMethod (amqp_method 60 21 (short_str tag)) conn s)))"

lemma handleBasicConsume_prepared:
  "s_queues s q = Some queue \<Longrightarrow>
     handleBasicConsume ch q tag conn s = (None, deliver_all conn ch q tag (q_Messages queue) (prepared ch q tag conn s))"
  by (simp add: handleBasicConsume_def prepared_def Let_def)

lemma prepared_ok:
  assumes "channels_ok n s" "0 < n"
  obtains c where "channels_ok n (prepared ch q tag conn s)" "s_channelStates (prepared ch q tag conn s) ch = Some c"
    "cs_NextDeliveryTag c \<noteq> 0"
proof -
  define c0 where "c0 = (case s_channelStates s ch of None \<Rightarrow> new_channel | Some c \<Rightarrow> c)"
  define c where "c = (\<lambda>d. if cs_NextDeliveryTag d = 0 then d\<lparr>cs_NextDeliveryTag := 1\<rparr> else d) (c0\<lparr>cs_ConsumerTag := tag, cs_Conn := Some conn\<rparr>)"
  have "channel_ok n c0"
    using assms(1) channel_ok_new by (auto simp: c0_def channels_ok_def split: option.split)
  then have "channel_ok n c"
    using assms(2) by (fastforce simp: channel_ok_def c_def)
  moreover have eq: "s_channelStates (prepared ch q tag conn s) = (s_channelStates s)(ch \<mapsto> c)"
    by (simp add: prepared_def c_def c0_def)
  ultimately have "channels_ok n (prepared ch q tag conn s)"
    by (rule channels_ok_insert [OF assms(1) order_refl])
  moreover have "cs_NextDeliveryTag c \<noteq> 0"
    by (simp add: c_def)
  ultimately show thesis
    using that eq by simp
qed

lemma handleBasicConsume_ok:
  assumes "channels_ok n s" "queues_ok k s" "unacked_known s" "n + k < 2 ^ 64" "0 < n"
  shows "channels_ok (n + k) (snd (handleBasicConsume ch q tag conn s)) \<and>
    queues_ok k (snd (handleBasicConsume ch q tag conn s)) \<and>
    unacked_known (snd (handleBasicConsume ch q tag conn s))"
proof (cases "s_queues s q")
  case None
  then show ?thesis
    using assms by (auto simp: handleBasicConsume_def intro: channels_ok_mono)
next
  case (Some queue)
  let ?s = "prepared ch q tag conn s"
  obtain c where c: "channels_ok n ?s" "s_channelStates ?s ch = Some c" "cs_NextDeliveryTag c \<noteq> 0"
    using prepared_ok [OF assms(1,5)] .
  moreover have "queues_ok k ?s" "length (q_Messages queue) \<le> k"
    using assms(2) Some by (auto simp: queues_ok_def prepared_def)
  moreover have "unacked_known ?s" "s_queues ?s q \<noteq> None"
    using assms(3) Some by (auto simp: unacked_known_def prepared_def new_channel_def split: option.splits if_splits)
  ultimately show ?thesis
    using deliver_all_channels [of n ?s ch c "q_Messages queue" conn q tag] deliver_all_known [of ?s q conn ch tag] assms(4)
    by (auto simp: handleBasicConsume_prepared [OF Some] queues_ok_def intro: channels_ok_mono)
qed

lemma handleBasicNack_ok:
  assumes "channels_ok n s" "queues_ok k s" "unacked_known s" "n + 1 < 2 ^ 64"
  shows "channels_ok (n + 1) (snd (handleBasicNack ch t s)) \<and> queues_ok (k + 1) (snd (handleBasicNack ch t s)) \<and>
    unacked_known (snd (handleBasicNack ch t s))"
proof (cases "\<exists>c m. s_channelStates s ch = Some c \<and> fmlookup (cs_UnackedMessages c) t = Some m")
  case True
  then obtain c m where c: "s_channelStates s ch = Some c" "fmlookup (cs_UnackedMessages c) t = Some m"
    by blast
  obtain queue where q: "s_queues s (um_QueueName m) = Some queue"
    using assms(3) c unfolding unacked_known_def by blast
  define s1 where "s1 = upd_channel ch (track (um_QueueName m) (um_Body m) True)
    (set_messages (um_QueueName m) (q_Messages queue @ [um_Body m]) (upd_channel ch (untrack t) s))"
  have ok: "channel_ok n c"
    using assms(1) c(1) by (simp add: channels_ok_def)
  have "cs_NextDeliveryTag c \<noteq> 0"
    using ok c(2) unfolding channel_ok_def by fastforce
  then have "channel_ok (n + 1) (track (um_QueueName m) (um_Body m) True (untrack t c))"
    using channel_ok_track(1) [OF channel_ok_untrack [OF ok c(2)] assms(4)] by (simp add: untrack_def)
  then have "channels_ok (n + 1) s1"
    by (intro channels_ok_insert [OF assms(1), where ch = ch]) (auto simp: s1_def c(1))
  moreover have "queues_ok (k + 1) s1" "unacked_known s1"
    using assms(2,3) q c by (auto simp: queues_ok_def unacked_known_def s1_def track_def untrack_def le_SucI split: if_splits)
  ultimately show ?thesis
    using c q by (auto simp: handleBasicNack_def Let_def channels_ok_def queues_ok_def unacked_known_def
        simp flip: s1_def split: option.split)
next
  case False
  then have "snd (handleBasicNack ch t s) = s"
    by (auto simp: handleBasicNack_def split: option.split)
  then show ?thesis
    using assms by (auto intro: channels_ok_mono queues_ok_mono)
qed

lemma channels_ok_cong: "channels_ok n s \<Longrightarrow> s_channelStates s' = s_channelStates s \<Longrightarrow> channels_ok n s'"
  by (simp add: channels_ok_def)

lemma unacked_known_cong:
  assumes "unacked_known s" "s_channelStates s' = s_channelStates s" "dom (s_queues s) \<subseteq> dom (s_queues s')"
  shows "unacked_known s'"
  using assms unfolding unacked_known_def by (metis domIff subset_iff)

lemma handleBasicPublish_ok:
  assumes "channels_ok n s" "queues_ok k s" "unacked_known s"
  shows "channels_ok n (snd (handleBasicPublish ch ex rk body s))" "queues_ok (k + 1) (snd (handleBasicPublish ch ex rk body s))"
    "unacked_known (snd (handleBasicPublish ch ex rk body s))"
proof -
  let ?s = "snd (handleBasicPublish ch ex rk body s)"
  have eq: "s_channelStates ?s = s_channelStates s" "dom (s_queues s) \<subseteq> dom (s_queues ?s)"
    by (auto simp: handleBasicPublish_def split: option.split)
  show "channels_ok n ?s" "unacked_known ?s"
    by (rule channels_ok_cong [OF assms(1) eq(1)], rule unacked_known_cong [OF assms(3) eq])
  show "queues_ok (k + 1) ?s"
    using queues_ok_mono [OF assms(2), of "k + 1"] assms(2)
    by (auto simp: handleBasicPublish_def queues_ok_def split: option.splits)
qed

definition amqp_ok :: "nat \<Rightarrow> EnhancedAMQPServer \<Rightarrow> bool" where
  "amqp_ok k s \<longleftrightarrow> queues_ok k s \<and> channels_ok (k * k + 1) s \<and> unacked_known s"

lemma amqp_op_ok:
  assumes "amqp_op s s'" "amqp_ok k s" "k < 2 ^ 31"
  shows "amqp_ok (k + 1) s'"
proof -
  have "(2 ^ 31 :: nat) * 2 ^ 31 = 2 ^ 62"
    by simp
  with assms(3) have "k * k < 2 ^ 62"
    by (metis mult_strict_mono' zero_le)
  then have bound: "k * k + 1 + k < 2 ^ 64" "k * k + 1 + 1 < 2 ^ 64"
    using assms(3) by simp_all
  have le: "k * k + 1 \<le> (k + 1) * (k + 1) + 1" "k * k + 1 + k \<le> (k + 1) * (k + 1) + 1" "k * k + 1 + 1 \<le> (k + 1) * (k + 1) + 1"
    by simp_all
  note ok = assms(2) [unfolded amqp_ok_def]
  from assms(1) show ?thesis
  proof cases
    case quiet
    then show ?thesis
      using ok channels_ok_mono [OF _ le(1), of s] queues_ok_mono [of k s "k + 1"]
      by (auto simp: amqp_ok_def queues_ok_def channels_ok_def unacked_known_def)
  next
    case (channel f ch)
    have "channels_ok (k * k + 1) s'" "unacked_known s'"
      using ok channel channel_ok_same [of "f c" c for c] channel_ok_new
      by (auto simp: channels_ok_def unacked_known_def same_messages_def new_channel_def split: option.splits if_splits)
    then show ?thesis
      using ok channel channels_ok_mono [OF _ le(1)] queues_ok_mono [of k s' "k + 1"] by (auto simp: amqp_ok_def queues_ok_def)
  next
    case (consume ch q tag conn)
    then show ?thesis
      using handleBasicConsume_ok [of "k * k + 1" s k ch q tag conn] ok bound(1) channels_ok_mono [OF _ le(2)] queues_ok_mono [of k s' "k + 1"]
      by (auto simp: amqp_ok_def)
  next
    case (nack ch t)
    then show ?thesis
      using handleBasicNack_ok [of "k * k + 1" s k ch t] ok bound(2) channels_ok_mono [OF _ le(3)] by (auto simp: amqp_ok_def)
  next
    case (ack ch t)
    have "channels_ok (k * k + 1) s'" "queues_ok k s'" "unacked_known s'"
      using ok channel_ok_untrack [of "k * k + 1" _ t]
      by (auto simp: ack handleBasicAck_def channels_ok_def unacked_known_def queues_ok_def untrack_def split: option.splits if_splits)
    then show ?thesis
      using channels_ok_mono [OF _ le(1)] queues_ok_mono [of k s' "k + 1"] by (auto simp: amqp_ok_def)
  next
    case (publish ch ex rk body)
    let ?s = "upd_channel ch (\<lambda>c. c\<lparr>cs_PendingPublish := None\<rparr>) s"
    have s: "channels_ok (k * k + 1) ?s" "unacked_known ?s" "queues_ok k ?s"
      using ok channel_ok_new
      by (auto simp: channels_ok_def channel_ok_def unacked_known_def queues_ok_def new_channel_def split: option.splits if_splits)
    show ?thesis
      using handleBasicPublish_ok [OF s(1,3,2), of ch ex rk body] channels_ok_mono [OF _ le(1)] by (auto simp: amqp_ok_def publish)
next
    case (declare_queue now conn ch name d a)
    have "channels_ok (k * k + 1) s'" "queues_ok k s'" "unacked_known s'"
      using ok channel_ok_new
      by (auto simp: declare_queue handleQueueDeclare_def Let_def channels_ok_def channel_ok_def queues_ok_def unacked_known_def
          new_channel_def split: option.splits if_splits)
    then show ?thesis
      using channels_ok_mono [OF _ le(1)] queues_ok_mono [of k s' "k + 1"] by (auto simp: amqp_ok_def)
  qed
qed

section \<open>Reachable servers\<close>

inductive amqp_reach :: "nat \<Rightarrow> EnhancedAMQPServer \<Rightarrow> bool" where
  start: "amqp_reach 0 NewEnhancedAMQPServer"
| connect: "amqp_reach k s \<Longrightarrow>
    amqp_reach (k + 1) (sendConnectionStart conn (set_state connID StateStart (s\<lparr>s_connections := (s_connections s)(connID \<mapsto> conn)\<rparr>)))"
| frame: "amqp_reach k s \<Longrightarrow> handleFrameWithState room now conn connID ty ch payload s = Some (e, s') \<Longrightarrow> amqp_reach (k + 1) s'"
| disconnect: "amqp_reach k s \<Longrightarrow>
    amqp_reach (k + 1) (s\<lparr>s_connectionStates := (s_connectionStates s)(connID := None), s_connections := (s_connections s)(connID := None)\<rparr>)"

lemma amqp_reach_ok: "amqp_reach k s \<Longrightarrow> k \<le> 2 ^ 31 \<Longrightarrow> amqp_ok k s"
proof (induction rule: amqp_reach.induct)
  case start
  then show ?case
    by (simp add: amqp_ok_def queues_ok_def channels_ok_def unacked_known_def NewEnhancedAMQPServer_def)
next
  case (connect k s conn connID)
  then show ?case
    by (intro amqp_op_ok [where s = s] amqp_op.quiet) (simp_all add: sendConnectionStart_def Let_def)
next
  case (frame k s room now conn connID ty ch payload e s')
  then show ?case
    by (intro amqp_op_ok [OF frame_op [OF frame.hyps(2)]]) simp_all
next
  case (disconnect k s connID)
  then show ?case
    by (intro amqp_op_ok [where s = s] amqp_op.quiet) simp_all
qed

section \<open>What the server holds\<close>

text \<open>The bodies of the messages of a queue that have been delivered on a channel and not acknowledged; those
  that the server holds for a queue: the ones in the queue and the unacknowledged ones.\<close>

definition unacked_of :: "string \<Rightarrow> ChannelState option \<Rightarrow> byte list multiset" where
  "unacked_of q co =
     (case co of
        None \<Rightarrow> {#}
      | Some c \<Rightarrow> image_mset um_Body (filter_mset (\<lambda>m. um_QueueName m = q)
          (image_mset (\<lambda>t. the (fmlookup (cs_UnackedMessages c) t)) (mset_set (fset (fmdom (cs_UnackedMessages c)))))))"

definition queued :: "string \<Rightarrow> EnhancedAMQPServer \<Rightarrow> byte list list" where
  "queued q s = (case s_queues s q of None \<Rightarrow> [] | Some Q \<Rightarrow> q_Messages Q)"

definition held :: "string \<Rightarrow> EnhancedAMQPServer \<Rightarrow> byte list multiset" where
  "held q s = mset (queued q s) + (\<Sum>ch\<in>UNIV. unacked_of q (s_channelStates s ch))"

lemma sum_fun_upd:
  fixes g :: "'b \<Rightarrow> 'c :: cancel_comm_monoid_add" and m :: "'a :: finite \<Rightarrow> 'b"
  shows "(\<Sum>x\<in>UNIV. g ((m(k := v)) x)) + g (m k) = (\<Sum>x\<in>UNIV. g (m x)) + g v"
proof -
  have "(\<Sum>x\<in>UNIV. g ((m(k := v)) x)) = g v + (\<Sum>x\<in>UNIV - {k}. g (m x))"
    by (subst sum.remove [of UNIV k]) (auto intro: sum.cong)
  moreover have "(\<Sum>x\<in>UNIV. g (m x)) = g (m k) + (\<Sum>x\<in>UNIV - {k}. g (m x))"
    by (rule sum.remove) auto
  ultimately show ?thesis
    by (simp add: ac_simps)
qed

lemma unacked_of_new [simp]: "unacked_of q (Some new_channel) = {#}" "unacked_of q None = {#}"
  by (simp_all add: unacked_of_def new_channel_def)

lemma unacked_of_same: "cs_UnackedMessages c' = cs_UnackedMessages c \<Longrightarrow> unacked_of q (Some c') = unacked_of q (Some c)"
  by (simp add: unacked_of_def)

lemma unacked_of_track:
  assumes "channel_ok n c"
  shows "unacked_of q (Some (track q' body r c)) = unacked_of q (Some c) + (if q' = q then {#body#} else {#})"
proof -
  have fresh: "cs_NextDeliveryTag c \<notin> fset (fmdom (cs_UnackedMessages c))"
    using channel_ok_fresh [OF assms] by simp
  have "image_mset (\<lambda>t. the (fmlookup (fmupd (cs_NextDeliveryTag c) m (cs_UnackedMessages c)) t)) (mset_set (fset (fmdom (cs_UnackedMessages c))))
      = image_mset (\<lambda>t. the (fmlookup (cs_UnackedMessages c) t)) (mset_set (fset (fmdom (cs_UnackedMessages c))))" for m
    using fresh by (intro image_mset_cong) auto
  then show ?thesis
    using fresh by (simp add: unacked_of_def track_def)
qed

lemma unacked_of_untrack:
  assumes "fmlookup (cs_UnackedMessages c) t = Some m"
  shows "unacked_of q (Some c) = unacked_of q (Some (untrack t c)) + (if um_QueueName m = q then {#um_Body m#} else {#})"
proof -
  have t: "t \<in> fset (fmdom (cs_UnackedMessages c))"
    using assms by (simp add: fmlookup_dom_iff)
  then have "mset_set (fset (fmdom (cs_UnackedMessages c))) = add_mset t (mset_set (fset (fmdom (cs_UnackedMessages c)) - {t}))"
    by (simp add: mset_set.remove)
  moreover have "image_mset (\<lambda>x. the (fmlookup (fmdrop t (cs_UnackedMessages c)) x)) (mset_set (fset (fmdom (cs_UnackedMessages c)) - {t}))
      = image_mset (\<lambda>x. the (fmlookup (cs_UnackedMessages c) x)) (mset_set (fset (fmdom (cs_UnackedMessages c)) - {t}))"
    by (intro image_mset_cong) auto
  ultimately show ?thesis
    using assms by (simp add: unacked_of_def untrack_def)
qed

text \<open>A change of one channel.\<close>

lemma held_upd_channel:
  "held q (upd_channel ch f s) + unacked_of q (s_channelStates s ch) =
     held q s + unacked_of q (Some (f (case s_channelStates s ch of None \<Rightarrow> new_channel | Some c \<Rightarrow> c)))"
  using sum_fun_upd [of "unacked_of q" "s_channelStates s" ch]
  by (simp add: held_def queued_def add.assoc)

lemma held_upd_same:
  assumes "\<forall>c. cs_UnackedMessages (f c) = cs_UnackedMessages c"
  shows "held q (upd_channel ch f s) = held q s"
  using held_upd_channel [of q ch f s] unacked_of_same [of "f c" c q for c] assms
  by (cases "s_channelStates s ch") auto

lemma held_cong: "s_queues s' = s_queues s \<Longrightarrow> s_channelStates s' = s_channelStates s \<Longrightarrow> held q s' = held q s"
  by (simp add: held_def queued_def)

lemma held_set_messages:
  assumes "s_queues s q' = Some Q"
  shows "held q (set_messages q' ms s) + (if q = q' then mset (q_Messages Q) else {#}) = held q s + (if q = q' then mset ms else {#})"
  using assms by (simp add: held_def queued_def add.commute add.left_commute)

lemma held_publish:
  "held q (snd (handleBasicPublish ch ex rk body s)) =
     held q s + (if fst (handleBasicPublish ch ex rk body s) = None \<and> target_queue ch rk s = Some q then {#body#} else {#})"
proof (cases "target_queue ch rk s")
  case (Some q')
  show ?thesis
  proof (cases "s_queues s q'")
    case Q: (Some Q)
    then show ?thesis
      using Some held_set_messages [OF Q, of q "q_Messages Q @ [body]"] by (auto simp: handleBasicPublish_def)
  qed (simp add: handleBasicPublish_def Some)
qed (simp add: handleBasicPublish_def)

lemma held_deliver_all:
  assumes "channels_ok n s" "s_channelStates s ch = Some c" "cs_NextDeliveryTag c \<noteq> 0" "n + length msgs < 2 ^ 64"
  shows "held q (deliver_all conn ch q' tag msgs s) = held q s + (if q' = q then mset msgs else {#})"
  using assms
proof (induction msgs arbitrary: n s c)
  case (Cons msg msgs)
  let ?s = "deliverMessage conn ch q' tag (next_tag ch s) msg False (upd_channel ch (track q' msg False) s)"
  have ok: "channel_ok n c"
    using Cons.prems(1,2) by (simp add: channels_ok_def)
  then have c: "channel_ok (n + 1) (track q' msg False c)" "cs_NextDeliveryTag (track q' msg False c) \<noteq> 0"
    using channel_ok_track [of n c q' msg False] Cons.prems by auto
  have "held q ?s = held q (upd_channel ch (track q' msg False) s)"
    by (rule held_cong) simp_all
  also have "\<dots> = held q s + (if q' = q then {#msg#} else {#})"
    using held_upd_channel [of q ch "track q' msg False" s] unacked_of_track [OF ok, of q q' msg False] Cons.prems(2) by simp
  finally have step: "held q ?s = held q s + (if q' = q then {#msg#} else {#})" .
  have "channels_ok (n + 1) ?s"
    by (rule channels_ok_insert [OF Cons.prems(1) _ c(1)]) (simp_all add: Cons.prems(2))
  then show ?case
    using Cons.IH [of "n + 1" ?s "track q' msg False c"] c(2) Cons.prems(2,4) step by simp
qed simp

lemma held_prepared:
  assumes "s_queues s q' = Some queue"
  shows "held q (prepared ch q' tag conn s) + (if q = q' then mset (q_Messages queue) else {#}) = held q s"
proof -
  define s0 where "s0 = upd_channel ch (\<lambda>c. c\<lparr>cs_ConsumerTag := tag, cs_Conn := Some conn\<rparr>)
    (sendAMQPFrame ch FrameMethod (amqp_method 60 21 (short_str tag)) conn s)"
  have "held q s0 = held q (sendAMQPFrame ch FrameMethod (amqp_method 60 21 (short_str tag)) conn s)"
    unfolding s0_def by (rule held_upd_same) simp
  also have "\<dots> = held q s"
    by (rule held_cong) simp_all
  finally have "held q s0 = held q s" .
  moreover have "held q (prepared ch q' tag conn s) = held q (set_messages q' [] s0)"
    unfolding prepared_def s0_def by (rule held_upd_same) simp
  moreover have "s_queues s0 q' = Some queue"
    using assms by (simp add: s0_def)
  ultimately show ?thesis
    using held_set_messages [of s0 q' queue q "[]"] by simp
qed

lemma held_consume:
  assumes "amqp_ok k s" "k \<le> 2 ^ 31"
  shows "held q (snd (handleBasicConsume ch q' tag conn s)) = held q s"
proof (cases "s_queues s q'")
  case (Some queue)
  have "length (q_Messages queue) \<le> k" "channels_ok (k * k + 1) s"
    using assms(1) Some by (auto simp: amqp_ok_def queues_ok_def)
  moreover have "k * k \<le> 2 ^ 62"
    using mult_le_mono [OF assms(2,2)] by simp
  ultimately have bound: "k * k + 1 + length (q_Messages queue) < 2 ^ 64"
    using assms(2) by simp
  obtain c where c: "channels_ok (k * k + 1) (prepared ch q' tag conn s)" "s_channelStates (prepared ch q' tag conn s) ch = Some c"
      "cs_NextDeliveryTag c \<noteq> 0"
    using prepared_ok [OF \<open>channels_ok (k * k + 1) s\<close>, of ch q' tag conn] by (metis add_gr_0 zero_less_one)
  show ?thesis
    using held_deliver_all [OF c bound, of q conn q' tag] held_prepared [OF Some, of q ch tag conn]
    by (auto simp: handleBasicConsume_prepared [OF Some])
qed (simp add: handleBasicConsume_def)

lemma held_untrack:
  assumes "s_channelStates s ch = Some c" "fmlookup (cs_UnackedMessages c) t = Some m"
  shows "held q (upd_channel ch (untrack t) s) + (if um_QueueName m = q then {#um_Body m#} else {#}) = held q s"
  using held_upd_channel [of q ch "untrack t" s] unacked_of_untrack [OF assms(2), of q] assms(1) by simp

lemma held_ack:
  assumes "s_channelStates s ch = Some c" "fmlookup (cs_UnackedMessages c) t = Some m"
  shows "held q (snd (handleBasicAck ch t s)) + (if um_QueueName m = q then {#um_Body m#} else {#}) = held q s"
  using held_untrack [OF assms] assms by (simp add: handleBasicAck_def)

lemma held_nack:
  assumes "amqp_ok k s" "s_channelStates s ch = Some c" "fmlookup (cs_UnackedMessages c) t = Some m"
  shows "held q (snd (handleBasicNack ch t s)) = held q s + (if um_QueueName m = q then {#um_Body m#} else {#})"
proof -
  obtain queue where Q: "s_queues s (um_QueueName m) = Some queue"
    using assms unfolding amqp_ok_def unacked_known_def by blast
  define s1 where "s1 = set_messages (um_QueueName m) (q_Messages queue @ [um_Body m]) (upd_channel ch (untrack t) s)"
  define s2 where "s2 = upd_channel ch (track (um_QueueName m) (um_Body m) True) s1"
  have ok: "channel_ok (k * k + 1) (untrack t c)"
    using assms channel_ok_untrack by (auto simp: amqp_ok_def channels_ok_def)
  have "held q s1 = held q (upd_channel ch (untrack t) s) + (if um_QueueName m = q then {#um_Body m#} else {#})"
    using held_set_messages [of "upd_channel ch (untrack t) s" "um_QueueName m" queue q "q_Messages queue @ [um_Body m]"] Q
    by (auto simp: s1_def)
  then have "held q s1 = held q s"
    using held_untrack [OF assms(2,3), of q] by simp
  moreover have "held q s2 = held q s1 + (if um_QueueName m = q then {#um_Body m#} else {#})"
    using held_upd_channel [of q ch "track (um_QueueName m) (um_Body m) True" s1]
      unacked_of_track [OF ok, of q "um_QueueName m" "um_Body m" True] assms(2)
    unfolding s2_def by (simp add: s1_def)
  moreover have "held q (snd (handleBasicNack ch t s)) = held q s2"
    using assms(2,3) Q by (auto simp: handleBasicNack_def Let_def s2_def s1_def intro!: held_cong split: option.split)
  ultimately show ?thesis
    by simp
qed

end
