(* ===== verification/AMQP_Delivery.thy ===== *)
theory AMQP_Delivery
  imports AMQP_Server
begin

text \<open>
  What the AMQP server does with whole conversations: the frames of a client on the wire, read in the pieces in
  which they arrive, from the publisher to the consumer; clients that follow the specification, and clients that
  share a channel number; and the theorems on reachable servers, with a run of the server as their witness.
\<close>

section \<open>Frames on the wire\<close>

lemma slice_prefix: "length pre = a \<Longrightarrow> length xs = b - a \<Longrightarrow> slice a b (pre @ xs @ rest) = xs"
  by (simp add: slice_def)

lemma read_amqp_frame_ok:
  assumes "ty < 256" "length payload \<le> 1024 * 1024"
  shows "read_amqp_frame ((amqp_frame ty ch payload @ rest) # ps) = Some ((ty, ch, payload), if rest = [] then ps else rest # ps)"
proof -
  let ?head = "[of_nat ty] @ be_put 2 ch @ be_put 4 (of_nat (length payload) :: u32)"
  have "slice 1 3 ?head = be_put 2 ch" "slice 3 7 ?head = be_put 4 (of_nat (length payload) :: u32)"
    using slice_prefix [of "[of_nat ty]" 1 "be_put 2 ch" 3 "be_put 4 (of_nat (length payload) :: u32)"]
      slice_prefix [of "[of_nat ty] @ be_put 2 ch" 3 "be_put 4 (of_nat (length payload) :: u32)" 7 "[]"] by simp_all
  then have head: "be_get (slice 1 3 ?head) = ch" "unat (be_get (slice 3 7 ?head) :: u32) = length payload"
    using assms(2) by (simp_all add: be16.get_put be32.get_put unat_of_nat)
  have ty: "unat (of_nat ty :: byte) = ty"
    using assms(1) by (simp add: unat_of_nat)
  have 1: "conn_Read 7 ((amqp_frame ty ch payload @ rest) # ps) = Some (?head, (payload @ [0xCE] @ rest) # ps)"
    by (simp add: amqp_frame_def)
  have 2: "(if length payload > 0 then conn_Read (length payload) ((payload @ [0xCE] @ rest) # ps)
      else Some ([], (payload @ [0xCE] @ rest) # ps)) = Some (payload, ([0xCE] @ rest) # ps)"
    by simp
  have 3: "conn_Read 1 (([0xCE] @ rest) # ps) = Some ([0xCE], if rest = [] then ps else rest # ps)"
    by (simp add: Suc_le_eq)
  show ?thesis
    using assms(2) head ty unfolding read_amqp_frame_def 1 option.case prod.case Let_def head 2 3
    by simp
qed

text \<open>Frames one after the other, each from some connection.\<close>

type_synonym frame_event = "conn \<times> string \<times> nat \<times> u16 \<times> byte list"

fun run_frames ::
  "(u64 \<Rightarrow> bool) \<Rightarrow> (nat \<Rightarrow> instant) \<Rightarrow> nat \<Rightarrow> frame_event list \<Rightarrow> EnhancedAMQPServer \<Rightarrow> EnhancedAMQPServer option" where
  "run_frames room clk k [] s = Some s"
| "run_frames room clk k ((conn, connID, ty, ch, payload) # fs) s =
     (case handleFrameWithState room (clk k) conn connID ty ch payload s of
        None \<Rightarrow> None
      | Some (_, s) \<Rightarrow> run_frames room clk (Suc k) fs s)"

lemma run_frames_append:
  "run_frames room clk k (fs @ gs) s =
     (case run_frames room clk k fs s of None \<Rightarrow> None | Some s \<Rightarrow> run_frames room clk (k + length fs) gs s)"
  by (induction fs arbitrary: k s) (auto split: option.split)

definition from_conn :: "conn \<Rightarrow> string \<Rightarrow> (nat \<times> u16 \<times> byte list) list \<Rightarrow> frame_event list" where
  "from_conn conn connID fs = map (\<lambda>(ty, ch, payload). (conn, connID, ty, ch, payload)) fs"

definition wire :: "(nat \<times> u16 \<times> byte list) list \<Rightarrow> byte list" where
  "wire fs = concat (map (\<lambda>(ty, ch, payload). amqp_frame ty ch payload) fs)"

definition frame_fits :: "nat \<times> u16 \<times> byte list \<Rightarrow> bool" where
  "frame_fits = (\<lambda>(ty, ch, payload). ty < 256 \<and> length payload \<le> 1024 * 1024)"

lemma wire_Nil_iff: "wire fs = [] \<longleftrightarrow> fs = []"
  by (cases fs) (auto simp: wire_def amqp_frame_def)

lemma frame_loop_group:
  assumes "list_all frame_fits fs" "fs \<noteq> []"
  shows "frame_loop room clk (\<lambda>_ s. s) conn connID k (wire fs # ps) s =
    (case run_frames room clk k (from_conn conn connID fs) s of
       None \<Rightarrow> None
     | Some s \<Rightarrow> frame_loop room clk (\<lambda>_ s. s) conn connID (k + length fs) ps s)"
  using assms
proof (induction fs arbitrary: k s)
  case (Cons f fs)
  obtain ty ch payload where f: "f = (ty, ch, payload)"
    by (cases f)
  have read: "read_amqp_frame (wire (f # fs) # ps) = Some ((ty, ch, payload), if wire fs = [] then ps else wire fs # ps)"
    using Cons.prems read_amqp_frame_ok [of ty payload ch "wire fs" ps] by (simp add: f wire_def frame_fits_def)
  have step: "frame_loop room clk (\<lambda>_ s. s) conn connID k (wire (f # fs) # ps) s =
      (case handleFrameWithState room (clk k) conn connID ty ch payload s of
         None \<Rightarrow> None
       | Some (_, s) \<Rightarrow> frame_loop room clk (\<lambda>_ s. s) conn connID (Suc k) (if wire fs = [] then ps else wire fs # ps) s)"
    by (subst frame_loop.simps) (simp only: read option.case prod.case)
  show ?case
    using Cons.IH Cons.prems(1) unfolding step
    by (cases "fs = []") (auto simp: f from_conn_def wire_Nil_iff split: option.split)
qed simp

lemma frame_loop_groups:
  assumes "list_all (list_all frame_fits) gs" "[] \<notin> set gs"
  shows "frame_loop room clk (\<lambda>_ s. s) conn connID k (map wire gs) s = run_frames room clk k (from_conn conn connID (concat gs)) s"
  using assms
proof (induction gs arbitrary: k s)
  case Nil
  then show ?case
    by (subst frame_loop.simps) (simp add: read_amqp_frame_def from_conn_def)
next
  case (Cons g gs)
  then show ?case
    by (auto simp: frame_loop_group run_frames_append from_conn_def split: option.split)
qed

text \<open>The pieces in which the bytes arrive. If every piece that arrives consists of whole frames, the frames are
  handled one by one, however many a piece has. If a frame is cut within its header, nothing of it is handled and
  the connection ends, although the rest of the frame is on its way.\<close>

theorem amqp_pieces:
  assumes "list_all (list_all frame_fits) gs" "[] \<notin> set gs" "0 < i" "i < 7"
  shows "frame_loop room clk (\<lambda>_ s. s) conn connID k (map wire gs) s = run_frames room clk k (from_conn conn connID (concat gs)) s \<and>
    frame_loop room clk others conn connID k (take i (amqp_frame ty ch payload) # ps) s = Some s"
proof
  have "length (take i (amqp_frame ty ch payload)) = i"
    using assms(4) by (simp add: amqp_frame_def)
  then show "frame_loop room clk others conn connID k (take i (amqp_frame ty ch payload) # ps) s = Some s"
    using assms(4) by (subst frame_loop.simps) (simp add: read_amqp_frame_def)
qed (rule frame_loop_groups [OF assms(1,2)])

section \<open>From publisher to consumer\<close>

lemma method_ids [simp]:
  "classID_of (amqp_method c m args) = c" "methodID_of (amqp_method c m args) = m" "length (amqp_method c m args) = 4 + length args"
  using slice_prefix [of "[]" 0 "be_put 2 c" 2 "be_put 2 m @ args"] slice_prefix [of "be_put 2 c" 2 "be_put 2 m" 4 args]
  by (simp_all add: classID_of_def methodID_of_def amqp_method_def be16.get_put)

lemma length_short_str [simp]: "length (short_str s) = 1 + length s"
  by (simp add: short_str_def)

lemma short_string_at_ok:
  assumes "length s < 256" "length pre = pos"
  shows "short_string_at pos (pre @ short_str s @ rest) = Some (s, pos + 1 + length s)"
proof -
  have "(pre @ short_str s @ rest) ! pos = of_nat (length s)"
    using assms(2) by (simp add: short_str_def nth_append)
  moreover have "slice (pos + 1) (pos + 1 + length s) (pre @ short_str s @ rest) = bytes_of s"
    using slice_prefix [of "pre @ [of_nat (length s)]" "pos + 1" "bytes_of s" "pos + 1 + length s" rest] assms(2)
    by (simp add: short_str_def)
  ultimately show ?thesis
    using assms by (simp add: short_string_at_def Let_def unat_of_nat)
qed

lemma two_short_strings_ok:
  assumes "length a < 256" "length b < 256" "length pre = pos"
  shows "two_short_strings mth n1 n2 pos (pre @ short_str a @ short_str b @ rest) = Inr (a, b)"
  using short_string_at_ok [OF assms(1,3), of "short_str b @ rest"]
    short_string_at_ok [OF assms(2), of "pre @ short_str a" "pos + 1 + length a" rest] assms(3)
  by (simp add: two_short_strings_def)

text \<open>The frames of a client: the ones that publish a message whose body is cut into pieces, and the one that
  starts a consumer.\<close>

definition publish_method :: "string \<Rightarrow> string \<Rightarrow> byte list" where
  "publish_method ex rk = amqp_method 60 40 (short_str ex @ short_str rk @ [0])"

definition header_payload :: "nat \<Rightarrow> byte list" where
  "header_payload n = be_put 2 (60 :: u16) @ be_put 2 (0 :: u16) @ be_put 8 (of_nat n :: u64) @ be_put 2 (0 :: u16)"

definition publish_frames :: "u16 \<Rightarrow> string \<Rightarrow> string \<Rightarrow> byte list list \<Rightarrow> (nat \<times> u16 \<times> byte list) list" where
  "publish_frames ch ex rk body =
     (FrameMethod, ch, publish_method ex rk) # (FrameHeader, ch, header_payload (length (concat body))) #
     map (\<lambda>b. (FrameBody, ch, b)) body"

definition consume_frame :: "u16 \<Rightarrow> string \<Rightarrow> string \<Rightarrow> nat \<times> u16 \<times> byte list" where
  "consume_frame ch q tag = (FrameMethod, ch, amqp_method 60 20 ([0, 0] @ short_str q @ short_str tag @ [0]))"

text \<open>The frames that deliver messages with consecutive tags.\<close>

definition deliver_frames :: "conn \<Rightarrow> u16 \<Rightarrow> string \<Rightarrow> string \<Rightarrow> u64 \<Rightarrow> byte list \<Rightarrow> (conn \<times> byte list) list" where
  "deliver_frames conn ch q tag n msg =
     [(conn, amqp_frame FrameMethod ch (amqp_method 60 60 (short_str tag @ be_put 8 n @ [0, 0] @ short_str q))),
      (conn, amqp_frame FrameHeader ch (header_payload (length msg))),
      (conn, amqp_frame FrameBody ch msg)]"

fun deliveries :: "conn \<Rightarrow> u16 \<Rightarrow> string \<Rightarrow> string \<Rightarrow> u64 \<Rightarrow> byte list list \<Rightarrow> (conn \<times> byte list) list" where
  "deliveries conn ch q tag n [] = []"
| "deliveries conn ch q tag n (m # ms) = deliver_frames conn ch q tag n m @ deliveries conn ch q tag (n + 1) ms"

lemma deliver_sent: "s_sent (deliverMessage conn ch q tag n msg False s) = s_sent s @ deliver_frames conn ch q tag n msg"
  by (simp add: deliver_frames_def deliverMessage_def header_payload_def)

lemma deliver_all_sent: "s_sent (deliver_all conn ch q tag msgs s) = s_sent s @ deliveries conn ch q tag (next_tag ch s) msgs"
proof (induction msgs arbitrary: s)
  case (Cons msg msgs)
  have "next_tag ch (deliverMessage conn ch q tag n msg False (upd_channel ch (track q msg False) s)) = next_tag ch s + 1" for n
    by (auto simp: next_tag_def track_def new_channel_def split: option.split)
  then show ?case
    using Cons by (simp add: deliver_sent)
qed simp

lemma handle_publish_method:
  assumes "state_of connID s = StateConnected" "length ex < 256" "length rk < 256"
  shows "handleFrameWithState room now conn connID FrameMethod ch (publish_method ex rk) s =
    Some (None, upd_channel ch (\<lambda>c. c\<lparr>cs_PendingPublish :=
      Some \<lparr>pp_Exchange = ex, pp_RoutingKey = rk, pp_BodySize = 0, pp_Body = []\<rparr>\<rparr>) s)"
  using two_short_strings_ok [OF assms(2,3), of "be_put 2 (60 :: u16) @ be_put 2 (40 :: u16)" 4 "''BasicPublish''" "'' exchange''" "'' routing key''" "[0]"] assms(1)
  by (simp add: handleFrameWithState_def handleMethodFrameWithChannel_def basic_publish_def publish_method_def)
    (simp add: amqp_method_def)

lemma handle_header:
  assumes "s_channelStates s ch = Some c" "cs_PendingPublish c = Some p" "room (of_nat n)"
  shows "handleFrameWithState room now conn connID FrameHeader ch (header_payload n) s =
    Some (None, upd_channel ch (\<lambda>c. c\<lparr>cs_PendingPublish := Some (p\<lparr>pp_BodySize := of_nat n, pp_Body := []\<rparr>)\<rparr>) s)"
proof -
  have "slice 4 12 (header_payload n) = be_put 8 (of_nat n :: u64)" "length (header_payload n) = 14"
    using slice_prefix [of "be_put 2 (60 :: u16) @ be_put 2 (0 :: u16)" 4 "be_put 8 (of_nat n :: u64)" 12 "be_put 2 (0 :: u16)"]
    by (simp_all add: header_payload_def)
  then show ?thesis
    using assms by (simp add: handleFrameWithState_def handleAMQPFrameWithChannel_def content_header_def FrameMethod_def
        FrameHeader_def be64.get_put)
qed

lemma handle_body:
  "handleFrameWithState room now conn connID FrameBody ch b s = Some (content_body ch b s)"
  by (simp add: handleFrameWithState_def handleAMQPFrameWithChannel_def FrameMethod_def FrameHeader_def FrameBody_def)

lemma upd_channel_twice:
  assumes "s_channelStates s ch = Some c" "\<And>c. f (g c) = h c"
  shows "upd_channel ch f (upd_channel ch g s) = upd_channel ch h s"
  using assms by (simp add: upd_channel_def)

lemma of_nat_le_u64: "m < 2 ^ 64 \<Longrightarrow> n < 2 ^ 64 \<Longrightarrow> (of_nat n :: u64) \<le> of_nat m \<longleftrightarrow> n \<le> m"
  by (simp add: word_le_nat_alt unat_of_nat)

lemma run_body_frames:
  assumes "s_channelStates s ch = Some c" "cs_PendingPublish c = Some p" "pp_BodySize p = of_nat n"
    and "n = length (pp_Body p) + length (concat body)" "n < 2 ^ 64" "body \<noteq> []" "[] \<notin> set body"
  shows "run_frames room clk k (from_conn conn connID (map (\<lambda>b. (FrameBody, ch, b)) body)) s =
    Some (snd (handleBasicPublish ch (pp_Exchange p) (pp_RoutingKey p) (pp_Body p @ concat body)
      (upd_channel ch (\<lambda>c. c\<lparr>cs_PendingPublish := None\<rparr>) s)))"
  using assms
proof (induction body arbitrary: k s c p)
  case (Cons b body)
  show ?case
  proof (cases "body = []")
    case True
    then show ?thesis
      using Cons.prems by (simp add: from_conn_def handle_body content_body_def case_prod_unfold)
  next
    case False
    then obtain b' where b': "b' \<in> set body"
      by (cases body) auto
    have pos: "0 < length (concat body)"
      using b' Cons.prems(7) by (cases "concat body") auto
    define p' where "p' = p\<lparr>pp_Body := pp_Body p @ b\<rparr>"
    define s' where "s' = upd_channel ch (\<lambda>c. c\<lparr>cs_PendingPublish := Some p'\<rparr>) s"
    have "\<not> (of_nat (length (pp_Body p @ b)) :: u64) \<ge> of_nat n"
      using Cons.prems(4,5) pos of_nat_le_u64 [of "length (pp_Body p @ b)" n] by (simp del: of_nat_add)
    then have b: "content_body ch b s = (None, s')"
      using Cons.prems(1-3) by (simp add: content_body_def s'_def p'_def Let_def)
    have "run_frames room clk (Suc k) (from_conn conn connID (map (\<lambda>b. (FrameBody, ch, b)) body)) s' =
        Some (snd (handleBasicPublish ch (pp_Exchange p') (pp_RoutingKey p') (pp_Body p' @ concat body)
          (upd_channel ch (\<lambda>c. c\<lparr>cs_PendingPublish := None\<rparr>) s')))"
      using Cons.prems False
      by (intro Cons.IH [where c = "c\<lparr>cs_PendingPublish := Some p'\<rparr>"]) (auto simp: s'_def p'_def)
    moreover have "upd_channel ch (\<lambda>c. c\<lparr>cs_PendingPublish := None\<rparr>) s' = upd_channel ch (\<lambda>c. c\<lparr>cs_PendingPublish := None\<rparr>) s"
      unfolding s'_def by (rule upd_channel_twice [OF Cons.prems(1)]) simp
    ultimately show ?thesis
      by (simp add: from_conn_def handle_body b p'_def)
  qed
qed simp

definition sound_body :: "(u64 \<Rightarrow> bool) \<Rightarrow> byte list list \<Rightarrow> bool" where
  "sound_body room body \<longleftrightarrow> body \<noteq> [] \<and> [] \<notin> set body \<and> length (concat body) < 2 ^ 64 \<and> room (of_nat (length (concat body)))"

definition content_frames :: "u16 \<Rightarrow> byte list list \<Rightarrow> (nat \<times> u16 \<times> byte list) list" where
  "content_frames ch body = (FrameHeader, ch, header_payload (length (concat body))) # map (\<lambda>b. (FrameBody, ch, b)) body"

lemma run_content:
  assumes "s_channelStates s ch = Some c" "cs_PendingPublish c = Some p" "sound_body room body"
  shows "run_frames room clk k (from_conn conn connID (content_frames ch body)) s =
    Some (snd (handleBasicPublish ch (pp_Exchange p) (pp_RoutingKey p) (concat body) (upd_channel ch (\<lambda>c. c\<lparr>cs_PendingPublish := None\<rparr>) s)))"
proof -
  define p' where "p' = p\<lparr>pp_BodySize := of_nat (length (concat body)), pp_Body := []\<rparr>"
  define s' where "s' = upd_channel ch (\<lambda>c. c\<lparr>cs_PendingPublish := Some p'\<rparr>) s"
  have 1: "handleFrameWithState room (clk k) conn connID FrameHeader ch (header_payload (length (concat body))) s = Some (None, s')"
    using handle_header [OF assms(1,2), where n = "length (concat body)" and room = room] assms(3) by (simp add: sound_body_def s'_def p'_def)
  have c': "s_channelStates s' ch = Some (c\<lparr>cs_PendingPublish := Some p'\<rparr>)"
    using assms(1) by (simp add: s'_def)
  have "upd_channel ch (\<lambda>c. c\<lparr>cs_PendingPublish := None\<rparr>) s' = upd_channel ch (\<lambda>c. c\<lparr>cs_PendingPublish := None\<rparr>) s"
    unfolding s'_def by (rule upd_channel_twice [OF assms(1)]) simp
  then have "run_frames room clk (Suc k) (from_conn conn connID (map (\<lambda>b. (FrameBody, ch, b)) body)) s' =
      Some (snd (handleBasicPublish ch (pp_Exchange p) (pp_RoutingKey p) (concat body) (upd_channel ch (\<lambda>c. c\<lparr>cs_PendingPublish := None\<rparr>) s)))"
    using run_body_frames [OF c', where p = p' and n = "length (concat body)" and body = body] assms(3)
    by (simp add: sound_body_def p'_def)
  then show ?thesis
    using 1 by (simp add: content_frames_def from_conn_def)
qed

lemma publish_frames_content: "publish_frames ch ex rk body = (FrameMethod, ch, publish_method ex rk) # content_frames ch body"
  by (simp add: publish_frames_def content_frames_def)

text \<open>What a complete message does to the server.\<close>

lemma handleBasicPublish_done:
  assumes "target_queue ch rk s = Some q" "s_queues s q = Some Q" "handleBasicPublish ch ex rk body s = (e, s')"
  shows "s_sent s' = s_sent s" "s_queues s' = (s_queues s)(q \<mapsto> Q\<lparr>q_Messages := q_Messages Q @ [body]\<rparr>)"
    "s_channelStates s' = s_channelStates s" "s_connectionStates s' = s_connectionStates s"
  using assms by (auto simp: handleBasicPublish_def)

lemma run_publish:
  assumes "state_of connID s = StateConnected" "s_queues s q = Some Q" "q \<noteq> []" "length q < 256" "length ex < 256" "sound_body room body"
  shows "\<exists>s'. run_frames room clk k (from_conn conn connID (publish_frames ch ex q body)) s = Some s' \<and>
    s_sent s' = s_sent s \<and> s_queues s' = (s_queues s)(q \<mapsto> Q\<lparr>q_Messages := q_Messages Q @ [concat body]\<rparr>) \<and>
    next_tag ch s' = next_tag ch s \<and> s_connectionStates s' = s_connectionStates s"
proof -
  define p where "p = \<lparr>pp_Exchange = ex, pp_RoutingKey = q, pp_BodySize = 0, pp_Body = []\<rparr>"
  define s1 where "s1 = upd_channel ch (\<lambda>c. c\<lparr>cs_PendingPublish := Some p\<rparr>) s"
  have 1: "handleFrameWithState room (clk k) conn connID FrameMethod ch (publish_method ex q) s = Some (None, s1)"
    unfolding s1_def p_def by (rule handle_publish_method [OF assms(1,5,4)])
  obtain c where c: "s_channelStates s1 ch = Some c" "cs_PendingPublish c = Some p"
    by (simp add: s1_def)
  let ?s = "upd_channel ch (\<lambda>c. c\<lparr>cs_PendingPublish := None\<rparr>) s1"
  obtain e s' where p: "handleBasicPublish ch ex q (concat body) ?s = (e, s')"
    by fastforce
  have "target_queue ch q ?s = Some q" "s_queues ?s q = Some Q"
    using assms(2,3) by (simp_all add: target_queue_def s1_def)
  note stored = handleBasicPublish_done [OF this p]
  have "next_tag ch s' = next_tag ch s"
    using stored(3) by (auto simp: next_tag_def s1_def new_channel_def split: option.split)
  moreover have "run_frames room clk k (from_conn conn connID (publish_frames ch ex q body)) s = Some s'"
    using 1 run_content [OF c assms(6), of clk "Suc k" conn connID] p by (simp add: p_def publish_frames_content from_conn_def)
  ultimately show ?thesis
    using stored(1,2,4) by (simp add: s1_def)
qed

lemma run_publishes:
  assumes "state_of connID s = StateConnected" "s_queues s q = Some Q" "q \<noteq> []" "length q < 256"
    and "list_all (\<lambda>(ex, body). length ex < 256 \<and> sound_body room body) msgs"
  shows "\<exists>s'. run_frames room clk k (from_conn conn connID (concat (map (\<lambda>(ex, body). publish_frames ch ex q body) msgs))) s = Some s' \<and>
    s_sent s' = s_sent s \<and> s_queues s' = (s_queues s)(q \<mapsto> Q\<lparr>q_Messages := q_Messages Q @ map (concat \<circ> snd) msgs\<rparr>) \<and>
    next_tag ch s' = next_tag ch s \<and> s_connectionStates s' = s_connectionStates s"
  using assms
proof (induction msgs arbitrary: k s Q)
  case Nil
  then show ?case
    by (auto simp: from_conn_def)
next
  case (Cons msg msgs)
  obtain ex body where m: "msg = (ex, body)"
    by (cases msg)
  obtain s1 where 1: "run_frames room clk k (from_conn conn connID (publish_frames ch ex q body)) s = Some s1"
      "s_sent s1 = s_sent s" "s_queues s1 = (s_queues s)(q \<mapsto> Q\<lparr>q_Messages := q_Messages Q @ [concat body]\<rparr>)"
      "next_tag ch s1 = next_tag ch s" "s_connectionStates s1 = s_connectionStates s"
    using run_publish [OF Cons.prems(1-4), of ex room body clk k conn ch] Cons.prems(5) by (auto simp: m)
  have "state_of connID s1 = StateConnected" "s_queues s1 q = Some (Q\<lparr>q_Messages := q_Messages Q @ [concat body]\<rparr>)"
    using Cons.prems(1) 1 by (simp_all add: state_of_def)
  from Cons.IH [OF this Cons.prems(3,4)] obtain s2 where
    2: "run_frames room clk (k + length (publish_frames ch ex q body))
          (from_conn conn connID (concat (map (\<lambda>(ex, body). publish_frames ch ex q body) msgs))) s1 = Some s2"
      "s_sent s2 = s_sent s1" "s_queues s2 = (s_queues s1)(q \<mapsto> Q\<lparr>q_Messages := q_Messages Q @ concat body # map (concat \<circ> snd) msgs\<rparr>)"
      "next_tag ch s2 = next_tag ch s1" "s_connectionStates s2 = s_connectionStates s1"
    using Cons.prems(5) by fastforce
  have "run_frames room clk k (from_conn conn connID (concat (map (\<lambda>(ex, body). publish_frames ch ex q body) (msg # msgs)))) s = Some s2"
    using 1(1) 2(1) by (simp add: m from_conn_def run_frames_append)
  moreover have "s_queues s2 = (s_queues s)(q \<mapsto> Q\<lparr>q_Messages := q_Messages Q @ map (concat \<circ> snd) (msg # msgs)\<rparr>)"
    unfolding 2(3) 1(3) by (simp add: m)
  ultimately show ?case
    using 1 2 by auto
qed

lemma handle_consume_frame:
  assumes "state_of connID s = StateConnected" "length q < 256" "length tag < 256" "consume_frame ch q tag = (ty, ch', payload)"
  shows "handleFrameWithState room now conn connID ty ch' payload s = Some (handleBasicConsume ch q tag conn s)"
  using two_short_strings_ok [OF assms(2,3), of "be_put 2 (60 :: u16) @ be_put 2 (20 :: u16) @ [0, 0]" 6 "''BasicConsume''" "'' queue''" "'' consumer tag''" "[0]"] assms(1,4)
  by (auto simp: handleFrameWithState_def handleMethodFrameWithChannel_def basic_consume_def consume_frame_def)
    (simp add: amqp_method_def)

text \<open>C15. From publisher to consumer over the wire. Whatever messages a client publishes to a queue, through whatever
  exchanges, with their bodies cut into any frames, and in whatever pieces of whole frames they arrive: a consumer
  that the client then starts is sent the confirmation, the messages that were in the queue before, and the
  published ones, in the order published, with consecutive delivery tags from the channel's next one on, which is
  never 0; and the queue is empty.\<close>

theorem amqp_delivery:
  assumes "list_all (list_all frame_fits) gs" "[] \<notin> set gs"
    and "concat gs = concat (map (\<lambda>(ex, body). publish_frames ch ex q body) msgs) @ [consume_frame ch q tag]"
    and "list_all (\<lambda>(ex, body). length ex < 256 \<and> sound_body room body) msgs"
    and "state_of connID s = StateConnected" "s_queues s q = Some Q" "q \<noteq> []" "length q < 256" "length tag < 256"
  shows "\<exists>s'. frame_loop room clk (\<lambda>_ s. s) conn connID k (map wire gs) s = Some s' \<and>
    s_sent s' = s_sent s @ [(conn, amqp_frame FrameMethod ch (amqp_method 60 21 (short_str tag)))] @
      deliveries conn ch q tag (if next_tag ch s = 0 then 1 else next_tag ch s) (q_Messages Q @ map (concat \<circ> snd) msgs) \<and>
    queued q s' = []"
proof -
  let ?fs = "concat (map (\<lambda>(ex, body). publish_frames ch ex q body) msgs)"
  obtain s1 where 1: "run_frames room clk k (from_conn conn connID ?fs) s = Some s1" "s_sent s1 = s_sent s"
      "s_queues s1 = (s_queues s)(q \<mapsto> Q\<lparr>q_Messages := q_Messages Q @ map (concat \<circ> snd) msgs\<rparr>)"
      "next_tag ch s1 = next_tag ch s" "s_connectionStates s1 = s_connectionStates s"
    using run_publishes [OF assms(5-8,4)] by blast
  obtain ty ch' payload where f: "consume_frame ch q tag = (ty, ch', payload)"
    by (cases "consume_frame ch q tag")
  have "state_of connID s1 = StateConnected"
    using assms(5) 1(5) by (simp add: state_of_def)
  note consumed = handle_consume_frame [OF this assms(8,9) f]
  have Q1: "s_queues s1 q = Some (Q\<lparr>q_Messages := q_Messages Q @ map (concat \<circ> snd) msgs\<rparr>)"
    using 1(3) by simp
  have "frame_loop room clk (\<lambda>_ s. s) conn connID k (map wire gs) s = Some (snd (handleBasicConsume ch q tag conn s1))"
    using frame_loop_groups [OF assms(1,2)] 1(1) consumed [of room]
    by (simp add: assms(3) f from_conn_def run_frames_append case_prod_unfold)
  moreover have "next_tag ch (prepared ch q tag conn s1) = (if next_tag ch s = 0 then 1 else next_tag ch s)"
    using 1(4) by (auto simp: prepared_def next_tag_def new_channel_def split: option.splits)
  moreover have "s_sent (prepared ch q tag conn s1) = s_sent s @ [(conn, amqp_frame FrameMethod ch (amqp_method 60 21 (short_str tag)))]"
    "queued q (prepared ch q tag conn s1) = []"
    using 1(2) Q1 by (simp_all add: prepared_def queued_def)
  ultimately show ?thesis
    by (simp add: handleBasicConsume_prepared [OF Q1] deliver_all_sent queued_def)
qed

section \<open>Clients the server does not expect\<close>

text \<open>The methods as AMQP 0-9-1 lays them out, with a reserved number of two bytes before the arguments.\<close>

definition std_declare :: "string \<Rightarrow> byte \<Rightarrow> byte list" where
  "std_declare name flags = amqp_method 50 10 ([0, 0] @ short_str name @ [flags] @ be_put 4 (0 :: u32))"

definition std_publish :: "string \<Rightarrow> string \<Rightarrow> byte list" where
  "std_publish ex rk = amqp_method 60 40 ([0, 0] @ short_str ex @ short_str rk @ [0])"

lemma amqp_method_nth: "4 \<le> i \<Longrightarrow> amqp_method c m args ! i = args ! (i - 4)"
  using nth_append_right [of "be_put 2 c @ be_put 2 m" i args] by (simp add: amqp_method_def)

lemma handle_std_declare:
  assumes "state_of connID s = StateConnected"
  shows "\<exists>d a. handleFrameWithState room now conn connID FrameMethod ch (std_declare name flags) s =
    Some (None, handleQueueDeclare now conn ch [] d a s)"
  using assms
  by (simp add: handleFrameWithState_def handleMethodFrameWithChannel_def queue_declare_def std_declare_def amqp_method_nth
      slice_def string_of_def Let_def) blast

lemma handle_std_publish:
  assumes "state_of connID s = StateConnected"
  shows "handleFrameWithState room now conn connID FrameMethod ch (std_publish ex rk) s =
    Some (None, upd_channel ch (\<lambda>c. c\<lparr>cs_PendingPublish :=
      Some \<lparr>pp_Exchange = [], pp_RoutingKey = [], pp_BodySize = 0, pp_Body = []\<rparr>\<rparr>) s)"
  using assms
  by (simp add: handleFrameWithState_def handleMethodFrameWithChannel_def basic_publish_def std_publish_def
      two_short_strings_def short_string_at_def amqp_method_nth slice_def string_of_def)

text \<open>C40. A client that follows the AMQP 0-9-1 specification is misunderstood. The reserved number before the
  arguments of queue-declare and basic-publish is read as the lengths of empty names. The client declares the queue
  \<open>name\<close>, and the server makes a queue with a name generated from the time; the client publishes with any
  exchange and routing key, and the message goes to that queue.\<close>

theorem amqp_standard_client:
  assumes "state_of connID s = StateConnected" "sound_body room body" "gen = ''amq.gen-'' @ dec (nat (clk k))"
  shows "\<exists>s'. run_frames room clk k (from_conn conn connID
      ((FrameMethod, ch, std_declare name flags) # (FrameMethod, ch, std_publish ex rk) # content_frames ch body)) s = Some s' \<and>
    queued gen s' = queued gen s @ [concat body] \<and> (q \<noteq> gen \<longrightarrow> s_queues s' q = s_queues s q)"
proof -
  let ?p = "\<lparr>pp_Exchange = [], pp_RoutingKey = [], pp_BodySize = 0, pp_Body = []\<rparr>"
  obtain d a where 1: "handleFrameWithState room (clk k) conn connID FrameMethod ch (std_declare name flags) s =
      Some (None, handleQueueDeclare (clk k) conn ch [] d a s)"
    using handle_std_declare [OF assms(1)] by blast
  define s1 where "s1 = handleQueueDeclare (clk k) conn ch [] d a s"
  have s1: "s_connectionStates s1 = s_connectionStates s" "q \<noteq> gen \<Longrightarrow> s_queues s1 q = s_queues s q" "queued gen s1 = queued gen s"
      "\<exists>c. s_channelStates s1 ch = Some c \<and> cs_BoundQueue c = gen"
    by (auto simp: s1_def handleQueueDeclare_def Let_def queued_def assms(3) split: option.split)
  have "s_queues s1 gen \<noteq> None"
    by (auto simp: s1_def handleQueueDeclare_def Let_def assms(3) split: option.split)
  then obtain Q where Q: "s_queues s1 gen = Some Q"
    by blast
  define s2 where "s2 = upd_channel ch (\<lambda>c. c\<lparr>cs_PendingPublish := Some ?p\<rparr>) s1"
  have 2: "handleFrameWithState room (clk (Suc k)) conn connID FrameMethod ch (std_publish ex rk) s1 = Some (None, s2)"
    unfolding s2_def using handle_std_publish [of connID s1] assms(1) s1(1) by (simp add: state_of_def)
  obtain c where c: "s_channelStates s2 ch = Some c" "cs_PendingPublish c = Some ?p" "cs_BoundQueue c = gen"
    using s1(4) by (auto simp: s2_def)
  let ?s = "upd_channel ch (\<lambda>c. c\<lparr>cs_PendingPublish := None\<rparr>) s2"
  obtain e s' where p: "handleBasicPublish ch [] [] (concat body) ?s = (e, s')"
    by fastforce
  have "target_queue ch [] ?s = Some gen" "s_queues ?s gen = Some Q"
    using c Q assms(3) by (simp_all add: target_queue_def s2_def)
  note stored = handleBasicPublish_done [OF this p]
  have "run_frames room clk (Suc (Suc k)) (from_conn conn connID (content_frames ch body)) s2 = Some s'"
    using run_content [OF c(1,2) assms(2), of clk "Suc (Suc k)" conn connID] p by simp
  then have "run_frames room clk k (from_conn conn connID
      ((FrameMethod, ch, std_declare name flags) # (FrameMethod, ch, std_publish ex rk) # content_frames ch body)) s = Some s'"
    using 1 2 by (simp add: from_conn_def s1_def)
  moreover have "queued gen s' = queued gen s @ [concat body]" "q \<noteq> gen \<longrightarrow> s_queues s' q = s_queues s q"
    using stored(2) Q s1(2,3) by (auto simp: queued_def s2_def)
  ultimately show ?thesis
    by blast
qed

text \<open>Channels are not kept apart by connection. Two clients on different connections use the same channel
  number. The first starts to publish to its queue; before its body arrives, the second starts to publish to
  another queue. The body of the first client's message then goes to the second client's queue.\<close>

theorem amqp_channels_shared:
  assumes "state_of id1 s = StateConnected" "state_of id2 s = StateConnected" "sound_body room body"
    and "s_queues s q2 = Some Q" "q2 \<noteq> []" "length q1 < 256" "length q2 < 256"
  shows "\<exists>s'. run_frames room clk k ((conn1, id1, FrameMethod, ch, publish_method [] q1) #
      (conn2, id2, FrameMethod, ch, publish_method [] q2) # from_conn conn1 id1 (content_frames ch body)) s = Some s' \<and>
    s_queues s' = (s_queues s)(q2 \<mapsto> Q\<lparr>q_Messages := q_Messages Q @ [concat body]\<rparr>)"
proof -
  let ?p = "\<lambda>q. \<lparr>pp_Exchange = [], pp_RoutingKey = q, pp_BodySize = 0, pp_Body = []\<rparr>"
  define s1 where "s1 = upd_channel ch (\<lambda>c. c\<lparr>cs_PendingPublish := Some (?p q1)\<rparr>) s"
  define s2 where "s2 = upd_channel ch (\<lambda>c. c\<lparr>cs_PendingPublish := Some (?p q2)\<rparr>) s1"
  have 1: "handleFrameWithState room (clk k) conn1 id1 FrameMethod ch (publish_method [] q1) s = Some (None, s1)"
    unfolding s1_def using assms(1,6) by (intro handle_publish_method) simp_all
  have 2: "handleFrameWithState room (clk (Suc k)) conn2 id2 FrameMethod ch (publish_method [] q2) s1 = Some (None, s2)"
    unfolding s2_def using assms(2,7) by (intro handle_publish_method) (simp_all add: s1_def state_of_def)
  obtain c where c: "s_channelStates s2 ch = Some c" "cs_PendingPublish c = Some (?p q2)"
    by (simp add: s2_def)
  let ?s = "upd_channel ch (\<lambda>c. c\<lparr>cs_PendingPublish := None\<rparr>) s2"
  obtain e s' where p: "handleBasicPublish ch [] q2 (concat body) ?s = (e, s')"
    by fastforce
  have "target_queue ch q2 ?s = Some q2" "s_queues ?s q2 = Some Q"
    using assms(4,5) by (simp_all add: target_queue_def s2_def s1_def)
  note stored = handleBasicPublish_done [OF this p]
  then show ?thesis
    using 1 2 run_content [OF c assms(3), of clk "Suc (Suc k)" conn1 id1] p by (simp add: s2_def s1_def)
qed

section \<open>A run of the server\<close>

lemma amqp_reach_run:
  "amqp_reach k s \<Longrightarrow> run_frames room clk n fs s = Some s' \<Longrightarrow> amqp_reach (k + length fs) s'"
proof (induction fs arbitrary: k n s)
  case (Cons f fs)
  obtain conn connID ty ch payload where f: "f = (conn, connID, ty, ch, payload)"
    by (cases f)
  from Cons.prems(2) obtain e s1 where 1: "handleFrameWithState room (clk n) conn connID ty ch payload s = Some (e, s1)"
      "run_frames room clk (Suc n) fs s1 = Some s'"
    by (auto simp: f split: option.splits)
  show ?case
    using Cons.IH [OF amqp_reach.frame [OF Cons.prems(1) 1(1)] 1(2)] by simp
qed simp

lemma dec_5: "dec 5 = ''5''"
  by code_simp

text \<open>A client connects and declares a queue at the time 5.\<close>

lemma amqp_demo_declared:
  obtains s where "amqp_reach 3 s" "state_of ''c'' s = StateConnected"
    "s_queues s = [''amq.gen-5'' \<mapsto> \<lparr>q_Name = ''amq.gen-5'', q_Messages = [], q_Durable = False, q_AutoDelete = False, q_Exclusive = False\<rparr>]"
    "s_channelStates s = [1 \<mapsto> new_channel\<lparr>cs_BoundQueue := ''amq.gen-5''\<rparr>]"
proof -
  define s1 where "s1 = sendConnectionStart 1 (set_state ''c'' StateStart (NewEnhancedAMQPServer\<lparr>s_connections :=
    (s_connections NewEnhancedAMQPServer)(''c'' \<mapsto> 1)\<rparr>))"
  have 1: "amqp_reach 1 s1"
    using amqp_reach.connect [OF amqp_reach.start, of 1 "''c''"] by (simp add: s1_def)
  define s2 where "s2 = sendConnectionOpenOk 1 ''c'' (set_state ''c'' StateOpenReceived s1)"
  have "handleFrameWithState (\<lambda>_. True) 4 1 ''c'' FrameMethod 0 (amqp_method 10 40 []) s1 = Some (None, s2)"
    by (simp add: handleFrameWithState_def s2_def)
  from amqp_reach.frame [OF 1 this] have 2: "amqp_reach 2 s2"
    by (simp only: one_add_one)
  have conn: "state_of ''c'' s2 = StateConnected"
    by (simp add: s2_def sendConnectionOpenOk_def state_of_def)
  obtain d a where d: "handleFrameWithState (\<lambda>_. True) 5 1 ''c'' FrameMethod 1 (std_declare ''t'' 0) s2 =
      Some (None, handleQueueDeclare 5 1 1 [] d a s2)"
    using handle_std_declare [OF conn] by blast
  have s2: "s_queues s2 = Map.empty" "s_channelStates s2 = Map.empty"
    by (simp_all add: s2_def s1_def sendConnectionOpenOk_def sendConnectionStart_def NewEnhancedAMQPServer_def Let_def)
  define s3 where "s3 = handleQueueDeclare 5 1 1 [] d a s2"
  have 3: "amqp_reach 3 s3"
    using amqp_reach.frame [OF 2 d] by (simp add: s3_def)
  have "state_of ''c'' s3 = StateConnected" "s_channelStates s3 = [1 \<mapsto> new_channel\<lparr>cs_BoundQueue := ''amq.gen-5''\<rparr>]"
    "s_queues s3 = [''amq.gen-5'' \<mapsto> \<lparr>q_Name = ''amq.gen-5'', q_Messages = [], q_Durable = False, q_AutoDelete = False, q_Exclusive = False\<rparr>]"
    using conn s2 dec_5 by (simp_all add: s3_def handleQueueDeclare_def Let_def state_of_def)
  with 3 show thesis
    using that by blast
qed

text \<open>It publishes a message and consumes it.\<close>

lemma amqp_demo_delivered:
  obtains s c where "amqp_reach 7 s" "s_channelStates s 1 = Some c" "held ''amq.gen-5'' s = {#[7]#}"
    "fmlookup (cs_UnackedMessages c) 1 = Some \<lparr>um_DeliveryTag = 1, um_QueueName = ''amq.gen-5'', um_Body = [7], um_Redelivered = False\<rparr>"
    "cs_CurrentlyUnacked c = 1"
proof -
  let ?q = "''amq.gen-5''" and ?p = "\<lparr>pp_Exchange = [], pp_RoutingKey = [], pp_BodySize = 0, pp_Body = []\<rparr>"
  obtain s where s: "amqp_reach 3 s" "state_of ''c'' s = StateConnected"
      "s_queues s = [?q \<mapsto> \<lparr>q_Name = ?q, q_Messages = [], q_Durable = False, q_AutoDelete = False, q_Exclusive = False\<rparr>]"
      "s_channelStates s = [1 \<mapsto> new_channel\<lparr>cs_BoundQueue := ?q\<rparr>]"
    by (rule amqp_demo_declared)
  define s4 where "s4 = upd_channel 1 (\<lambda>c. c\<lparr>cs_PendingPublish := Some ?p\<rparr>) s"
  define s5 where "s5 = upd_channel 1 (\<lambda>c. c\<lparr>cs_PendingPublish := None\<rparr>) s4"
  define s6 where "s6 = set_messages ?q [[7]] s5"
  have "amqp_reach 4 s4"
    using amqp_reach.frame [OF s(1) handle_std_publish [OF s(2), of "\<lambda>_. True" 6 1 1 "[]" "[]"]] by (simp add: s4_def)
  moreover have "handleBasicPublish 1 [] [] [7] s5 = (None, s6)"
    by (simp add: handleBasicPublish_def target_queue_def s6_def s5_def s4_def s(3,4))
  then have "run_frames (\<lambda>_. True) (\<lambda>_. 7) 0 (from_conn 1 ''c'' (content_frames 1 [[7]])) s4 = Some s6"
    using run_content [of s4 1 _ ?p "\<lambda>_. True" "[[7]]" "\<lambda>_. 7" 0 1 "''c''"]
    by (simp add: s4_def s5_def sound_body_def)
  ultimately have 6: "amqp_reach 6 s6"
    using amqp_reach_run [of 4 s4] by (fastforce simp: content_frames_def from_conn_def)
  obtain ty ch payload where f: "consume_frame 1 ?q ''x'' = (ty, ch, payload)"
    by (cases "consume_frame 1 ?q ''x''")
  have "state_of ''c'' s6 = StateConnected"
    using s(2) by (simp add: s6_def s5_def s4_def state_of_def)
  from handle_consume_frame [OF this _ _ f, of "\<lambda>_. True" 8 1]
  have "handleFrameWithState (\<lambda>_. True) 8 1 ''c'' ty ch payload s6 = Some (handleBasicConsume 1 ?q ''x'' 1 s6)"
    by simp
  then have 7: "amqp_reach 7 (snd (handleBasicConsume 1 ?q ''x'' 1 s6))"
    using amqp_reach.frame [OF 6, of "\<lambda>_. True" 8 1 "''c''" ty ch payload] by (cases "handleBasicConsume 1 ?q ''x'' 1 s6") simp
  have "held ?q (snd (handleBasicConsume 1 ?q ''x'' 1 s6)) = held ?q s6"
    using held_consume [OF amqp_reach_ok [OF 6]] by simp
  moreover have "(\<Sum>ch\<in>UNIV. unacked_of ?q (s_channelStates s6 ch)) = {#}"
    by (rule sum.neutral) (simp add: s6_def s5_def s4_def s(4) unacked_of_def new_channel_def)
  then have "held ?q s6 = {#[7]#}"
    by (simp add: held_def queued_def) (simp add: s6_def s5_def s4_def s(3))
  moreover have "\<exists>c. s_channelStates (snd (handleBasicConsume 1 ?q ''x'' 1 s6)) 1 = Some c \<and> cs_CurrentlyUnacked c = 1 \<and>
      fmlookup (cs_UnackedMessages c) 1 = Some \<lparr>um_DeliveryTag = 1, um_QueueName = ?q, um_Body = [7], um_Redelivered = False\<rparr>"
    by (simp add: handleBasicConsume_def s6_def s5_def s4_def s(3,4) new_channel_def track_def Let_def)
  ultimately show thesis
    using that 7 by metis
qed

text \<open>C16. The bookkeeping of unacknowledged messages is right in every state the server can reach within 2^31
  frames, over any number of connections. The counter of a channel is the number of messages it has delivered
  and not had acknowledged; each of them is kept under its own delivery tag, which is positive and smaller than
  the next tag, so that no tag in use is given out again; and its queue exists, so that it can be put back.\<close>

theorem amqp_invariant:
  assumes "amqp_reach k s" "k \<le> 2 ^ 31" "s_channelStates s ch = Some c"
  shows "cs_CurrentlyUnacked c = int (fcard (fmdom (cs_UnackedMessages c))) \<and>
    (fmlookup (cs_UnackedMessages c) t = Some m \<longrightarrow>
      um_DeliveryTag m = t \<and> 0 < t \<and> t < cs_NextDeliveryTag c \<and> s_queues s (um_QueueName m) \<noteq> None)"
  using amqp_reach_ok [OF assms(1,2)] assms(3) unfolding amqp_ok_def channels_ok_def channel_ok_def unacked_known_def by blast

theorem amqp_invariant_witness:
  "\<exists>s c m. amqp_reach 7 s \<and> s_channelStates s 1 = Some c \<and> cs_CurrentlyUnacked c = 1 \<and> fcard (fmdom (cs_UnackedMessages c)) = 1 \<and>
     fmlookup (cs_UnackedMessages c) 1 = Some m \<and> um_DeliveryTag m = 1 \<and> 1 < cs_NextDeliveryTag c \<and> s_queues s (um_QueueName m) \<noteq> None"
proof -
  obtain s c where s: "amqp_reach 7 s" "s_channelStates s 1 = Some c" "cs_CurrentlyUnacked c = 1"
      "fmlookup (cs_UnackedMessages c) 1 = Some \<lparr>um_DeliveryTag = 1, um_QueueName = ''amq.gen-5'', um_Body = [7], um_Redelivered = False\<rparr>"
    by (rule amqp_demo_delivered)
  then show ?thesis
    using amqp_invariant [OF s(1) _ s(2), of 1 "the (fmlookup (cs_UnackedMessages c) 1)"]
    by (intro exI [where x = s] exI [where x = c] exI [where x = "the (fmlookup (cs_UnackedMessages c) 1)"]) simp
qed

text \<open>C26. What becomes of the messages the server holds for a queue, whether they wait in it or have been delivered
  and not acknowledged. Publishing adds exactly the message published; delivering changes nothing; acknowledging
  removes exactly the message acknowledged; but refusing a message with the request to requeue it adds a second
  copy of it, because it is both put back into the queue and delivered again at once.\<close>

theorem amqp_conserves:
  assumes "amqp_reach k s" "k \<le> 2 ^ 31"
  shows "held q (snd (handleBasicPublish ch ex rk body s)) =
      held q s + (if fst (handleBasicPublish ch ex rk body s) = None \<and> target_queue ch rk s = Some q then {#body#} else {#}) \<and>
    held q (snd (handleBasicConsume ch q' tag conn s)) = held q s \<and>
    (s_channelStates s ch = Some c \<and> fmlookup (cs_UnackedMessages c) t = Some m \<longrightarrow>
      held q s = held q (snd (handleBasicAck ch t s)) + (if um_QueueName m = q then {#um_Body m#} else {#}) \<and>
      held q (snd (handleBasicNack ch t s)) = held q s + (if um_QueueName m = q then {#um_Body m#} else {#}))"
  using held_publish [of q ch ex rk body s] held_consume [OF amqp_reach_ok [OF assms] assms(2), of q ch q' tag conn]
    held_ack [of s ch c t m q] held_nack [OF amqp_reach_ok [OF assms], of ch c t m q] by simp

theorem amqp_conserves_witness:
  "\<exists>s. amqp_reach 7 s \<and> held ''amq.gen-5'' s = {#[7]#} \<and> held ''amq.gen-5'' (snd (handleBasicAck 1 1 s)) = {#} \<and>
     held ''amq.gen-5'' (snd (handleBasicNack 1 1 s)) = {#[7], [7]#} \<and>
     held ''amq.gen-5'' (snd (handleBasicConsume 2 ''amq.gen-5'' ''y'' 3 s)) = {#[7]#}"
proof -
  obtain s c where s: "amqp_reach 7 s" "s_channelStates s 1 = Some c" "held ''amq.gen-5'' s = {#[7]#}"
      "fmlookup (cs_UnackedMessages c) 1 = Some \<lparr>um_DeliveryTag = 1, um_QueueName = ''amq.gen-5'', um_Body = [7], um_Redelivered = False\<rparr>"
    by (rule amqp_demo_delivered)
  then show ?thesis
    using amqp_conserves [OF s(1), where q = "''amq.gen-5''" and ch = 1 and c = c and t = 1]
      amqp_conserves [OF s(1), where q = "''amq.gen-5''" and ch = 2 and q' = "''amq.gen-5''" and tag = "''y''" and conn = 3]
    by (intro exI [where x = s]) simp
qed

theorem amqp_pieces_witness:
  "frame_loop (\<lambda>_. True) (\<lambda>_. 0) (\<lambda>_ s. s) 1 ''c'' 0 (map wire [[(8, 0, []), (8, 0, [])]]) NewEnhancedAMQPServer = Some NewEnhancedAMQPServer \<and>
   frame_loop (\<lambda>_. True) (\<lambda>_. 0) (\<lambda>_ s. s) 1 ''c'' 0 [take 3 (amqp_frame 8 0 []), drop 3 (amqp_frame 8 0 [])] NewEnhancedAMQPServer =
     Some NewEnhancedAMQPServer"
proof -
  have "handleFrameWithState (\<lambda>_. True) 0 1 ''c'' 8 0 [] NewEnhancedAMQPServer = Some (None, NewEnhancedAMQPServer)"
    by (simp add: handleFrameWithState_def handleAMQPFrameWithChannel_def FrameMethod_def FrameHeader_def FrameBody_def FrameHeartbeat_def)
  then show ?thesis
    using amqp_pieces [of "[[(8, 0, []), (8, 0, [])]]" 3 "\<lambda>_. True" "\<lambda>_. 0" 1 "''c''" 0 NewEnhancedAMQPServer
        "\<lambda>_ s. s" 8 0 "[]" "[drop 3 (amqp_frame 8 0 [])]"]
    by (simp add: frame_fits_def from_conn_def)
qed

text \<open>A connected client and a queue, for the other theorems.\<close>

definition demo_server :: EnhancedAMQPServer where
  "demo_server = set_state ''d'' StateConnected (set_state ''c'' StateConnected
     (handleQueueDeclare 0 1 1 ''u'' False False (handleQueueDeclare 0 1 1 ''t'' False False NewEnhancedAMQPServer)))"

lemma demo_server:
  "state_of ''c'' demo_server = StateConnected" "state_of ''d'' demo_server = StateConnected"
  "s_queues demo_server = [''t'' \<mapsto> \<lparr>q_Name = ''t'', q_Messages = [], q_Durable = False, q_AutoDelete = False, q_Exclusive = False\<rparr>,
     ''u'' \<mapsto> \<lparr>q_Name = ''u'', q_Messages = [], q_Durable = False, q_AutoDelete = False, q_Exclusive = False\<rparr>]"
  "next_tag 1 demo_server = 0"
  by (simp_all add: demo_server_def state_of_def handleQueueDeclare_def Let_def NewEnhancedAMQPServer_def next_tag_def new_channel_def)

theorem amqp_delivery_witness:
  "\<exists>s'. frame_loop (\<lambda>_. True) (\<lambda>_. 0) (\<lambda>_ s. s) 1 ''c'' 0
      (map wire [publish_frames 1 [] ''t'' [[7], [8, 9]], publish_frames 1 ''e'' ''t'' [[1]] @ [consume_frame 1 ''t'' ''x'']]) demo_server = Some s' \<and>
    s_sent s' = s_sent demo_server @ [(1, amqp_frame FrameMethod 1 (amqp_method 60 21 (short_str ''x'')))] @
      deliver_frames 1 1 ''t'' ''x'' 1 [7, 8, 9] @ deliver_frames 1 1 ''t'' ''x'' 2 [1] \<and>
    queued ''t'' s' = []"
proof -
  let ?gs = "[publish_frames 1 [] ''t'' [[7], [8, 9]], publish_frames 1 ''e'' ''t'' [[1]] @ [consume_frame 1 ''t'' ''x'']]"
  have "list_all (list_all frame_fits) ?gs" "[] \<notin> set ?gs"
    by (simp_all add: publish_frames_def consume_frame_def frame_fits_def publish_method_def header_payload_def FrameMethod_def
        FrameHeader_def FrameBody_def)
  from amqp_delivery [OF this, where ch = 1 and q = "''t''" and tag = "''x''" and msgs = "[([], [[7], [8, 9]]), (''e'', [[1]])]" and
      room = "\<lambda>_. True" and clk = "\<lambda>_. 0" and conn = 1 and k = 0, OF _ _ demo_server(1)]
  show ?thesis
    using demo_server(3,4) by (simp add: sound_body_def)
qed

theorem amqp_standard_client_witness:
  "\<exists>s'. run_frames (\<lambda>_. True) (\<lambda>_. 5) 0 (from_conn 1 ''c''
      ((FrameMethod, 1, std_declare ''orders'' 0) # (FrameMethod, 1, std_publish [] ''orders'') # content_frames 1 [[7]])) demo_server = Some s' \<and>
    queued ''amq.gen-5'' s' = [[7]] \<and> s_queues s' ''orders'' = None"
  using amqp_standard_client [OF demo_server(1), where room = "\<lambda>_. True" and body = "[[7]]" and clk = "\<lambda>_. 5" and k = 0 and
      gen = "''amq.gen-5''" and name = "''orders''" and flags = 0 and ex = "[]" and rk = "''orders''" and q = "''orders''" and conn = 1 and ch = 1]
  by (simp add: sound_body_def queued_def demo_server(3) dec_5)

theorem amqp_channels_shared_witness:
  "\<exists>s'. run_frames (\<lambda>_. True) (\<lambda>_. 5) 0 ((1, ''c'', FrameMethod, 1, publish_method [] ''t'') #
      (2, ''d'', FrameMethod, 1, publish_method [] ''u'') # from_conn 1 ''c'' (content_frames 1 [[7]])) demo_server = Some s' \<and>
    queued ''t'' s' = [] \<and> queued ''u'' s' = [[7]]"
  using amqp_channels_shared [OF demo_server(1,2), where room = "\<lambda>_. True" and body = "[[7]]" and ?q1.0 = "''t''" and ?q2.0 = "''u''" and
      clk = "\<lambda>_. 5" and k = 0 and ?conn1.0 = 1 and ?conn2.0 = 2 and ch = 1]
  by (auto simp: sound_body_def queued_def demo_server(3))

end
