(* ===== verification/Message_Store.thy ===== *)
theory Message_Store
  imports Message "HOL-Library.Finite_Map"
begin

text \<open>
  The storage interface \<^verbatim>\<open>MessageStore\<close> of \<^verbatim>\<open>src/pkg/storage/interface.go\<close> and the two stores
  that keep everything in memory: \<^verbatim>\<open>InMemoryStore\<close> of \<^verbatim>\<open>src/cmd/server/inmemory_store.go\<close>, which
  the server program uses unless it is given a database, and \<^verbatim>\<open>InMemoryStorage\<close> of
  \<^verbatim>\<open>src/pkg/storage/in_memory.go\<close>. The locale \<open>message_store\<close> states what a client relies on; both
  stores interpret it.

  The stores hold pointers to messages. They are modelled as the messages themselves, which is the same as
  long as the callers do not change a message after they have stored it. \<^verbatim>\<open>Ping\<close>, \<^verbatim>\<open>Stats\<close>,
  \<^verbatim>\<open>Cleanup\<close> and \<^verbatim>\<open>Close\<close> do nothing in both stores and are left out.
\<close>

section \<open>The interface\<close>

text \<open>
  \<^verbatim>\<open>MessageStore\<close>: what the servers call. An operation that fails gives the zero value besides its
  error, and a nil pointer is \<open>None\<close>. The number that \<open>ms_Fetch\<close> takes tells apart the calls of one
  request, which may visit a map in different orders.
\<close>

record 's MessageStore =
  ms_Store :: "PortaskMessage \<Rightarrow> 's \<Rightarrow> go_error option \<times> 's"
  ms_StoreBatch :: "MessageBatch \<Rightarrow> 's \<Rightarrow> go_error option \<times> 's"
  ms_Fetch :: "nat \<Rightarrow> TopicName \<Rightarrow> i32 \<Rightarrow> i64 \<Rightarrow> i64 \<Rightarrow> 's \<Rightarrow> go_error + PortaskMessage list"
  ms_FetchByID :: "MessageID \<Rightarrow> 's \<Rightarrow> go_error + PortaskMessage option"
  ms_Delete :: "MessageID \<Rightarrow> 's \<Rightarrow> go_error option \<times> 's"
  ms_DeleteBatch :: "MessageID list \<Rightarrow> 's \<Rightarrow> go_error option \<times> 's"
  ms_CreateTopic :: "TopicInfo option \<Rightarrow> 's \<Rightarrow> (go_error option \<times> 's) option"  \<comment> \<open>\<open>None\<close> is a panic\<close>
  ms_DeleteTopic :: "TopicName \<Rightarrow> 's \<Rightarrow> go_error option \<times> 's"
  ms_GetTopicInfo :: "TopicName \<Rightarrow> 's \<Rightarrow> go_error + TopicInfo option"
  ms_ListTopics :: "'s \<Rightarrow> go_error + TopicInfo list"
  ms_TopicExists :: "TopicName \<Rightarrow> 's \<Rightarrow> go_error + bool"
  ms_GetPartitionInfo :: "TopicName \<Rightarrow> i32 \<Rightarrow> 's \<Rightarrow> go_error + PartitionInfo option"
  ms_GetPartitionCount :: "TopicName \<Rightarrow> 's \<Rightarrow> go_error + i32"
  ms_GetLatestOffset :: "TopicName \<Rightarrow> i32 \<Rightarrow> 's \<Rightarrow> go_error + i64"
  ms_GetEarliestOffset :: "TopicName \<Rightarrow> i32 \<Rightarrow> 's \<Rightarrow> go_error + i64"
  ms_CommitOffset :: "ConsumerOffset \<Rightarrow> 's \<Rightarrow> go_error option \<times> 's"
  ms_CommitOffsetBatch :: "ConsumerOffset list \<Rightarrow> 's \<Rightarrow> go_error option \<times> 's"
  ms_GetOffset :: "ConsumerID \<Rightarrow> TopicName \<Rightarrow> i32 \<Rightarrow> 's \<Rightarrow> go_error + ConsumerOffset option"
  ms_GetConsumerOffsets :: "ConsumerID \<Rightarrow> 's \<Rightarrow> go_error + ConsumerOffset list"
  ms_ListConsumers :: "TopicName \<Rightarrow> 's \<Rightarrow> go_error + ConsumerID list"

text \<open>The loop of both \<^verbatim>\<open>Fetch\<close> methods: the limit is tested after a message has been taken.\<close>

fun take_matching :: "(PortaskMessage \<Rightarrow> bool) \<Rightarrow> i64 \<Rightarrow> PortaskMessage list \<Rightarrow> PortaskMessage list \<Rightarrow> PortaskMessage list" where
  "take_matching P limit result [] = result"
| "take_matching P limit result (msg # msgs) =
     (if P msg
      then let result = result @ [msg]
           in if int (length result) \<ge> sint limit then result else take_matching P limit result msgs
      else take_matching P limit result msgs)"

text \<open>The values of a map in the order in which its keys are visited.\<close>

definition visit :: "'k list \<Rightarrow> ('k, 'v) fmap \<Rightarrow> 'v list" where
  "visit order m = List.map_filter (fmlookup m) order"

section \<open>The store of the server program\<close>

record InMemoryStore =
  im_messages :: "(string, PortaskMessage) fmap"
  im_topics :: "(string, TopicInfo) fmap"
  im_offsets :: "(string, ConsumerOffset) fmap"

definition NewInMemoryStore :: InMemoryStore where
  "NewInMemoryStore = \<lparr>im_messages = fmempty, im_topics = fmempty, im_offsets = fmempty\<rparr>"

definition im_Store :: "PortaskMessage \<Rightarrow> InMemoryStore \<Rightarrow> go_error option \<times> InMemoryStore" where
  "im_Store message s = (None, s\<lparr>im_messages := fmupd (m_ID message) message (im_messages s)\<rparr>)"

definition im_StoreBatch :: "MessageBatch \<Rightarrow> InMemoryStore \<Rightarrow> go_error option \<times> InMemoryStore" where
  "im_StoreBatch batch s =
     (None, s\<lparr>im_messages := fold (\<lambda>msg. fmupd (m_ID msg) msg) (b_Messages batch) (im_messages s)\<rparr>)"

text \<open>Neither the partition nor the offset is used.\<close>

definition im_Fetch :: "string list \<Rightarrow> TopicName \<Rightarrow> i32 \<Rightarrow> i64 \<Rightarrow> i64 \<Rightarrow> InMemoryStore \<Rightarrow> go_error + PortaskMessage list" where
  "im_Fetch order topic part offset limit s =
     Inr (take_matching (\<lambda>msg. m_Topic msg = topic) limit [] (visit order (im_messages s)))"

definition im_FetchByID :: "MessageID \<Rightarrow> InMemoryStore \<Rightarrow> go_error + PortaskMessage option" where
  "im_FetchByID messageID s =
     (case fmlookup (im_messages s) messageID of
        Some msg \<Rightarrow> Inr (Some msg)
      | None \<Rightarrow> Inl (Foreign (''message not found: '' @ messageID)))"

definition im_Delete :: "MessageID \<Rightarrow> InMemoryStore \<Rightarrow> go_error option \<times> InMemoryStore" where
  "im_Delete messageID s = (None, s\<lparr>im_messages := fmdrop messageID (im_messages s)\<rparr>)"

definition im_DeleteBatch :: "MessageID list \<Rightarrow> InMemoryStore \<Rightarrow> go_error option \<times> InMemoryStore" where
  "im_DeleteBatch messageIDs s = (None, s\<lparr>im_messages := fold fmdrop messageIDs (im_messages s)\<rparr>)"

definition im_CreateTopic :: "TopicInfo option \<Rightarrow> InMemoryStore \<Rightarrow> (go_error option \<times> InMemoryStore) option" where
  "im_CreateTopic topicInfo s =
     (case topicInfo of
        None \<Rightarrow> None
      | Some info \<Rightarrow> Some (None, s\<lparr>im_topics := fmupd (ti_Name info) info (im_topics s)\<rparr>))"

definition im_DeleteTopic :: "TopicName \<Rightarrow> InMemoryStore \<Rightarrow> go_error option \<times> InMemoryStore" where
  "im_DeleteTopic topic s = (None, s\<lparr>im_topics := fmdrop topic (im_topics s)\<rparr>)"

definition im_GetTopicInfo :: "TopicName \<Rightarrow> InMemoryStore \<Rightarrow> go_error + TopicInfo option" where
  "im_GetTopicInfo topic s =
     (case fmlookup (im_topics s) topic of
        Some info \<Rightarrow> Inr (Some info)
      | None \<Rightarrow> Inl (Foreign (''topic not found: '' @ topic)))"

definition im_ListTopics :: "string list \<Rightarrow> InMemoryStore \<Rightarrow> go_error + TopicInfo list" where
  "im_ListTopics order s = Inr (visit order (im_topics s))"

definition im_TopicExists :: "TopicName \<Rightarrow> InMemoryStore \<Rightarrow> go_error + bool" where
  "im_TopicExists topic s = Inr (fmlookup (im_topics s) topic \<noteq> None)"

definition im_GetPartitionInfo :: "TopicName \<Rightarrow> i32 \<Rightarrow> InMemoryStore \<Rightarrow> go_error + PartitionInfo option" where
  "im_GetPartitionInfo topic part s =
     Inr (Some \<lparr>pi_Topic = topic, pi_Partition = part, pi_Leader = ''node-0'',
       pi_Replicas = [''node-0''], pi_ISR = [''node-0'']\<rparr>)"

definition im_GetPartitionCount :: "TopicName \<Rightarrow> InMemoryStore \<Rightarrow> go_error + i32" where
  "im_GetPartitionCount topic s = Inr 1"

text \<open>The loop counts the messages of the topic, in whatever order.\<close>

definition topic_ids :: "TopicName \<Rightarrow> (string, PortaskMessage) fmap \<Rightarrow> string fset" where
  "topic_ids topic m = ffilter (\<lambda>k. map_option m_Topic (fmlookup m k) = Some topic) (fmdom m)"

definition im_GetLatestOffset :: "TopicName \<Rightarrow> i32 \<Rightarrow> InMemoryStore \<Rightarrow> go_error + i64" where
  "im_GetLatestOffset topic part s = Inr (of_nat (fcard (topic_ids topic (im_messages s))))"

definition im_GetEarliestOffset :: "TopicName \<Rightarrow> i32 \<Rightarrow> InMemoryStore \<Rightarrow> go_error + i64" where
  "im_GetEarliestOffset topic part s = Inr 0"

definition offset_key :: "ConsumerID \<Rightarrow> TopicName \<Rightarrow> i32 \<Rightarrow> string" where
  "offset_key consumerID topic part = consumerID @ ''_'' @ topic @ ''_'' @ dec_int (sint part)"

definition put_offset :: "ConsumerOffset \<Rightarrow> (string, ConsumerOffset) fmap \<Rightarrow> (string, ConsumerOffset) fmap" where
  "put_offset offset m = fmupd (offset_key (co_ConsumerID offset) (co_Topic offset) (co_Partition offset)) offset m"

definition im_CommitOffset :: "ConsumerOffset \<Rightarrow> InMemoryStore \<Rightarrow> go_error option \<times> InMemoryStore" where
  "im_CommitOffset offset s = (None, s\<lparr>im_offsets := put_offset offset (im_offsets s)\<rparr>)"

definition im_CommitOffsetBatch :: "ConsumerOffset list \<Rightarrow> InMemoryStore \<Rightarrow> go_error option \<times> InMemoryStore" where
  "im_CommitOffsetBatch offsets s = (None, s\<lparr>im_offsets := fold put_offset offsets (im_offsets s)\<rparr>)"

definition im_GetOffset :: "ConsumerID \<Rightarrow> TopicName \<Rightarrow> i32 \<Rightarrow> InMemoryStore \<Rightarrow> go_error + ConsumerOffset option" where
  "im_GetOffset consumerID topic part s =
     (case fmlookup (im_offsets s) (offset_key consumerID topic part) of
        Some offset \<Rightarrow> Inr (Some offset)
      | None \<Rightarrow> Inr (Some \<lparr>co_ConsumerID = consumerID, co_Topic = topic, co_Partition = part,
          co_Offset = 0, co_Timestamp = 0, co_Metadata = []\<rparr>))"

definition im_GetConsumerOffsets :: "string list \<Rightarrow> ConsumerID \<Rightarrow> InMemoryStore \<Rightarrow> go_error + ConsumerOffset list" where
  "im_GetConsumerOffsets order consumerID s =
     Inr (filter (\<lambda>offset. co_ConsumerID offset = consumerID) (visit order (im_offsets s)))"

text \<open>The consumers are collected in a map, which is visited in the order \<open>order'\<close>.\<close>

definition im_ListConsumers :: "string list \<Rightarrow> ConsumerID list \<Rightarrow> TopicName \<Rightarrow> InMemoryStore \<Rightarrow> go_error + ConsumerID list" where
  "im_ListConsumers order order' topic s =
     (let consumerMap = fmap_of_list (map (\<lambda>offset. (co_ConsumerID offset, True))
            (filter (\<lambda>offset. co_Topic offset = topic) (visit order (im_offsets s))))
      in Inr (filter (\<lambda>c. fmlookup consumerMap c \<noteq> None) order'))"

definition InMemoryStore_ops :: "(nat \<Rightarrow> string list) \<Rightarrow> string list \<Rightarrow> string list \<Rightarrow> ConsumerID list \<Rightarrow> InMemoryStore MessageStore" where
  "InMemoryStore_ops mo to oo co =
     \<lparr>ms_Store = im_Store, ms_StoreBatch = im_StoreBatch, ms_Fetch = (\<lambda>k. im_Fetch (mo k)), ms_FetchByID = im_FetchByID,
      ms_Delete = im_Delete, ms_DeleteBatch = im_DeleteBatch, ms_CreateTopic = im_CreateTopic, ms_DeleteTopic = im_DeleteTopic,
      ms_GetTopicInfo = im_GetTopicInfo, ms_ListTopics = im_ListTopics to, ms_TopicExists = im_TopicExists,
      ms_GetPartitionInfo = im_GetPartitionInfo, ms_GetPartitionCount = im_GetPartitionCount,
      ms_GetLatestOffset = im_GetLatestOffset, ms_GetEarliestOffset = im_GetEarliestOffset,
      ms_CommitOffset = im_CommitOffset, ms_CommitOffsetBatch = im_CommitOffsetBatch, ms_GetOffset = im_GetOffset,
      ms_GetConsumerOffsets = im_GetConsumerOffsets oo, ms_ListConsumers = im_ListConsumers oo co\<rparr>"

section \<open>The store of the storage package\<close>

record InMemoryStorage =
  st_messages :: "(string, PortaskMessage) fmap"
  st_nextOffset :: i64

definition NewInMemoryStorage :: InMemoryStorage where
  "NewInMemoryStorage = \<lparr>st_messages = fmempty, st_nextOffset = 0\<rparr>"

text \<open>
  \<^verbatim>\<open>string(rune(n))\<close>: the number is cut to 32 bits, a value that is no Unicode scalar is replaced by
  U+FFFD, and the result is encoded as UTF-8.
\<close>

definition scalar :: "int \<Rightarrow> nat" where
  "scalar r = (if 0 \<le> r \<and> r \<le> 0x10FFFF \<and> \<not> (0xD800 \<le> r \<and> r \<le> 0xDFFF) then nat r else 0xFFFD)"

definition utf8 :: "nat \<Rightarrow> nat list" where
  "utf8 r =
     (if r < 0x80 then [r]
      else if r < 0x800 then [0xC0 + r div 64, 0x80 + r mod 64]
      else if r < 0x10000 then [0xE0 + r div 4096, 0x80 + r div 64 mod 64, 0x80 + r mod 64]
      else [0xF0 + r div 262144, 0x80 + r div 4096 mod 64, 0x80 + r div 64 mod 64, 0x80 + r mod 64])"

definition rune_string :: "nat \<Rightarrow> string" where
  "rune_string n = map char_of (utf8 (scalar (sint (of_nat n :: i32))))"

definition st_StoreMessage :: "string \<Rightarrow> byte list \<Rightarrow> InMemoryStorage \<Rightarrow> go_error option \<times> InMemoryStorage" where
  "st_StoreMessage topic message s =
     (let msg = zero_message\<lparr>m_ID := topic @ ''_'' @ rune_string (fcard (fmdom (st_messages s))), m_Topic := topic,
                 m_Payload := message\<rparr>
      in (None, s\<lparr>st_messages := fmupd (m_ID msg) msg (st_messages s)\<rparr>))"

definition st_GetMessages :: "string list \<Rightarrow> string \<Rightarrow> i64 \<Rightarrow> InMemoryStorage \<Rightarrow> go_error + byte list list" where
  "st_GetMessages order topic offset s =
     Inr (map m_Payload (filter (\<lambda>msg. m_Topic msg = topic) (visit order (st_messages s))))"

text \<open>The names collected are the keys of the messages; the second map is visited in the order \<open>order'\<close>.\<close>

definition st_GetTopics :: "string list \<Rightarrow> InMemoryStorage \<Rightarrow> string list" where
  "st_GetTopics order' s = filter (\<lambda>k. k |\<in>| fmdom (st_messages s)) order'"

definition st_Store :: "PortaskMessage \<Rightarrow> InMemoryStorage \<Rightarrow> go_error option \<times> InMemoryStorage" where
  "st_Store message s =
     (let message = message\<lparr>m_Offset := st_nextOffset s\<rparr>
      in (None, s\<lparr>st_nextOffset := st_nextOffset s + 1, st_messages := fmupd (m_ID message) message (st_messages s)\<rparr>))"

definition st_StoreBatch :: "MessageBatch \<Rightarrow> InMemoryStorage \<Rightarrow> go_error option \<times> InMemoryStorage" where
  "st_StoreBatch batch s =
     (None, s\<lparr>st_messages := fold (\<lambda>msg. fmupd (m_ID msg) msg) (b_Messages batch) (st_messages s)\<rparr>)"

definition st_Fetch :: "string list \<Rightarrow> TopicName \<Rightarrow> i32 \<Rightarrow> i64 \<Rightarrow> i64 \<Rightarrow> InMemoryStorage \<Rightarrow> go_error + PortaskMessage list" where
  "st_Fetch order topic part offset limit s =
     Inr (take_matching (\<lambda>msg. m_Topic msg = topic \<and> (sint part < 0 \<or> m_Partition msg = part) \<and>
            sint (m_Offset msg) \<ge> sint offset) limit [] (visit order (st_messages s)))"

definition st_FetchByID :: "MessageID \<Rightarrow> InMemoryStorage \<Rightarrow> go_error + PortaskMessage option" where
  "st_FetchByID messageID s = Inr (fmlookup (st_messages s) messageID)"

definition st_Delete :: "MessageID \<Rightarrow> InMemoryStorage \<Rightarrow> go_error option \<times> InMemoryStorage" where
  "st_Delete messageID s = (None, s\<lparr>st_messages := fmdrop messageID (st_messages s)\<rparr>)"

definition st_DeleteBatch :: "MessageID list \<Rightarrow> InMemoryStorage \<Rightarrow> go_error option \<times> InMemoryStorage" where
  "st_DeleteBatch messageIDs s = (None, s\<lparr>st_messages := fold fmdrop messageIDs (st_messages s)\<rparr>)"

text \<open>The other methods keep nothing and know nothing.\<close>

definition InMemoryStorage_ops :: "(nat \<Rightarrow> string list) \<Rightarrow> InMemoryStorage MessageStore" where
  "InMemoryStorage_ops mo =
     \<lparr>ms_Store = st_Store, ms_StoreBatch = st_StoreBatch, ms_Fetch = (\<lambda>k. st_Fetch (mo k)), ms_FetchByID = st_FetchByID,
      ms_Delete = st_Delete, ms_DeleteBatch = st_DeleteBatch,
      ms_CreateTopic = (\<lambda>topicInfo s. Some (None, s)), ms_DeleteTopic = (\<lambda>topic s. (None, s)),
      ms_GetTopicInfo = (\<lambda>topic s. Inr None), ms_ListTopics = (\<lambda>s. Inr []), ms_TopicExists = (\<lambda>topic s. Inr False),
      ms_GetPartitionInfo = (\<lambda>topic part s. Inr None), ms_GetPartitionCount = (\<lambda>topic s. Inr 0),
      ms_GetLatestOffset = (\<lambda>topic part s. Inr 0), ms_GetEarliestOffset = (\<lambda>topic part s. Inr 0),
      ms_CommitOffset = (\<lambda>offset s. (None, s)), ms_CommitOffsetBatch = (\<lambda>offsets s. (None, s)),
      ms_GetOffset = (\<lambda>consumerID topic part s. Inr None), ms_GetConsumerOffsets = (\<lambda>consumerID s. Inr []),
      ms_ListConsumers = (\<lambda>topic s. Inr [])\<rparr>"

section \<open>Refinement of an abstract store\<close>

text \<open>
  What a client may rely on: the store is a map from identifiers to messages. A store may set the offset of
  a message, so the map holds messages without it.
\<close>

datatype store_op = PutMessage PortaskMessage | PutMessages "PortaskMessage list" | DelMessage MessageID | DelMessages "MessageID list"

definition unstamped :: "PortaskMessage \<Rightarrow> PortaskMessage" where
  "unstamped m = m\<lparr>m_Offset := 0\<rparr>"

fun spec_op :: "store_op \<Rightarrow> (MessageID \<rightharpoonup> PortaskMessage) \<Rightarrow> (MessageID \<rightharpoonup> PortaskMessage)" where
  "spec_op (PutMessage m) c = c(m_ID m \<mapsto> unstamped m)"
| "spec_op (PutMessages ms) c = fold (\<lambda>m c. c(m_ID m \<mapsto> unstamped m)) ms c"
| "spec_op (DelMessage i) c = c(i := None)"
| "spec_op (DelMessages is) c = fold (\<lambda>i c. c(i := None)) is c"

fun run_op :: "'s MessageStore \<Rightarrow> store_op \<Rightarrow> 's \<Rightarrow> 's" where
  "run_op ops (PutMessage m) s = snd (ms_Store ops m s)"
| "run_op ops (PutMessages ms) s = snd (ms_StoreBatch ops (NewMessageBatch 0 [] ms) s)"
| "run_op ops (DelMessage i) s = snd (ms_Delete ops i s)"
| "run_op ops (DelMessages is) s = snd (ms_DeleteBatch ops is s)"

definition store_content :: "'s MessageStore \<Rightarrow> 's \<Rightarrow> MessageID \<rightharpoonup> PortaskMessage" where
  "store_content ops s i = (case ms_FetchByID ops i s of Inr (Some m) \<Rightarrow> Some (unstamped m) | _ \<Rightarrow> None)"

locale message_store =
  fixes ops :: "'s MessageStore"
  assumes store: "store_content ops (snd (ms_Store ops m s)) = (store_content ops s)(m_ID m \<mapsto> unstamped m)"
    and store_batch: "store_content ops (snd (ms_StoreBatch ops b s)) = fold (\<lambda>m c. c(m_ID m \<mapsto> unstamped m)) (b_Messages b) (store_content ops s)"
    and delete: "store_content ops (snd (ms_Delete ops i s)) = (store_content ops s)(i := None)"
    and delete_batch: "store_content ops (snd (ms_DeleteBatch ops is s)) = fold (\<lambda>i c. c(i := None)) is (store_content ops s)"
begin

lemma refines: "store_content ops (fold (run_op ops) xs s) = fold spec_op xs (store_content ops s)"
proof (induction xs arbitrary: s)
  case (Cons x xs)
  have "store_content ops (run_op ops x s) = spec_op x (store_content ops s)"
    by (cases x) (simp_all add: store store_batch delete delete_batch NewMessageBatch_def)
  then show ?case by (simp add: Cons.IH)
qed simp

end

definition messages_of :: "(string, PortaskMessage) fmap \<Rightarrow> MessageID \<rightharpoonup> PortaskMessage" where
  "messages_of m i = map_option unstamped (fmlookup m i)"

lemma messages_of_fmupd [simp]: "messages_of (fmupd i m c) = (messages_of c)(i \<mapsto> unstamped m)"
  by (simp add: messages_of_def fun_eq_iff)

lemma messages_of_fmdrop [simp]: "messages_of (fmdrop i c) = (messages_of c)(i := None)"
  by (simp add: messages_of_def fun_eq_iff)

lemma messages_of_put: "messages_of (fold (\<lambda>m. fmupd (m_ID m) m) ms c) = fold (\<lambda>m c. c(m_ID m \<mapsto> unstamped m)) ms (messages_of c)"
  by (induction ms arbitrary: c) simp_all

lemma messages_of_drop: "messages_of (fold fmdrop is c) = fold (\<lambda>i c. c(i := None)) is (messages_of c)"
  by (induction "is" arbitrary: c) simp_all

lemma content_InMemoryStore: "store_content (InMemoryStore_ops mo to oo co) s = messages_of (im_messages s)"
  by (simp add: store_content_def messages_of_def InMemoryStore_ops_def im_FetchByID_def fun_eq_iff split: option.split)

lemma content_InMemoryStorage: "store_content (InMemoryStorage_ops mo) s = messages_of (st_messages s)"
  by (simp add: store_content_def messages_of_def InMemoryStorage_ops_def st_FetchByID_def fun_eq_iff split: option.split)

lemma unstamped_Offset [simp]: "unstamped (m\<lparr>m_Offset := n\<rparr>) = unstamped m" "m_ID (unstamped m) = m_ID m"
  by (simp_all add: unstamped_def)

interpretation im: message_store "InMemoryStore_ops mo to oo co" for mo to oo co
  by unfold_locales (simp_all only: content_InMemoryStore, simp_all add: InMemoryStore_ops_def im_Store_def im_StoreBatch_def
      im_Delete_def im_DeleteBatch_def messages_of_put messages_of_drop)

interpretation st: message_store "InMemoryStorage_ops mo" for mo
  by unfold_locales (simp_all only: content_InMemoryStorage, simp_all add: InMemoryStorage_ops_def st_Store_def st_StoreBatch_def
      st_Delete_def st_DeleteBatch_def messages_of_put messages_of_drop Let_def)

section \<open>What a fetch returns\<close>

lemma take_matching_eq:
  assumes "length result < nat (max 1 (sint limit))"
  shows "take_matching P limit result msgs = result @ take (nat (max 1 (sint limit)) - length result) (filter P msgs)"
  using assms
proof (induction P limit result msgs rule: take_matching.induct)
  case (2 P limit result msg msgs)
  show ?case
  proof (cases "P msg")
    case True
    show ?thesis
    proof (cases "int (length (result @ [msg])) \<ge> sint limit")
      case True
      with 2(3) have "nat (max 1 (sint limit)) - length result = 1" by simp
      with True \<open>P msg\<close> show ?thesis by simp
    next
      case False
      then have "nat (max 1 (sint limit)) - length result = Suc (nat (max 1 (sint limit)) - length (result @ [msg]))"
        "length (result @ [msg]) < nat (max 1 (sint limit))"
        by simp_all
      with 2(1) [OF True refl False] False True show ?thesis
        by (simp del: length_append)
    qed
  qed (use 2 in simp)
qed simp

definition keyed :: "(string, PortaskMessage) fmap \<Rightarrow> bool" where
  "keyed m \<longleftrightarrow> (\<forall>i x. fmlookup m i = Some x \<longrightarrow> m_ID x = i)"

lemma keyedD: "keyed m \<Longrightarrow> fmlookup m i = Some x \<Longrightarrow> m_ID x = i"
  by (simp add: keyed_def)

lemma keyed_empty [simp]: "keyed fmempty"
  by (simp add: keyed_def)

lemma keyed_fmupd [simp]: "keyed m \<Longrightarrow> keyed (fmupd (m_ID x) x m)"
  by (simp add: keyed_def)

lemma keyed_fmdrop [simp]: "keyed m \<Longrightarrow> keyed (fmdrop i m)"
  by (simp add: keyed_def)

lemma keyed_put: "keyed m \<Longrightarrow> keyed (fold (\<lambda>x. fmupd (m_ID x) x) xs m)"
  by (induction xs arbitrary: m) simp_all

lemma keyed_drop: "keyed m \<Longrightarrow> keyed (fold fmdrop is m)"
  by (induction "is" arbitrary: m) simp_all

lemma keyed_run: "keyed (im_messages s) \<Longrightarrow> keyed (im_messages (fold (run_op (InMemoryStore_ops mo to oo co)) xs s))"
proof (induction xs arbitrary: s)
  case (Cons x xs)
  have "keyed (im_messages (run_op (InMemoryStore_ops mo to oo co) x s))"
    using Cons.prems by (cases x) (simp_all add: InMemoryStore_ops_def im_Store_def im_StoreBatch_def im_Delete_def im_DeleteBatch_def
        keyed_put keyed_drop)
  then show ?case by (simp add: Cons.IH)
qed simp

lemma visit_Nil [simp]: "visit [] m = []"
  by (simp add: visit_def)

lemma visit_Cons [simp]: "visit (k # ks) m = (case fmlookup m k of None \<Rightarrow> visit ks m | Some x \<Rightarrow> x # visit ks m)"
  by (simp add: visit_def List.map_filter_def split: option.split)

lemma set_visit: "x \<in> set (visit ks m) \<longleftrightarrow> (\<exists>k \<in> set ks. fmlookup m k = Some x)"
  by (induction ks) (auto split: option.split)

lemma distinct_visit: "keyed m \<Longrightarrow> distinct ks \<Longrightarrow> distinct (map m_ID (visit ks m))"
proof (induction ks)
  case (Cons k ks)
  then show ?case
    by (auto simp: set_visit split: option.split) (metis keyedD)
qed simp

lemma length_visit_topic:
  assumes "range_order (fmlookup m) ks"
  shows "length (filter (\<lambda>x. m_Topic x = topic) (visit ks m)) = fcard (topic_ids topic m)"
proof -
  have "length (filter (\<lambda>x. m_Topic x = topic) (visit ks m)) =
      length (filter (\<lambda>k. map_option m_Topic (fmlookup m k) = Some topic) ks)"
    by (induction ks) (auto split: option.split)
  also have "\<dots> = card (set (filter (\<lambda>k. map_option m_Topic (fmlookup m k) = Some topic) ks))"
    using range_orderD(1) [OF assms] by (intro distinct_card [symmetric] distinct_filter)
  also have "set (filter (\<lambda>k. map_option m_Topic (fmlookup m k) = Some topic) ks) = fset (topic_ids topic m)"
    by (simp only: topic_ids_def ffilter.rep_eq fmdom.rep_eq range_orderD(2) [OF assms] set_filter) auto
  finally show ?thesis by (simp add: fcard.rep_eq)
qed

section \<open>Keys of offsets\<close>

lemma append_sep: "x \<notin> set a \<Longrightarrow> x \<notin> set b \<Longrightarrow> a @ x # r = b @ x # r' \<longleftrightarrow> a = b \<and> r = r'"
  by (induction a arbitrary: b) (case_tac b; auto)+

lemma append_sep_right:
  assumes "x \<notin> set r" "x \<notin> set r'"
  shows "a @ x # r = b @ x # r' \<longleftrightarrow> a = b \<and> r = r'"
proof -
  have "a @ x # r = b @ x # r' \<longleftrightarrow> rev r @ x # rev a = rev r' @ x # rev b"
    by (metis append.assoc append_Cons append_Nil rev.simps(2) rev_append rev_rev_ident)
  then show ?thesis using assms append_sep [of x "rev r" "rev r'"] by auto
qed

lemma underscore_notin_dec_int [simp]: "CHR ''_'' \<notin> set (dec_int i)"
  using dec_int_chars [of "CHR ''_''" i] by auto

definition plain :: "string \<Rightarrow> bool" where
  "plain g \<longleftrightarrow> CHR ''_'' \<notin> set g"

lemma offset_key_eq_iff: "offset_key g t p = offset_key g' t' p' \<longleftrightarrow> g @ ''_'' @ t = g' @ ''_'' @ t' \<and> p = p'"
  using append_sep_right [of "CHR ''_''" "dec_int (sint p)" "dec_int (sint p')" "g @ ''_'' @ t" "g' @ ''_'' @ t'"]
  by (simp add: offset_key_def word_sint_eq)

lemma offset_key_plain: "plain g \<Longrightarrow> plain g' \<Longrightarrow> offset_key g t p = offset_key g' t' p' \<longleftrightarrow> g = g' \<and> t = t' \<and> p = p'"
  by (simp add: offset_key_eq_iff plain_def append_sep)

lemma offset_key_same [simp]: "offset_key g t p = offset_key g t' p' \<longleftrightarrow> t = t' \<and> p = p'"
  by (simp add: offset_key_eq_iff)

section \<open>The keys of the legacy methods\<close>

lemma utf8_bytes: "r < 0x110000 \<Longrightarrow> b \<in> set (utf8 r) \<Longrightarrow> b < 256"
  by (auto simp: utf8_def split: if_splits)

lemma base64_eq: "(r :: nat) div 64 = r' div 64 \<Longrightarrow> r mod 64 = r' mod 64 \<Longrightarrow> r = r'"
  by (metis mult_div_mod_eq)

lemma base4096_eq:
  assumes "(r :: nat) div 4096 = r' div 4096" "r div 64 mod 64 = r' div 64 mod 64" "r mod 64 = r' mod 64"
  shows "r = r'"
proof -
  have "r div 64 div 64 = r' div 64 div 64"
    using assms(1) by (simp add: div_mult2_eq [symmetric])
  then show ?thesis using base64_eq assms(2,3) by blast
qed

lemma base262144_eq:
  assumes "(r :: nat) div 262144 = r' div 262144" "r div 4096 mod 64 = r' div 4096 mod 64" "r div 64 mod 64 = r' div 64 mod 64"
    "r mod 64 = r' mod 64"
  shows "r = r'"
proof -
  have "r div 4096 div 64 = r' div 4096 div 64"
    using assms(1) by (simp add: div_mult2_eq [symmetric])
  then have "r div 4096 = r' div 4096" using base64_eq assms(2) by blast
  then show ?thesis using base4096_eq assms(3,4) by blast
qed

lemma utf8_inject: "utf8 r = utf8 r' \<Longrightarrow> r = r'"
  by (auto simp: utf8_def dest: base64_eq base4096_eq base262144_eq split: if_splits)

lemma char_of_inject: "a < 256 \<Longrightarrow> b < 256 \<Longrightarrow> char_of a = char_of b \<Longrightarrow> a = (b :: nat)"
  using arg_cong [of "char_of a" "char_of b" "of_char :: char \<Rightarrow> nat"] by (simp add: of_char_of)

lemma char_of_bytes_inject: "\<forall>a \<in> set xs. a < 256 \<Longrightarrow> \<forall>b \<in> set ys. b < 256 \<Longrightarrow> map char_of xs = map char_of ys \<Longrightarrow> xs = (ys :: nat list)"
proof (induction xs arbitrary: ys)
  case (Cons x xs)
  obtain y ys' where ys: "ys = y # ys'" using Cons.prems by (cases ys) simp_all
  have "x = y" using Cons.prems by (intro char_of_inject) (simp_all add: ys)
  moreover have "xs = ys'" using Cons.prems by (intro Cons.IH) (simp_all add: ys)
  ultimately show ?case by (simp add: ys)
qed simp

lemma scalar_less: "scalar r < 0x110000"
  by (auto simp: scalar_def)

lemma rune_string_eq_iff: "rune_string m = rune_string n \<longleftrightarrow> scalar (sint (of_nat m :: i32)) = scalar (sint (of_nat n :: i32))"
proof
  assume "rune_string m = rune_string n"
  then have "utf8 (scalar (sint (of_nat m :: i32))) = utf8 (scalar (sint (of_nat n :: i32)))"
    unfolding rune_string_def by (intro char_of_bytes_inject ballI) (rule utf8_bytes [OF scalar_less], assumption)+
  then show "scalar (sint (of_nat m :: i32)) = scalar (sint (of_nat n :: i32))" by (rule utf8_inject)
qed (simp add: rune_string_def)

lemma scalar_of_nat: "n < 0xE000 \<Longrightarrow> scalar (sint (of_nat n :: i32)) = (if n < 0xD800 then n else 0xFFFD)"
  by (simp add: sint_of_nat32 scalar_def)

definition legacy_key :: "string \<Rightarrow> nat \<Rightarrow> string" where
  "legacy_key topic n = topic @ ''_'' @ rune_string n"

lemma legacy_key_eq_iff:
  "m < 0xE000 \<Longrightarrow> n < 0xE000 \<Longrightarrow> legacy_key t m = legacy_key t n \<longleftrightarrow> m = n \<or> (0xD800 \<le> m \<and> 0xD800 \<le> n)"
  by (auto simp: legacy_key_def rune_string_eq_iff scalar_of_nat)

lemma inj_legacy_key: "inj_on (legacy_key t) {..<55297}"
  by (rule inj_onI) (auto simp: legacy_key_eq_iff)

lemma legacy_dom:
  "fset (fmdom (st_messages (fold (\<lambda>p s. snd (st_StoreMessage t p s)) ps NewInMemoryStorage))) =
     legacy_key t ` {..<min (length ps) 55297}"
proof (induction ps rule: rev_induct)
  case (snoc p ps)
  define s where "s = fold (\<lambda>p s. snd (st_StoreMessage t p s)) ps NewInMemoryStorage"
  let ?k = "min (length ps) 55297"
  have dom: "fset (fmdom (st_messages s)) = legacy_key t ` {..<?k}"
    using snoc by (simp add: s_def)
  have "inj_on (legacy_key t) {..<?k}"
    by (rule inj_on_subset [OF inj_legacy_key]) auto
  then have "fcard (fmdom (st_messages s)) = ?k"
    by (simp add: fcard.rep_eq dom card_image)
  then have *: "fset (fmdom (st_messages (snd (st_StoreMessage t p s)))) = insert (legacy_key t ?k) (legacy_key t ` {..<?k})"
    by (simp add: st_StoreMessage_def Let_def dom legacy_key_def)
  also have "\<dots> = legacy_key t ` {..<min (length (ps @ [p])) 55297}"
  proof (cases "length ps < 55297")
    case True
    then show ?thesis by (simp add: lessThan_Suc)
  next
    case False
    have "legacy_key t 55297 = legacy_key t 55296" by (simp add: legacy_key_eq_iff)
    with False show ?thesis by (simp add: insert_absorb)
  qed
  finally show ?case by (simp add: s_def)
qed (simp add: NewInMemoryStorage_def)

text \<open>The legacy method \<^verbatim>\<open>StoreMessage\<close> of the in-memory storage makes a key of the number of messages
  as a rune. From 55296 on this is no valid rune, and the key does not change any more: a topic keeps at most
  55297 messages, whatever is stored afterwards.\<close>

theorem legacy_store_stops:
  "fcard (fmdom (st_messages (fold (\<lambda>p s. snd (st_StoreMessage t p s)) ps NewInMemoryStorage))) = min (length ps) 55297"
proof -
  have "inj_on (legacy_key t) {..<min (length ps) 55297}"
    by (rule inj_on_subset [OF inj_legacy_key]) auto
  then show ?thesis by (simp add: fcard.rep_eq legacy_dom card_image)
qed

text \<open>C27. Both in-memory stores implement the same map from identifiers to messages, for every sequence of
  stores and deletions, single ones and batches.\<close>

theorem stores_refine:
  "store_content (InMemoryStore_ops mo to oo co) (fold (run_op (InMemoryStore_ops mo to oo co)) xs s) =
     fold spec_op xs (store_content (InMemoryStore_ops mo to oo co) s) \<and>
   store_content (InMemoryStorage_ops mo) (fold (run_op (InMemoryStorage_ops mo)) xs s') =
     fold spec_op xs (store_content (InMemoryStorage_ops mo) s')"
  by (simp add: im.refines st.refines)

text \<open>C35. What a fetch from the store of the server program returns, whatever the order in which Go visits the
  map: different messages of the topic, as many as there are up to the limit, but one where the limit is zero
  or negative. Partition and offset make no difference.\<close>

theorem store_fetch:
  assumes "s = fold (run_op (InMemoryStore_ops mo to oo co)) xs NewInMemoryStore" "range_order (fmlookup (im_messages s)) order"
  shows "\<exists>ms. im_Fetch order topic part offset limit s = Inr ms \<and> distinct (map m_ID ms) \<and>
    (\<forall>m \<in> set ms. m_Topic m = topic \<and> im_FetchByID (m_ID m) s = Inr (Some m)) \<and>
    length ms = min (nat (max 1 (sint limit))) (fcard (topic_ids topic (im_messages s)))"
proof -
  let ?P = "\<lambda>m. m_Topic m = topic" and ?n = "nat (max 1 (sint limit))"
  have k: "keyed (im_messages s)"
    unfolding assms(1) by (rule keyed_run) (simp add: NewInMemoryStore_def)
  have "im_Fetch order topic part offset limit s = Inr (take ?n (filter ?P (visit order (im_messages s))))"
    by (simp add: im_Fetch_def take_matching_eq)
  moreover have "distinct (map m_ID (take ?n (filter ?P (visit order (im_messages s)))))"
    using distinct_visit [OF k range_orderD(1) [OF assms(2)]]
    by (metis distinct_map_filter distinct_take take_map)
  moreover have "m_Topic m = topic \<and> im_FetchByID (m_ID m) s = Inr (Some m)"
    if "m \<in> set (take ?n (filter ?P (visit order (im_messages s))))" for m
    using in_set_takeD [OF that] keyedD [OF k] by (auto simp: set_visit im_FetchByID_def)
  moreover have "length (take ?n (filter ?P (visit order (im_messages s)))) = min ?n (fcard (topic_ids topic (im_messages s)))"
    by (simp only: length_take length_visit_topic [OF assms(2)] min.commute)
  ultimately show ?thesis by blast
qed

theorem store_fetch_witness:
  "\<exists>ms. im_Fetch [''b'', ''a''] ''t'' 3 7 0 (snd (im_Store (zero_message\<lparr>m_ID := ''b'', m_Topic := ''t''\<rparr>)
     (snd (im_Store (zero_message\<lparr>m_ID := ''a'', m_Topic := ''t''\<rparr>) NewInMemoryStore)))) = Inr ms \<and> length ms = 1"
proof -
  let ?a = "zero_message\<lparr>m_ID := ''a'', m_Topic := ''t''\<rparr>" and ?b = "zero_message\<lparr>m_ID := ''b'', m_Topic := ''t''\<rparr>"
  let ?s = "snd (im_Store ?b (snd (im_Store ?a NewInMemoryStore)))"
  have 1: "?s = fold (run_op (InMemoryStore_ops (\<lambda>_. []) [] [] [])) [PutMessage ?a, PutMessage ?b] NewInMemoryStore"
    by (simp add: InMemoryStore_ops_def)
  have m: "im_messages ?s = fmupd ''b'' ?b (fmupd ''a'' ?a fmempty)"
    by (simp add: im_Store_def NewInMemoryStore_def)
  then have 2: "range_order (fmlookup (im_messages ?s)) [''b'', ''a'']"
    by (auto simp: range_order_def split: if_splits)
  have 3: "topic_ids ''t'' (im_messages ?s) = {|''b'', ''a''|}"
    unfolding m by (simp add: topic_ids_def fset_eq_iff)
  obtain ms where "im_Fetch [''b'', ''a''] ''t'' 3 7 0 ?s = Inr ms" "length ms = min (nat (max 1 (sint (0 :: i64)))) (fcard {|''b'', ''a''|})"
    using store_fetch [OF 1 2, where topic = "''t''" and part = 3 and offset = 7 and limit = 0] unfolding 3 by blast
  then show ?thesis by (intro exI [of _ ms]) (simp add: fcard_finsert_if)
qed

end
