(* ===== verification/Native_API.thy ===== *)
theory Native_API
  imports Message_Store
begin

text \<open>
  The HTTP handlers for consumer groups, offsets and topics, \<^verbatim>\<open>src/pkg/api/consumer_groups_native.go\<close> and
  \<^verbatim>\<open>src/pkg/api/topics_management.go\<close>, with the types they take from \<^verbatim>\<open>src/pkg/api/fiber.go\<close>. They are
  functions of the parsed request, the storage, which is any \<open>MessageStore\<close>, and the server; the answer is the
  status and the fields of the body. The properties are about these handlers on the in-memory store that the
  server program uses.

  A handler reads the clock several times: \<open>clk k\<close> is the reading number \<open>k\<close>. The fields of
  a group that no handler sets, and the compaction of a topic, which asks the storage for a clean-up in the
  background, are left out.
\<close>

section \<open>Requests and answers\<close>

text \<open>A time that is formatted as text is represented by the second that the text denotes.\<close>

definition rfc3339 :: "instant \<Rightarrow> int" where
  "rfc3339 t = t div Second"

record NativeGroupMember =
  gm_ID :: string
  gm_ClientID :: string
  gm_ClientHost :: string
  gm_SessionTimeout :: i64
  gm_JoinedAt :: int
  gm_LastHeartbeat :: int

record NativeConsumerGroup =
  cg_ID :: string
  cg_Name :: string
  cg_State :: string
  cg_Protocol :: string
  cg_ProtocolType :: string
  cg_Leader :: string
  cg_Generation :: i64
  cg_Members :: "NativeGroupMember list"
  cg_Subscriptions :: "string list"
  cg_CreatedAt :: int
  cg_UpdatedAt :: int

record CreateGroupRequest =
  cgr_Name :: string
  cgr_Protocol :: string
  cgr_ProtocolType :: string
  cgr_Topics :: "string list"

record JoinGroupRequest =
  jgr_MemberID :: string
  jgr_ClientID :: string
  jgr_ClientHost :: string
  jgr_SessionTimeout :: i32

record JoinGroupResponse_api =
  jr_MemberID :: string
  jr_Generation :: i32
  jr_Leader :: bool

record HeartbeatRequest =
  hr_MemberID :: string
  hr_Generation :: i32

record CommitOffsetRequest =
  cor_Topic :: string
  cor_Partition :: i32
  cor_Offset :: i64
  cor_Metadata :: string

record ResetOffsetsRequest =
  ror_Topics :: "string list"
  ror_Position :: string

record GroupLagInfo =
  gl_Topic :: string
  gl_Partition :: i32
  gl_CurrentOffset :: i64
  gl_LogEndOffset :: i64
  gl_Lag :: i64

record TopicConfig =
  tc_RetentionMs :: i64
  tc_CompressionType :: string
  tc_MaxMessageBytes :: i64
  tc_MinInSyncReplicas :: i64

record Topic =
  tp_Name :: string
  tp_Partitions :: i64
  tp_ReplicationFactor :: i64
  tp_Config :: TopicConfig
  tp_CreatedAt :: int
  tp_UpdatedAt :: int
  tp_MessageCount :: i64
  tp_TotalBytes :: i64

record TopicStats =
  ts_Name :: string
  ts_Partitions :: i64
  ts_MessageCount :: i64
  ts_TotalBytes :: i64
  ts_FirstOffset :: i64
  ts_LastOffset :: i64
  ts_Replicas :: i64
  ts_ISR :: i64

text \<open>The bodies of the answers: one constructor for each set of fields the handlers return.\<close>

datatype api_body =
    ErrorBody string
  | MessageBody string
  | GroupBody NativeConsumerGroup
  | GroupsBody "NativeConsumerGroup list" nat
  | UpdatedBody string "string list"
  | JoinBody JoinGroupResponse_api
  | CommittedBody nat string
  | OffsetsBody "(string, (i32, i64 \<times> string) fmap) fmap"
  | ResetBody string string nat "string list"
  | LagBody string i64 "GroupLagInfo list"
  | MembersBody "NativeGroupMember list" nat
  | StateBody string string i64 string nat string int int
  | TopicBody Topic
  | TopicsBody "Topic list" nat
  | StatsBody TopicStats
  | PartitionsBody string "(i32 \<times> i64 \<times> i64 \<times> i64) list"

type_synonym reply = "nat \<times> api_body"

text \<open>The server with what the handlers use of it: the storage, and the maps kept beside it.\<close>

record 's FiberServer =
  fs_storage :: 's
  fs_topics :: "(string, Topic) fmap"
  fs_consumerGroups :: "(string, NativeConsumerGroup) fmap"

definition NewFiberServer :: "'s \<Rightarrow> 's FiberServer" where
  "NewFiberServer storage = \<lparr>fs_storage = storage, fs_topics = fmempty, fs_consumerGroups = fmempty\<rparr>"

text \<open>A body that cannot be parsed arrives as the text of the parser's error.\<close>

definition invalid_body :: "string \<Rightarrow> reply" where
  "invalid_body err = (400, ErrorBody (''Invalid request body: '' @ err))"

definition group_not_found :: "string \<Rightarrow> reply" where
  "group_not_found groupID = (404, ErrorBody (''Consumer group '' @ CHR 0x27 # groupID @ CHR 0x27 # '' not found''))"

section \<open>Consumer groups\<close>

definition put_group :: "string \<Rightarrow> NativeConsumerGroup \<Rightarrow> 's FiberServer \<Rightarrow> 's FiberServer" where
  "put_group groupID grp s = s\<lparr>fs_consumerGroups := fmupd groupID grp (fs_consumerGroups s)\<rparr>"

definition handleCreateConsumerGroup ::
  "(nat \<Rightarrow> instant) \<Rightarrow> (string + CreateGroupRequest) \<Rightarrow> 's FiberServer \<Rightarrow> reply \<times> 's FiberServer" where
  "handleCreateConsumerGroup clk body s =
     (case body of
        Inl err \<Rightarrow> (invalid_body err, s)
      | Inr req \<Rightarrow>
          if cgr_Name req = [] then ((400, ErrorBody ''Group name is required''), s)
          else if cgr_Topics req = [] then ((400, ErrorBody ''At least one topic is required''), s)
          else let grp = \<lparr>cg_ID = cgr_Name req, cg_Name = cgr_Name req, cg_State = ''Empty'',
                     cg_Protocol = (if cgr_Protocol req = [] then ''range'' else cgr_Protocol req),
                     cg_ProtocolType = (if cgr_ProtocolType req = [] then ''consumer'' else cgr_ProtocolType req),
                     cg_Leader = [], cg_Generation = 0, cg_Members = [], cg_Subscriptions = cgr_Topics req,
                     cg_CreatedAt = rfc3339 (clk 0), cg_UpdatedAt = rfc3339 (clk 1)\<rparr>
               in ((201, GroupBody grp), put_group (cgr_Name req) grp s))"

definition handleListConsumerGroups :: "string list \<Rightarrow> 's FiberServer \<Rightarrow> reply" where
  "handleListConsumerGroups order s =
     (let groups = visit order (fs_consumerGroups s) in (200, GroupsBody groups (length groups)))"

definition handleGetConsumerGroup :: "string \<Rightarrow> 's FiberServer \<Rightarrow> reply" where
  "handleGetConsumerGroup groupID s =
     (if groupID = [] then (400, ErrorBody ''Group ID is required'')
      else case fmlookup (fs_consumerGroups s) groupID of
             None \<Rightarrow> group_not_found groupID
           | Some grp \<Rightarrow> (200, GroupBody grp))"

definition handleDeleteConsumerGroup :: "string \<Rightarrow> 's FiberServer \<Rightarrow> reply \<times> 's FiberServer" where
  "handleDeleteConsumerGroup groupID s =
     (if groupID = [] then ((400, ErrorBody ''Group ID is required''), s)
      else ((200, MessageBody (''Consumer group '' @ CHR 0x27 # groupID @ CHR 0x27 # '' deleted'')),
            s\<lparr>fs_consumerGroups := fmdrop groupID (fs_consumerGroups s)\<rparr>))"

definition handleUpdateConsumerGroup ::
  "(nat \<Rightarrow> instant) \<Rightarrow> string \<Rightarrow> (string + string list) \<Rightarrow> 's FiberServer \<Rightarrow> reply \<times> 's FiberServer" where
  "handleUpdateConsumerGroup clk groupID body s =
     (case body of
        Inl err \<Rightarrow> (invalid_body err, s)
      | Inr topics \<Rightarrow>
          ((200, UpdatedBody (''Consumer group '' @ CHR 0x27 # groupID @ CHR 0x27 # '' updated'') topics),
           case fmlookup (fs_consumerGroups s) groupID of
             None \<Rightarrow> s
           | Some grp \<Rightarrow> put_group groupID (grp\<lparr>cg_Subscriptions := topics, cg_UpdatedAt := rfc3339 (clk 0)\<rparr>) s))"

text \<open>
  Joining: what happens while the lock is held, and the answer, which is made from the group after the lock
  has been released.
\<close>

definition new_member :: "(nat \<Rightarrow> instant) \<Rightarrow> string \<Rightarrow> string \<Rightarrow> JoinGroupRequest \<Rightarrow> NativeGroupMember" where
  "new_member clk ip memberID req =
     \<lparr>gm_ID = memberID, gm_ClientID = jgr_ClientID req,
      gm_ClientHost = (if jgr_ClientHost req = [] then ip else jgr_ClientHost req),
      gm_SessionTimeout = scast (if jgr_SessionTimeout req = 0 then 10000 else jgr_SessionTimeout req),
      gm_JoinedAt = rfc3339 (clk 1), gm_LastHeartbeat = rfc3339 (clk 2)\<rparr>"

definition join_locked :: "(nat \<Rightarrow> instant) \<Rightarrow> NativeGroupMember \<Rightarrow> NativeConsumerGroup \<Rightarrow> NativeConsumerGroup" where
  "join_locked clk member grp =
     grp\<lparr>cg_Members := cg_Members grp @ [member], cg_State := ''Stable'', cg_Generation := cg_Generation grp + 1,
           cg_UpdatedAt := rfc3339 (clk 3)\<rparr>"

definition join_response :: "string \<Rightarrow> NativeConsumerGroup \<Rightarrow> JoinGroupResponse_api" where
  "join_response memberID grp =
     \<lparr>jr_MemberID = memberID, jr_Generation = ucast (cg_Generation grp), jr_Leader = (length (cg_Members grp) = 1)\<rparr>"

definition join_memberID :: "(nat \<Rightarrow> instant) \<Rightarrow> JoinGroupRequest \<Rightarrow> string" where
  "join_memberID clk req =
     (if jgr_MemberID req = [] then jgr_ClientID req @ ''-'' @ dec_int (clk 0) else jgr_MemberID req)"

definition handleJoinConsumerGroup ::
  "(nat \<Rightarrow> instant) \<Rightarrow> string \<Rightarrow> string \<Rightarrow> (string + JoinGroupRequest) \<Rightarrow> 's FiberServer \<Rightarrow> reply \<times> 's FiberServer" where
  "handleJoinConsumerGroup clk ip groupID body s =
     (case body of
        Inl err \<Rightarrow> (invalid_body err, s)
      | Inr req \<Rightarrow>
          if jgr_ClientID req = [] then ((400, ErrorBody ''Client ID is required''), s)
          else let memberID = join_memberID clk req
               in case fmlookup (fs_consumerGroups s) groupID of
                    None \<Rightarrow> (group_not_found groupID, s)
                  | Some grp \<Rightarrow>
                      let grp = join_locked clk (new_member clk ip memberID req) grp
                      in ((200, JoinBody (join_response memberID grp)), put_group groupID grp s))"

text \<open>The first member with the identifier is removed, or changed.\<close>

fun remove_member :: "string \<Rightarrow> NativeGroupMember list \<Rightarrow> NativeGroupMember list" where
  "remove_member memberID [] = []"
| "remove_member memberID (m # ms) = (if gm_ID m = memberID then ms else m # remove_member memberID ms)"

fun touch_member :: "int \<Rightarrow> string \<Rightarrow> NativeGroupMember list \<Rightarrow> NativeGroupMember list" where
  "touch_member now memberID [] = []"
| "touch_member now memberID (m # ms) =
     (if gm_ID m = memberID then m\<lparr>gm_LastHeartbeat := now\<rparr> # ms else m # touch_member now memberID ms)"

definition handleLeaveConsumerGroup ::
  "(nat \<Rightarrow> instant) \<Rightarrow> string \<Rightarrow> (string + string) \<Rightarrow> 's FiberServer \<Rightarrow> reply \<times> 's FiberServer" where
  "handleLeaveConsumerGroup clk groupID body s =
     (case body of
        Inl err \<Rightarrow> (invalid_body err, s)
      | Inr memberID \<Rightarrow>
          if memberID = [] then ((400, ErrorBody ''Member ID is required''), s)
          else ((200, MessageBody (''Member '' @ CHR 0x27 # memberID @ CHR 0x27 # '' left group '' @ CHR 0x27 # groupID @ [CHR 0x27])),
                case fmlookup (fs_consumerGroups s) groupID of
                  None \<Rightarrow> s
                | Some grp \<Rightarrow>
                    let members = remove_member memberID (cg_Members grp)
                    in put_group groupID (grp\<lparr>cg_Members := members,
                         cg_State := (if members = [] then ''Empty'' else cg_State grp), cg_UpdatedAt := rfc3339 (clk 0)\<rparr>) s))"

definition handleHeartbeat ::
  "(nat \<Rightarrow> instant) \<Rightarrow> string \<Rightarrow> (string + HeartbeatRequest) \<Rightarrow> 's FiberServer \<Rightarrow> reply \<times> 's FiberServer" where
  "handleHeartbeat clk groupID body s =
     (case body of
        Inl err \<Rightarrow> (invalid_body err, s)
      | Inr req \<Rightarrow>
          if hr_MemberID req = [] then ((400, ErrorBody ''Member ID is required''), s)
          else ((200, MessageBody ''Heartbeat received''),
                case fmlookup (fs_consumerGroups s) groupID of
                  None \<Rightarrow> s
                | Some grp \<Rightarrow>
                    put_group groupID (grp\<lparr>cg_Members := touch_member (rfc3339 (clk 0)) (hr_MemberID req) (cg_Members grp)\<rparr>) s))"

definition handleListGroupMembers :: "string \<Rightarrow> 's FiberServer \<Rightarrow> reply" where
  "handleListGroupMembers groupID s =
     (case fmlookup (fs_consumerGroups s) groupID of
        None \<Rightarrow> group_not_found groupID
      | Some grp \<Rightarrow> (200, MembersBody (cg_Members grp) (length (cg_Members grp))))"

definition handleGetGroupState :: "string \<Rightarrow> 's FiberServer \<Rightarrow> reply" where
  "handleGetGroupState groupID s =
     (case fmlookup (fs_consumerGroups s) groupID of
        None \<Rightarrow> group_not_found groupID
      | Some grp \<Rightarrow>
          (200, StateBody groupID (cg_State grp) (cg_Generation grp)
             (if cg_Members grp = [] then [] else gm_ID (hd (cg_Members grp)))
             (length (cg_Members grp)) (cg_Protocol grp) (cg_CreatedAt grp) (cg_UpdatedAt grp)))"

section \<open>Offsets of a group\<close>

definition set_storage :: "'s \<Rightarrow> 's FiberServer \<Rightarrow> 's FiberServer" where
  "set_storage st s = s\<lparr>fs_storage := st\<rparr>"

text \<open>The text of an error in an answer.\<close>

definition failed_to :: "string \<Rightarrow> go_error \<Rightarrow> reply" where
  "failed_to what err = (500, ErrorBody (''Failed to '' @ what @ '': '' @ error_text err))"

definition consumer_offset :: "instant \<Rightarrow> string \<Rightarrow> CommitOffsetRequest \<Rightarrow> ConsumerOffset" where
  "consumer_offset now groupID req =
     \<lparr>co_ConsumerID = groupID, co_Topic = cor_Topic req, co_Partition = cor_Partition req, co_Offset = cor_Offset req,
      co_Timestamp = of_int now, co_Metadata = cor_Metadata req\<rparr>"

definition handleCommitOffsets ::
  "'s MessageStore \<Rightarrow> (nat \<Rightarrow> instant) \<Rightarrow> string \<Rightarrow> (string + CommitOffsetRequest list) \<Rightarrow> 's FiberServer \<Rightarrow> reply \<times> 's FiberServer" where
  "handleCommitOffsets ops clk groupID body s =
     (case body of
        Inl err \<Rightarrow> (invalid_body err, s)
      | Inr offsets \<Rightarrow>
          if offsets = [] then ((400, ErrorBody ''At least one offset is required''), s)
          else let consumerOffsets = map (\<lambda>(i, req). consumer_offset (clk i) groupID req) (zip [0..<length offsets] offsets);
                   (err, st) = ms_CommitOffsetBatch ops consumerOffsets (fs_storage s);
                   s = set_storage st s
               in case err of
                    Some e \<Rightarrow> (failed_to ''commit offsets'' e, s)
                  | None \<Rightarrow> ((200, CommittedBody (length consumerOffsets) groupID), s))"

text \<open>A missing inner map is made when it is first written to.\<close>

definition add_offset :: "ConsumerOffset \<Rightarrow> (string, (i32, i64 \<times> string) fmap) fmap \<Rightarrow> (string, (i32, i64 \<times> string) fmap) fmap" where
  "add_offset offset offsets =
     (let inner = (case fmlookup offsets (co_Topic offset) of None \<Rightarrow> fmempty | Some m \<Rightarrow> m)
      in fmupd (co_Topic offset) (fmupd (co_Partition offset) (co_Offset offset, co_Metadata offset) inner) offsets)"

definition handleFetchOffsets :: "'s MessageStore \<Rightarrow> string \<Rightarrow> 's FiberServer \<Rightarrow> reply" where
  "handleFetchOffsets ops groupID s =
     (case ms_GetConsumerOffsets ops groupID (fs_storage s) of
        Inl err \<Rightarrow> failed_to ''fetch offsets'' err
      | Inr consumerOffsets \<Rightarrow> (200, OffsetsBody (fold add_offset consumerOffsets fmempty)))"

text \<open>
  Resetting the partitions of one topic. The triple is the number of clock readings, the number of offsets
  reset and the storage.
\<close>

definition reset_partition ::
  "'s MessageStore \<Rightarrow> (nat \<Rightarrow> instant) \<Rightarrow> string \<Rightarrow> string \<Rightarrow> string \<Rightarrow> i32 \<Rightarrow> nat \<times> nat \<times> 's \<Rightarrow> nat \<times> nat \<times> 's" where
  "reset_partition ops clk groupID position topic part = (\<lambda>(k, resetCount, st).
     case (if position = ''earliest'' then ms_GetEarliestOffset ops topic part st else ms_GetLatestOffset ops topic part st) of
       Inl err \<Rightarrow> (k, resetCount, st)
     | Inr newOffset \<Rightarrow>
         (case ms_CommitOffset ops \<lparr>co_ConsumerID = groupID, co_Topic = topic, co_Partition = part, co_Offset = newOffset,
                 co_Timestamp = of_int (clk k), co_Metadata = ''reset to '' @ position\<rparr> st of
            (Some err, st) \<Rightarrow> (Suc k, resetCount, st)
          | (None, st) \<Rightarrow> (Suc k, Suc resetCount, st)))"

definition partitions_upto :: "i32 \<Rightarrow> i32 list" where
  "partitions_upto n = map of_nat [0..<nat (sint n)]"

definition reset_topic ::
  "'s MessageStore \<Rightarrow> (nat \<Rightarrow> instant) \<Rightarrow> string \<Rightarrow> string \<Rightarrow> string \<Rightarrow> nat \<times> nat \<times> 's \<Rightarrow> nat \<times> nat \<times> 's" where
  "reset_topic ops clk groupID position topic acc =
     (case ms_GetPartitionCount ops topic (snd (snd acc)) of
        Inl err \<Rightarrow> acc
      | Inr partitionCount \<Rightarrow> fold (reset_partition ops clk groupID position topic) (partitions_upto partitionCount) acc)"

text \<open>Without topics in the request they are those the group has offsets for, visited in the order \<open>torder\<close>.\<close>

definition reset_topics :: "'s MessageStore \<Rightarrow> string list \<Rightarrow> string \<Rightarrow> string list \<Rightarrow> 's \<Rightarrow> string list" where
  "reset_topics ops torder groupID topics st =
     (if topics = []
      then (case ms_GetConsumerOffsets ops groupID st of
              Inl err \<Rightarrow> []
            | Inr consumerOffsets \<Rightarrow> filter (\<lambda>t. t \<in> set (map co_Topic consumerOffsets)) torder)
      else topics)"

definition handleResetOffsets ::
  "'s MessageStore \<Rightarrow> (nat \<Rightarrow> instant) \<Rightarrow> string list \<Rightarrow> string \<Rightarrow> (string + ResetOffsetsRequest) \<Rightarrow> 's FiberServer \<Rightarrow> reply \<times> 's FiberServer" where
  "handleResetOffsets ops clk torder groupID body s =
     (case body of
        Inl err \<Rightarrow> (invalid_body err, s)
      | Inr req \<Rightarrow>
          if ror_Position req \<noteq> ''earliest'' \<and> ror_Position req \<noteq> ''latest''
          then ((400, ErrorBody (''Position must be '' @ CHR 0x27 # ''earliest'' @ CHR 0x27 # '' or '' @ CHR 0x27 # ''latest'' @ [CHR 0x27])), s)
          else let topics = reset_topics ops torder groupID (ror_Topics req) (fs_storage s);
                   (k, resetCount, st) = fold (reset_topic ops clk groupID (ror_Position req)) topics (0, 0, fs_storage s)
               in ((200, ResetBody (''Reset '' @ dec resetCount @ '' offsets to '' @ ror_Position req) groupID resetCount topics),
                   set_storage st s))"

fun group_lags :: "'s MessageStore \<Rightarrow> 's \<Rightarrow> ConsumerOffset list \<Rightarrow> GroupLagInfo list" where
  "group_lags ops st [] = []"
| "group_lags ops st (offset # offsets) =
     (case ms_GetLatestOffset ops (co_Topic offset) (co_Partition offset) st of
        Inl err \<Rightarrow> group_lags ops st offsets
      | Inr latestOffset \<Rightarrow>
          let lag = latestOffset - co_Offset offset;
              lag = (if sint lag < 0 then 0 else lag)
          in \<lparr>gl_Topic = co_Topic offset, gl_Partition = co_Partition offset, gl_CurrentOffset = co_Offset offset,
              gl_LogEndOffset = latestOffset, gl_Lag = lag\<rparr> # group_lags ops st offsets)"

definition handleGetGroupLag :: "'s MessageStore \<Rightarrow> string \<Rightarrow> 's FiberServer \<Rightarrow> reply" where
  "handleGetGroupLag ops groupID s =
     (let consumerOffsets = (case ms_GetConsumerOffsets ops groupID (fs_storage s) of Inl err \<Rightarrow> [] | Inr os \<Rightarrow> os);
          lags = group_lags ops (fs_storage s) consumerOffsets
      in (200, LagBody groupID (sum_list (map gl_Lag lags)) lags))"

section \<open>Topics\<close>

text \<open>
  \<^verbatim>\<open>strconv.ParseInt(s, 10, 64)\<close>, whose error is ignored: 0 if the text is no number, the nearest 64-bit
  number if it is out of range. \<open>parse_uint\<close> stops at the first digit that takes it out of range.
\<close>

fun parse_uint :: "string \<Rightarrow> nat \<Rightarrow> nat option option" where
  "parse_uint [] n = Some (Some n)"
| "parse_uint (c # s) n =
     (if of_char c < (48 :: nat) \<or> of_char c > (57 :: nat) then None
      else if 10 * n + (of_char c - 48) > 2 ^ 64 - 1 then Some None
      else parse_uint s (10 * n + (of_char c - 48)))"

definition ParseInt :: "string \<Rightarrow> int" where
  "ParseInt s =
     (let neg = (s \<noteq> [] \<and> hd s = CHR ''-'');
          digits = (if s \<noteq> [] \<and> (hd s = CHR ''+'' \<or> hd s = CHR ''-'') then tl s else s)
      in if digits = [] then 0
         else case parse_uint digits 0 of
                None \<Rightarrow> 0
              | Some None \<Rightarrow> if neg then - (2 ^ 63) else 2 ^ 63 - 1
              | Some (Some un) \<Rightarrow>
                  if \<not> neg \<and> un \<ge> 2 ^ 63 then 2 ^ 63 - 1
                  else if neg \<and> un > 2 ^ 63 then - (2 ^ 63)
                  else if neg then - int un else int un)"

definition config_value :: "string go_map option \<Rightarrow> string \<Rightarrow> string" where
  "config_value config key =
     (case config of None \<Rightarrow> [] | Some m \<Rightarrow> (case map_of m key of None \<Rightarrow> [] | Some v \<Rightarrow> v))"

definition put_config :: "TopicConfig \<Rightarrow> string go_map \<Rightarrow> string go_map" where
  "put_config c m =
     AList.update ''min_insync_replicas'' (dec_int (sint (tc_MinInSyncReplicas c)))
       (AList.update ''max_message_bytes'' (dec_int (sint (tc_MaxMessageBytes c)))
         (AList.update ''compression_type'' (tc_CompressionType c)
           (AList.update ''retention_ms'' (dec_int (sint (tc_RetentionMs c))) m)))"

definition toTopicInfo :: "Topic \<Rightarrow> TopicInfo" where
  "toTopicInfo topic =
     \<lparr>ti_Name = tp_Name topic, ti_Partitions = ucast (tp_Partitions topic), ti_ReplicationFactor = ucast (tp_ReplicationFactor topic),
      ti_Config = Some (put_config (tp_Config topic) []), ti_CreatedAt = of_int (tp_CreatedAt topic)\<rparr>"

definition fromTopicInfo :: "TopicInfo \<Rightarrow> Topic" where
  "fromTopicInfo info =
     \<lparr>tp_Name = ti_Name info, tp_Partitions = scast (ti_Partitions info), tp_ReplicationFactor = scast (ti_ReplicationFactor info),
      tp_Config = \<lparr>tc_RetentionMs = of_int (ParseInt (config_value (ti_Config info) ''retention_ms'')),
        tc_CompressionType = config_value (ti_Config info) ''compression_type'',
        tc_MaxMessageBytes = of_int (ParseInt (config_value (ti_Config info) ''max_message_bytes'')),
        tc_MinInSyncReplicas = of_int (ParseInt (config_value (ti_Config info) ''min_insync_replicas''))\<rparr>,
      tp_CreatedAt = sint (ti_CreatedAt info), tp_UpdatedAt = sint (ti_CreatedAt info),
      tp_MessageCount = 0, tp_TotalBytes = 0\<rparr>"

record CreateTopicRequest =
  ctr_Name :: string
  ctr_Partitions :: i64
  ctr_ReplicationFactor :: i64
  ctr_Config :: "TopicConfig option"

definition default_config :: TopicConfig where
  "default_config = \<lparr>tc_RetentionMs = 86400000, tc_CompressionType = ''none'', tc_MaxMessageBytes = 1048576, tc_MinInSyncReplicas = 1\<rparr>"

definition cache_topic :: "string \<Rightarrow> Topic \<Rightarrow> 's FiberServer \<Rightarrow> 's FiberServer" where
  "cache_topic name topic s = s\<lparr>fs_topics := fmupd name topic (fs_topics s)\<rparr>"

definition topic_not_found :: "string \<Rightarrow> reply" where
  "topic_not_found topicName = (404, ErrorBody (''Topic '' @ CHR 0x27 # topicName @ CHR 0x27 # '' not found''))"

text \<open>An empty body is refused before it is parsed. A handler that panics gives \<open>None\<close>.\<close>

definition handleCreateTopic ::
  "'s MessageStore \<Rightarrow> (nat \<Rightarrow> instant) \<Rightarrow> byte list \<Rightarrow> (string + CreateTopicRequest) \<Rightarrow> 's FiberServer \<Rightarrow> (reply \<times> 's FiberServer) option" where
  "handleCreateTopic ops clk raw body s =
     (if raw = [] then Some ((400, ErrorBody ''Empty request body''), s)
      else case body of
        Inl err \<Rightarrow> Some ((400, ErrorBody (''Invalid JSON: '' @ err)), s)
      | Inr req \<Rightarrow>
          if ctr_Name req = [] then Some ((400, ErrorBody ''Topic name is required''), s)
          else let topic = \<lparr>tp_Name = ctr_Name req,
                     tp_Partitions = (if ctr_Partitions req = 0 then 1 else ctr_Partitions req),
                     tp_ReplicationFactor = (if ctr_ReplicationFactor req = 0 then 1 else ctr_ReplicationFactor req),
                     tp_Config = (case ctr_Config req of None \<Rightarrow> default_config | Some c \<Rightarrow> c),
                     tp_CreatedAt = rfc3339 (clk 0), tp_UpdatedAt = rfc3339 (clk 1), tp_MessageCount = 0, tp_TotalBytes = 0\<rparr>
               in case ms_CreateTopic ops (Some (toTopicInfo topic)) (fs_storage s) of
                    None \<Rightarrow> None
                  | Some (Some err, st) \<Rightarrow> Some (failed_to ''create topic'' err, set_storage st s)
                  | Some (None, st) \<Rightarrow> Some ((201, TopicBody topic), cache_topic (ctr_Name req) topic (set_storage st s)))"

text \<open>The messages of a topic, as the listing and the lookup estimate them.\<close>

definition offset_or_zero :: "go_error + i64 \<Rightarrow> i64" where
  "offset_or_zero r = (case r of Inl err \<Rightarrow> 0 | Inr n \<Rightarrow> n)"

definition partition_count :: "'s MessageStore \<Rightarrow> TopicName \<Rightarrow> 's \<Rightarrow> i32 \<Rightarrow> i64" where
  "partition_count ops topic st part =
     offset_or_zero (ms_GetLatestOffset ops topic part st) - offset_or_zero (ms_GetEarliestOffset ops topic part st)"

definition with_counts :: "'s MessageStore \<Rightarrow> TopicInfo \<Rightarrow> 's \<Rightarrow> Topic" where
  "with_counts ops info st =
     (let counts = map (partition_count ops (ti_Name info) st) (partitions_upto (ti_Partitions info))
      in (fromTopicInfo info)\<lparr>tp_MessageCount := sum_list counts, tp_TotalBytes := sum_list (map (\<lambda>n. n * 1024) counts)\<rparr>)"

definition handleListTopics :: "'s MessageStore \<Rightarrow> 's FiberServer \<Rightarrow> reply \<times> 's FiberServer" where
  "handleListTopics ops s =
     (case ms_ListTopics ops (fs_storage s) of
        Inl err \<Rightarrow> (failed_to ''list topics'' err, s)
      | Inr infos \<Rightarrow>
          let topics = map (\<lambda>info. with_counts ops info (fs_storage s)) infos
          in ((200, TopicsBody topics (length topics)), fold (\<lambda>topic. cache_topic (tp_Name topic) topic) topics s))"

definition handleGetTopic :: "'s MessageStore \<Rightarrow> string \<Rightarrow> 's FiberServer \<Rightarrow> (reply \<times> 's FiberServer) option" where
  "handleGetTopic ops topicName s =
     (if topicName = [] then Some ((400, ErrorBody ''Topic name is required''), s)
      else case fmlookup (fs_topics s) topicName of
             Some cachedTopic \<Rightarrow> Some ((200, TopicBody cachedTopic), s)
           | None \<Rightarrow>
               (case ms_GetTopicInfo ops topicName (fs_storage s) of
                  Inl err \<Rightarrow> Some (topic_not_found topicName, s)
                | Inr None \<Rightarrow> None
                | Inr (Some info) \<Rightarrow>
                    let topic = with_counts ops info (fs_storage s)
                    in Some ((200, TopicBody topic), cache_topic topicName topic s)))"

text \<open>
  The update: the configuration is written into the map of the topic, which panics if there is none; then the
  topic is deleted and created again. A partition count in the request has no effect.
\<close>

definition update_config :: "TopicConfig option \<Rightarrow> TopicInfo option \<Rightarrow> TopicInfo option option" where
  "update_config config info =
     (case config of
        None \<Rightarrow> Some info
      | Some c \<Rightarrow>
          (case info of
             None \<Rightarrow> None
           | Some i \<Rightarrow> (case ti_Config i of None \<Rightarrow> None | Some m \<Rightarrow> Some (Some (i\<lparr>ti_Config := Some (put_config c m)\<rparr>)))))"

definition handleUpdateTopic ::
  "'s MessageStore \<Rightarrow> string \<Rightarrow> (string + TopicConfig option) \<Rightarrow> 's FiberServer \<Rightarrow> (reply \<times> 's FiberServer) option" where
  "handleUpdateTopic ops topicName body s =
     (case body of
        Inl err \<Rightarrow> Some (invalid_body err, s)
      | Inr config \<Rightarrow>
          (case ms_GetTopicInfo ops topicName (fs_storage s) of
             Inl err \<Rightarrow> Some (topic_not_found topicName, s)
           | Inr info \<Rightarrow>
               (case update_config config info of
                  None \<Rightarrow> None
                | Some info \<Rightarrow>
                    (case ms_CreateTopic ops info (snd (ms_DeleteTopic ops topicName (fs_storage s))) of
                       None \<Rightarrow> None
                     | Some (Some err, st) \<Rightarrow> Some (failed_to ''update topic'' err, set_storage st s)
                     | Some (None, st) \<Rightarrow>
                         let s = set_storage st s;
                             s = (case (fmlookup (fs_topics s) topicName, config) of
                                    (Some t, Some c) \<Rightarrow> cache_topic topicName (t\<lparr>tp_Config := c\<rparr>) s
                                  | _ \<Rightarrow> s)
                         in Some ((200, MessageBody (''Topic '' @ CHR 0x27 # topicName @ CHR 0x27 # '' updated'')), s)))))"

definition handleDeleteTopic :: "'s MessageStore \<Rightarrow> string \<Rightarrow> 's FiberServer \<Rightarrow> reply \<times> 's FiberServer" where
  "handleDeleteTopic ops topicName s =
     (case ms_DeleteTopic ops topicName (fs_storage s) of
        (Some err, st) \<Rightarrow> (failed_to ''delete topic'' err, set_storage st s)
      | (None, st) \<Rightarrow>
          ((200, MessageBody (''Topic '' @ CHR 0x27 # topicName @ CHR 0x27 # '' deleted'')),
           (set_storage st s)\<lparr>fs_topics := fmdrop topicName (fs_topics s)\<rparr>))"

definition handleGetTopicStats :: "'s MessageStore \<Rightarrow> string \<Rightarrow> 's FiberServer \<Rightarrow> reply option" where
  "handleGetTopicStats ops topicName s =
     (case ms_GetTopicInfo ops topicName (fs_storage s) of
        Inl err \<Rightarrow> Some (topic_not_found topicName)
      | Inr None \<Rightarrow> None
      | Inr (Some info) \<Rightarrow>
          let some = sint (ti_Partitions info) > 0;
              firstOffset = (if some then offset_or_zero (ms_GetEarliestOffset ops topicName 0 (fs_storage s)) else 0);
              lastOffset = (if some then offset_or_zero (ms_GetLatestOffset ops topicName 0 (fs_storage s)) else 0)
          in Some (200, StatsBody \<lparr>ts_Name = topicName, ts_Partitions = scast (ti_Partitions info),
               ts_MessageCount = lastOffset - firstOffset, ts_TotalBytes = (lastOffset - firstOffset) * 1024,
               ts_FirstOffset = firstOffset, ts_LastOffset = lastOffset,
               ts_Replicas = scast (ti_ReplicationFactor info), ts_ISR = scast (ti_ReplicationFactor info)\<rparr>))"

definition handleGetTopicPartitions :: "'s MessageStore \<Rightarrow> string \<Rightarrow> 's FiberServer \<Rightarrow> reply option" where
  "handleGetTopicPartitions ops topicName s =
     (case ms_GetPartitionCount ops topicName (fs_storage s) of
        Inl err \<Rightarrow> Some (topic_not_found topicName)
      | Inr partitionCount \<Rightarrow>
          if sint partitionCount < 0 then None
          else Some (200, PartitionsBody topicName (map (\<lambda>i.
                 (i, offset_or_zero (ms_GetEarliestOffset ops topicName i (fs_storage s)),
                  offset_or_zero (ms_GetLatestOffset ops topicName i (fs_storage s)), partition_count ops topicName (fs_storage s) i))
               (partitions_upto partitionCount))))"

definition handlePurgeTopic :: "'s MessageStore \<Rightarrow> string \<Rightarrow> 's FiberServer \<Rightarrow> (reply \<times> 's FiberServer) option" where
  "handlePurgeTopic ops topicName s =
     (case ms_GetTopicInfo ops topicName (fs_storage s) of
        Inl err \<Rightarrow> Some (topic_not_found topicName, s)
      | Inr info \<Rightarrow>
          (case ms_DeleteTopic ops topicName (fs_storage s) of
             (Some err, st) \<Rightarrow> Some (failed_to ''purge topic'' err, set_storage st s)
           | (None, st) \<Rightarrow>
               (case ms_CreateTopic ops info st of
                  None \<Rightarrow> None
                | Some (Some err, st) \<Rightarrow> Some (failed_to ''recreate topic after purge'' err, set_storage st s)
                | Some (None, st) \<Rightarrow>
                    Some ((200, MessageBody (''All messages purged from topic '' @ CHR 0x27 # topicName @ [CHR 0x27])), set_storage st s))))"

section \<open>Committed offsets\<close>

lemma find_append_case: "find P (xs @ ys) = (case find P xs of Some x \<Rightarrow> Some x | None \<Rightarrow> find P ys)"
  by (induction xs) auto

abbreviation at_offset :: "string \<Rightarrow> string \<Rightarrow> i32 \<Rightarrow> ConsumerOffset \<Rightarrow> bool" where
  "at_offset g t p c \<equiv> co_ConsumerID c = g \<and> co_Topic c = t \<and> co_Partition c = p"

lemma lookup_put_offsets:
  assumes "plain g" "\<forall>c \<in> set cs. plain (co_ConsumerID c)"
  shows "fmlookup (fold put_offset cs m) (offset_key g t p) =
    (case find (at_offset g t p) (rev cs) of Some c \<Rightarrow> Some c | None \<Rightarrow> fmlookup m (offset_key g t p))"
  using assms(2)
proof (induction cs arbitrary: m)
  case (Cons c cs)
  have "fmlookup (put_offset c m) (offset_key g t p) = (if at_offset g t p c then Some c else fmlookup m (offset_key g t p))"
    using Cons.prems assms(1) by (auto simp: put_offset_def offset_key_plain)
  then show ?case
    using Cons.IH [of "put_offset c m"] Cons.prems by (simp add: find_append_case split: option.split)
qed simp

text \<open>Every entry stands under the key of its own fields.\<close>

definition offsets_ok :: "(string, ConsumerOffset) fmap \<Rightarrow> bool" where
  "offsets_ok m \<longleftrightarrow> (\<forall>k c. fmlookup m k = Some c \<longrightarrow> k = offset_key (co_ConsumerID c) (co_Topic c) (co_Partition c))"

lemma offsets_ok_put: "offsets_ok m \<Longrightarrow> offsets_ok (fold put_offset cs m)"
proof (induction cs arbitrary: m)
  case (Cons c cs)
  have "offsets_ok (put_offset c m)"
    using Cons.prems unfolding offsets_ok_def put_offset_def by simp
  then show ?case by (simp add: Cons.IH)
qed simp

lemma offsets_ok_empty [simp]: "offsets_ok fmempty"
  by (simp add: offsets_ok_def)

lemma consumer_offsets_iff:
  assumes "offsets_ok m" "range_order (fmlookup m) oo"
  shows "c \<in> set (filter (\<lambda>c. co_ConsumerID c = g) (visit oo m)) \<longleftrightarrow>
    co_ConsumerID c = g \<and> fmlookup m (offset_key g (co_Topic c) (co_Partition c)) = Some c"
proof
  assume "c \<in> set (filter (\<lambda>c. co_ConsumerID c = g) (visit oo m))"
  then obtain k where "fmlookup m k = Some c" "co_ConsumerID c = g"
    by (auto simp: set_visit)
  with assms(1) show "co_ConsumerID c = g \<and> fmlookup m (offset_key g (co_Topic c) (co_Partition c)) = Some c"
    unfolding offsets_ok_def by blast
next
  assume c: "co_ConsumerID c = g \<and> fmlookup m (offset_key g (co_Topic c) (co_Partition c)) = Some c"
  then have "offset_key g (co_Topic c) (co_Partition c) \<in> set oo"
    using range_orderD(2) [OF assms(2)] by blast
  with c show "c \<in> set (filter (\<lambda>c. co_ConsumerID c = g) (visit oo m))"
    by (auto simp: set_visit)
qed

definition offset_of :: "(string, (i32, i64 \<times> string) fmap) fmap \<Rightarrow> string \<Rightarrow> i32 \<Rightarrow> (i64 \<times> string) option" where
  "offset_of m t p = (case fmlookup m t of None \<Rightarrow> None | Some inner \<Rightarrow> fmlookup inner p)"

lemma offset_of_fmempty: "offset_of fmempty t p = None"
  by (simp add: offset_of_def)

lemma offset_of_add_offset:
  "offset_of (add_offset c m) t p =
     (if co_Topic c = t \<and> co_Partition c = p then Some (co_Offset c, co_Metadata c) else offset_of m t p)"
  by (auto simp: offset_of_def add_offset_def Let_def split: option.split)

lemma offset_of_add_offsets:
  assumes "offset_of m t p = None"
  shows "offset_of (fold add_offset cs m) t p = None \<longleftrightarrow> (\<forall>c \<in> set cs. \<not> (co_Topic c = t \<and> co_Partition c = p))"
    and "offset_of (fold add_offset cs m) t p = Some v \<Longrightarrow>
      \<exists>c \<in> set cs. co_Topic c = t \<and> co_Partition c = p \<and> v = (co_Offset c, co_Metadata c)"
proof -
  have "offset_of (fold add_offset cs m) t p =
      (case find (\<lambda>c. co_Topic c = t \<and> co_Partition c = p) (rev cs) of
         Some c \<Rightarrow> Some (co_Offset c, co_Metadata c) | None \<Rightarrow> offset_of m t p)" for m
    by (induction cs arbitrary: m) (auto simp: offset_of_add_offset find_append_case split: option.split)
  then have *: "offset_of (fold add_offset cs m) t p =
      map_option (\<lambda>c. (co_Offset c, co_Metadata c)) (find (\<lambda>c. co_Topic c = t \<and> co_Partition c = p) (rev cs))"
    by (simp add: assms split: option.split)
  show "offset_of (fold add_offset cs m) t p = None \<longleftrightarrow> (\<forall>c \<in> set cs. \<not> (co_Topic c = t \<and> co_Partition c = p))"
    by (auto simp: * find_None_iff)
  show "offset_of (fold add_offset cs m) t p = Some v \<Longrightarrow>
      \<exists>c \<in> set cs. co_Topic c = t \<and> co_Partition c = p \<and> v = (co_Offset c, co_Metadata c)"
    unfolding * by (auto simp: find_Some_iff) (metis length_rev nth_mem set_rev)
qed

text \<open>What the fetch answers, in terms of the entries of the store.\<close>

lemma fetch_offsets_entries:
  assumes "offsets_ok (im_offsets (fs_storage s))" "range_order (fmlookup (im_offsets (fs_storage s))) oo"
  obtains m where "handleFetchOffsets (InMemoryStore_ops mo to oo co) g s = (200, OffsetsBody m)"
    and "\<And>t p. offset_of m t p =
      (case fmlookup (im_offsets (fs_storage s)) (offset_key g t p) of
         Some c \<Rightarrow> if at_offset g t p c then Some (co_Offset c, co_Metadata c) else None | None \<Rightarrow> None)"
proof
  let ?cs = "filter (\<lambda>c. co_ConsumerID c = g) (visit oo (im_offsets (fs_storage s)))"
  let ?m = "fold add_offset ?cs fmempty"
  show "handleFetchOffsets (InMemoryStore_ops mo to oo co) g s = (200, OffsetsBody ?m)"
    by (simp add: handleFetchOffsets_def InMemoryStore_ops_def im_GetConsumerOffsets_def)
  note iff = consumer_offsets_iff [OF assms, of _ g]
  fix t p
  show "offset_of ?m t p = (case fmlookup (im_offsets (fs_storage s)) (offset_key g t p) of
         Some c \<Rightarrow> if at_offset g t p c then Some (co_Offset c, co_Metadata c) else None | None \<Rightarrow> None)"
  proof (cases "offset_of ?m t p")
    case None
    then have "\<forall>c \<in> set ?cs. \<not> (co_Topic c = t \<and> co_Partition c = p)"
      using offset_of_add_offsets(1) [OF offset_of_fmempty] by blast
    then show ?thesis
      using None iff by (auto split: option.split)
  next
    case (Some v)
    then obtain c where c: "c \<in> set ?cs" "co_Topic c = t" "co_Partition c = p" "v = (co_Offset c, co_Metadata c)"
      using offset_of_add_offsets(2) [OF offset_of_fmempty] by blast
    from c(1) have "co_ConsumerID c = g" "fmlookup (im_offsets (fs_storage s)) (offset_key g t p) = Some c"
      unfolding iff using c(2,3) by auto
    with Some c show ?thesis by simp
  qed
qed

type_synonym commit_call = "(nat \<Rightarrow> instant) \<times> string \<times> CommitOffsetRequest list"

definition run_commits :: "'s MessageStore \<Rightarrow> commit_call list \<Rightarrow> 's FiberServer \<Rightarrow> 's FiberServer" where
  "run_commits ops cs s = fold (\<lambda>(clk, g, reqs) s. snd (handleCommitOffsets ops clk g (Inr reqs) s)) cs s"

text \<open>The last commit of a group for a partition.\<close>

fun committed :: "string \<Rightarrow> string \<Rightarrow> i32 \<Rightarrow> commit_call list \<Rightarrow> (i64 \<times> string) option" where
  "committed g t p [] = None"
| "committed g t p ((clk, g', reqs) # cs) =
     (case committed g t p cs of
        Some v \<Rightarrow> Some v
      | None \<Rightarrow> if g' = g
          then map_option (\<lambda>r. (cor_Offset r, cor_Metadata r)) (find (\<lambda>r. cor_Topic r = t \<and> cor_Partition r = p) (rev reqs))
          else None)"

definition offsets_of :: "(nat \<Rightarrow> instant) \<Rightarrow> string \<Rightarrow> CommitOffsetRequest list \<Rightarrow> ConsumerOffset list" where
  "offsets_of clk g reqs = map (\<lambda>(i, req). consumer_offset (clk i) g req) (zip [0..<length reqs] reqs)"

lemma offsets_of_Nil [simp]: "offsets_of clk g [] = []"
  by (simp add: offsets_of_def)

lemma offsets_of_snoc: "offsets_of clk g (reqs @ [r]) = offsets_of clk g reqs @ [consumer_offset (clk (length reqs)) g r]"
  by (simp add: offsets_of_def)

lemma offsets_of_consumer: "c \<in> set (offsets_of clk g reqs) \<Longrightarrow> co_ConsumerID c = g"
  by (auto simp: offsets_of_def consumer_offset_def)

lemma find_offsets_of:
  "map_option (\<lambda>c. (co_Offset c, co_Metadata c)) (find (at_offset g t p) (rev (offsets_of clk g' reqs))) =
     (if g' = g then map_option (\<lambda>r. (cor_Offset r, cor_Metadata r)) (find (\<lambda>r. cor_Topic r = t \<and> cor_Partition r = p) (rev reqs))
      else None)"
proof (induction reqs rule: rev_induct)
  case (snoc r reqs)
  have "at_offset g t p (consumer_offset now g' r) \<longleftrightarrow> g' = g \<and> cor_Topic r = t \<and> cor_Partition r = p" for now
    by (auto simp: consumer_offset_def)
  with snoc show ?case
    by (auto simp: offsets_of_snoc) (simp_all add: consumer_offset_def)
qed simp

lemma commit_offsets_store:
  "im_offsets (fs_storage (snd (handleCommitOffsets (InMemoryStore_ops mo to oo co) clk g (Inr reqs) s))) =
     fold put_offset (offsets_of clk g reqs) (im_offsets (fs_storage s))"
  by (simp add: handleCommitOffsets_def InMemoryStore_ops_def im_CommitOffsetBatch_def set_storage_def offsets_of_def)

definition all_offsets :: "commit_call list \<Rightarrow> ConsumerOffset list" where
  "all_offsets cs = concat (map (\<lambda>(clk, g, reqs). offsets_of clk g reqs) cs)"

lemma run_commits_store:
  "im_offsets (fs_storage (run_commits (InMemoryStore_ops mo to oo co) cs s)) =
     fold put_offset (all_offsets cs) (im_offsets (fs_storage s))"
  unfolding run_commits_def all_offsets_def
  by (induction cs arbitrary: s) (auto simp: commit_offsets_store)

lemma find_all_offsets:
  "map_option (\<lambda>c. (co_Offset c, co_Metadata c)) (find (at_offset g t p) (rev (all_offsets cs))) = committed g t p cs"
proof (induction cs)
  case (Cons c cs)
  obtain clk g' reqs where c: "c = (clk, g', reqs)" by (cases c)
  have "rev (all_offsets (c # cs)) = rev (all_offsets cs) @ rev (offsets_of clk g' reqs)"
    by (simp add: c all_offsets_def)
  with Cons find_offsets_of [of g t p clk g' reqs] show ?case
    by (auto simp: c find_append_case split: option.splits)
qed (simp add: all_offsets_def)

lemma all_offsets_plain: "\<forall>(clk, g, reqs) \<in> set cs. plain g \<Longrightarrow> c \<in> set (all_offsets cs) \<Longrightarrow> plain (co_ConsumerID c)"
  by (auto simp: all_offsets_def dest: offsets_of_consumer)

lemma offsets_ok_run: "offsets_ok (im_offsets (fs_storage (run_commits (InMemoryStore_ops mo to oo co) cs (NewFiberServer NewInMemoryStore))))"
  by (simp add: run_commits_store offsets_ok_put NewFiberServer_def NewInMemoryStore_def)


text \<open>The key of an offset joins the names of group and topic with an underscore. Two groups of which one
  has an underscore in its name may share a key, and a commit of one then removes the offset of the other.\<close>

theorem native_offsets_collide:
  assumes "s = run_commits (InMemoryStore_ops mo to oo co) (cs @ [(clk, g1 @ ''_'' @ g2, [r]), (clk', g1, [r'])]) (NewFiberServer NewInMemoryStore)"
    and "cor_Topic r' = g2 @ ''_'' @ cor_Topic r" "cor_Partition r' = cor_Partition r"
    and "range_order (fmlookup (im_offsets (fs_storage s))) oo'"
  shows "\<exists>m. handleFetchOffsets (InMemoryStore_ops mo to oo' co) (g1 @ ''_'' @ g2) s = (200, OffsetsBody m) \<and>
    offset_of m (cor_Topic r) (cor_Partition r) = None"
proof -
  let ?k = "offset_key (g1 @ ''_'' @ g2) (cor_Topic r) (cor_Partition r)"
  have ok: "offsets_ok (im_offsets (fs_storage s))" unfolding assms(1) by (rule offsets_ok_run)
  have "?k = offset_key g1 (cor_Topic r') (cor_Partition r')"
    by (simp add: offset_key_eq_iff assms(2,3))
  then have "fmlookup (im_offsets (fs_storage s)) ?k = Some (consumer_offset (clk' 0) g1 r')"
    by (simp add: assms(1) run_commits_store all_offsets_def offsets_of_def put_offset_def consumer_offset_def)
  moreover obtain m where "handleFetchOffsets (InMemoryStore_ops mo to oo' co) (g1 @ ''_'' @ g2) s = (200, OffsetsBody m)"
    and "\<And>t p. offset_of m t p =
      (case fmlookup (im_offsets (fs_storage s)) (offset_key (g1 @ ''_'' @ g2) t p) of
         Some c \<Rightarrow> if at_offset (g1 @ ''_'' @ g2) t p c then Some (co_Offset c, co_Metadata c) else None | None \<Rightarrow> None)"
    by (rule fetch_offsets_entries [OF ok assms(4), where mo = mo and to = to and co = co and g = "g1 @ ''_'' @ g2"]) (rule that)
  ultimately show ?thesis by (simp add: consumer_offset_def)
qed

lemma fmap_range_order: "\<exists>ks. range_order (fmlookup m) ks"
  by (rule range_order_exists) simp


theorem native_offsets_collide_witness:
  "\<exists>oo m. handleFetchOffsets (InMemoryStore_ops (\<lambda>_. []) [] oo []) ''a_b''
      (run_commits (InMemoryStore_ops (\<lambda>_. []) [] [] [])
        [(\<lambda>_. 0, ''a_b'', [\<lparr>cor_Topic = ''t'', cor_Partition = 0, cor_Offset = 5, cor_Metadata = []\<rparr>]),
         (\<lambda>_. 1, ''a'', [\<lparr>cor_Topic = ''b_t'', cor_Partition = 0, cor_Offset = 9, cor_Metadata = []\<rparr>])]
        (NewFiberServer NewInMemoryStore)) = (200, OffsetsBody m) \<and> offset_of m ''t'' 0 = None"
proof -
  let ?r = "\<lparr>cor_Topic = ''t'', cor_Partition = 0, cor_Offset = 5, cor_Metadata = []\<rparr>"
  let ?r' = "\<lparr>cor_Topic = ''b_t'', cor_Partition = 0, cor_Offset = 9, cor_Metadata = []\<rparr>"
  let ?s = "run_commits (InMemoryStore_ops (\<lambda>_. []) [] [] []) ([] @ [(\<lambda>_. 0, ''a'' @ ''_'' @ ''b'', [?r]), (\<lambda>_. 1, ''a'', [?r'])])
    (NewFiberServer NewInMemoryStore)"
  obtain oo where oo: "range_order (fmlookup (im_offsets (fs_storage ?s))) oo"
    using fmap_range_order by blast
  have "cor_Topic ?r' = ''b'' @ ''_'' @ cor_Topic ?r" "cor_Partition ?r' = cor_Partition ?r" by simp_all
  from native_offsets_collide [OF refl this oo] show ?thesis by auto
qed

section \<open>Joining at the same time\<close>

text \<open>
  Requests to join one group that are served at the same time. A request waits for the lock; while it holds
  it, its member is added; afterwards the answer is made from the group as it then is.
\<close>

datatype joiner = Waiting NativeGroupMember | Joined string | Answered JoinGroupResponse_api

inductive join_step :: "(nat \<Rightarrow> instant) \<Rightarrow> NativeConsumerGroup \<times> joiner list \<Rightarrow> NativeConsumerGroup \<times> joiner list \<Rightarrow> bool"
  for clk where
  lock: "i < length js \<Longrightarrow> js ! i = Waiting m \<Longrightarrow> join_step clk (g, js) (join_locked clk m g, js[i := Joined (gm_ID m)])"
| answer: "i < length js \<Longrightarrow> js ! i = Joined memberID \<Longrightarrow> join_step clk (g, js) (g, js[i := Answered (join_response memberID g)])"

definition waiting :: "joiner \<Rightarrow> bool" where
  "waiting j \<longleftrightarrow> (\<exists>m. j = Waiting m)"

definition leader_told :: "joiner \<Rightarrow> bool" where
  "leader_told j \<longleftrightarrow> (\<exists>r. j = Answered r \<and> jr_Leader r)"

lemma joiner_simps [simp]:
  "waiting (Waiting m)" "\<not> waiting (Joined x)" "\<not> waiting (Answered r)"
  "\<not> leader_told (Waiting m)" "\<not> leader_told (Joined x)" "leader_told (Answered r) \<longleftrightarrow> jr_Leader r"
  by (simp_all add: waiting_def leader_told_def)

definition join_inv :: "NativeConsumerGroup \<times> joiner list \<Rightarrow> bool" where
  "join_inv c \<longleftrightarrow>
     length (cg_Members (fst c)) = card {i. i < length (snd c) \<and> \<not> waiting (snd c ! i)} \<and>
     (\<forall>i j. i < length (snd c) \<longrightarrow> j < length (snd c) \<longrightarrow> leader_told (snd c ! i) \<longrightarrow> leader_told (snd c ! j) \<longrightarrow> i = j)"

lemma join_step_inv:
  assumes "join_step clk c c'" "join_inv c"
  shows "join_inv c'"
  using assms
proof (induction rule: join_step.induct)
  case (lock i js m g)
  have "{k. k < length (js[i := Joined (gm_ID m)]) \<and> \<not> waiting (js[i := Joined (gm_ID m)] ! k)} =
      insert i {k. k < length js \<and> \<not> waiting (js ! k)}"
    using lock by (auto simp: nth_list_update)
  moreover have "i \<notin> {k. k < length js \<and> \<not> waiting (js ! k)}"
    using lock by simp
  ultimately have "card {k. k < length (js[i := Joined (gm_ID m)]) \<and> \<not> waiting (js[i := Joined (gm_ID m)] ! k)} =
      Suc (card {k. k < length js \<and> \<not> waiting (js ! k)})"
    by simp
  moreover have "leader_told (js[i := Joined (gm_ID m)] ! k) \<Longrightarrow> leader_told (js ! k)" if "k < length js" for k
    using that by (cases "k = i") simp_all
  ultimately show ?case
    using lock(3) by (simp add: join_inv_def join_locked_def)
next
  case (answer i js memberID g)
  let ?r = "Answered (join_response memberID g)"
  have w: "{k. k < length (js[i := ?r]) \<and> \<not> waiting (js[i := ?r] ! k)} = {k. k < length js \<and> \<not> waiting (js ! k)}"
    using answer by (auto simp: nth_list_update)
  have "a = b" if ab: "a < length js" "b < length js" "leader_told (js[i := ?r] ! a)" "leader_told (js[i := ?r] ! b)" for a b
  proof (cases "jr_Leader (join_response memberID g)")
    case True
    then have "card {k. k < length js \<and> \<not> waiting (js ! k)} = 1"
      using answer(3) by (simp add: join_inv_def join_response_def)
    then obtain k where "{k. k < length js \<and> \<not> waiting (js ! k)} = {k}"
      by (auto simp: card_1_singleton_iff)
    moreover have "a \<in> {k. k < length (js[i := ?r]) \<and> \<not> waiting (js[i := ?r] ! k)}"
      "b \<in> {k. k < length (js[i := ?r]) \<and> \<not> waiting (js[i := ?r] ! k)}"
      using ab by (auto simp: leader_told_def)
    ultimately show ?thesis unfolding w by simp
  next
    case False
    with ab have "leader_told (js ! a)" "leader_told (js ! b)"
      by (cases "a = i"; cases "b = i"; simp)+
    with answer(3) ab(1,2) show ?thesis by (simp add: join_inv_def)
  qed
  with answer(3) w show ?case by (simp add: join_inv_def)
qed

lemma join_run_inv: "(join_step clk)\<^sup>*\<^sup>* c c' \<Longrightarrow> join_inv c \<Longrightarrow> join_inv c'"
  by (induction rule: rtranclp_induct) (auto intro: join_step_inv)

lemma lock_all:
  "(join_step clk)\<^sup>*\<^sup>* (g, js @ map Waiting ms) (fold (join_locked clk) ms g, js @ map (\<lambda>m. Joined (gm_ID m)) ms)"
proof (induction ms arbitrary: g js)
  case (Cons m ms)
  have "join_step clk (g, js @ map Waiting (m # ms)) (join_locked clk m g, (js @ map Waiting (m # ms))[length js := Joined (gm_ID m)])"
    by (rule join_step.lock) simp_all
  moreover have "(js @ map Waiting (m # ms))[length js := Joined (gm_ID m)] = (js @ [Joined (gm_ID m)]) @ map Waiting ms"
    by simp
  ultimately show ?case
    using Cons.IH [of "join_locked clk m g" "js @ [Joined (gm_ID m)]"] by (simp add: converse_rtranclp_into_rtranclp)
qed simp

lemma answer_all:
  "(join_step clk)\<^sup>*\<^sup>* (g, js @ map Joined xs) (g, js @ map (\<lambda>x. Answered (join_response x g)) xs)"
proof (induction xs arbitrary: js)
  case (Cons x xs)
  have "join_step clk (g, js @ map Joined (x # xs)) (g, (js @ map Joined (x # xs))[length js := Answered (join_response x g)])"
    by (rule join_step.answer) simp_all
  moreover have "(js @ map Joined (x # xs))[length js := Answered (join_response x g)] = (js @ [Answered (join_response x g)]) @ map Joined xs"
    by simp
  ultimately show ?case
    using Cons.IH [of "js @ [Answered (join_response x g)]"] by (simp add: converse_rtranclp_into_rtranclp)
qed simp

lemma length_fold_join: "length (cg_Members (fold (join_locked clk) ms g)) = length (cg_Members g) + length ms"
  by (induction ms arbitrary: g) (simp_all add: join_locked_def)

text \<open>The answer to a request to join is made after the lock has been released. Of any number of requests
  served at the same time, at most one is told that it is the leader; but if there are at least two, it may
  happen that all of them are answered and none is told so.\<close>

theorem native_join_leader:
  assumes "cg_Members g = []"
  shows "((join_step clk)\<^sup>*\<^sup>* (g, map Waiting ms) (g', js) \<longrightarrow> card {i. i < length js \<and> leader_told (js ! i)} \<le> 1) \<and>
    (2 \<le> length ms \<longrightarrow> (\<exists>g' rs. (join_step clk)\<^sup>*\<^sup>* (g, map Waiting ms) (g', map Answered rs) \<and> list_all (\<lambda>r. \<not> jr_Leader r) rs))"
proof (intro conjI impI)
  assume "(join_step clk)\<^sup>*\<^sup>* (g, map Waiting ms) (g', js)"
  moreover have "join_inv (g, map Waiting ms)"
    using assms by (auto simp: join_inv_def)
  ultimately have inv: "join_inv (g', js)"
    by (rule join_run_inv)
  show "card {i. i < length js \<and> leader_told (js ! i)} \<le> 1"
    by (rule card_le_Suc0_iff_eq [THEN iffD2, unfolded One_nat_def [symmetric]]) (use inv in \<open>auto simp: join_inv_def\<close>)
next
  assume two: "2 \<le> length ms"
  let ?g = "fold (join_locked clk) ms g"
  have "(join_step clk)\<^sup>*\<^sup>* (g, map Waiting ms) (?g, map Answered (map (\<lambda>m. join_response (gm_ID m) ?g) ms))"
    using rtranclp_trans [OF lock_all [of clk g "[]" ms] answer_all [of clk ?g "[]" "map gm_ID ms", simplified o_def map_map]]
    by (simp add: o_def)
  moreover have "list_all (\<lambda>r. \<not> jr_Leader r) (map (\<lambda>m. join_response (gm_ID m) ?g) ms)"
    using two length_fold_join [of clk ms g] assms by (simp add: join_response_def list_all_iff)
  ultimately show "\<exists>g' rs. (join_step clk)\<^sup>*\<^sup>* (g, map Waiting ms) (g', map Answered rs) \<and> list_all (\<lambda>r. \<not> jr_Leader r) rs"
    by blast
qed

definition demo_group :: NativeConsumerGroup where
  "demo_group = \<lparr>cg_ID = ''g'', cg_Name = ''g'', cg_State = ''Empty'', cg_Protocol = ''range'', cg_ProtocolType = ''consumer'',
     cg_Leader = [], cg_Generation = 0, cg_Members = [], cg_Subscriptions = [''t''], cg_CreatedAt = 0, cg_UpdatedAt = 0\<rparr>"

definition demo_member :: "string \<Rightarrow> NativeGroupMember" where
  "demo_member x = \<lparr>gm_ID = x, gm_ClientID = x, gm_ClientHost = [], gm_SessionTimeout = 10000, gm_JoinedAt = 0, gm_LastHeartbeat = 0\<rparr>"

theorem native_join_leader_witness:
  "\<exists>g rs. (join_step (\<lambda>_. 0))\<^sup>*\<^sup>* (demo_group, map Waiting [demo_member ''a'', demo_member ''b'']) (g, map Answered rs) \<and>
     list_all (\<lambda>r. \<not> jr_Leader r) rs"
  using native_join_leader [of demo_group "\<lambda>_. 0" "[demo_member ''a'', demo_member ''b'']"] by (simp add: demo_group_def)

section \<open>Lag\<close>

lemma topic_ids_iff: "i |\<in>| topic_ids t m \<longleftrightarrow> map_option m_Topic (fmlookup m i) = Some t"
  by (auto simp: topic_ids_def fmdomI)

lemma topic_ids_drop: "topic_ids t (fold fmdrop ds m) = topic_ids t m |-| fset_of_list ds"
proof (induction ds arbitrary: m)
  case (Cons d ds)
  have "topic_ids t (fmdrop d m) = topic_ids t m |-| {|d|}"
    by (rule fset_eqI) (simp add: topic_ids_iff)
  then show ?case by (simp add: Cons.IH) auto
qed simp

lemma topic_ids_put:
  "\<forall>m \<in> set ms. m_Topic m = t \<Longrightarrow> topic_ids t (fold (\<lambda>m. fmupd (m_ID m) m) ms c) = topic_ids t c |\<union>| fset_of_list (map m_ID ms)"
proof (induction ms arbitrary: c)
  case (Cons m ms)
  have "topic_ids t (fmupd (m_ID m) m c) = finsert (m_ID m) (topic_ids t c)"
    using Cons.prems by (intro fset_eqI) (simp add: topic_ids_iff)
  then show ?case using Cons by simp
qed simp

lemma im_offsets_run: "im_offsets (fold (run_op (InMemoryStore_ops mo to oo co)) xs s) = im_offsets s"
proof (induction xs arbitrary: s)
  case (Cons x xs)
  have "im_offsets (run_op (InMemoryStore_ops mo to oo co) x s) = im_offsets s"
    by (cases x) (simp_all add: InMemoryStore_ops_def im_Store_def im_StoreBatch_def im_Delete_def im_DeleteBatch_def)
  then show ?case by (simp add: Cons.IH)
qed simp

lemma range_order_single:
  assumes "range_order (fmlookup (fmupd k v fmempty)) ks"
  shows "ks = [k]"
proof -
  have "set ks = {k}" "distinct ks"
    using assms by (auto simp: range_order_def split: if_splits)
  then have "length ks = 1" by (metis One_nat_def card.empty card.insert distinct_card empty_iff finite.emptyI)
  then show ?thesis using \<open>set ks = {k}\<close> by (cases ks) auto
qed

lemma partitions_upto_1 [simp]: "partitions_upto 1 = [0]"
  by (simp add: partitions_upto_def)

lemma sint_diff_of_nat: "a < 2 ^ 63 \<Longrightarrow> b < 2 ^ 63 \<Longrightarrow> sint (of_nat a - of_nat b :: i64) = int a - int b"
proof -
  assume "a < 2 ^ 63" "b < 2 ^ 63"
  then have "signed_take_bit 63 (int a - int b) = int a - int b"
    by (intro signed_take_bit_int_eq_self) simp_all
  moreover have "(of_nat a - of_nat b :: i64) = of_int (int a - int b)" by simp
  ultimately show ?thesis by (simp only: signed_of_int) simp
qed

lemma reset_latest:
  assumes "im_offsets (fs_storage s) = fmempty"
  shows "\<exists>v. snd (handleResetOffsets (InMemoryStore_ops mo to oo co) clk torder g (Inr \<lparr>ror_Topics = [t], ror_Position = ''latest''\<rparr>) s) =
      set_storage ((fs_storage s)\<lparr>im_offsets := fmupd (offset_key g t 0) v fmempty\<rparr>) s \<and>
    at_offset g t 0 v \<and> co_Offset v = of_nat (fcard (topic_ids t (im_messages (fs_storage s))))"
proof -
  let ?v = "\<lparr>co_ConsumerID = g, co_Topic = t, co_Partition = 0, co_Offset = of_nat (fcard (topic_ids t (im_messages (fs_storage s)))),
    co_Timestamp = of_int (clk 0), co_Metadata = ''reset to latest''\<rparr>"
  have "snd (handleResetOffsets (InMemoryStore_ops mo to oo co) clk torder g (Inr \<lparr>ror_Topics = [t], ror_Position = ''latest''\<rparr>) s) =
      set_storage ((fs_storage s)\<lparr>im_offsets := fmupd (offset_key g t 0) ?v fmempty\<rparr>) s"
    using assms by (simp add: handleResetOffsets_def reset_topics_def reset_topic_def InMemoryStore_ops_def im_GetPartitionCount_def
        reset_partition_def im_GetLatestOffset_def im_CommitOffset_def put_offset_def)
  then show ?thesis by (intro exI [of _ ?v]) simp
qed

lemma topic_count:
  assumes "distinct ds" "fset_of_list ds |\<subseteq>| topic_ids t M" "distinct (map m_ID ms)"
    and "\<And>m. m \<in> set ms \<Longrightarrow> m_Topic m = t" "\<And>m. m \<in> set ms \<Longrightarrow> fmlookup M (m_ID m) = None"
  shows "fcard (topic_ids t (fold (\<lambda>m. fmupd (m_ID m) m) ms (fold fmdrop ds M))) = fcard (topic_ids t M) - length ds + length ms"
    and "length ds \<le> fcard (topic_ids t M)"
proof -
  have len: "fcard (fset_of_list xs) = length xs" if "distinct xs" for xs :: "string list"
    using that by (simp add: fcard.rep_eq fset_of_list.rep_eq distinct_card)
  have "(topic_ids t M |-| fset_of_list ds) |\<inter>| fset_of_list (map m_ID ms) = {||}"
    using assms(5) by (auto simp: topic_ids_iff fset_of_list_elem)
  then show "fcard (topic_ids t (fold (\<lambda>m. fmupd (m_ID m) m) ms (fold fmdrop ds M))) = fcard (topic_ids t M) - length ds + length ms"
    using assms(4) fcard_funion_fsubset [OF assms(2)] len [OF assms(1)] len [OF assms(3)]
    by (subst topic_ids_put) (blast, simp only: topic_ids_drop fcard_funion_disjoint length_map)
  show "length ds \<le> fcard (topic_ids t M)"
    using fcard_mono [OF assms(2)] len [OF assms(1)] by simp
qed

text \<open>C28. The lag of a group after a reset to the latest offset, deletions of messages the group has read and the
  arrival of new ones. It is the number of new messages only if nothing is deleted: every deletion hides a new
  message, because the latest offset is the number of messages that are there.\<close>

theorem native_lag:
  assumes "fs_storage s = fold (run_op (InMemoryStore_ops mo to oo co)) xs NewInMemoryStore"
    and "s1 = snd (handleResetOffsets (InMemoryStore_ops mo to oo co) clk torder g (Inr \<lparr>ror_Topics = [t], ror_Position = ''latest''\<rparr>) s)"
    and "s2 = set_storage (fold (run_op (InMemoryStore_ops mo to oo co)) [DelMessages ds, PutMessages ms] (fs_storage s1)) s1"
    and "distinct ds" "fset_of_list ds |\<subseteq>| topic_ids t (im_messages (fs_storage s))"
    and "distinct (map m_ID ms)" "list_all (\<lambda>m. m_Topic m = t \<and> im_FetchByID (m_ID m) (fs_storage s) = Inl (Foreign (''message not found: '' @ m_ID m))) ms"
    and "fcard (topic_ids t (im_messages (fs_storage s))) + length ms < 2 ^ 63"
    and "range_order (fmlookup (im_offsets (fs_storage s2))) oo'"
  shows "\<exists>l. handleGetGroupLag (InMemoryStore_ops mo to oo' co) g s2 = (200, LagBody g (of_nat (length ms - length ds)) [l]) \<and>
    gl_Topic l = t \<and> gl_Partition l = 0 \<and> gl_Lag l = of_nat (length ms - length ds)"
proof -
  let ?M = "im_messages (fs_storage s)" and ?k = "offset_key g t 0"
  let ?n = "fcard (topic_ids t ?M)"
  have "im_offsets (fs_storage s) = fmempty"
    by (simp add: assms(1) im_offsets_run NewInMemoryStore_def)
  from reset_latest [OF this, of mo to oo co clk torder g t] obtain v where
    v: "s1 = set_storage ((fs_storage s)\<lparr>im_offsets := fmupd ?k v fmempty\<rparr>) s" "at_offset g t 0 v" "co_Offset v = of_nat ?n"
    unfolding assms(2) by blast
  have off: "im_offsets (fs_storage s2) = fmupd ?k v fmempty"
    by (simp add: assms(3) v(1) set_storage_def InMemoryStore_ops_def im_DeleteBatch_def im_StoreBatch_def)
  have msg: "im_messages (fs_storage s2) = fold (\<lambda>m. fmupd (m_ID m) m) ms (fold fmdrop ds ?M)"
    by (simp add: assms(3) v(1) set_storage_def InMemoryStore_ops_def im_DeleteBatch_def im_StoreBatch_def NewMessageBatch_def)
  have new: "m_Topic m = t" "fmlookup ?M (m_ID m) = None" if "m \<in> set ms" for m
    using assms(7) that by (auto simp: list_all_iff im_FetchByID_def split: option.splits)
  note count = topic_count [OF assms(4,5,6) new, folded msg]
  have "oo' = [?k]"
    using assms(9) unfolding off by (rule range_order_single)
  moreover have "sint (of_nat (?n - length ds + length ms) - of_nat ?n :: i64) = int (length ms) - int (length ds)"
    using assms(8) count(2) by (subst sint_diff_of_nat) simp_all
  moreover have "(of_nat (?n - length ds + length ms) - of_nat ?n :: i64) = of_nat (length ms - length ds)" if "length ds \<le> length ms"
    using that count(2) by (simp add: of_nat_diff)
  ultimately show ?thesis
    using v(2,3) count
    by (simp add: handleGetGroupLag_def InMemoryStore_ops_def im_GetConsumerOffsets_def off im_GetLatestOffset_def Let_def)
qed

theorem native_lag_witness:
  "\<exists>s s1 s2 oo l. s = NewFiberServer (snd (im_Store (zero_message\<lparr>m_ID := ''a'', m_Topic := ''t''\<rparr>) NewInMemoryStore)) \<and>
     s1 = snd (handleResetOffsets (InMemoryStore_ops (\<lambda>_. []) [] [] []) (\<lambda>_. 0) [] ''g''
       (Inr \<lparr>ror_Topics = [''t''], ror_Position = ''latest''\<rparr>) s) \<and>
     s2 = set_storage (fold (run_op (InMemoryStore_ops (\<lambda>_. []) [] [] []))
       [DelMessages [''a''], PutMessages [zero_message\<lparr>m_ID := ''c'', m_Topic := ''t''\<rparr>]] (fs_storage s1)) s1 \<and>
     handleGetGroupLag (InMemoryStore_ops (\<lambda>_. []) [] oo []) ''g'' s2 = (200, LagBody ''g'' 0 [l])"
proof -
  let ?a = "zero_message\<lparr>m_ID := ''a'', m_Topic := ''t''\<rparr>" and ?c = "zero_message\<lparr>m_ID := ''c'', m_Topic := ''t''\<rparr>"
  let ?O = "InMemoryStore_ops (\<lambda>_. []) [] [] []"
  let ?s = "NewFiberServer (snd (im_Store ?a NewInMemoryStore))"
  let ?s1 = "snd (handleResetOffsets ?O (\<lambda>_. 0) [] ''g'' (Inr \<lparr>ror_Topics = [''t''], ror_Position = ''latest''\<rparr>) ?s)"
  let ?s2 = "set_storage (fold (run_op ?O) [DelMessages [''a''], PutMessages [?c]] (fs_storage ?s1)) ?s1"
  have 1: "fs_storage ?s = fold (run_op ?O) [PutMessage ?a] NewInMemoryStore"
    by (simp add: InMemoryStore_ops_def NewFiberServer_def)
  have m: "im_messages (fs_storage ?s) = fmupd ''a'' ?a fmempty"
    by (simp add: NewFiberServer_def im_Store_def NewInMemoryStore_def)
  then have ids: "topic_ids ''t'' (im_messages (fs_storage ?s)) = {|''a''|}"
    by (intro fset_eqI) (auto simp: topic_ids_iff)
  obtain oo where 9: "range_order (fmlookup (im_offsets (fs_storage ?s2))) oo"
    using fmap_range_order by blast
  have "\<exists>l. handleGetGroupLag (InMemoryStore_ops (\<lambda>_. []) [] oo []) ''g'' ?s2 =
      (200, LagBody ''g'' (of_nat (length [?c] - length [''a''])) [l]) \<and> gl_Topic l = ''t'' \<and> gl_Partition l = 0 \<and>
      gl_Lag l = of_nat (length [?c] - length [''a''])"
    by (rule native_lag [OF 1 refl refl _ _ _ _ _ 9]) (simp_all add: ids [unfolded m] im_FetchByID_def m fcard_finsert_if fcard_fempty)
  then obtain l where "handleGetGroupLag (InMemoryStore_ops (\<lambda>_. []) [] oo []) ''g'' ?s2 = (200, LagBody ''g'' 0 [l])"
    by auto
  then show ?thesis by blast
qed

section \<open>Configurations of topics\<close>

lemma parse_uint_snoc:
  "parse_uint (s @ [c]) n = (case parse_uint s n of Some (Some m) \<Rightarrow> parse_uint [c] m | r \<Rightarrow> r)"
  by (induction s n rule: parse_uint.induct) (auto split: option.split)

lemma parse_uint_dec: "n < 2 ^ 64 \<Longrightarrow> parse_uint (dec n) 0 = Some (Some n)"
proof (induction n rule: dec.induct)
  case (1 n)
  show ?case
  proof (cases "n < 10")
    case True
    then show ?thesis by (subst dec.simps) (simp add: of_char_digit)
  next
    case False
    have "parse_uint (dec (n div 10)) 0 = Some (Some (n div 10))"
      using 1 False by simp
    then show ?thesis
      using False 1(2) by (subst dec.simps) (simp add: parse_uint_snoc of_char_digit)
  qed
qed

lemma plus_notin_dec: "CHR ''+'' \<notin> set (dec n)"
  using dec_chars [of "CHR ''+''" n] by auto

lemma hd_dec: "hd (dec n) \<noteq> CHR ''-''" "hd (dec n) \<noteq> CHR ''+''"
  using minus_notin_dec [of n] plus_notin_dec [of n] by (metis dec_not_Nil hd_in_set)+

lemma ParseInt_dec_int: "- (2 ^ 63) \<le> i \<Longrightarrow> i < 2 ^ 63 \<Longrightarrow> ParseInt (dec_int i) = i"
proof -
  assume i: "- (2 ^ 63) \<le> i" "i < 2 ^ 63"
  show ?thesis
  proof (cases "i < 0")
    case True
    moreover have "parse_uint (dec (nat (- i))) 0 = Some (Some (nat (- i)))"
      by (rule parse_uint_dec) (use i in simp)
    moreover have "\<not> nat (- i) > 2 ^ 63" using i(1) by simp
    ultimately show ?thesis by (simp add: ParseInt_def dec_int_def)
  next
    case False
    moreover have "parse_uint (dec (nat i)) 0 = Some (Some (nat i))"
      by (rule parse_uint_dec) (use i in simp)
    moreover have "\<not> nat i \<ge> 2 ^ 63" using i(2) by simp
    ultimately show ?thesis by (simp add: ParseInt_def dec_int_def hd_dec)
  qed
qed

lemma ParseInt_sint: "ParseInt (dec_int (sint (x :: i64))) = sint x"
  using sint_ge [of x] sint_lt [of x] by (intro ParseInt_dec_int) simp_all

lemma config_value_put:
  "config_value (Some (put_config c m)) ''retention_ms'' = dec_int (sint (tc_RetentionMs c))"
  "config_value (Some (put_config c m)) ''compression_type'' = tc_CompressionType c"
  "config_value (Some (put_config c m)) ''max_message_bytes'' = dec_int (sint (tc_MaxMessageBytes c))"
  "config_value (Some (put_config c m)) ''min_insync_replicas'' = dec_int (sint (tc_MinInSyncReplicas c))"
  by (simp_all add: config_value_def put_config_def update_conv')

lemma sint_ucast32:
  assumes "- (2 ^ 31) \<le> sint (x :: i64)" "sint x < 2 ^ 31"
  shows "sint (ucast x :: i32) = sint x"
proof -
  have "(ucast x :: i32) = of_int (sint x)"
    by (rule bit_word_eqI) (simp add: bit_simps min_def)
  then have "sint (ucast x :: i32) = signed_take_bit 31 (sint x)"
    by (simp add: signed_scast_eq)
  also have "\<dots> = sint x"
    using assms by (intro signed_take_bit_int_eq_self) simp_all
  finally show ?thesis .
qed

lemma scast_ucast32:
  assumes "- (2 ^ 31) \<le> sint (x :: i64)" "sint x < 2 ^ 31"
  shows "scast (ucast x :: i32) = x"
proof -
  have "sint (scast (ucast x :: i32) :: i64) = signed_take_bit 63 (sint x)"
    by (simp add: signed_scast_eq sint_ucast32 [OF assms])
  moreover have "signed_take_bit 63 (sint x) = sint x"
    using assms by (intro signed_take_bit_int_eq_self) simp_all
  ultimately show ?thesis
    by (simp only: word_sint_eq [symmetric])
qed

text \<open>A topic written to the storage and read back has the same name, configuration and time of creation,
  through the decimal texts of its numbers; the partitions are cut to 32 bits and the replication factor to 16,
  and the counts are not kept.\<close>

theorem topic_roundtrip:
  assumes "- (2 ^ 63) \<le> tp_CreatedAt t" "tp_CreatedAt t < 2 ^ 63"
  shows "fromTopicInfo (toTopicInfo t) =
      t\<lparr>tp_Partitions := scast (ucast (tp_Partitions t) :: i32), tp_ReplicationFactor := scast (ucast (tp_ReplicationFactor t) :: i16),
        tp_UpdatedAt := tp_CreatedAt t, tp_MessageCount := 0, tp_TotalBytes := 0\<rparr> \<and>
    (- (2 ^ 31) \<le> sint (tp_Partitions t) \<and> sint (tp_Partitions t) < 2 ^ 31 \<longrightarrow>
      tp_Partitions (fromTopicInfo (toTopicInfo t)) = tp_Partitions t)"
proof -
  have "sint (of_int (tp_CreatedAt t) :: i64) = tp_CreatedAt t"
    using assms by (simp add: signed_of_int signed_take_bit_int_eq_self)
  then show ?thesis
    by (simp add: fromTopicInfo_def toTopicInfo_def config_value_put ParseInt_sint scast_ucast32)
qed

definition demo_topic :: Topic where
  "demo_topic = \<lparr>tp_Name = ''t'', tp_Partitions = 3, tp_ReplicationFactor = 1, tp_Config = default_config, tp_CreatedAt = 7,
     tp_UpdatedAt = 8, tp_MessageCount = 5, tp_TotalBytes = 6\<rparr>"

theorem topic_roundtrip_witness:
  "fromTopicInfo (toTopicInfo demo_topic) = demo_topic\<lparr>tp_UpdatedAt := 7, tp_MessageCount := 0, tp_TotalBytes := 0\<rparr> \<and>
   tp_Partitions (fromTopicInfo (toTopicInfo demo_topic)) = 3"
  using topic_roundtrip [of demo_topic] by (simp add: demo_topic_def)

section \<open>What the handlers tell about a topic\<close>

lemma im_topics_run: "im_topics (fold (run_op (InMemoryStore_ops mo to oo co)) xs s) = im_topics s"
proof (induction xs arbitrary: s)
  case (Cons x xs)
  have "im_topics (run_op (InMemoryStore_ops mo to oo co) x s) = im_topics s"
    by (cases x) (simp_all add: InMemoryStore_ops_def im_Store_def im_StoreBatch_def im_Delete_def im_DeleteBatch_def)
  then show ?case by (simp add: Cons.IH)
qed simp

lemma fmdrop_single: "fmdrop k (fmupd k v fmempty) = fmempty"
  by (rule fmap_ext) simp

lemma partition_count_im: "partition_count (InMemoryStore_ops mo to oo co) t st part = of_nat (fcard (topic_ids t (im_messages st)))"
  by (simp add: partition_count_def InMemoryStore_ops_def im_GetLatestOffset_def im_GetEarliestOffset_def offset_or_zero_def)

lemma counts_im:
  "tp_MessageCount (with_counts (InMemoryStore_ops mo to oo co) info st) =
     of_nat (nat (sint (ti_Partitions info)) * fcard (topic_ids (ti_Name info) (im_messages st)))"
proof -
  have "map (partition_count (InMemoryStore_ops mo to oo co) (ti_Name info) st) (partitions_upto (ti_Partitions info)) =
      replicate (nat (sint (ti_Partitions info))) (of_nat (fcard (topic_ids (ti_Name info) (im_messages st))))"
    by (simp add: partition_count_im partitions_upto_def o_def map_replicate_const)
  then show ?thesis
    by (simp add: with_counts_def Let_def sum_list_replicate)
qed

text \<open>A topic created over HTTP: the storage has it alone, and it is in the cache without messages.\<close>

lemma create_topic_im:
  assumes "ctr_Name req \<noteq> []" "raw \<noteq> []"
  obtains tp where "handleCreateTopic (InMemoryStore_ops mo to oo co) clk raw (Inr req) (NewFiberServer NewInMemoryStore) =
      Some ((201, TopicBody tp), \<lparr>fs_storage = NewInMemoryStore\<lparr>im_topics := fmupd (ctr_Name req) (toTopicInfo tp) fmempty\<rparr>,
        fs_topics = fmupd (ctr_Name req) tp fmempty, fs_consumerGroups = fmempty\<rparr>)"
    and "tp_Name tp = ctr_Name req" "tp_MessageCount tp = 0"
    and "tp_Partitions tp = (if ctr_Partitions req = 0 then 1 else ctr_Partitions req)"
proof
  let ?tp = "\<lparr>tp_Name = ctr_Name req, tp_Partitions = (if ctr_Partitions req = 0 then 1 else ctr_Partitions req),
    tp_ReplicationFactor = (if ctr_ReplicationFactor req = 0 then 1 else ctr_ReplicationFactor req),
    tp_Config = (case ctr_Config req of None \<Rightarrow> default_config | Some c \<Rightarrow> c),
    tp_CreatedAt = rfc3339 (clk 0), tp_UpdatedAt = rfc3339 (clk 1), tp_MessageCount = 0, tp_TotalBytes = 0\<rparr>"
  show "handleCreateTopic (InMemoryStore_ops mo to oo co) clk raw (Inr req) (NewFiberServer NewInMemoryStore) =
      Some ((201, TopicBody ?tp), \<lparr>fs_storage = NewInMemoryStore\<lparr>im_topics := fmupd (ctr_Name req) (toTopicInfo ?tp) fmempty\<rparr>,
        fs_topics = fmupd (ctr_Name req) ?tp fmempty, fs_consumerGroups = fmempty\<rparr>)"
    using assms by (simp add: handleCreateTopic_def InMemoryStore_ops_def im_CreateTopic_def NewFiberServer_def NewInMemoryStore_def
        toTopicInfo_def set_storage_def cache_topic_def Let_def split del: if_split)
qed simp_all

text \<open>Purging a topic says that all messages are gone and removes none. What is told about the topic
  afterwards depends on who is asked: the lookup answers from the cache that there are no messages, the
  statistics give their number, and the listing counts them once for every partition.\<close>

theorem topic_counts_disagree:
  assumes "ctr_Name req \<noteq> []" "raw \<noteq> []" "0 < sint (ctr_Partitions req)" "sint (ctr_Partitions req) < 2 ^ 31"
    and "handleCreateTopic (InMemoryStore_ops mo to oo co) clk raw (Inr req) (NewFiberServer NewInMemoryStore) = Some (r, s1)"
    and "s2 = set_storage (fold (run_op (InMemoryStore_ops mo to oo co)) xs (fs_storage s1)) s1"
    and "n = fcard (topic_ids (ctr_Name req) (im_messages (fs_storage s2)))"
  shows "\<exists>s3 tp st tp'.
    handlePurgeTopic (InMemoryStore_ops mo to oo co) (ctr_Name req) s2 =
      Some ((200, MessageBody (''All messages purged from topic '' @ CHR 0x27 # ctr_Name req @ [CHR 0x27])), s3) \<and>
    im_messages (fs_storage s3) = im_messages (fs_storage s2) \<and>
    handleGetTopic (InMemoryStore_ops mo to oo co) (ctr_Name req) s3 = Some ((200, TopicBody tp), s3) \<and> tp_MessageCount tp = 0 \<and>
    handleGetTopicStats (InMemoryStore_ops mo to oo co) (ctr_Name req) s3 = Some (200, StatsBody st) \<and> ts_MessageCount st = of_nat n \<and>
    fst (handleListTopics (InMemoryStore_ops mo [ctr_Name req] oo co) s3) = (200, TopicsBody [tp'] 1) \<and>
    tp_MessageCount tp' = of_nat (nat (sint (ctr_Partitions req)) * n)"
proof -
  let ?O = "InMemoryStore_ops mo to oo co" and ?t = "ctr_Name req"
  obtain tp where tp: "handleCreateTopic ?O clk raw (Inr req) (NewFiberServer NewInMemoryStore) =
      Some ((201, TopicBody tp), \<lparr>fs_storage = NewInMemoryStore\<lparr>im_topics := fmupd ?t (toTopicInfo tp) fmempty\<rparr>,
        fs_topics = fmupd ?t tp fmempty, fs_consumerGroups = fmempty\<rparr>)"
    "tp_Name tp = ?t" "tp_MessageCount tp = 0" "tp_Partitions tp = (if ctr_Partitions req = 0 then 1 else ctr_Partitions req)"
    by (rule create_topic_im [OF assms(1,2)])
  let ?i = "toTopicInfo tp"
  have s2: "im_topics (fs_storage s2) = fmupd ?t ?i fmempty" "fs_topics s2 = fmupd ?t tp fmempty"
    using assms(5) tp(1) by (auto simp: assms(6) set_storage_def im_topics_run)
  have i: "ti_Name ?i = ?t" "sint (ti_Partitions ?i) = sint (ctr_Partitions req)"
    using assms(3,4) tp(2,4) by (auto simp: toTopicInfo_def sint_ucast32)
  let ?s3 = "set_storage ((fs_storage s2)\<lparr>im_topics := fmupd ?t ?i fmempty\<rparr>) s2"
  have "handlePurgeTopic ?O ?t s2 = Some ((200, MessageBody (''All messages purged from topic '' @ CHR 0x27 # ?t @ [CHR 0x27])), ?s3)"
    using i(1) by (simp add: handlePurgeTopic_def InMemoryStore_ops_def im_GetTopicInfo_def im_DeleteTopic_def im_CreateTopic_def s2(1)
        fmdrop_single)
  moreover have "handleGetTopic ?O ?t ?s3 = Some ((200, TopicBody tp), ?s3)"
    using assms(1) by (simp add: handleGetTopic_def s2(2) set_storage_def)
  moreover have "\<exists>st. handleGetTopicStats ?O ?t ?s3 = Some (200, StatsBody st) \<and> ts_MessageCount st = of_nat n"
    using assms(3) i(2) by (simp add: handleGetTopicStats_def InMemoryStore_ops_def im_GetTopicInfo_def im_GetEarliestOffset_def
        im_GetLatestOffset_def offset_or_zero_def Let_def assms(7) set_storage_def)
  moreover have "fst (handleListTopics (InMemoryStore_ops mo [?t] oo co) ?s3) =
      (200, TopicsBody [with_counts (InMemoryStore_ops mo [?t] oo co) ?i (fs_storage ?s3)] 1)"
    by (simp add: handleListTopics_def) (simp add: InMemoryStore_ops_def im_ListTopics_def set_storage_def)
  moreover have "tp_MessageCount (with_counts (InMemoryStore_ops mo [?t] oo co) ?i (fs_storage ?s3)) =
      of_nat (nat (sint (ctr_Partitions req)) * n)"
    by (simp add: counts_im i assms(7) set_storage_def)
  moreover have "im_messages (fs_storage ?s3) = im_messages (fs_storage s2)"
    by (simp add: set_storage_def)
  ultimately show ?thesis using tp(3) by blast
qed

theorem topic_counts_disagree_witness:
  "\<exists>s1 s3 tp st tp'. fst (the (handleCreateTopic (InMemoryStore_ops (\<lambda>_. []) [] [] []) (\<lambda>_. 0) [123, 125]
      (Inr \<lparr>ctr_Name = ''t'', ctr_Partitions = 3, ctr_ReplicationFactor = 1, ctr_Config = None\<rparr>) (NewFiberServer NewInMemoryStore))) =
      (201, TopicBody s1) \<and>
    handleGetTopic (InMemoryStore_ops (\<lambda>_. []) [] [] []) ''t'' s3 = Some ((200, TopicBody tp), s3) \<and> tp_MessageCount tp = 0 \<and>
    handleGetTopicStats (InMemoryStore_ops (\<lambda>_. []) [] [] []) ''t'' s3 = Some (200, StatsBody st) \<and> ts_MessageCount st = 1 \<and>
    fst (handleListTopics (InMemoryStore_ops (\<lambda>_. []) [''t''] [] []) s3) = (200, TopicsBody [tp'] 1) \<and> tp_MessageCount tp' = 3"
proof -
  let ?O = "InMemoryStore_ops (\<lambda>_. []) [] [] []"
  let ?req = "\<lparr>ctr_Name = ''t'', ctr_Partitions = 3, ctr_ReplicationFactor = 1, ctr_Config = None\<rparr>"
  let ?m = "zero_message\<lparr>m_ID := ''a'', m_Topic := ''t''\<rparr>"
  have req: "ctr_Name ?req \<noteq> []" "[123, 125 :: byte] \<noteq> []" "0 < sint (ctr_Partitions ?req)" "sint (ctr_Partitions ?req) < 2 ^ 31"
    by simp_all
  obtain tp0 where tp0: "handleCreateTopic ?O (\<lambda>_. 0) [123, 125] (Inr ?req) (NewFiberServer NewInMemoryStore) =
      Some ((201, TopicBody tp0), \<lparr>fs_storage = NewInMemoryStore\<lparr>im_topics := fmupd (ctr_Name ?req) (toTopicInfo tp0) fmempty\<rparr>,
        fs_topics = fmupd (ctr_Name ?req) tp0 fmempty, fs_consumerGroups = fmempty\<rparr>)"
    by (rule create_topic_im [OF req(1,2)])
  let ?s1 = "\<lparr>fs_storage = NewInMemoryStore\<lparr>im_topics := fmupd (ctr_Name ?req) (toTopicInfo tp0) fmempty\<rparr>,
        fs_topics = fmupd (ctr_Name ?req) tp0 fmempty, fs_consumerGroups = fmempty\<rparr>"
  let ?s2 = "set_storage (fold (run_op ?O) [PutMessage ?m] (fs_storage ?s1)) ?s1"
  have "topic_ids ''t'' (fmupd ''a'' ?m fmempty) = {|''a''|}"
    by (intro fset_eqI) (auto simp: topic_ids_iff)
  then have "1 = fcard (topic_ids (ctr_Name ?req) (im_messages (fs_storage ?s2)))"
    by (simp add: set_storage_def InMemoryStore_ops_def im_Store_def NewInMemoryStore_def fcard_finsert_if fcard_fempty)
  from topic_counts_disagree [OF req tp0 refl this] tp0 show ?thesis by auto
qed

end
