(* ===== verification/Native_Batch.thy ===== *)
theory Native_Batch
  imports Native_API "HOL-Library.Multiset"
begin

text \<open>
  The HTTP handlers for batches of messages and for transactions, \<^verbatim>\<open>src/pkg/api/batch_operations.go\<close> and
  \<^verbatim>\<open>src/pkg/api/transactions.go\<close>. What \<^verbatim>\<open>encoding/json\<close> makes of a value, and of bytes, is an argument, as is
  the \<^verbatim>\<open>%v\<close> rendering of a header. The durations in the answers are left out.
\<close>

section \<open>Requests and answers\<close>

record PublishMessage =
  pm_Topic :: string
  pm_Partition :: i32
  pm_Key :: string
  pm_Value :: dynval
  pm_Headers :: "dynval go_map option"
  pm_TTL :: "i64 option"

record BatchPublishRequest =
  bpr_Messages :: "PublishMessage list"
  bpr_TransactionID :: string

record PublishResult =
  pr_Index :: nat
  pr_MessageID :: string
  pr_Topic :: string
  pr_Partition :: i32
  pr_Offset :: i64
  pr_Error :: string
  pr_Success :: bool

record PartitionFetchRequest =
  pfr_Partition :: i32
  pfr_FetchOffset :: i64

record TopicFetchRequest =
  tfr_Topic :: string
  tfr_Partitions :: "PartitionFetchRequest list"

record BatchFetchRequest =
  bfr_Topics :: "TopicFetchRequest list"
  bfr_MaxMessages :: i64

record FetchedMessage =
  fm_MessageID :: string
  fm_Offset :: i64
  fm_Key :: string
  fm_Value :: dynval
  fm_Headers :: "dynval go_map"
  fm_Timestamp :: int
  fm_Size :: nat

record PartitionFetchResponse =
  pfs_Partition :: i32
  pfs_HighWaterMark :: i64
  pfs_Messages :: "FetchedMessage list"

record BatchNackRequest =
  bnr_MessageIDs :: "string list"
  bnr_Reason :: string
  bnr_Requeue :: bool
  bnr_GroupID :: string

datatype batch_body =
    BatchError string
  | PublishedBody nat nat "PublishResult list"
  | AcceptedBody nat string
  | FetchedBody "(string \<times> PartitionFetchResponse list) list" nat
  | AckBody nat nat "string list"
  | NackBody nat bool string

type_synonym batch_reply = "nat \<times> batch_body"

definition invalid_batch :: "string \<Rightarrow> batch_reply" where
  "invalid_batch err = (400, BatchError (''Invalid request body: '' @ err))"

section \<open>Publishing\<close>

text \<open>The payload of a message: bytes as they are, any other value as \<^verbatim>\<open>json.Marshal\<close> writes it.\<close>

definition payload_of :: "(dynval \<Rightarrow> string + byte list) \<Rightarrow> dynval \<Rightarrow> string + byte list" where
  "payload_of marshal v = (case v of AnyBytes bs \<Rightarrow> Inr bs | _ \<Rightarrow> marshal v)"

definition batch_message :: "(nat \<Rightarrow> instant) \<Rightarrow> string \<Rightarrow> nat \<Rightarrow> nat \<Rightarrow> byte list \<Rightarrow> PublishMessage \<Rightarrow> PortaskMessage" where
  "batch_message clk txID i k payload msg =
     zero_message\<lparr>m_ID := ''msg_'' @ dec_int (clk k) @ ''_'' @ pm_Topic msg @ ''_'' @ dec i, m_Topic := pm_Topic msg,
       m_Partition := pm_Partition msg, m_Key := pm_Key msg, m_Payload := payload,
       m_Headers := Some (case pm_Headers msg of None \<Rightarrow> [] | Some h \<Rightarrow> h),
       m_Metadata := Some (if txID = [] then [] else [(''transaction_id'', txID)]),
       m_Timestamp := of_int (clk (Suc k)), m_TTL := (case pm_TTL msg of None \<Rightarrow> 0 | Some ttl \<Rightarrow> ttl)\<rparr>"

text \<open>
  The loop over the messages, with the index and the number of clock readings so far: the results, the messages
  to store, and the number of clock readings after it.
\<close>

fun publish_loop ::
  "(dynval \<Rightarrow> string + byte list) \<Rightarrow> (nat \<Rightarrow> instant) \<Rightarrow> string \<Rightarrow> nat \<Rightarrow> nat \<Rightarrow> PublishMessage list \<Rightarrow>
    PublishResult list \<times> PortaskMessage list \<times> nat" where
  "publish_loop marshal clk txID i k [] = ([], [], k)"
| "publish_loop marshal clk txID i k (msg # msgs) =
     (if pm_Topic msg = [] then
        let (results, batch, k) = publish_loop marshal clk txID (Suc i) k msgs
        in (\<lparr>pr_Index = i, pr_MessageID = [], pr_Topic = [], pr_Partition = 0, pr_Offset = 0,
             pr_Error = ''Topic is required'', pr_Success = False\<rparr> # results, batch, k)
      else case payload_of marshal (pm_Value msg) of
        Inl err \<Rightarrow>
          let (results, batch, k) = publish_loop marshal clk txID (Suc i) k msgs
          in (\<lparr>pr_Index = i, pr_MessageID = [], pr_Topic = pm_Topic msg, pr_Partition = 0, pr_Offset = 0,
               pr_Error = ''Failed to serialize value: '' @ err, pr_Success = False\<rparr> # results, batch, k)
      | Inr payload \<Rightarrow>
          let portaskMsg = batch_message clk txID i k payload msg;
              (results, batch, k) = publish_loop marshal clk txID (Suc i) (k + 2) msgs
          in (\<lparr>pr_Index = i, pr_MessageID = m_ID portaskMsg, pr_Topic = pm_Topic msg, pr_Partition = pm_Partition msg,
               pr_Offset = m_Offset portaskMsg, pr_Error = [], pr_Success = True\<rparr> # results, portaskMsg # batch, k))"

definition handleBatchPublish ::
  "'s MessageStore \<Rightarrow> (dynval \<Rightarrow> string + byte list) \<Rightarrow> (nat \<Rightarrow> instant) \<Rightarrow> (string + BatchPublishRequest) \<Rightarrow>
    's FiberServer \<Rightarrow> batch_reply \<times> 's FiberServer" where
  "handleBatchPublish ops marshal clk body s =
     (case body of
        Inl err \<Rightarrow> (invalid_batch err, s)
      | Inr req \<Rightarrow>
          if bpr_Messages req = [] then ((400, BatchError ''At least one message is required''), s)
          else if length (bpr_Messages req) > 1000 then ((400, BatchError ''Max 1000 messages per batch''), s)
          else let (results, batch, k) = publish_loop marshal clk (bpr_TransactionID req) 0 1 (bpr_Messages req);
                   failed = length (filter (\<lambda>r. \<not> pr_Success r) results)
               in if batch = [] then ((201, PublishedBody 0 failed results), s)
                  else case ms_StoreBatch ops \<lparr>b_Messages = batch, b_BatchID = ''batch-'' @ dec_int (clk k),
                              b_CreatedAt = of_int (clk (Suc k) div Second), b_TotalSize = 0, b_CompressedSize = 0,
                              b_SerializedData = None\<rparr> (fs_storage s) of
                         (Some err, st) \<Rightarrow> ((500, BatchError (''Failed to store batch: '' @ error_text err)), set_storage st s)
                       | (None, st) \<Rightarrow> ((201, PublishedBody (length batch) failed results), set_storage st s))"

text \<open>
  The asynchronous variant answers at once; the messages are made and stored in the background. The
  identifier has the time twice, once in nanoseconds and once as the nanoseconds of the second.
\<close>

definition handleBatchPublishAsync :: "(string + BatchPublishRequest) \<Rightarrow> batch_reply" where
  "handleBatchPublishAsync body =
     (case body of
        Inl err \<Rightarrow> invalid_batch err
      | Inr req \<Rightarrow>
          if bpr_Messages req = [] then (400, BatchError ''At least one message is required'')
          else (202, AcceptedBody (length (bpr_Messages req)) ''Batch accepted for async processing''))"

definition async_message ::
  "(dynval \<Rightarrow> string + byte list) \<Rightarrow> (dynval \<Rightarrow> string) \<Rightarrow> (nat \<Rightarrow> instant) \<Rightarrow> nat \<Rightarrow> PublishMessage \<Rightarrow> PortaskMessage" where
  "async_message marshal sprint clk k msg =
     zero_message\<lparr>m_ID := ''msg-'' @ dec_int (clk k) @ ''-'' @ dec_int (clk (k + 1) mod Second), m_Topic := pm_Topic msg,
       m_Partition := pm_Partition msg, m_Key := pm_Key msg,
       m_Payload := (case marshal (pm_Value msg) of Inl err \<Rightarrow> [] | Inr bs \<Rightarrow> bs),
       m_Metadata := Some (map (\<lambda>(key, v). (key, sprint v)) (case pm_Headers msg of None \<Rightarrow> [] | Some h \<Rightarrow> h)),
       m_Timestamp := of_int (clk (k + 2)), m_Priority := PriorityNormal\<rparr>"

definition publish_async ::
  "'s MessageStore \<Rightarrow> (dynval \<Rightarrow> string + byte list) \<Rightarrow> (dynval \<Rightarrow> string) \<Rightarrow> (nat \<Rightarrow> instant) \<Rightarrow> BatchPublishRequest \<Rightarrow> 's \<Rightarrow> 's" where
  "publish_async ops marshal sprint clk req st =
     (let n = length (bpr_Messages req);
          batch = map (\<lambda>(i, msg). async_message marshal sprint clk (3 * i) msg) (zip [0..<n] (bpr_Messages req))
      in if batch = [] then st
         else snd (ms_StoreBatch ops \<lparr>b_Messages = batch, b_BatchID = ''async-batch-'' @ dec_int (clk (3 * n)),
                b_CreatedAt = of_int (clk (3 * n + 1) div Second), b_TotalSize = 0, b_CompressedSize = 0,
                b_SerializedData = None\<rparr> st))"

section \<open>Fetching\<close>

definition fetched_message :: "(byte list \<Rightarrow> dynval option) \<Rightarrow> PortaskMessage \<Rightarrow> FetchedMessage" where
  "fetched_message unmarshal msg =
     \<lparr>fm_MessageID = m_ID msg, fm_Offset = m_Offset msg, fm_Key = m_Key msg,
      fm_Value = (case unmarshal (m_Payload msg) of Some v \<Rightarrow> v | None \<Rightarrow> AnyString (string_of (m_Payload msg))),
      fm_Headers = map (\<lambda>(k, v). (k, AnyString v)) (case m_Metadata msg of None \<Rightarrow> [] | Some m \<Rightarrow> m),
      fm_Timestamp = rfc3339 (sint (m_Timestamp msg)), fm_Size = length (m_Payload msg)\<rparr>"

definition fetch_limit :: "i64 \<Rightarrow> nat \<Rightarrow> i64" where
  "fetch_limit maxMessages sofar = (let limit = maxMessages - of_nat sofar in if sint limit > 100 then 100 else limit)"

text \<open>
  The two loops. The numbers are the calls of \<^verbatim>\<open>Fetch\<close> and the messages so far. A partition that cannot be
  fetched is left out.
\<close>

fun batch_partitions ::
  "'s MessageStore \<Rightarrow> (byte list \<Rightarrow> dynval option) \<Rightarrow> i64 \<Rightarrow> string \<Rightarrow> 's \<Rightarrow> PartitionFetchRequest list \<Rightarrow> nat \<times> nat \<Rightarrow>
    PartitionFetchResponse list \<times> nat \<times> nat" where
  "batch_partitions ops unmarshal maxMessages topic st [] acc = ([], acc)"
| "batch_partitions ops unmarshal maxMessages topic st (req # reqs) (k, sofar) =
     (case ms_Fetch ops k topic (pfr_Partition req) (pfr_FetchOffset req) (fetch_limit maxMessages sofar) st of
        Inl err \<Rightarrow> batch_partitions ops unmarshal maxMessages topic st reqs (Suc k, sofar)
      | Inr stored \<Rightarrow>
          let messages = map (fetched_message unmarshal) stored;
              (responses, acc) = batch_partitions ops unmarshal maxMessages topic st reqs (Suc k, sofar + length messages)
          in (\<lparr>pfs_Partition = pfr_Partition req, pfs_HighWaterMark = pfr_FetchOffset req + of_nat (length messages),
               pfs_Messages = messages\<rparr> # responses, acc))"

fun batch_topics ::
  "'s MessageStore \<Rightarrow> (byte list \<Rightarrow> dynval option) \<Rightarrow> i64 \<Rightarrow> 's \<Rightarrow> TopicFetchRequest list \<Rightarrow> nat \<times> nat \<Rightarrow>
    (string \<times> PartitionFetchResponse list) list \<times> nat \<times> nat" where
  "batch_topics ops unmarshal maxMessages st [] acc = ([], acc)"
| "batch_topics ops unmarshal maxMessages st (req # reqs) acc =
     (let (partitions, acc) = batch_partitions ops unmarshal maxMessages (tfr_Topic req) st (tfr_Partitions req) acc;
          (responses, acc) = batch_topics ops unmarshal maxMessages st reqs acc
      in ((tfr_Topic req, partitions) # responses, acc))"

definition max_messages :: "i64 \<Rightarrow> i64" where
  "max_messages n = (let n = (if n = 0 then 100 else n) in if sint n > 1000 then 1000 else n)"

definition handleBatchFetch ::
  "'s MessageStore \<Rightarrow> (byte list \<Rightarrow> dynval option) \<Rightarrow> (string + BatchFetchRequest) \<Rightarrow> 's FiberServer \<Rightarrow> batch_reply" where
  "handleBatchFetch ops unmarshal body s =
     (case body of
        Inl err \<Rightarrow> invalid_batch err
      | Inr req \<Rightarrow>
          let (topics, k, sofar) = batch_topics ops unmarshal (max_messages (bfr_MaxMessages req)) (fs_storage s) (bfr_Topics req) (0, 0)
          in (200, FetchedBody topics sofar))"

text \<open>
  Long polling, where only the emptiness of what is fetched matters. The rounds are those before the deadline: the server as it is then, and whether the client has
  gone away by the end of the round.
\<close>

definition has_messages :: "'s MessageStore \<Rightarrow> BatchFetchRequest \<Rightarrow> 's \<Rightarrow> bool" where
  "has_messages ops req st \<longleftrightarrow>
     list_ex (\<lambda>t. list_ex (\<lambda>p.
       case ms_Fetch ops 0 (tfr_Topic t) (pfr_Partition p) (pfr_FetchOffset p) 1 st of Inl err \<Rightarrow> False | Inr ms \<Rightarrow> ms \<noteq> [])
       (tfr_Partitions t)) (bfr_Topics req)"

fun poll_loop ::
  "'s MessageStore \<Rightarrow> (byte list \<Rightarrow> dynval option) \<Rightarrow> BatchFetchRequest \<Rightarrow> ('s FiberServer \<times> bool) list \<Rightarrow> batch_reply" where
  "poll_loop ops unmarshal req [] = (200, FetchedBody [] 0)"
| "poll_loop ops unmarshal req ((s, gone) # rounds) =
     (if has_messages ops req (fs_storage s) then handleBatchFetch ops unmarshal (Inr req) s
      else if gone then (408, BatchError ''Request timeout or cancelled'')
      else poll_loop ops unmarshal req rounds)"

definition handleBatchFetchPoll ::
  "'s MessageStore \<Rightarrow> (byte list \<Rightarrow> dynval option) \<Rightarrow> (string + BatchFetchRequest) \<Rightarrow> ('s FiberServer \<times> bool) list \<Rightarrow> batch_reply" where
  "handleBatchFetchPoll ops unmarshal body rounds =
     (case body of Inl err \<Rightarrow> invalid_batch err | Inr req \<Rightarrow> poll_loop ops unmarshal req rounds)"

section \<open>Acknowledging\<close>

definition handleBatchAck :: "'s MessageStore \<Rightarrow> (string + string list) \<Rightarrow> 's FiberServer \<Rightarrow> batch_reply \<times> 's FiberServer" where
  "handleBatchAck ops body s =
     (case body of
        Inl err \<Rightarrow> (invalid_batch err, s)
      | Inr messageIDs \<Rightarrow>
          if messageIDs = [] then ((400, BatchError ''At least one message ID is required''), s)
          else if length messageIDs > 1000 then ((400, BatchError ''Max 1000 message IDs per batch''), s)
          else ((200, AckBody (length messageIDs) 0 []), set_storage (snd (ms_DeleteBatch ops messageIDs (fs_storage s))) s))"

text \<open>Storing a message once more, with the reason; a missing message without an error is a nil pointer.\<close>

fun requeue :: "'s MessageStore \<Rightarrow> string \<Rightarrow> string list \<Rightarrow> nat \<times> 's \<Rightarrow> (nat \<times> 's) option" where
  "requeue ops reason [] acc = Some acc"
| "requeue ops reason (msgID # ids) (nacked, st) =
     (case ms_FetchByID ops msgID st of
        Inl err \<Rightarrow> requeue ops reason ids (nacked, st)
      | Inr None \<Rightarrow> None
      | Inr (Some msg) \<Rightarrow>
          let msg = msg\<lparr>m_Metadata := Some (AList.update ''nack_reason'' reason (case m_Metadata msg of None \<Rightarrow> [] | Some m \<Rightarrow> m)),
                m_Attempts := m_Attempts msg + 1\<rparr>
          in case ms_Store ops msg st of
               (Some err, st) \<Rightarrow> requeue ops reason ids (nacked, st)
             | (None, st) \<Rightarrow> requeue ops reason ids (Suc nacked, st))"

definition handleBatchNack ::
  "'s MessageStore \<Rightarrow> (string + BatchNackRequest) \<Rightarrow> 's FiberServer \<Rightarrow> (batch_reply \<times> 's FiberServer) option" where
  "handleBatchNack ops body s =
     (case body of
        Inl err \<Rightarrow> Some (invalid_batch err, s)
      | Inr req \<Rightarrow>
          if bnr_MessageIDs req = [] then Some ((400, BatchError ''At least one message ID is required''), s)
          else if bnr_Requeue req
          then (case requeue ops (bnr_Reason req) (bnr_MessageIDs req) (0, fs_storage s) of
                  None \<Rightarrow> None
                | Some (nacked, st) \<Rightarrow> Some ((200, NackBody nacked True (bnr_GroupID req)), set_storage st s))
          else Some ((200, NackBody (length (bnr_MessageIDs req)) False (bnr_GroupID req)), s))"

section \<open>What is published\<close>

definition valid :: "(dynval \<Rightarrow> string + byte list) \<Rightarrow> PublishMessage \<Rightarrow> bool" where
  "valid marshal msg \<longleftrightarrow> pm_Topic msg \<noteq> [] \<and> (\<exists>p. payload_of marshal (pm_Value msg) = Inr p)"

definition carries :: "(dynval \<Rightarrow> string + byte list) \<Rightarrow> PortaskMessage \<Rightarrow> PublishMessage \<Rightarrow> bool" where
  "carries marshal m msg \<longleftrightarrow> m_Topic m = pm_Topic msg \<and> payload_of marshal (pm_Value msg) = Inr (m_Payload m) \<and>
     m_Partition m = pm_Partition msg \<and> m_Key m = pm_Key msg"

lemma publish_loop_spec:
  assumes "publish_loop marshal clk txID i k msgs = (rs, batch, k')"
  shows "map pr_Success rs = map (valid marshal) msgs \<and> map pr_MessageID (filter pr_Success rs) = map m_ID batch \<and>
    list_all2 (carries marshal) batch (filter (valid marshal) msgs)"
  using assms
proof (induction marshal clk txID i k msgs arbitrary: rs batch k' rule: publish_loop.induct)
  case (2 marshal clk txID i k msg msgs)
  consider (no_topic) "pm_Topic msg = []"
    | (no_json) err where "pm_Topic msg \<noteq> []" "payload_of marshal (pm_Value msg) = Inl err"
    | (ok) p where "pm_Topic msg \<noteq> []" "payload_of marshal (pm_Value msg) = Inr p"
    by (cases "payload_of marshal (pm_Value msg)") auto
  then show ?case
  proof cases
    case no_topic
    with 2 show ?thesis by (auto simp: valid_def split: prod.splits)
  next
    case no_json
    with 2 show ?thesis by (auto simp: valid_def split: prod.splits)
  next
    case ok
    obtain rs' batch' k'' where r: "publish_loop marshal clk txID (Suc i) (k + 2) msgs = (rs', batch', k'')"
      by (metis prod_cases3)
    have "carries marshal (batch_message clk txID i k p msg) msg"
      using ok by (simp add: carries_def batch_message_def)
    with 2(3) [OF ok(1) ok(2) refl r] 2(4) ok r show ?thesis
      by (auto simp: valid_def Let_def)
  qed
qed simp

text \<open>The identifiers end with the index, so they are different.\<close>

lemma publish_loop_ids:
  assumes "publish_loop marshal clk txID i k msgs = (rs, batch, k')"
  shows "distinct (map m_ID batch) \<and> (\<forall>m \<in> set batch. \<exists>x j. m_ID m = x @ ''_'' @ dec j \<and> i \<le> j)"
  using assms
proof (induction marshal clk txID i k msgs arbitrary: rs batch k' rule: publish_loop.induct)
  case (2 marshal clk txID i k msg msgs)
  have mono: "(\<forall>m \<in> set b. \<exists>x j. m_ID m = x @ ''_'' @ dec j \<and> Suc i \<le> j) \<Longrightarrow>
      \<forall>m \<in> set b. \<exists>x j. m_ID m = x @ ''_'' @ dec j \<and> i \<le> j" for b :: "PortaskMessage list"
    by (meson Suc_leD)
  consider (no_topic) "pm_Topic msg = []"
    | (no_json) err where "pm_Topic msg \<noteq> []" "payload_of marshal (pm_Value msg) = Inl err"
    | (ok) p where "pm_Topic msg \<noteq> []" "payload_of marshal (pm_Value msg) = Inr p"
    by (cases "payload_of marshal (pm_Value msg)") auto
  then show ?case
  proof cases
    case no_topic
    obtain rs' batch' k'' where r: "publish_loop marshal clk txID (Suc i) k msgs = (rs', batch', k'')"
      by (metis prod_cases3)
    have "batch = batch'" using 2(4) no_topic r by (simp add: Let_def)
    with 2(1) [OF no_topic r] mono show ?thesis by blast
  next
    case no_json
    obtain rs' batch' k'' where r: "publish_loop marshal clk txID (Suc i) k msgs = (rs', batch', k'')"
      by (metis prod_cases3)
    have "batch = batch'" using 2(4) no_json r by (simp add: Let_def)
    with 2(2) [OF no_json r] mono show ?thesis by blast
  next
    case ok
    obtain rs' batch' k'' where r: "publish_loop marshal clk txID (Suc i) (k + 2) msgs = (rs', batch', k'')"
      by (metis prod_cases3)
    let ?m = "batch_message clk txID i k p msg"
    have ih: "distinct (map m_ID batch')" "\<forall>m \<in> set batch'. \<exists>x j. m_ID m = x @ ''_'' @ dec j \<and> Suc i \<le> j"
      using 2(3) [OF ok(1) ok(2) refl r] by simp_all
    have id: "m_ID ?m = (''msg_'' @ dec_int (clk k) @ ''_'' @ pm_Topic msg) @ ''_'' @ dec i"
      by (simp add: batch_message_def)
    have "m_ID m \<noteq> m_ID ?m" if "m \<in> set batch'" for m
    proof -
      obtain x j where m: "m_ID m = x @ ''_'' @ dec j" "Suc i \<le> j" using ih(2) \<open>m \<in> set batch'\<close> by blast
      have "CHR ''_'' \<notin> set (dec n)" for n using dec_chars [of "CHR ''_''" n] by auto
      then have "x @ ''_'' @ dec j \<noteq> y @ ''_'' @ dec i" for y
        using m(2) append_sep_right [of "CHR ''_''" "dec j" "dec i" x y] by simp
      then show ?thesis unfolding id m(1) by blast
    qed
    moreover have "batch = ?m # batch'" using 2(4) ok r by (simp add: Let_def)
    moreover have "\<exists>x j. m_ID ?m = x @ ''_'' @ dec j \<and> i \<le> j" using id by blast
    ultimately show ?thesis using ih mono by force
  qed
qed simp

abbreviation put_all :: "PortaskMessage list \<Rightarrow> (string, PortaskMessage) fmap \<Rightarrow> (string, PortaskMessage) fmap" where
  "put_all ms c \<equiv> fold (\<lambda>m. fmupd (m_ID m) m) ms c"

lemma lookup_put_other: "i \<notin> m_ID ` set ms \<Longrightarrow> fmlookup (put_all ms c) i = fmlookup c i"
  by (induction ms arbitrary: c) auto

lemma lookup_put_all: "m \<in> set ms \<Longrightarrow> distinct (map m_ID ms) \<Longrightarrow> fmlookup (put_all ms c) (m_ID m) = Some m"
proof (induction ms arbitrary: c)
  case (Cons x ms)
  then show ?case
    by (cases "m = x") (auto simp: lookup_put_other)
qed simp

lemma publish_im:
  assumes "bpr_Messages req \<noteq> []" "length (bpr_Messages req) \<le> 1000"
  obtains rs batch k where "publish_loop marshal clk (bpr_TransactionID req) 0 1 (bpr_Messages req) = (rs, batch, k)"
    and "handleBatchPublish (InMemoryStore_ops mo to oo co) marshal clk (Inr req) s =
      ((201, PublishedBody (length batch) (length (filter (\<lambda>r. \<not> pr_Success r) rs)) rs),
       set_storage ((fs_storage s)\<lparr>im_messages := put_all batch (im_messages (fs_storage s))\<rparr>) s)"
proof -
  obtain rs batch k where r: "publish_loop marshal clk (bpr_TransactionID req) 0 1 (bpr_Messages req) = (rs, batch, k)"
    by (metis prod_cases3)
  have "set_storage (fs_storage s) s = s" by (simp add: set_storage_def)
  then have "handleBatchPublish (InMemoryStore_ops mo to oo co) marshal clk (Inr req) s =
      ((201, PublishedBody (length batch) (length (filter (\<lambda>r. \<not> pr_Success r) rs)) rs),
       set_storage ((fs_storage s)\<lparr>im_messages := put_all batch (im_messages (fs_storage s))\<rparr>) s)"
    using assms r by (simp add: handleBatchPublish_def InMemoryStore_ops_def im_StoreBatch_def Let_def)
  with r show ?thesis using that by blast
qed

text \<open>Publishing a batch over HTTP into the in-memory store. The answer tells for every message whether it
  was accepted, which it is if it has a topic and a value that can be written as JSON; every accepted message
  can be fetched under its identifier, the identifiers are different, and no other entry of the store
  changes unless it has one of these identifiers.\<close>

theorem batch_publish:
  assumes "bpr_Messages req \<noteq> []" "length (bpr_Messages req) \<le> 1000"
    and "handleBatchPublish (InMemoryStore_ops mo to oo co) marshal clk (Inr req) s = (reply, s')"
  shows "\<exists>rs. reply = (201, PublishedBody (length (filter (valid marshal) (bpr_Messages req)))
        (length (filter (\<lambda>msg. \<not> valid marshal msg) (bpr_Messages req))) rs) \<and>
    map pr_Success rs = map (valid marshal) (bpr_Messages req) \<and>
    list_all2 (\<lambda>r msg. \<exists>m. im_FetchByID (pr_MessageID r) (fs_storage s') = Inr (Some m) \<and> carries marshal m msg)
      (filter pr_Success rs) (filter (valid marshal) (bpr_Messages req)) \<and>
    distinct (map pr_MessageID (filter pr_Success rs)) \<and>
    (i \<notin> set (map pr_MessageID (filter pr_Success rs)) \<longrightarrow> im_FetchByID i (fs_storage s') = im_FetchByID i (fs_storage s))"
proof -
  obtain rs batch k where r: "publish_loop marshal clk (bpr_TransactionID req) 0 1 (bpr_Messages req) = (rs, batch, k)"
    and h: "handleBatchPublish (InMemoryStore_ops mo to oo co) marshal clk (Inr req) s =
      ((201, PublishedBody (length batch) (length (filter (\<lambda>r. \<not> pr_Success r) rs)) rs),
       set_storage ((fs_storage s)\<lparr>im_messages := put_all batch (im_messages (fs_storage s))\<rparr>) s)"
    using publish_im [OF assms(1,2)] by blast
  note spec = publish_loop_spec [OF r] and ids = publish_loop_ids [OF r, THEN conjunct1]
  have st: "im_messages (fs_storage s') = put_all batch (im_messages (fs_storage s))"
    using assms(3) h by (auto simp: set_storage_def)
  have 1: "length (filter (\<lambda>r. \<not> pr_Success r) rs) = length (filter (\<lambda>msg. \<not> valid marshal msg) (bpr_Messages req))"
    using arg_cong [OF spec [THEN conjunct1], of "\<lambda>bs. length (filter Not bs)"] by (simp add: filter_map o_def)
  have 2: "length batch = length (filter (valid marshal) (bpr_Messages req))"
    using spec list_all2_lengthD by blast
  have 3: "list_all2 (\<lambda>r msg. \<exists>m. im_FetchByID (pr_MessageID r) (fs_storage s') = Inr (Some m) \<and> carries marshal m msg)
      (filter pr_Success rs) (filter (valid marshal) (bpr_Messages req))"
  proof (rule list_all2_all_nthI)
    have len: "length (filter pr_Success rs) = length batch" using spec by (metis length_map)
    with spec show "length (filter pr_Success rs) = length (filter (valid marshal) (bpr_Messages req))"
      using list_all2_lengthD by fastforce
    fix j
    assume j: "j < length (filter pr_Success rs)"
    then have "pr_MessageID (filter pr_Success rs ! j) = m_ID (batch ! j)"
      using spec len by (metis nth_map)
    moreover have "im_FetchByID (m_ID (batch ! j)) (fs_storage s') = Inr (Some (batch ! j))"
      using lookup_put_all [OF _ ids] j len by (simp add: im_FetchByID_def st)
    moreover have "carries marshal (batch ! j) (filter (valid marshal) (bpr_Messages req) ! j)"
      using spec j len by (auto intro: list_all2_nthD)
    ultimately show "\<exists>m. im_FetchByID (pr_MessageID (filter pr_Success rs ! j)) (fs_storage s') = Inr (Some m) \<and>
        carries marshal m (filter (valid marshal) (bpr_Messages req) ! j)" by auto
  qed
  have 4: "im_FetchByID i (fs_storage s') = im_FetchByID i (fs_storage s)"
    if "i \<notin> set (map pr_MessageID (filter pr_Success rs))"
    using that spec lookup_put_other [of i batch] by (simp add: im_FetchByID_def st)
  have 5: "distinct (map pr_MessageID (filter pr_Success rs))" using spec ids by simp
  have "reply = (201, PublishedBody (length batch) (length (filter (\<lambda>r. \<not> pr_Success r) rs)) rs)"
    using h assms(3) by simp
  with 3 4 5 spec show ?thesis unfolding 1 2 by (intro exI [of _ rs]) simp
qed

section \<open>From publishing to acknowledging\<close>

lemma mset_visit_put:
  assumes "distinct (map m_ID batch)" "range_order (fmlookup (put_all batch fmempty)) ks"
  shows "mset (visit ks (put_all batch fmempty)) = mset batch"
proof -
  let ?M = "put_all batch fmempty"
  have "distinct (visit ks ?M)"
    using distinct_visit [OF keyed_put [OF keyed_empty] range_orderD(1) [OF assms(2)]] by (simp add: distinct_map)
  moreover have "distinct batch" using assms(1) by (simp add: distinct_map)
  moreover have "set (visit ks ?M) = set batch"
  proof (intro set_eqI iffI)
    fix m
    assume "m \<in> set (visit ks ?M)"
    then obtain k where k: "fmlookup ?M k = Some m" by (auto simp: set_visit)
    then have "k \<in> m_ID ` set batch" using lookup_put_other [of k batch fmempty] by fastforce
    then obtain m' where "m' \<in> set batch" "k = m_ID m'" by blast
    with k lookup_put_all [OF _ assms(1), of m' fmempty] show "m \<in> set batch" by auto
  next
    fix m
    assume "m \<in> set batch"
    then have "fmlookup ?M (m_ID m) = Some m" using lookup_put_all [OF _ assms(1)] by blast
    moreover from this have "m_ID m \<in> set ks" using range_orderD(2) [OF assms(2)] by blast
    ultimately show "m \<in> set (visit ks ?M)" by (auto simp: set_visit)
  qed
  ultimately show ?thesis by (simp add: set_eq_iff_mset_eq_distinct [symmetric])
qed

lemma lookup_drop_all: "fmlookup (fold fmdrop is m) i = (if i \<in> set is then None else fmlookup m i)"
  by (induction "is" arbitrary: m) auto

lemma publish_all_valid:
  assumes "bpr_Messages req \<noteq> []" "length (bpr_Messages req) \<le> 1000" "\<forall>msg \<in> set (bpr_Messages req). valid marshal msg"
  obtains rs batch where "handleBatchPublish (InMemoryStore_ops mo to oo co) marshal clk (Inr req) s =
      ((201, PublishedBody (length (bpr_Messages req)) 0 rs),
       set_storage ((fs_storage s)\<lparr>im_messages := put_all batch (im_messages (fs_storage s))\<rparr>) s)"
    and "map pr_MessageID rs = map m_ID batch" "list_all2 (carries marshal) batch (bpr_Messages req)" "distinct (map m_ID batch)"
proof -
  obtain rs batch k where r: "publish_loop marshal clk (bpr_TransactionID req) 0 1 (bpr_Messages req) = (rs, batch, k)"
    and h: "handleBatchPublish (InMemoryStore_ops mo to oo co) marshal clk (Inr req) s =
      ((201, PublishedBody (length batch) (length (filter (\<lambda>r. \<not> pr_Success r) rs)) rs),
       set_storage ((fs_storage s)\<lparr>im_messages := put_all batch (im_messages (fs_storage s))\<rparr>) s)"
    using publish_im [OF assms(1,2)] by blast
  have "map pr_Success rs = map (valid marshal) (bpr_Messages req)" using publish_loop_spec [OF r] by blast
  then have "set (map pr_Success rs) = valid marshal ` set (bpr_Messages req)" by simp
  then have "\<forall>x \<in> set rs. pr_Success x" using assms(3) by auto
  then have succ: "filter pr_Success rs = rs" "filter (\<lambda>r. \<not> pr_Success r) rs = []" by auto
  have "filter (valid marshal) (bpr_Messages req) = bpr_Messages req" using assms(3) by simp
  then have "map pr_MessageID rs = map m_ID batch" and c: "list_all2 (carries marshal) batch (bpr_Messages req)"
    using publish_loop_spec [OF r] succ by simp_all
  with h list_all2_lengthD [OF c] publish_loop_ids [OF r] succ(2) show ?thesis
    using that [of rs batch] by simp
qed

text \<open>What is fetched of a message, in terms of the request that published it.\<close>

lemma fetched_published:
  assumes "list_all2 (carries marshal) batch msgs" "map pr_MessageID rs = map m_ID batch"
    and "\<forall>msg \<in> set msgs. \<exists>bs. payload_of marshal (pm_Value msg) = Inr bs \<and> unmarshal bs = Some (pm_Value msg)"
  shows "map (\<lambda>f. (fm_MessageID f, fm_Key f, fm_Value f)) (map (fetched_message unmarshal) batch) =
    map (\<lambda>(r, msg). (pr_MessageID r, pm_Key msg, pm_Value msg)) (zip rs msgs)"
proof (rule nth_equalityI)
  have len: "length batch = length msgs" "length rs = length msgs"
    using list_all2_lengthD [OF assms(1)] arg_cong [OF assms(2), of length] by simp_all
  then show "length (map (\<lambda>f. (fm_MessageID f, fm_Key f, fm_Value f)) (map (fetched_message unmarshal) batch)) =
    length (map (\<lambda>(r, msg). (pr_MessageID r, pm_Key msg, pm_Value msg)) (zip rs msgs))" by simp
  fix j
  assume "j < length (map (\<lambda>f. (fm_MessageID f, fm_Key f, fm_Value f)) (map (fetched_message unmarshal) batch))"
  then have j: "j < length msgs" using len by simp
  have "carries marshal (batch ! j) (msgs ! j)" using assms(1) j len by (simp add: list_all2_conv_all_nth)
  moreover have "pr_MessageID (rs ! j) = m_ID (batch ! j)" using assms(2) j len by (metis nth_map)
  moreover obtain bs where "payload_of marshal (pm_Value (msgs ! j)) = Inr bs" "unmarshal bs = Some (pm_Value (msgs ! j))"
    using assms(3) j by (meson nth_mem)
  ultimately show "map (\<lambda>f. (fm_MessageID f, fm_Key f, fm_Value f)) (map (fetched_message unmarshal) batch) ! j =
    map (\<lambda>(r, msg). (pr_MessageID r, pm_Key msg, pm_Value msg)) (zip rs msgs) ! j"
    using j len by (simp add: fetched_message_def carries_def)
qed

definition one_topic_request :: "string \<Rightarrow> i32 \<Rightarrow> i64 \<Rightarrow> BatchFetchRequest" where
  "one_topic_request t p off =
     \<lparr>bfr_Topics = [\<lparr>tfr_Topic = t, tfr_Partitions = [\<lparr>pfr_Partition = p, pfr_FetchOffset = off\<rparr>]\<rparr>], bfr_MaxMessages = 0\<rparr>"

lemma fetch_im:
  "handleBatchFetch (InMemoryStore_ops mo to oo co) unmarshal (Inr (one_topic_request t p off)) s =
     (let fs = map (fetched_message unmarshal) (take 100 (filter (\<lambda>m. m_Topic m = t) (visit (mo 0) (im_messages (fs_storage s)))))
      in (200, FetchedBody [(t, [\<lparr>pfs_Partition = p, pfs_HighWaterMark = off + of_nat (length fs), pfs_Messages = fs\<rparr>])] (length fs)))"
  by (simp add: handleBatchFetch_def one_topic_request_def InMemoryStore_ops_def im_Fetch_def take_matching_eq max_messages_def
      fetch_limit_def Let_def)


section \<open>Limits\<close>

lemma fetch_limit_le: "sofar < 2 ^ 63 \<Longrightarrow> 0 \<le> sint m \<Longrightarrow> sint (fetch_limit m sofar) \<le> max 0 (sint m - int sofar)"
proof -
  assume s: "sofar < 2 ^ 63" "0 \<le> sint m"
  have "sint (m - of_nat sofar) = sint m - int sofar"
  proof -
    have "m - of_nat sofar = of_nat (nat (sint m)) - of_nat sofar" using s(2) by simp
    then show ?thesis
      using sint_diff_of_nat [of "nat (sint m)" sofar] s sint_lt [of m] by simp
  qed
  then show ?thesis by (auto simp: fetch_limit_def Let_def)
qed

lemma batch_partitions_bounds:
  assumes "\<And>k. range_order (fmlookup (im_messages st)) (mo k)" "0 < fcard (topic_ids t (im_messages st))"
    and "0 \<le> sint m" "max sofar (nat (sint m)) + length reqs < 2 ^ 63"
    and "batch_partitions (InMemoryStore_ops mo to oo co) unmarshal m t st reqs (k, sofar) = (responses, k', sofar')"
  shows "length responses = length reqs \<and> list_all (\<lambda>r. pfs_Messages r \<noteq> []) responses \<and>
    sofar + length reqs \<le> sofar' \<and> sofar' \<le> max sofar (nat (sint m)) + length reqs"
  using assms(4,5)
proof (induction reqs arbitrary: k sofar responses)
  case (Cons req reqs)
  let ?l = "fetch_limit m sofar" and ?n = "fcard (topic_ids t (im_messages st))"
  define ms where "ms = take (nat (max 1 (sint ?l))) (filter (\<lambda>x. m_Topic x = t) (visit (mo k) (im_messages st)))"
  have f: "ms_Fetch (InMemoryStore_ops mo to oo co) k t (pfr_Partition req) (pfr_FetchOffset req) ?l st = Inr ms"
    by (simp add: InMemoryStore_ops_def im_Fetch_def take_matching_eq ms_def)
  have "length ms = min (nat (max 1 (sint ?l))) ?n"
    using length_visit_topic [OF assms(1)] by (simp add: ms_def min.commute)
  then have len: "1 \<le> length ms" "length ms \<le> nat (max 1 (sint ?l))" using assms(2) by simp_all
  have step: "length ms \<le> max 1 (nat (sint m) - sofar)"
  proof -
    have "sofar < 2 ^ 63" using Cons.prems(1) by linarith
    then have "sint ?l \<le> max 0 (sint m - int sofar)" using assms(3) by (rule fetch_limit_le)
    then show ?thesis using len(2) by linarith
  qed
  obtain rs' where r: "batch_partitions (InMemoryStore_ops mo to oo co) unmarshal m t st reqs (Suc k, sofar + length ms) = (rs', k', sofar')"
    and rs: "responses = \<lparr>pfs_Partition = pfr_Partition req, pfs_HighWaterMark = pfr_FetchOffset req + of_nat (length ms),
      pfs_Messages = map (fetched_message unmarshal) ms\<rparr> # rs'"
    using Cons.prems(2) f by (auto simp: Let_def split: prod.splits)
  have grow: "max (sofar + length ms) (nat (sint m)) \<le> max sofar (nat (sint m)) + 1" using step by linarith
  then have "length rs' = length reqs \<and> list_all (\<lambda>r. pfs_Messages r \<noteq> []) rs' \<and>
      sofar + length ms + length reqs \<le> sofar' \<and> sofar' \<le> max (sofar + length ms) (nat (sint m)) + length reqs"
  proof (intro Cons.IH [OF _ r])
    have "max sofar (nat (sint m)) + 1 + length reqs < 2 ^ 63" using Cons.prems(1) by simp
    with grow show "max (sofar + length ms) (nat (sint m)) + length reqs < 2 ^ 63" by (meson add_le_mono1 le_less_trans)
  qed
  moreover have "pfs_Messages (hd responses) \<noteq> []" using rs len(1) by auto
  moreover have "sofar' \<le> max sofar (nat (sint m)) + length (req # reqs)"
    using calculation(1) grow by (simp only: list.size) linarith
  ultimately show ?case using rs len(1) by simp
qed simp

text \<open>How many messages a batch fetch from the in-memory store returns. Every partition that is asked for gives
  at least one message of its topic, so there may be more messages than the request allows, by up to the number
  of partitions.\<close>

theorem batch_fetch_bounds:
  assumes "\<And>k. range_order (fmlookup (im_messages (fs_storage s))) (mo k)" "0 < fcard (topic_ids t (im_messages (fs_storage s)))"
    and "bfr_Topics req = [\<lparr>tfr_Topic = t, tfr_Partitions = ps\<rparr>]" "0 < sint (bfr_MaxMessages req)" "length ps < 2 ^ 31"
  shows "\<exists>responses n. handleBatchFetch (InMemoryStore_ops mo to oo co) unmarshal (Inr req) s = (200, FetchedBody [(t, responses)] n) \<and>
    length responses = length ps \<and> list_all (\<lambda>r. pfs_Messages r \<noteq> []) responses \<and>
    length ps \<le> n \<and> n \<le> nat (min 1000 (sint (bfr_MaxMessages req))) + length ps"
proof -
  have m: "sint (max_messages (bfr_MaxMessages req)) = min 1000 (sint (bfr_MaxMessages req))"
    using assms(4) by (auto simp: max_messages_def Let_def)
  obtain responses k n where f: "batch_partitions (InMemoryStore_ops mo to oo co) unmarshal (max_messages (bfr_MaxMessages req)) t
      (fs_storage s) ps (0, 0) = (responses, k, n)"
    by (metis prod_cases3)
  have "length responses = length ps \<and> list_all (\<lambda>r. pfs_Messages r \<noteq> []) responses \<and>
      0 + length ps \<le> n \<and> n \<le> max 0 (nat (sint (max_messages (bfr_MaxMessages req)))) + length ps"
    by (rule batch_partitions_bounds [OF assms(1,2) _ _ f]) (use assms(4,5) m in simp_all)
  then show ?thesis
    using f unfolding m by (simp add: handleBatchFetch_def assms(3))
qed

section \<open>Publishing in the background\<close>

lemma put_all_same: "ms \<noteq> [] \<Longrightarrow> \<forall>m \<in> set ms. m_ID m = i \<Longrightarrow> put_all ms c = fmupd i (last ms) c"
proof (induction ms arbitrary: c rule: rev_induct)
  case (snoc m ms)
  then show ?case by (cases "ms = []") (simp_all add: fmupd_idem)
qed simp

text \<open>The identifiers of an asynchronous batch are made of the time alone. If the clock does not advance while the
  batch is made, the answer says that all messages are accepted, and only the last of them is kept.\<close>

theorem async_batch_collapses:
  assumes "bpr_Messages req \<noteq> []"
  shows "handleBatchPublishAsync (Inr req) = (202, AcceptedBody (length (bpr_Messages req)) ''Batch accepted for async processing'') \<and>
    (\<exists>m. im_messages (publish_async (InMemoryStore_ops mo to oo co) marshal sprint (\<lambda>_. now) req st) = fmupd (m_ID m) m (im_messages st) \<and>
      m_Topic m = pm_Topic (last (bpr_Messages req)))"
proof -
  let ?msgs = "bpr_Messages req"
  let ?batch = "map (\<lambda>(i, msg). async_message marshal sprint (\<lambda>_. now) (3 * i) msg) (zip [0..<length ?msgs] ?msgs)"
  let ?i = "''msg-'' @ dec_int now @ ''-'' @ dec_int (now mod Second)"
  have ne: "?batch \<noteq> []" using assms by (cases ?msgs) (simp_all add: upt_conv_Cons)
  have "\<forall>m \<in> set ?batch. m_ID m = ?i" by (auto simp: async_message_def)
  then have "put_all ?batch (im_messages st) = fmupd ?i (last ?batch) (im_messages st)"
    by (rule put_all_same [OF ne])
  moreover have "last ?batch \<in> set ?batch" using ne by (rule last_in_set)
  then have "m_ID (last ?batch) = ?i" using \<open>\<forall>m \<in> set ?batch. m_ID m = ?i\<close> by blast
  moreover have "m_Topic (last ?batch) = pm_Topic (last ?msgs)"
    using assms by (simp add: last_map last_zip async_message_def)
  moreover have "im_messages (publish_async (InMemoryStore_ops mo to oo co) marshal sprint (\<lambda>_. now) req st) = put_all ?batch (im_messages st)"
    using assms by (simp add: publish_async_def InMemoryStore_ops_def im_StoreBatch_def Let_def)
  ultimately show ?thesis
    using assms by (intro conjI exI [of _ "last ?batch"]) (simp_all add: handleBatchPublishAsync_def)
qed

section \<open>Examples\<close>

definition demo_marshal :: "dynval \<Rightarrow> string + byte list" where
  "demo_marshal v = (case v of AnyString x \<Rightarrow> Inr (bytes_of x) | _ \<Rightarrow> Inl ''unsupported'')"

definition demo_unmarshal :: "byte list \<Rightarrow> dynval option" where
  "demo_unmarshal bs = Some (AnyString (string_of bs))"

definition demo_publish :: "string \<Rightarrow> dynval \<Rightarrow> PublishMessage" where
  "demo_publish t v = \<lparr>pm_Topic = t, pm_Partition = 0, pm_Key = ''k'', pm_Value = v, pm_Headers = None, pm_TTL = None\<rparr>"

lemma demo_valid [simp]:
  "valid demo_marshal (demo_publish t (AnyString x)) \<longleftrightarrow> t \<noteq> []" "\<not> valid demo_marshal (demo_publish t (AnyBool b))"
  by (simp_all add: valid_def demo_publish_def payload_of_def demo_marshal_def)

theorem batch_publish_witness:
  "\<exists>rs s m. handleBatchPublish (InMemoryStore_ops (\<lambda>_. []) [] [] []) demo_marshal (\<lambda>_. 5)
      (Inr \<lparr>bpr_Messages = [demo_publish ''t'' (AnyString ''x''), demo_publish ''t'' (AnyBool True), demo_publish [] (AnyString ''y'')],
        bpr_TransactionID = []\<rparr>) (NewFiberServer NewInMemoryStore) = ((201, PublishedBody 1 2 rs), s) \<and>
    map pr_Success rs = [True, False, False] \<and>
    im_FetchByID (pr_MessageID (hd (filter pr_Success rs))) (fs_storage s) = Inr (Some m) \<and> carries demo_marshal m (demo_publish ''t'' (AnyString ''x''))"
proof -
  let ?req = "\<lparr>bpr_Messages = [demo_publish ''t'' (AnyString ''x''), demo_publish ''t'' (AnyBool True), demo_publish [] (AnyString ''y'')],
    bpr_TransactionID = []\<rparr>"
  have r: "bpr_Messages ?req \<noteq> []" "length (bpr_Messages ?req) \<le> 1000" by simp_all
  obtain reply s where p: "handleBatchPublish (InMemoryStore_ops (\<lambda>_. []) [] [] []) demo_marshal (\<lambda>_. 5) (Inr ?req)
      (NewFiberServer NewInMemoryStore) = (reply, s)"
    by (metis surj_pair)
  from batch_publish [OF r p, of "[]"] show ?thesis
    unfolding p by (auto simp: list_all2_Cons2)
qed


theorem batch_fetch_bounds_witness:
  "\<exists>responses n. handleBatchFetch (InMemoryStore_ops (\<lambda>_. [''a'']) [] [] []) demo_unmarshal
      (Inr \<lparr>bfr_Topics = [\<lparr>tfr_Topic = ''t'', tfr_Partitions = replicate 3 \<lparr>pfr_Partition = 0, pfr_FetchOffset = 0\<rparr>\<rparr>], bfr_MaxMessages = 1\<rparr>)
      (NewFiberServer (snd (im_Store (zero_message\<lparr>m_ID := ''a'', m_Topic := ''t''\<rparr>) NewInMemoryStore))) =
      (200, FetchedBody [(''t'', responses)] n) \<and> 3 \<le> n"
proof -
  let ?m = "zero_message\<lparr>m_ID := ''a'', m_Topic := ''t''\<rparr>"
  let ?s = "NewFiberServer (snd (im_Store ?m NewInMemoryStore))"
  let ?ps = "replicate 3 \<lparr>pfr_Partition = 0 :: i32, pfr_FetchOffset = 0 :: i64\<rparr>"
  let ?req = "\<lparr>bfr_Topics = [\<lparr>tfr_Topic = ''t'', tfr_Partitions = ?ps\<rparr>], bfr_MaxMessages = 1\<rparr>"
  have M: "im_messages (fs_storage ?s) = fmupd ''a'' ?m fmempty"
    by (simp add: NewFiberServer_def im_Store_def NewInMemoryStore_def)
  have 1: "\<And>k :: nat. range_order (fmlookup (im_messages (fs_storage ?s))) ((\<lambda>_. [''a'']) k)"
    unfolding M by (auto simp: range_order_def split: if_splits)
  have "topic_ids ''t'' (fmupd ''a'' ?m fmempty) = {|''a''|}"
    by (intro fset_eqI) (auto simp: topic_ids_iff)
  then have 2: "0 < fcard (topic_ids ''t'' (im_messages (fs_storage ?s)))"
    unfolding M by (simp add: fcard_finsert_if)
  from batch_fetch_bounds [OF 1 2, of ?req ?ps "[]" "[]" "[]" demo_unmarshal] show ?thesis by auto
qed

theorem async_batch_collapses_witness:
  "\<exists>m. handleBatchPublishAsync (Inr \<lparr>bpr_Messages = [demo_publish ''t'' (AnyString ''x''), demo_publish ''u'' (AnyString ''y'')], bpr_TransactionID = []\<rparr>) =
      (202, AcceptedBody 2 ''Batch accepted for async processing'') \<and>
    im_messages (publish_async (InMemoryStore_ops (\<lambda>_. []) [] [] []) demo_marshal (\<lambda>_. []) (\<lambda>_. 5)
      \<lparr>bpr_Messages = [demo_publish ''t'' (AnyString ''x''), demo_publish ''u'' (AnyString ''y'')], bpr_TransactionID = []\<rparr> NewInMemoryStore) =
      fmupd (m_ID m) m fmempty \<and> m_Topic m = ''u''"
  using async_batch_collapses [of "\<lparr>bpr_Messages = [demo_publish ''t'' (AnyString ''x''), demo_publish ''u'' (AnyString ''y'')], bpr_TransactionID = []\<rparr>"
      "\<lambda>_. []" "[]" "[]" "[]" demo_marshal "\<lambda>_. []" 5 NewInMemoryStore]
  by (auto simp: NewInMemoryStore_def demo_publish_def)

section \<open>Transactions\<close>

text \<open>
  The handlers of \<^verbatim>\<open>transactions.go\<close> keep no state: they answer from the request and the clock alone. A
  duration is a signed 64-bit number of nanoseconds.
\<close>

datatype TransactionState_api = TxStateActive | TxStatePreparing | TxStateCommitted | TxStateAborted | TxStateExpired

record Transaction =
  tx_ID :: string
  tx_State :: TransactionState_api
  tx_Topics :: "string list"
  tx_Messages :: nat
  tx_CreatedAt :: int
  tx_UpdatedAt :: int
  tx_ExpiresAt :: int
  tx_TimeoutMs :: i64

record BeginTransactionRequest =
  btr_TimeoutMs :: i64
  btr_Topics :: "string list"

datatype tx_body =
    TxError string
  | TxMessage string
  | TxBegun string TransactionState_api int
  | TxCommitted string TransactionState_api int
  | TxAborted string TransactionState_api int string
  | TxStatus Transaction bool bool
  | TxList "Transaction list" nat

definition invalid_tx :: "string \<Rightarrow> nat \<times> tx_body" where
  "invalid_tx err = (400, TxError (''Invalid request body: '' @ err))"

definition expires_at :: "instant \<Rightarrow> i64 \<Rightarrow> instant" where
  "expires_at now timeoutMs = now + sint (timeoutMs * of_int Millisecond)"

definition handleBeginTransaction :: "(nat \<Rightarrow> instant) \<Rightarrow> (string + BeginTransactionRequest) \<Rightarrow> nat \<times> tx_body" where
  "handleBeginTransaction clk body =
     (case body of
        Inl err \<Rightarrow> invalid_tx err
      | Inr req \<Rightarrow>
          let timeoutMs = (if btr_TimeoutMs req = 0 then 60000 else btr_TimeoutMs req)
          in (201, TxBegun (''tx-'' @ dec_int (clk 0)) TxStateActive (rfc3339 (expires_at (clk 1) timeoutMs))))"

definition handleCommitTransaction :: "instant \<Rightarrow> (string + string) \<Rightarrow> nat \<times> tx_body" where
  "handleCommitTransaction now body =
     (case body of
        Inl err \<Rightarrow> invalid_tx err
      | Inr txID \<Rightarrow>
          if txID = [] then (400, TxError ''Transaction ID is required'') else (200, TxCommitted txID TxStateCommitted (rfc3339 now)))"

definition handleAbortTransaction :: "instant \<Rightarrow> (string + string \<times> string) \<Rightarrow> nat \<times> tx_body" where
  "handleAbortTransaction now body =
     (case body of
        Inl err \<Rightarrow> invalid_tx err
      | Inr (txID, reason) \<Rightarrow>
          if txID = [] then (400, TxError ''Transaction ID is required'') else (200, TxAborted txID TxStateAborted (rfc3339 now) reason))"

definition handleGetTransactionStatus :: "(nat \<Rightarrow> instant) \<Rightarrow> string \<Rightarrow> nat \<times> tx_body" where
  "handleGetTransactionStatus clk txID =
     (if txID = [] then (400, TxError ''Transaction ID is required'')
      else let transaction = \<lparr>tx_ID = txID, tx_State = TxStateActive, tx_Topics = [''orders'', ''payments''], tx_Messages = 10,
                 tx_CreatedAt = rfc3339 (clk 0 - 5 * Minute), tx_UpdatedAt = rfc3339 (clk 1),
                 tx_ExpiresAt = rfc3339 (clk 2 + 55 * Second), tx_TimeoutMs = 60000\<rparr>
           in (200, TxStatus transaction True (tx_State transaction = TxStateActive)))"

definition handleListTransactions :: "(nat \<Rightarrow> instant) \<Rightarrow> nat \<times> tx_body" where
  "handleListTransactions clk =
     (let transactions = [\<lparr>tx_ID = ''tx-123'', tx_State = TxStateActive, tx_Topics = [''orders''], tx_Messages = 5,
            tx_CreatedAt = rfc3339 (clk 0 - 10 * Minute), tx_UpdatedAt = rfc3339 (clk 1),
            tx_ExpiresAt = rfc3339 (clk 2 + 50 * Second), tx_TimeoutMs = 60000\<rparr>]
      in (200, TxList transactions (length transactions)))"

definition handleDeleteTransaction :: "string \<Rightarrow> nat \<times> tx_body" where
  "handleDeleteTransaction txID =
     (if txID = [] then (400, TxError ''Transaction ID is required'')
      else (200, TxMessage (''Transaction '' @ CHR 0x27 # txID @ CHR 0x27 # '' deleted'')))"

text \<open>The time of expiry is right unless the timeout in nanoseconds does not fit into 64 bits.\<close>

lemma expires_at_exact:
  assumes "\<bar>sint timeoutMs\<bar> \<le> 9223372036854"
  shows "expires_at now timeoutMs = now + sint timeoutMs * Millisecond"
proof -
  have "timeoutMs * of_int Millisecond = of_int (sint timeoutMs * Millisecond)" by simp
  moreover have "signed_take_bit 63 (sint timeoutMs * Millisecond) = sint timeoutMs * Millisecond"
    using assms by (intro signed_take_bit_int_eq_self) (simp_all add: Millisecond_def)
  ultimately show ?thesis by (simp only: expires_at_def signed_of_int) simp
qed

end
