(* ===== verification/Auth.thy ===== *)
theory Auth
  imports Message_Store Wire_Protocol Rate_Limiter "HOL-Library.List_Lexorder" "HOL-Library.Char_ord"
begin

text \<open>
  The authentication service, \<^verbatim>\<open>src/pkg/auth\<close>: its data, the audit log in memory, the operations of the
  authenticator on users, keys and tokens, and the HTTP endpoints of \<^verbatim>\<open>api.go\<close> with the path of a request
  through authentication and rate limiting to its handler.

  Users and keys are finite maps, as the code has them; a pointer to a user or a key that a handler writes through
  is written back into its map. Requests are served one after the other: the code has no lock around the maps. The
  clock, the random numbers and the orders of maps are the record \<open>auth_env\<close>, in which a reading has a fixed
  number on every path and one that a branch does not take is skipped; the package for tokens is the record
  \<open>jwt_lib\<close>. The free-form metadata of users and keys, which no operation touches, is left out.
\<close>

section \<open>Configuration and data\<close>

record AuthConfig =
  ac_JWTSecret :: string
  ac_JWTExpiration :: duration
  ac_APIKeyLength :: int
  ac_EnableRateLimit :: bool
  ac_RateLimitRPS :: int
  ac_EnableAuditLog :: bool

definition DefaultAuthConfig :: AuthConfig where
  "DefaultAuthConfig =
     \<lparr>ac_JWTSecret = ''portask-default-secret-change-in-production'', ac_JWTExpiration = 24 * Hour,
      ac_APIKeyLength = 32, ac_EnableRateLimit = True, ac_RateLimitRPS = 1000, ac_EnableAuditLog = True\<rparr>"

record User =
  u_ID :: string
  u_Username :: string
  u_Email :: string
  u_Roles :: "string list"
  u_Active :: bool
  u_CreatedAt :: instant
  u_UpdatedAt :: instant

record APIKey =
  k_ID :: string
  k_Key :: string
  k_Name :: string
  k_Description :: string
  k_UserID :: string
  k_Permissions :: "string list"
  k_Active :: bool
  k_ExpiresAt :: "instant option"
  k_CreatedAt :: instant
  k_LastUsedAt :: "instant option"

text \<open>The claims of a token, the embedded \<^verbatim>\<open>jwt.RegisteredClaims\<close> included.\<close>

record JWTClaims =
  jc_UserID :: string
  jc_Username :: string
  jc_Roles :: "string list"
  jc_Permissions :: "string list"
  jc_ExpiresAt :: "instant option"
  jc_IssuedAt :: "instant option"
  jc_NotBefore :: "instant option"
  jc_Issuer :: string
  jc_Subject :: string
  jc_ID :: string

record AuthContext =
  ctx_User :: "User option"
  ctx_APIKey :: "APIKey option"
  ctx_Permissions :: "string list"
  ctx_AuthMethod :: string
  ctx_ClientIP :: string
  ctx_UserAgent :: string

definition PermissionMessageRead :: string where "PermissionMessageRead = ''message:read''"
definition PermissionMessageWrite :: string where "PermissionMessageWrite = ''message:write''"
definition PermissionMessageDelete :: string where "PermissionMessageDelete = ''message:delete''"
definition PermissionTopicCreate :: string where "PermissionTopicCreate = ''topic:create''"
definition PermissionTopicDelete :: string where "PermissionTopicDelete = ''topic:delete''"
definition PermissionTopicList :: string where "PermissionTopicList = ''topic:list''"
definition PermissionAdminRead :: string where "PermissionAdminRead = ''admin:read''"
definition PermissionAdminWrite :: string where "PermissionAdminWrite = ''admin:write''"
definition PermissionMetricsRead :: string where "PermissionMetricsRead = ''metrics:read''"
definition PermissionSystemManage :: string where "PermissionSystemManage = ''system:manage''"

lemmas permission_defs =
  PermissionMessageRead_def PermissionMessageWrite_def PermissionMessageDelete_def
  PermissionTopicCreate_def PermissionTopicDelete_def PermissionTopicList_def
  PermissionAdminRead_def PermissionAdminWrite_def PermissionMetricsRead_def PermissionSystemManage_def

definition RoleAdmin :: string where "RoleAdmin = ''admin''"
definition RoleProducer :: string where "RoleProducer = ''producer''"
definition RoleConsumer :: string where "RoleConsumer = ''consumer''"
definition RoleReadOnly :: string where "RoleReadOnly = ''readonly''"
definition RoleService :: string where "RoleService = ''service''"

lemmas role_defs = RoleAdmin_def RoleProducer_def RoleConsumer_def RoleReadOnly_def RoleService_def

section \<open>Audit log\<close>

datatype detail = DText string | DList "string list"

record AuditEvent =
  ae_ID :: string
  ae_Timestamp :: instant
  ae_EventType :: string
  ae_UserID :: string
  ae_APIKeyID :: string
  ae_Resource :: string
  ae_Action :: string
  ae_Result :: string
  ae_Details :: "detail go_map"

text \<open>The in-memory logger is the list of its events.\<close>

type_synonym InMemoryAuditLogger = "AuditEvent list"

definition LogEvent :: "AuditEvent \<Rightarrow> InMemoryAuditLogger \<Rightarrow> InMemoryAuditLogger" where
  "LogEvent event l = l @ [event]"

text \<open>The value of a filter: what a type assertion can tell apart.\<close>

datatype filter_value = FText string | FTime instant | FOther

definition text_filter :: "(string \<rightharpoonup> filter_value) \<Rightarrow> string \<Rightarrow> string \<Rightarrow> bool" where
  "text_filter filters name v = (case filters name of Some (FText s) \<Rightarrow> v = s | _ \<Rightarrow> True)"

definition event_matches :: "(string \<rightharpoonup> filter_value) \<Rightarrow> AuditEvent \<Rightarrow> bool" where
  "event_matches filters event \<longleftrightarrow>
     text_filter filters ''user_id'' (ae_UserID event) \<and>
     text_filter filters ''event_type'' (ae_EventType event) \<and>
     text_filter filters ''resource'' (ae_Resource event) \<and>
     text_filter filters ''action'' (ae_Action event) \<and>
     text_filter filters ''result'' (ae_Result event) \<and>
     (case filters ''after'' of Some (FTime t) \<Rightarrow> \<not> ae_Timestamp event < t | _ \<Rightarrow> True) \<and>
     (case filters ''before'' of Some (FTime t) \<Rightarrow> \<not> t < ae_Timestamp event | _ \<Rightarrow> True)"

text \<open>The loop over the events, with those taken so far.\<close>

fun filter_events :: "(string \<rightharpoonup> filter_value) \<Rightarrow> int \<Rightarrow> AuditEvent list \<Rightarrow> AuditEvent list \<Rightarrow> AuditEvent list" where
  "filter_events filters limit filteredEvents [] = filteredEvents"
| "filter_events filters limit filteredEvents (event # events) =
     (if event_matches filters event
      then let filteredEvents = filteredEvents @ [event]
           in if limit > 0 \<and> int (length filteredEvents) \<ge> limit then filteredEvents
              else filter_events filters limit filteredEvents events
      else filter_events filters limit filteredEvents events)"

definition GetEvents :: "(string \<rightharpoonup> filter_value) \<Rightarrow> int \<Rightarrow> InMemoryAuditLogger \<Rightarrow> AuditEvent list" where
  "GetEvents filters limit l = filter_events filters limit [] l"

lemma filter_events_eq:
  "limit \<le> 0 \<or> int (length acc) < limit \<Longrightarrow>
   filter_events filters limit acc es =
     acc @ (if limit \<le> 0 then id else take (nat limit - length acc)) (filter (event_matches filters) es)"
proof (induction es arbitrary: acc)
  case (Cons e es)
  show ?case
  proof (cases "event_matches filters e \<and> 0 < limit \<and> int (length acc) + 1 \<ge> limit")
    case True
    then have "nat limit - length acc = 1" using Cons.prems by linarith
    then show ?thesis using True by (simp add: Let_def)
  next
    case False
    then have "limit \<le> 0 \<or> int (length (acc @ [e])) < limit \<or> \<not> event_matches filters e" by auto
    moreover have "Suc (nat limit - Suc (length acc)) = nat limit - length acc" if "0 < limit" "int (length acc) < limit"
      using that by linarith
    ultimately show ?thesis
      using False Cons.IH [of acc] Cons.IH [of "acc @ [e]"] Cons.prems
      by (cases "event_matches filters e") (auto simp: Let_def take_Suc_conv_app_nth take_Cons' split: if_splits)
  qed
qed auto

text \<open>The log returns the matching events in their order, the first \<open>limit\<close> of them if a limit is given.\<close>

lemma GetEvents_eq:
  "GetEvents filters limit l =
     (if limit \<le> 0 then id else take (nat limit)) (filter (event_matches filters) l)"
  by (simp add: GetEvents_def filter_events_eq)

section \<open>The authenticator\<close>

record Authenticator =
  a_config :: AuthConfig
  a_users :: "(string, User) fmap"
  a_apiKeys :: "(string, APIKey) fmap"
  a_auditLogger :: "InMemoryAuditLogger option"

text \<open>
  What a call takes from outside: the readings of the clock, the reads from the random number generator (the
  bytes of each), and the orders in which the three maps are visited.
\<close>

record auth_env =
  w_now :: "nat \<Rightarrow> instant"
  w_rand :: "nat \<Rightarrow> nat \<Rightarrow> byte"
  w_users :: "(string, User) fmap \<Rightarrow> string list"
  w_keys :: "(string, APIKey) fmap \<Rightarrow> string list"
  w_perms :: "(string, bool) fmap \<Rightarrow> string list"

definition env_ok :: "auth_env \<Rightarrow> bool" where
  "env_ok w \<longleftrightarrow> (\<forall>m. range_order (fmlookup m) (w_users w m)) \<and> (\<forall>m. range_order (fmlookup m) (w_keys w m)) \<and>
     (\<forall>m. range_order (fmlookup m) (w_perms w m))"

text \<open>What is left for the calls that follow one which read the clock \<open>n\<close> times and the generator \<open>m\<close> times.\<close>

definition after :: "nat \<Rightarrow> nat \<Rightarrow> auth_env \<Rightarrow> auth_env" where
  "after n m w = w\<lparr>w_now := (\<lambda>k. w_now w (k + n)), w_rand := (\<lambda>k. w_rand w (k + m))\<rparr>"

text \<open>\<^verbatim>\<open>hex.EncodeToString\<close> and the random strings. A negative length panics in \<^verbatim>\<open>make\<close>.\<close>

definition hex_EncodeToString :: "byte list \<Rightarrow> string" where
  "hex_EncodeToString bs =
     concat (map (\<lambda>b. [''0123456789abcdef'' ! (unat b div 16), ''0123456789abcdef'' ! (unat b mod 16)]) bs)"

definition generateRandomString :: "(nat \<Rightarrow> byte) \<Rightarrow> nat \<Rightarrow> string" where
  "generateRandomString rand len = take len (hex_EncodeToString (map rand [0..<len]))"

definition log_audit :: "AuditEvent \<Rightarrow> Authenticator \<Rightarrow> Authenticator" where
  "log_audit event a =
     (case a_auditLogger a of
        Some l \<Rightarrow> if ac_EnableAuditLog (a_config a) then a\<lparr>a_auditLogger := Some (LogEvent event l)\<rparr> else a
      | None \<Rightarrow> a)"

subsection \<open>Users\<close>

definition CreateUser ::
  "auth_env \<Rightarrow> string \<Rightarrow> string \<Rightarrow> string list \<Rightarrow> Authenticator \<Rightarrow> User \<times> Authenticator" where
  "CreateUser w username email roles a =
     (let userID = generateRandomString (w_rand w 0) 16;
          user = \<lparr>u_ID = userID, u_Username = username, u_Email = email, u_Roles = roles, u_Active = True,
                  u_CreatedAt = w_now w 0, u_UpdatedAt = w_now w 1\<rparr>
      in (user, log_audit
           \<lparr>ae_ID = generateRandomString (w_rand w 1) 16, ae_Timestamp = w_now w 2, ae_EventType = ''user_created'',
            ae_UserID = userID, ae_APIKeyID = [], ae_Resource = ''user'', ae_Action = ''create'', ae_Result = ''success'',
            ae_Details = [(''username'', DText username), (''email'', DText email), (''roles'', DList roles)]\<rparr>
           (a\<lparr>a_users := fmupd userID user (a_users a)\<rparr>)))"

definition GetUser :: "string \<Rightarrow> Authenticator \<Rightarrow> string + User" where
  "GetUser userID a = (case fmlookup (a_users a) userID of None \<Rightarrow> Inl ''user not found'' | Some user \<Rightarrow> Inr user)"

text \<open>The dynamic types that \<^verbatim>\<open>UpdateUser\<close> asks for.\<close>

datatype update_value = UString string | UStrings "string list" | UBool bool | UOther

definition apply_updates :: "(string \<rightharpoonup> update_value) \<Rightarrow> User \<Rightarrow> User" where
  "apply_updates updates user =
     user\<lparr>u_Username := (case updates ''username'' of Some (UString s) \<Rightarrow> s | _ \<Rightarrow> u_Username user),
          u_Email := (case updates ''email'' of Some (UString s) \<Rightarrow> s | _ \<Rightarrow> u_Email user),
          u_Roles := (case updates ''roles'' of Some (UStrings rs) \<Rightarrow> rs | _ \<Rightarrow> u_Roles user),
          u_Active := (case updates ''active'' of Some (UBool b) \<Rightarrow> b | _ \<Rightarrow> u_Active user)\<rparr>"

definition UpdateUser ::
  "auth_env \<Rightarrow> string \<Rightarrow> (string \<rightharpoonup> update_value) \<Rightarrow> Authenticator \<Rightarrow> (string + User) \<times> Authenticator" where
  "UpdateUser w userID updates a =
     (case fmlookup (a_users a) userID of
        None \<Rightarrow> (Inl ''user not found'', a)
      | Some user \<Rightarrow>
          let user = (apply_updates updates user)\<lparr>u_UpdatedAt := w_now w 0\<rparr>
          in (Inr user, a\<lparr>a_users := fmupd userID user (a_users a)\<rparr>))"

definition DeleteUser :: "string \<Rightarrow> Authenticator \<Rightarrow> string option \<times> Authenticator" where
  "DeleteUser userID a =
     (if userID |\<notin>| fmdom (a_users a) then (Some ''user not found'', a)
      else (None, a\<lparr>a_users := fmdrop userID (a_users a),
                    a_apiKeys := fmfilter (\<lambda>k. case fmlookup (a_apiKeys a) k of Some key \<Rightarrow> k_UserID key \<noteq> userID | None \<Rightarrow> True) (a_apiKeys a)\<rparr>))"

subsection \<open>Permissions\<close>

definition HasPermission :: "AuthContext \<Rightarrow> string \<Rightarrow> bool" where
  "HasPermission authCtx permission = list_ex (\<lambda>perm. perm = permission) (ctx_Permissions authCtx)"

definition HasRole :: "AuthContext \<Rightarrow> string \<Rightarrow> bool" where
  "HasRole authCtx role =
     (case ctx_User authCtx of
        None \<Rightarrow> False
      | Some user \<Rightarrow> list_ex (\<lambda>userRole. userRole = role) (u_Roles user))"

definition role_permissions :: "string \<Rightarrow> string list" where
  "role_permissions role =
     (if role = RoleAdmin then
        [PermissionMessageRead, PermissionMessageWrite, PermissionMessageDelete,
         PermissionTopicCreate, PermissionTopicDelete, PermissionTopicList,
         PermissionAdminRead, PermissionAdminWrite, PermissionMetricsRead, PermissionSystemManage]
      else if role = RoleProducer then [PermissionMessageWrite, PermissionTopicList]
      else if role = RoleConsumer then [PermissionMessageRead, PermissionTopicList]
      else if role = RoleReadOnly then [PermissionMessageRead, PermissionTopicList, PermissionMetricsRead]
      else if role = RoleService then [PermissionMessageRead, PermissionMessageWrite, PermissionTopicList]
      else [])"

definition permissionSet :: "string list \<Rightarrow> (string, bool) fmap" where
  "permissionSet roles =
     fold (\<lambda>role m. fold (\<lambda>perm. fmupd perm True) (role_permissions role) m) roles fmempty"

definition getRolePermissions :: "auth_env \<Rightarrow> string list \<Rightarrow> string list" where
  "getRolePermissions w roles = w_perms w (permissionSet roles)"

lemma dom_fold_fmupd: "fmdom (fold (\<lambda>p. fmupd p v) ps m) = fset_of_list ps |\<union>| fmdom m"
  by (induction ps arbitrary: m) auto

lemma dom_permissionSet_acc:
  "fset (fmdom (fold (\<lambda>role m. fold (\<lambda>perm. fmupd perm True) (role_permissions role) m) roles m)) =
     (\<Union>role \<in> set roles. set (role_permissions role)) \<union> fset (fmdom m)"
  by (induction roles arbitrary: m) (auto simp: dom_fold_fmupd fset_of_list.rep_eq)

lemma dom_permissionSet: "fset (fmdom (permissionSet roles)) = (\<Union>role \<in> set roles. set (role_permissions role))"
  unfolding permissionSet_def dom_permissionSet_acc by simp

text \<open>Whatever the order of the map, the roles give each of their permissions once.\<close>

lemma getRolePermissions_spec:
  assumes "env_ok w"
  shows "distinct (getRolePermissions w roles)"
    and "set (getRolePermissions w roles) = (\<Union>role \<in> set roles. set (role_permissions role))"
proof -
  have "range_order (fmlookup (permissionSet roles)) (getRolePermissions w roles)"
    using assms by (simp add: env_ok_def getRolePermissions_def)
  then have "distinct (getRolePermissions w roles)"
    and "set (getRolePermissions w roles) = fset (fmdom (permissionSet roles))"
    unfolding range_order_def fmdom.rep_eq by (rule conjunct1, rule conjunct2)
  then show "distinct (getRolePermissions w roles)"
    and "set (getRolePermissions w roles) = (\<Union>role \<in> set roles. set (role_permissions role))"
    by (simp_all only: dom_permissionSet)
qed

lemma HasPermission_iff: "HasPermission c p \<longleftrightarrow> p \<in> set (ctx_Permissions c)"
  by (auto simp: HasPermission_def list_ex_iff)

subsection \<open>API keys\<close>

definition GenerateAPIKey ::
  "auth_env \<Rightarrow> string \<Rightarrow> string \<Rightarrow> string \<Rightarrow> string list \<Rightarrow> instant option \<Rightarrow> Authenticator \<Rightarrow> (APIKey \<times> Authenticator) option" where
  "GenerateAPIKey w userID name description permissions expiresAt a =
     (if ac_APIKeyLength (a_config a) < 0 then None
      else let keyString = generateRandomString (w_rand w 0) (nat (ac_APIKeyLength (a_config a)));
               apiKey = \<lparr>k_ID = generateRandomString (w_rand w 1) 16, k_Key = keyString, k_Name = name,
                         k_Description = description, k_UserID = userID, k_Permissions = permissions, k_Active = True,
                         k_ExpiresAt = expiresAt, k_CreatedAt = w_now w 0, k_LastUsedAt = None\<rparr>
           in Some (apiKey, log_audit
                \<lparr>ae_ID = generateRandomString (w_rand w 2) 16, ae_Timestamp = w_now w 1, ae_EventType = ''api_key_created'',
                 ae_UserID = userID, ae_APIKeyID = k_ID apiKey, ae_Resource = ''api_key'', ae_Action = ''create'',
                 ae_Result = ''success'', ae_Details = [(''key_name'', DText name), (''permissions'', DList permissions)]\<rparr>
                (a\<lparr>a_apiKeys := fmupd keyString apiKey (a_apiKeys a)\<rparr>)))"

definition expired :: "instant \<Rightarrow> APIKey \<Rightarrow> bool" where
  "expired now apiKey = (case k_ExpiresAt apiKey of None \<Rightarrow> False | Some e \<Rightarrow> e < now)"

definition ValidateAPIKey :: "auth_env \<Rightarrow> string \<Rightarrow> Authenticator \<Rightarrow> (string + APIKey) \<times> Authenticator" where
  "ValidateAPIKey w keyString a =
     (case fmlookup (a_apiKeys a) keyString of
        None \<Rightarrow> (Inl ''invalid API key'', a)
      | Some apiKey \<Rightarrow>
          if \<not> k_Active apiKey then (Inl ''API key is disabled'', a)
          else if expired (w_now w 0) apiKey then (Inl ''API key has expired'', a)
          else let apiKey = apiKey\<lparr>k_LastUsedAt := Some (w_now w 1)\<rparr>
               in (Inr apiKey, a\<lparr>a_apiKeys := fmupd keyString apiKey (a_apiKeys a)\<rparr>))"

text \<open>The search through the keys, which stops at the first that has the identifier.\<close>

definition find_key :: "auth_env \<Rightarrow> string \<Rightarrow> Authenticator \<Rightarrow> string option" where
  "find_key w keyID a =
     find (\<lambda>k. case fmlookup (a_apiKeys a) k of Some apiKey \<Rightarrow> k_ID apiKey = keyID | None \<Rightarrow> False) (w_keys w (a_apiKeys a))"

definition RevokeAPIKey :: "auth_env \<Rightarrow> string \<Rightarrow> Authenticator \<Rightarrow> string option \<times> Authenticator" where
  "RevokeAPIKey w keyID a =
     (case find_key w keyID a of
        None \<Rightarrow> (Some ''API key not found'', a)
      | Some keyString \<Rightarrow>
          let a = log_audit
                \<lparr>ae_ID = generateRandomString (w_rand w 0) 16, ae_Timestamp = w_now w 0, ae_EventType = ''api_key_revoked'',
                 ae_UserID = [], ae_APIKeyID = keyID, ae_Resource = ''api_key'', ae_Action = ''revoke'',
                 ae_Result = ''success'', ae_Details = []\<rparr> a
          in (None, a\<lparr>a_apiKeys := fmdrop keyString (a_apiKeys a)\<rparr>))"

definition ValidateAPIKeySimple :: "auth_env \<Rightarrow> string \<Rightarrow> Authenticator \<Rightarrow> (bool \<times> string) \<times> Authenticator" where
  "ValidateAPIKeySimple w keyString a =
     (case ValidateAPIKey w keyString a of
        (Inl _, a) \<Rightarrow> ((False, []), a)
      | (Inr apiKey, a) \<Rightarrow> ((True, k_UserID apiKey), a))"

text \<open>\<^verbatim>\<open>NewAuthenticator\<close> with the configuration it was given or the default one.\<close>

definition NewAuthenticator :: "auth_env \<Rightarrow> AuthConfig option \<Rightarrow> InMemoryAuditLogger option \<Rightarrow> Authenticator option" where
  "NewAuthenticator w config auditLogger =
     (let a = \<lparr>a_config = (case config of None \<Rightarrow> DefaultAuthConfig | Some c \<Rightarrow> c), a_users = fmempty, a_apiKeys = fmempty,
               a_auditLogger = auditLogger\<rparr>;
          (adminUser, a) = CreateUser w ''admin'' ''admin@portask.local'' [RoleAdmin] a
      in map_option snd (GenerateAPIKey (after 3 2 w) (u_ID adminUser) ''default-admin-key'' ''Default admin API key''
           [PermissionSystemManage] None a))"

subsection \<open>Tokens\<close>

text \<open>
  The package \<^verbatim>\<open>golang-jwt\<close>: dates of its precision, the signature with HMAC and SHA-256, and the parser, which
  asks the caller for the key of a signing method and tells whether the token is valid.
\<close>

datatype SigningMethod = SigningMethodHMAC | OtherMethod string

record jwt_lib =
  jwt_NewNumericDate :: "instant \<Rightarrow> instant"
  jwt_SignedString :: "JWTClaims \<Rightarrow> string \<Rightarrow> string + string"
  jwt_ParseWithClaims :: "instant \<Rightarrow> string \<Rightarrow> (SigningMethod \<Rightarrow> string + string) \<Rightarrow> string + JWTClaims \<times> bool"

definition keyfunc :: "Authenticator \<Rightarrow> SigningMethod \<Rightarrow> string + string" where
  "keyfunc a m =
     (case m of
        SigningMethodHMAC \<Rightarrow> Inr (ac_JWTSecret (a_config a))
      | OtherMethod alg \<Rightarrow> Inl (''unexpected signing method: '' @ alg))"

definition GenerateJWT :: "jwt_lib \<Rightarrow> auth_env \<Rightarrow> User \<Rightarrow> Authenticator \<Rightarrow> string + string" where
  "GenerateJWT j w user a =
     jwt_SignedString j
       \<lparr>jc_UserID = u_ID user, jc_Username = u_Username user, jc_Roles = u_Roles user,
        jc_Permissions = getRolePermissions w (u_Roles user),
        jc_ExpiresAt = Some (jwt_NewNumericDate j (w_now w 0 + ac_JWTExpiration (a_config a))),
        jc_IssuedAt = Some (jwt_NewNumericDate j (w_now w 1)), jc_NotBefore = Some (jwt_NewNumericDate j (w_now w 2)),
        jc_Issuer = ''portask'', jc_Subject = u_ID user, jc_ID = generateRandomString (w_rand w 0) 16\<rparr>
       (ac_JWTSecret (a_config a))"

definition ValidateJWT :: "jwt_lib \<Rightarrow> auth_env \<Rightarrow> string \<Rightarrow> Authenticator \<Rightarrow> string + JWTClaims" where
  "ValidateJWT j w tokenString a =
     (case jwt_ParseWithClaims j (w_now w 0) tokenString (keyfunc a) of
        Inl e \<Rightarrow> Inl (''invalid token: '' @ e)
      | Inr (claims, valid) \<Rightarrow> if valid then Inr claims else Inl ''invalid token claims'')"

definition ValidateToken :: "jwt_lib \<Rightarrow> auth_env \<Rightarrow> string \<Rightarrow> Authenticator \<Rightarrow> string + JWTClaims" where
  "ValidateToken j w tokenString a =
     (case jwt_ParseWithClaims j (w_now w 0) tokenString (keyfunc a) of
        Inl e \<Rightarrow> Inl (''failed to parse token: '' @ e)
      | Inr (claims, valid) \<Rightarrow>
          if valid
          then if (case jc_ExpiresAt claims of None \<Rightarrow> False | Some e \<Rightarrow> e < w_now w 1) then Inl ''token expired'' else Inr claims
          else Inl ''invalid token claims'')"

definition GenerateToken :: "jwt_lib \<Rightarrow> auth_env \<Rightarrow> string \<Rightarrow> string list \<Rightarrow> Authenticator \<Rightarrow> string + string \<times> instant" where
  "GenerateToken j w userID roles a =
     (let expiresAt = w_now w 0 + ac_JWTExpiration (a_config a)
      in case jwt_SignedString j
           \<lparr>jc_UserID = userID, jc_Username = [], jc_Roles = roles, jc_Permissions = [],
            jc_ExpiresAt = Some (jwt_NewNumericDate j expiresAt), jc_IssuedAt = Some (jwt_NewNumericDate j (w_now w 1)),
            jc_NotBefore = Some (jwt_NewNumericDate j (w_now w 2)), jc_Issuer = ''portask'', jc_Subject = [], jc_ID = []\<rparr>
           (ac_JWTSecret (a_config a)) of
           Inl e \<Rightarrow> Inl (''failed to sign token: '' @ e)
         | Inr tokenString \<Rightarrow> Inr (tokenString, expiresAt))"

definition GenerateRefreshToken :: "jwt_lib \<Rightarrow> auth_env \<Rightarrow> string \<Rightarrow> string list \<Rightarrow> Authenticator \<Rightarrow> string + string \<times> instant" where
  "GenerateRefreshToken j w userID roles a =
     (let expiresAt = w_now w 0 + wrap64 (ac_JWTExpiration (a_config a) * 7)
      in case jwt_SignedString j
           \<lparr>jc_UserID = userID, jc_Username = [], jc_Roles = roles, jc_Permissions = [],
            jc_ExpiresAt = Some (jwt_NewNumericDate j expiresAt), jc_IssuedAt = Some (jwt_NewNumericDate j (w_now w 1)),
            jc_NotBefore = Some (jwt_NewNumericDate j (w_now w 2)), jc_Issuer = ''portask'', jc_Subject = ''refresh'', jc_ID = []\<rparr>
           (ac_JWTSecret (a_config a)) of
           Inl e \<Rightarrow> Inl (''failed to sign refresh token: '' @ e)
         | Inr tokenString \<Rightarrow> Inr (tokenString, expiresAt))"

text \<open>The password is not looked at.\<close>

definition ValidateCredentials :: "auth_env \<Rightarrow> string \<Rightarrow> string \<Rightarrow> Authenticator \<Rightarrow> string + string" where
  "ValidateCredentials w username password a =
     (case find (\<lambda>uid. case fmlookup (a_users a) uid of Some user \<Rightarrow> u_Username user = username \<and> u_Active user | None \<Rightarrow> False)
             (w_users w (a_users a)) of
        Some uid \<Rightarrow> Inr uid
      | None \<Rightarrow> Inl ''invalid credentials'')"

subsection \<open>Requests\<close>

text \<open>What authentication reads of an HTTP request; a header that is absent is the empty string.\<close>

record http_request =
  r_Authorization :: string
  r_XAPIKey :: string
  r_XForwardedFor :: string
  r_XRealIP :: string
  r_RemoteAddr :: string
  r_UserAgent :: string

definition HasPrefix :: "string \<Rightarrow> string \<Rightarrow> bool" where
  "HasPrefix s prefix = (take (length prefix) s = prefix)"

definition TrimPrefix :: "string \<Rightarrow> string \<Rightarrow> string" where
  "TrimPrefix s prefix = (if HasPrefix s prefix then drop (length prefix) s else s)"

definition getClientIP :: "http_request \<Rightarrow> string" where
  "getClientIP r =
     (if r_XForwardedFor r \<noteq> []
      then string_of (TrimSpace (bytes_of (takeWhile (\<lambda>c. c \<noteq> CHR '','') (r_XForwardedFor r))))
      else if r_XRealIP r \<noteq> [] then r_XRealIP r
      else takeWhile (\<lambda>c. c \<noteq> CHR '':'') (r_RemoteAddr r))"

definition authenticateRequest ::
  "jwt_lib \<Rightarrow> auth_env \<Rightarrow> http_request \<Rightarrow> Authenticator \<Rightarrow> (string + AuthContext) \<times> Authenticator" where
  "authenticateRequest j w r a =
     (if r_Authorization r \<noteq> [] \<and> HasPrefix (r_Authorization r) ''Bearer ''
      then (case ValidateJWT j w (TrimPrefix (r_Authorization r) ''Bearer '') a of
              Inl e \<Rightarrow> (Inl e, a)
            | Inr claims \<Rightarrow>
                (case GetUser (jc_UserID claims) a of
                   Inl e \<Rightarrow> (Inl e, a)
                 | Inr user \<Rightarrow>
                     (Inr \<lparr>ctx_User = Some user, ctx_APIKey = None, ctx_Permissions = jc_Permissions claims,
                           ctx_AuthMethod = ''jwt'', ctx_ClientIP = getClientIP r, ctx_UserAgent = r_UserAgent r\<rparr>, a)))
      else if r_XAPIKey r \<noteq> []
      then (case ValidateAPIKey w (r_XAPIKey r) a of
              (Inl e, a) \<Rightarrow> (Inl e, a)
            | (Inr apiKey, a) \<Rightarrow>
                (Inr \<lparr>ctx_User = (case GetUser (k_UserID apiKey) a of Inl _ \<Rightarrow> None | Inr user \<Rightarrow> Some user),
                      ctx_APIKey = Some apiKey, ctx_Permissions = k_Permissions apiKey, ctx_AuthMethod = ''api_key'',
                      ctx_ClientIP = getClientIP r, ctx_UserAgent = r_UserAgent r\<rparr>, a))
      else (Inl ''no authentication provided'', a))"

section \<open>The HTTP endpoints\<close>

record AuthAPI =
  api_auth :: Authenticator
  api_rateLimiter :: RateLimiter

definition NewAuthAPI :: "Authenticator \<Rightarrow> AuthAPI" where
  "NewAuthAPI a = \<lparr>api_auth = a, api_rateLimiter = NewRateLimiter (ac_RateLimitRPS (a_config a))\<rparr>"

record LoginRequest =
  lr_Username :: string
  lr_Password :: string
  lr_Email :: string

record CreateUserRequest =
  cu_Username :: string
  cu_Email :: string
  cu_Roles :: "string list"
  cu_Password :: string

record CreateAPIKeyRequest =
  ck_Name :: string
  ck_Description :: string
  ck_Permissions :: "string list"
  ck_ExpiresAt :: "instant option"

text \<open>The bodies of the answers, without the time stamps of error and health answers.\<close>

datatype auth_body =
    ErrorBody string
  | HealthBody
  | LoginResponse (lp_Token: string) (lp_ExpiresAt: instant) (lp_User: User)
  | UserBody User
  | UsersBody "User list" nat
  | MessageBody string
  | CreateAPIKeyResponse APIKey string
  | KeysBody "APIKey list" nat
  | TokenBody "User option" "string list" string
  | EventsBody "AuditEvent list" nat int
  | CheckPermissionResponse bool "string list" "string list"

type_synonym auth_reply = "nat \<times> auth_body"

text \<open>A handler gives the answer and the new state; \<^const>\<open>None\<close> is a panic.\<close>

type_synonym handled = "(auth_reply \<times> Authenticator) option"

definition invalid_format :: auth_reply where "invalid_format = (400, ErrorBody ''Invalid request format'')"
definition insufficient :: auth_reply where "insufficient = (403, ErrorBody ''Insufficient permissions'')"

text \<open>A body that could not be decoded is \<^const>\<open>None\<close>.\<close>

definition find_user :: "auth_env \<Rightarrow> LoginRequest \<Rightarrow> Authenticator \<Rightarrow> User option" where
  "find_user w req a =
     find (\<lambda>u. u_Username u = lr_Username req \<or> u_Email u = lr_Email req) (visit (w_users w (a_users a)) (a_users a))"

definition loginHandler :: "jwt_lib \<Rightarrow> auth_env \<Rightarrow> LoginRequest option \<Rightarrow> Authenticator \<Rightarrow> handled" where
  "loginHandler j w body a =
     (case body of
        None \<Rightarrow> Some (invalid_format, a)
      | Some req \<Rightarrow>
          let (user, a) =
                (case find_user w req a of
                   Some user \<Rightarrow> (user, a)
                 | None \<Rightarrow> CreateUser w (lr_Username req)
                     (if lr_Email req = [] then lr_Username req @ ''@portask.local'' else lr_Email req) [RoleConsumer] a);
              w = after 3 2 w
          in case GenerateJWT j w user a of
               Inl _ \<Rightarrow> Some ((500, ErrorBody ''Failed to generate token''), a)
             | Inr token \<Rightarrow> Some ((200, LoginResponse token (w_now w 3 + ac_JWTExpiration (a_config a)) user), a))"

definition healthHandler :: "Authenticator \<Rightarrow> handled" where
  "healthHandler a = Some ((200, HealthBody), a)"

definition createUserHandler :: "auth_env \<Rightarrow> AuthContext \<Rightarrow> CreateUserRequest option \<Rightarrow> Authenticator \<Rightarrow> handled" where
  "createUserHandler w authCtx body a =
     (if \<not> HasPermission authCtx PermissionAdminWrite then Some (insufficient, a)
      else case body of
        None \<Rightarrow> Some (invalid_format, a)
      | Some req \<Rightarrow>
          let (user, a) = CreateUser w (cu_Username req) (cu_Email req) (cu_Roles req) a
          in Some ((201, UserBody user), a))"

definition listUsersHandler :: "auth_env \<Rightarrow> AuthContext \<Rightarrow> Authenticator \<Rightarrow> handled" where
  "listUsersHandler w authCtx a =
     (if \<not> HasPermission authCtx PermissionAdminRead then Some (insufficient, a)
      else let users = visit (w_users w (a_users a)) (a_users a)
           in Some ((200, UsersBody users (length users)), a))"

definition getUserHandler :: "AuthContext \<Rightarrow> string \<Rightarrow> Authenticator \<Rightarrow> handled" where
  "getUserHandler authCtx userID a =
     (case ctx_User authCtx of
        None \<Rightarrow> None
      | Some caller \<Rightarrow>
          if u_ID caller \<noteq> userID \<and> \<not> HasPermission authCtx PermissionAdminRead then Some (insufficient, a)
          else case GetUser userID a of
            Inl _ \<Rightarrow> Some ((404, ErrorBody ''User not found''), a)
          | Inr user \<Rightarrow> Some ((200, UserBody user), a))"

text \<open>
  \<^verbatim>\<open>encoding/json\<close> decodes an array in a \<^verbatim>\<open>map[string]interface{}\<close> to an \<^verbatim>\<open>[]interface{}\<close>, which is not a
  \<^verbatim>\<open>[]string\<close>.
\<close>

datatype json_value = JNull | JBool bool | JNum rat | JText string | JArray "json_value list" | JObject "(string \<times> json_value) list"

fun interface_value :: "json_value \<Rightarrow> update_value" where
  "interface_value (JText s) = UString s"
| "interface_value (JBool b) = UBool b"
| "interface_value _ = UOther"

definition updateUserHandler ::
  "auth_env \<Rightarrow> AuthContext \<Rightarrow> string \<Rightarrow> (string \<rightharpoonup> json_value) option \<Rightarrow> Authenticator \<Rightarrow> handled" where
  "updateUserHandler w authCtx userID body a =
     (case ctx_User authCtx of
        None \<Rightarrow> None
      | Some caller \<Rightarrow>
          if u_ID caller \<noteq> userID \<and> \<not> HasPermission authCtx PermissionAdminWrite then Some (insufficient, a)
          else case body of
            None \<Rightarrow> Some (invalid_format, a)
          | Some updates \<Rightarrow>
              (case UpdateUser w userID (map_option interface_value \<circ> updates) a of
                 (Inl _, a) \<Rightarrow> Some ((404, ErrorBody ''User not found''), a)
               | (Inr user, a) \<Rightarrow> Some ((200, UserBody user), a)))"

definition deleteUserHandler :: "AuthContext \<Rightarrow> string \<Rightarrow> Authenticator \<Rightarrow> handled" where
  "deleteUserHandler authCtx userID a =
     (if \<not> HasPermission authCtx PermissionAdminWrite then Some (insufficient, a)
      else case DeleteUser userID a of
        (Some _, a) \<Rightarrow> Some ((404, ErrorBody ''User not found''), a)
      | (None, a) \<Rightarrow> Some ((200, MessageBody ''User deleted successfully''), a))"

text \<open>The answer shares the key with the map: the assignment of \<^verbatim>\<open>***\<close> reaches both.\<close>

definition createAPIKeyHandler :: "auth_env \<Rightarrow> AuthContext \<Rightarrow> CreateAPIKeyRequest option \<Rightarrow> Authenticator \<Rightarrow> handled" where
  "createAPIKeyHandler w authCtx body a =
     (case body of
        None \<Rightarrow> Some (invalid_format, a)
      | Some req \<Rightarrow>
          (case find (\<lambda>perm. \<not> HasPermission authCtx perm) (ck_Permissions req) of
             Some perm \<Rightarrow> Some ((403, ErrorBody (''Cannot grant permission: '' @ perm)), a)
           | None \<Rightarrow>
               (case ctx_User authCtx of
                  None \<Rightarrow> None
                | Some caller \<Rightarrow>
                    (case GenerateAPIKey w (u_ID caller) (ck_Name req) (ck_Description req) (ck_Permissions req) (ck_ExpiresAt req) a of
                       None \<Rightarrow> None
                     | Some (apiKey, a) \<Rightarrow>
                         let hidden = apiKey\<lparr>k_Key := ''***''\<rparr>
                         in Some ((201, CreateAPIKeyResponse hidden (k_Key apiKey)),
                                  a\<lparr>a_apiKeys := fmupd (k_Key apiKey) hidden (a_apiKeys a)\<rparr>)))))"

definition listAPIKeysHandler :: "auth_env \<Rightarrow> AuthContext \<Rightarrow> Authenticator \<Rightarrow> handled" where
  "listAPIKeysHandler w authCtx a =
     (let keys = visit (w_keys w (a_apiKeys a)) (a_apiKeys a)
      in case ctx_User authCtx of
           None \<Rightarrow> if keys = [] then Some ((200, KeysBody [] 0), a) else None
         | Some caller \<Rightarrow>
             let apiKeys = map (\<lambda>key. key\<lparr>k_Key := ''***''\<rparr>)
                   (filter (\<lambda>key. k_UserID key = u_ID caller \<or> HasPermission authCtx PermissionAdminRead) keys)
             in Some ((200, KeysBody apiKeys (length apiKeys)), a))"

definition revokeAPIKeyHandler :: "auth_env \<Rightarrow> AuthContext \<Rightarrow> string \<Rightarrow> Authenticator \<Rightarrow> handled" where
  "revokeAPIKeyHandler w authCtx keyID a =
     (case find (\<lambda>key. k_ID key = keyID) (visit (w_keys w (a_apiKeys a)) (a_apiKeys a)) of
        None \<Rightarrow> Some ((404, ErrorBody ''API key not found''), a)
      | Some targetKey \<Rightarrow>
          (case ctx_User authCtx of
             None \<Rightarrow> None
           | Some caller \<Rightarrow>
               if k_UserID targetKey \<noteq> u_ID caller \<and> \<not> HasPermission authCtx PermissionAdminWrite then Some (insufficient, a)
               else (case RevokeAPIKey w keyID a of
                       (Some _, a) \<Rightarrow> Some ((404, ErrorBody ''API key not found''), a)
                     | (None, a) \<Rightarrow> Some ((200, MessageBody ''API key revoked successfully''), a))))"

definition refreshTokenHandler :: "jwt_lib \<Rightarrow> auth_env \<Rightarrow> AuthContext \<Rightarrow> Authenticator \<Rightarrow> handled" where
  "refreshTokenHandler j w authCtx a =
     (case ctx_User authCtx of
        None \<Rightarrow> None
      | Some user \<Rightarrow>
          (case GenerateJWT j w user a of
             Inl _ \<Rightarrow> Some ((500, ErrorBody ''Failed to refresh token''), a)
           | Inr token \<Rightarrow> Some ((200, LoginResponse token (w_now w 3 + ac_JWTExpiration (a_config a)) user), a)))"

definition validateTokenHandler :: "AuthContext \<Rightarrow> Authenticator \<Rightarrow> handled" where
  "validateTokenHandler authCtx a =
     Some ((200, TokenBody (ctx_User authCtx) (ctx_Permissions authCtx) (ctx_AuthMethod authCtx)), a)"

text \<open>The numbers that \<^verbatim>\<open>parseIntParam\<close> reads wrap around; a text that is no number gives an error.\<close>

fun parseIntParam :: "string \<Rightarrow> i64 \<Rightarrow> i64 option" where
  "parseIntParam [] result = Some result"
| "parseIntParam (c # s) result =
     (if of_char c < (48::nat) \<or> of_char c > (57::nat) then None
      else parseIntParam s (result * 10 + of_nat (of_char c - 48)))"

definition audit_filters :: "(string \<Rightarrow> string) \<Rightarrow> string \<rightharpoonup> filter_value" where
  "audit_filters query name =
     (if name \<in> {''user_id'', ''event_type'', ''resource'', ''action''} \<and> query name \<noteq> [] then Some (FText (query name)) else None)"

definition audit_limit :: "(string \<Rightarrow> string) \<Rightarrow> int" where
  "audit_limit query =
     (if query ''limit'' = [] then 100
      else case parseIntParam (query ''limit'') 0 of
        None \<Rightarrow> 100
      | Some l \<Rightarrow> if sint l > 0 \<and> sint l \<le> 1000 then sint l else 100)"

definition getAuditLogsHandler :: "AuthContext \<Rightarrow> (string \<Rightarrow> string) \<Rightarrow> Authenticator \<Rightarrow> handled" where
  "getAuditLogsHandler authCtx query a =
     (if \<not> HasPermission authCtx PermissionAdminRead then Some (insufficient, a)
      else case a_auditLogger a of
        None \<Rightarrow> None
      | Some l \<Rightarrow>
          let limit = audit_limit query; events = GetEvents (audit_filters query) limit l
          in Some ((200, EventsBody events (length events) limit), a))"

definition checkPermissionHandler :: "AuthContext \<Rightarrow> string option \<Rightarrow> Authenticator \<Rightarrow> handled" where
  "checkPermissionHandler authCtx body a =
     (case body of
        None \<Rightarrow> Some (invalid_format, a)
      | Some permission \<Rightarrow>
          (case ctx_User authCtx of
             None \<Rightarrow> None
           | Some user \<Rightarrow>
               Some ((200, CheckPermissionResponse (HasPermission authCtx permission) (u_Roles user) (ctx_Permissions authCtx)), a)))"

subsection \<open>Routes\<close>

text \<open>A request that the router has matched: the route, its variable and the decoded body.\<close>

datatype auth_call =
    Login "LoginRequest option"
  | Health
  | CreateUserCall "CreateUserRequest option"
  | ListUsers
  | GetUserCall string
  | UpdateUserCall string "(string \<rightharpoonup> json_value) option"
  | DeleteUserCall string
  | CreateKey "CreateAPIKeyRequest option"
  | ListKeys
  | RevokeKey string
  | RefreshToken
  | ValidateTokenCall
  | AuditLogs "string \<Rightarrow> string"
  | CheckPermission "string option"

definition public_call :: "auth_call \<Rightarrow> bool" where
  "public_call c = (case c of Login _ \<Rightarrow> True | Health \<Rightarrow> True | _ \<Rightarrow> False)"

definition route :: "jwt_lib \<Rightarrow> auth_env \<Rightarrow> AuthContext \<Rightarrow> auth_call \<Rightarrow> Authenticator \<Rightarrow> handled" where
  "route j w authCtx c a =
     (case c of
        Login body \<Rightarrow> loginHandler j w body a
      | Health \<Rightarrow> healthHandler a
      | CreateUserCall body \<Rightarrow> createUserHandler w authCtx body a
      | ListUsers \<Rightarrow> listUsersHandler w authCtx a
      | GetUserCall uid \<Rightarrow> getUserHandler authCtx uid a
      | UpdateUserCall uid body \<Rightarrow> updateUserHandler w authCtx uid body a
      | DeleteUserCall uid \<Rightarrow> deleteUserHandler authCtx uid a
      | CreateKey body \<Rightarrow> createAPIKeyHandler w authCtx body a
      | ListKeys \<Rightarrow> listAPIKeysHandler w authCtx a
      | RevokeKey kid \<Rightarrow> revokeAPIKeyHandler w authCtx kid a
      | RefreshToken \<Rightarrow> refreshTokenHandler j w authCtx a
      | ValidateTokenCall \<Rightarrow> validateTokenHandler authCtx a
      | AuditLogs query \<Rightarrow> getAuditLogsHandler authCtx query a
      | CheckPermission body \<Rightarrow> checkPermissionHandler authCtx body a)"

definition rateLimitMiddleware :: "auth_env \<Rightarrow> http_request \<Rightarrow> AuthAPI \<Rightarrow> bool \<times> AuthAPI" where
  "rateLimitMiddleware w r api =
     (if ac_EnableRateLimit (a_config (api_auth api))
      then let (ok, rl) = Allow (w_now w 0) (getClientIP r) (api_rateLimiter api) in (ok, api\<lparr>api_rateLimiter := rl\<rparr>)
      else (True, api))"

definition no_context :: AuthContext where
  "no_context = \<lparr>ctx_User = None, ctx_APIKey = None, ctx_Permissions = [], ctx_AuthMethod = [], ctx_ClientIP = [], ctx_UserAgent = []\<rparr>"

text \<open>
  The whole path of a request: public routes go to their handler, the others through \<^verbatim>\<open>AuthMiddleware\<close> and then
  \<^verbatim>\<open>rateLimitMiddleware\<close>, as \<^verbatim>\<open>setupRoutes\<close> arranges them.
\<close>

definition serve_request :: "jwt_lib \<Rightarrow> auth_env \<Rightarrow> http_request \<Rightarrow> auth_call \<Rightarrow> AuthAPI \<Rightarrow> (auth_reply \<times> AuthAPI) option" where
  "serve_request j w r c api =
     (if public_call c
      then map_option (\<lambda>(reply, a). (reply, api\<lparr>api_auth := a\<rparr>)) (route j w no_context c (api_auth api))
      else case authenticateRequest j w r (api_auth api) of
        (Inl _, a) \<Rightarrow> Some ((401, ErrorBody ''Unauthorized''), api\<lparr>api_auth := a\<rparr>)
      | (Inr authCtx, a) \<Rightarrow>
          (case rateLimitMiddleware (after 2 0 w) r (api\<lparr>api_auth := a\<rparr>) of
             (False, api) \<Rightarrow> Some ((429, ErrorBody ''Rate limit exceeded''), api)
           | (True, api) \<Rightarrow>
               map_option (\<lambda>(reply, a). (reply, api\<lparr>api_auth := a\<rparr>)) (route j (after 3 0 w) authCtx c (api_auth api))))"

end
