(* ===== verification/Auth_Policy.thy ===== *)
theory Auth_Policy
  imports Auth
begin

text \<open>
  What the authentication service promises: every request changes users and keys as an access policy allows, no
  request panics, a revoked key stays dead, requests without the permission to administrate give no one more
  privileges, and a login gives a token that is accepted with the permissions of the user.
\<close>

section \<open>The access policy\<close>

text \<open>
  What the users and the keys of an authenticator may become in one request, stated without the handlers: by the
  context of the caller (\<^const>\<open>None\<close> on a public route), and by the identifier and the key string that the
  random number generator holds ready.
\<close>

type_synonym accounts = "(string, User) fmap \<times> (string, APIKey) fmap"

definition accounts :: "Authenticator \<Rightarrow> accounts" where
  "accounts a = (a_users a, a_apiKeys a)"

inductive policy :: "AuthContext option \<Rightarrow> string \<Rightarrow> string \<Rightarrow> accounts \<Rightarrow> accounts \<Rightarrow> bool"
  for ctx :: "AuthContext option" and newID newKey :: string where
  unchanged: "policy ctx newID newKey s s"
| register: "policy ctx newID newKey (us, ks) (fmupd newID u us, ks)"
    if "ctx = None" "u_ID u = newID" "u_Roles u = [RoleConsumer]"
| add_user: "policy ctx newID newKey (us, ks) (fmupd newID u us, ks)"
    if "ctx = Some c" "HasPermission c PermissionAdminWrite" "u_ID u = newID"
| edit: "policy ctx newID newKey (us, ks) (fmupd i u' us, ks)"
    if "ctx = Some c" "ctx_User c = Some caller" "u_ID caller = i \<or> HasPermission c PermissionAdminWrite"
       "fmlookup us i = Some u" "u_ID u' = u_ID u" "u_Roles u' = u_Roles u"
| remove_user: "policy ctx newID newKey (us, ks) (fmdrop i us, fmfilter P ks)"
    if "ctx = Some c" "HasPermission c PermissionAdminWrite" "i |\<in>| fmdom us"
       "\<And>k. P k \<longleftrightarrow> (case fmlookup ks k of Some key \<Rightarrow> k_UserID key \<noteq> i | None \<Rightarrow> True)"
| grant: "policy ctx newID newKey (us, ks) (us, fmupd newKey key ks)"
    if "ctx = Some c" "ctx_User c = Some caller" "k_UserID key = u_ID caller"
       "set (k_Permissions key) \<subseteq> set (ctx_Permissions c)"
| revoke: "policy ctx newID newKey (us, ks) (us, fmdrop k ks)"
    if "ctx = Some c" "ctx_User c = Some caller" "fmlookup ks k = Some key"
       "k_UserID key = u_ID caller \<or> HasPermission c PermissionAdminWrite"

text \<open>Two sets of keys that differ only in when they were used last.\<close>

definition same_keys :: "(string, APIKey) fmap \<Rightarrow> (string, APIKey) fmap \<Rightarrow> bool" where
  "same_keys ks ks' \<longleftrightarrow> fmmap (\<lambda>key. key\<lparr>k_LastUsedAt := None\<rparr>) ks = fmmap (\<lambda>key. key\<lparr>k_LastUsedAt := None\<rparr>) ks'"

abbreviation new_id :: "auth_env \<Rightarrow> string" where
  "new_id w \<equiv> generateRandomString (w_rand w 0) 16"

definition new_key :: "auth_env \<Rightarrow> Authenticator \<Rightarrow> string" where
  "new_key w a = generateRandomString (w_rand w 0) (nat (ac_APIKeyLength (a_config a)))"

subsection \<open>Effects of the operations\<close>

lemma log_audit_simps [simp]:
  "a_users (log_audit e a) = a_users a" "a_apiKeys (log_audit e a) = a_apiKeys a"
  "a_config (log_audit e a) = a_config a" "a_auditLogger (log_audit e a) = None \<longleftrightarrow> a_auditLogger a = None"
  by (auto simp: log_audit_def split: option.splits)

lemma after_simps [simp]: "w_rand (after n 0 w) = w_rand w" "env_ok (after n m w) = env_ok w"
  by (simp_all add: after_def env_ok_def)

lemma env_okD:
  "env_ok w \<Longrightarrow> range_order (fmlookup m) (w_users w m)"
  "env_ok w \<Longrightarrow> range_order (fmlookup n) (w_keys w n)"
  by (simp_all add: env_ok_def)

lemma CreateUser_effect:
  assumes "CreateUser w username email roles a = (user, a')"
  shows "a_users a' = fmupd (new_id w) user (a_users a)" "a_apiKeys a' = a_apiKeys a" "a_config a' = a_config a"
    "a_auditLogger a' = None \<longleftrightarrow> a_auditLogger a = None"
    "u_ID user = new_id w" "u_Roles user = roles" "u_Username user = username"
  using assms by (auto simp: CreateUser_def Let_def)

lemma GenerateAPIKey_effect:
  assumes "GenerateAPIKey w userID name description permissions expiresAt a = Some (key, a')"
  shows "a_users a' = a_users a" "a_apiKeys a' = fmupd (new_key w a) key (a_apiKeys a)" "a_config a' = a_config a"
    "a_auditLogger a' = None \<longleftrightarrow> a_auditLogger a = None"
    "k_UserID key = userID" "k_Permissions key = permissions" "k_Key key = new_key w a"
  using assms by (auto simp: GenerateAPIKey_def new_key_def Let_def split: if_splits)

lemma UpdateUser_effect:
  assumes "UpdateUser w i updates a = (Inr user, a')"
  obtains u where "fmlookup (a_users a) i = Some u" "a_users a' = fmupd i user (a_users a)" "a_apiKeys a' = a_apiKeys a"
    "a_config a' = a_config a" "a_auditLogger a' = a_auditLogger a" "u_ID user = u_ID u"
    "u_Roles user = (case updates ''roles'' of Some (UStrings rs) \<Rightarrow> rs | _ \<Rightarrow> u_Roles u)"
  using assms by (auto simp: UpdateUser_def Let_def apply_updates_def split: option.splits)

lemma UpdateUser_error: "UpdateUser w i updates a = (Inl e, a') \<Longrightarrow> a' = a"
  by (auto simp: UpdateUser_def Let_def split: option.splits)

lemma interface_not_strings [simp]: "interface_value v \<noteq> UStrings rs"
  by (cases v) auto

lemma find_map_filter:
  "find P (List.map_filter f xs) = Option.bind (find (\<lambda>x. case f x of Some y \<Rightarrow> P y | None \<Rightarrow> False) xs) f"
  by (induction xs) (auto simp: List.map_filter_simps split: option.splits)

lemma find_visit:
  assumes "find P (visit order m) = Some v"
  obtains k where "k \<in> set order" "fmlookup m k = Some v" "P v"
proof -
  from assms obtain k where k: "find (\<lambda>x. case fmlookup m x of Some y \<Rightarrow> P y | None \<Rightarrow> False) order = Some k"
    and v: "fmlookup m k = Some v"
    unfolding visit_def find_map_filter by (auto simp: bind_eq_Some_conv)
  from k have "k \<in> set order" "case fmlookup m k of Some y \<Rightarrow> P y | None \<Rightarrow> False"
    unfolding find_Some_iff by auto
  with v show ?thesis by (intro that) auto
qed

lemma find_key_Some:
  assumes "find_key w keyID a = Some k"
  obtains key where "fmlookup (a_apiKeys a) k = Some key" "k_ID key = keyID"
proof -
  from assms have "case fmlookup (a_apiKeys a) k of Some apiKey \<Rightarrow> k_ID apiKey = keyID | None \<Rightarrow> False"
    unfolding find_key_def find_Some_iff by blast
  then show ?thesis by (cases "fmlookup (a_apiKeys a) k") (auto intro: that)
qed

text \<open>The key that the handler looks at is the one that is revoked: both loops take the first.\<close>

lemma find_key_visit:
  "find (\<lambda>key. k_ID key = keyID) (visit (w_keys w (a_apiKeys a)) (a_apiKeys a)) =
     Option.bind (find_key w keyID a) (fmlookup (a_apiKeys a))"
  by (simp add: find_key_def visit_def find_map_filter)

lemma RevokeAPIKey_effect:
  assumes "RevokeAPIKey w keyID a = (None, a')"
  obtains k where "find_key w keyID a = Some k" "a_users a' = a_users a" "a_apiKeys a' = fmdrop k (a_apiKeys a)"
    "a_config a' = a_config a" "a_auditLogger a' = None \<longleftrightarrow> a_auditLogger a = None"
  using assms by (auto simp: RevokeAPIKey_def Let_def split: option.splits)

lemma RevokeAPIKey_error: "RevokeAPIKey w keyID a = (Some e, a') \<Longrightarrow> a' = a"
  by (auto simp: RevokeAPIKey_def Let_def split: option.splits)

lemma same_keys_refl [simp]: "same_keys ks ks"
  by (simp add: same_keys_def)

lemma same_keys_touch: "fmlookup ks k = Some key \<Longrightarrow> same_keys ks (fmupd k (key\<lparr>k_LastUsedAt := t\<rparr>) ks)"
  unfolding same_keys_def by (rule fmap_ext) auto

lemma same_keys_lookup:
  assumes "same_keys ks ks'"
  shows "map_option (\<lambda>key. key\<lparr>k_LastUsedAt := None\<rparr>) (fmlookup ks k) = map_option (\<lambda>key. key\<lparr>k_LastUsedAt := None\<rparr>) (fmlookup ks' k)"
  using arg_cong [OF assms [unfolded same_keys_def], of "\<lambda>m. fmlookup m k"] by simp

lemma same_keys_None: "same_keys ks ks' \<Longrightarrow> fmlookup ks' k = None \<longleftrightarrow> fmlookup ks k = None"
  using same_keys_lookup [of ks ks' k] by (cases "fmlookup ks k"; cases "fmlookup ks' k") auto

lemma same_keys_Some:
  assumes "same_keys ks ks'" "fmlookup ks' k = Some key'"
  obtains key where "fmlookup ks k = Some key" "key\<lparr>k_LastUsedAt := None\<rparr> = key'\<lparr>k_LastUsedAt := None\<rparr>"
  using same_keys_lookup [OF assms(1), of k] assms(2) by (cases "fmlookup ks k") auto

lemma forget_eqD:
  "key\<lparr>k_LastUsedAt := None\<rparr> = key'\<lparr>k_LastUsedAt := None\<rparr> \<Longrightarrow>
     k_UserID key = k_UserID key' \<and> k_Permissions key = k_Permissions key' \<and> k_ID key = k_ID key'"
  by (cases key; cases key') simp

lemma ValidateAPIKey_effect:
  assumes "ValidateAPIKey w k a = (res, a')"
  shows "a_users a' = a_users a" "a_config a' = a_config a" "a_auditLogger a' = a_auditLogger a"
    "same_keys (a_apiKeys a) (a_apiKeys a')"
  using assms by (auto simp: ValidateAPIKey_def Let_def same_keys_touch split: option.splits if_splits)

lemma authenticateRequest_effect:
  assumes "authenticateRequest j w r a = (res, a')"
  shows "a_users a' = a_users a" "a_config a' = a_config a" "a_auditLogger a' = a_auditLogger a"
    "same_keys (a_apiKeys a) (a_apiKeys a')"
  using assms
  by (auto simp: authenticateRequest_def split: if_splits sum.splits prod.splits dest: ValidateAPIKey_effect)

subsection \<open>The handlers implement the policy\<close>

text \<open>What no request changes: the configuration, and whether there is a log.\<close>

definition kept :: "Authenticator \<Rightarrow> Authenticator \<Rightarrow> bool" where
  "kept a a' \<longleftrightarrow> a_config a' = a_config a \<and> (a_auditLogger a' = None \<longleftrightarrow> a_auditLogger a = None)"

lemma kept_refl [simp]: "kept a a"
  by (simp add: kept_def)

definition follows :: "AuthContext option \<Rightarrow> auth_env \<Rightarrow> Authenticator \<Rightarrow> Authenticator \<Rightarrow> bool" where
  "follows ctx w a a' \<longleftrightarrow> policy ctx (new_id w) (new_key w a) (accounts a) (accounts a') \<and> kept a a'"

lemma follows_refl [simp]: "follows ctx w a a"
  by (simp add: follows_def policy.unchanged)

lemma loginHandler_follows:
  assumes "loginHandler j w body a = Some (reply, a')"
  shows "follows None w a a'"
proof (cases body)
  case None
  with assms show ?thesis by (simp add: loginHandler_def)
next
  case (Some req)
  show ?thesis
  proof (cases "find_user w req a")
    case None
    obtain user b where b: "CreateUser w (lr_Username req)
        (if lr_Email req = [] then lr_Username req @ ''@portask.local'' else lr_Email req) [RoleConsumer] a = (user, b)"
      by (cases "CreateUser w (lr_Username req)
        (if lr_Email req = [] then lr_Username req @ ''@portask.local'' else lr_Email req) [RoleConsumer] a")
    have "a' = b" using assms Some None b by (auto simp: loginHandler_def Let_def split: sum.splits)
    with CreateUser_effect [OF b] show ?thesis
      by (simp add: follows_def kept_def accounts_def policy.register)
  next
    case (Some user)
    then have "a' = a" using assms \<open>body = Some req\<close> by (auto simp: loginHandler_def Let_def split: sum.splits)
    then show ?thesis by simp
  qed
qed

lemma createUserHandler_follows:
  assumes "createUserHandler w ctx body a = Some (reply, a')"
  shows "follows (Some ctx) w a a'"
proof (cases "HasPermission ctx PermissionAdminWrite \<and> body \<noteq> None")
  case False
  with assms have "a' = a" by (auto simp: createUserHandler_def split: if_splits option.splits)
  then show ?thesis by simp
next
  case True
  then obtain req where "body = Some req" by auto
  moreover obtain user b where b: "CreateUser w (cu_Username req) (cu_Email req) (cu_Roles req) a = (user, b)"
    by (cases "CreateUser w (cu_Username req) (cu_Email req) (cu_Roles req) a")
  ultimately have "a' = b" using assms True by (simp add: createUserHandler_def)
  with CreateUser_effect [OF b] True show ?thesis
    by (simp add: follows_def kept_def accounts_def policy.add_user)
qed

lemma updateUserHandler_follows:
  assumes "updateUserHandler w ctx i body a = Some (reply, a')"
  shows "follows (Some ctx) w a a'"
proof -
  consider "a' = a" | caller updates user where "ctx_User ctx = Some caller"
      "u_ID caller = i \<or> HasPermission ctx PermissionAdminWrite"
      "UpdateUser w i (map_option interface_value \<circ> updates) a = (Inr user, a')"
    using assms by (auto simp: updateUserHandler_def split: option.splits if_splits prod.splits sum.splits dest: UpdateUser_error)
  then show ?thesis
  proof cases
    case 1
    then show ?thesis by simp
  next
    case 2
    from 2(3) show ?thesis
    proof (rule UpdateUser_effect)
      fix u
      assume u: "fmlookup (a_users a) i = Some u" "a_users a' = fmupd i user (a_users a)" "a_apiKeys a' = a_apiKeys a"
        "a_config a' = a_config a" "a_auditLogger a' = a_auditLogger a" "u_ID user = u_ID u"
        "u_Roles user = (case (map_option interface_value \<circ> updates) ''roles'' of Some (UStrings rs) \<Rightarrow> rs | _ \<Rightarrow> u_Roles u)"
      then have "u_Roles user = u_Roles u" by (auto split: option.splits update_value.splits)
      with 2(1,2) u show ?thesis
        by (auto simp: follows_def kept_def accounts_def intro: policy.edit)
    qed
  qed
qed

lemma deleteUserHandler_follows:
  assumes "deleteUserHandler ctx i a = Some (reply, a')"
  shows "follows (Some ctx) w a a'"
  using assms
  by (auto simp: deleteUserHandler_def DeleteUser_def follows_def kept_def accounts_def
        intro: policy.unchanged policy.remove_user split: if_splits)

lemma fmupd_twice: "fmupd k v (fmupd k v' m) = fmupd k v m"
  by (rule fmap_ext) simp

lemma createAPIKeyHandler_follows:
  assumes "createAPIKeyHandler w ctx body a = Some (reply, a')"
  shows "follows (Some ctx) w a a'"
proof (cases "a' = a")
  case False
  from assms False obtain req where req: "body = Some req"
    by (cases body) (simp_all add: createAPIKeyHandler_def)
  from assms False have granted: "find (\<lambda>perm. \<not> HasPermission ctx perm) (ck_Permissions req) = None"
    by (auto simp: createAPIKeyHandler_def req split: option.splits)
  from assms obtain caller where caller: "ctx_User ctx = Some caller"
    by (cases "ctx_User ctx") (simp_all add: createAPIKeyHandler_def req granted)
  from assms obtain key b where key: "GenerateAPIKey w (u_ID caller) (ck_Name req) (ck_Description req) (ck_Permissions req)
      (ck_ExpiresAt req) a = Some (key, b)" and a': "a' = b\<lparr>a_apiKeys := fmupd (k_Key key) (key\<lparr>k_Key := ''***''\<rparr>) (a_apiKeys b)\<rparr>"
    by (cases "GenerateAPIKey w (u_ID caller) (ck_Name req) (ck_Description req) (ck_Permissions req) (ck_ExpiresAt req) a")
      (auto simp: createAPIKeyHandler_def req granted caller Let_def)
  note e = GenerateAPIKey_effect [OF key]
  have "set (k_Permissions key) \<subseteq> set (ctx_Permissions ctx)"
    using granted e(6) by (auto simp: find_None_iff HasPermission_iff)
  then have "policy (Some ctx) (new_id w) (new_key w a) (a_users a, a_apiKeys a)
      (a_users a, fmupd (new_key w a) (key\<lparr>k_Key := ''***''\<rparr>) (a_apiKeys a))"
    by (intro policy.grant [OF refl caller]) (simp_all add: e)
  with a' e show ?thesis
    by (simp add: follows_def kept_def accounts_def fmupd_twice)
qed simp

lemma revokeAPIKeyHandler_follows:
  assumes "revokeAPIKeyHandler w ctx kid a = Some (reply, a')"
  shows "follows (Some ctx) w a a'"
proof -
  consider "a' = a" | key caller where "Option.bind (find_key w kid a) (fmlookup (a_apiKeys a)) = Some key"
      "ctx_User ctx = Some caller" "k_UserID key = u_ID caller \<or> HasPermission ctx PermissionAdminWrite"
      "RevokeAPIKey w kid a = (None, a')"
    using assms
    by (auto simp: revokeAPIKeyHandler_def find_key_visit split: option.splits if_splits prod.splits dest: RevokeAPIKey_error)
  then show ?thesis
  proof cases
    case 1
    then show ?thesis by simp
  next
    case 2
    from 2(4) show ?thesis
    proof (rule RevokeAPIKey_effect)
      fix k
      assume k: "find_key w kid a = Some k" "a_users a' = a_users a" "a_apiKeys a' = fmdrop k (a_apiKeys a)"
        "a_config a' = a_config a" "a_auditLogger a' = None \<longleftrightarrow> a_auditLogger a = None"
      with 2(1) have "fmlookup (a_apiKeys a) k = Some key" by simp
      with 2(2,3) k show ?thesis
        by (auto simp: follows_def kept_def accounts_def intro: policy.revoke)
    qed
  qed
qed

lemmas reading_handlers =
  healthHandler_def listUsersHandler_def getUserHandler_def listAPIKeysHandler_def refreshTokenHandler_def
  validateTokenHandler_def getAuditLogsHandler_def checkPermissionHandler_def

lemma route_follows:
  assumes "route j w ctx c a = Some (reply, a')"
  shows "follows (if public_call c then None else Some ctx) w a a'"
proof (cases c)
  case (Login body)
  with assms loginHandler_follows show ?thesis by (auto simp: route_def public_call_def)
next
  case (CreateUserCall body)
  with assms createUserHandler_follows show ?thesis by (auto simp: route_def public_call_def)
next
  case (UpdateUserCall i body)
  with assms updateUserHandler_follows show ?thesis by (auto simp: route_def public_call_def)
next
  case (DeleteUserCall i)
  with assms deleteUserHandler_follows show ?thesis by (auto simp: route_def public_call_def)
next
  case (CreateKey body)
  with assms createAPIKeyHandler_follows show ?thesis by (auto simp: route_def public_call_def)
next
  case (RevokeKey kid)
  with assms revokeAPIKeyHandler_follows show ?thesis by (auto simp: route_def public_call_def)
qed (use assms in \<open>auto simp: route_def public_call_def reading_handlers Let_def split: if_splits option.splits sum.splits\<close>)

text \<open>Where a request got through the authentication, its context.\<close>

definition context_of :: "jwt_lib \<Rightarrow> auth_env \<Rightarrow> http_request \<Rightarrow> auth_call \<Rightarrow> AuthAPI \<Rightarrow> AuthContext option" where
  "context_of j w r c api =
     (if public_call c then None
      else case fst (authenticateRequest j w r (api_auth api)) of Inl _ \<Rightarrow> None | Inr ctx \<Rightarrow> Some ctx)"

lemma serve_cases:
  assumes "serve_request j w r c api = Some (reply, api')"
  obtains (public) "public_call c" "route j w no_context c (api_auth api) = Some (reply, api_auth api')"
  | (refused) e where "\<not> public_call c" "authenticateRequest j w r (api_auth api) = (e, api_auth api')" "fst reply \<in> {401, 429}"
  | (served) ctx a where "\<not> public_call c" "authenticateRequest j w r (api_auth api) = (Inr ctx, a)"
      "route j (after 3 0 w) ctx c a = Some (reply, api_auth api')"
  using assms
  by (auto simp: serve_request_def rateLimitMiddleware_def Let_def split: if_splits prod.splits sum.splits bool.splits)

lemma new_key_after [simp]: "new_key (after n 0 w) a = new_key w a"
  by (simp add: new_key_def)

lemma new_key_config: "a_config a' = a_config a \<Longrightarrow> new_key w a' = new_key w a"
  by (simp add: new_key_def)

lemma serve_policy:
  assumes "serve_request j w r c api = Some (reply, api')"
  shows "\<exists>ks. same_keys (a_apiKeys (api_auth api)) ks \<and>
      policy (context_of j w r c api) (new_id w) (new_key w (api_auth api))
        (a_users (api_auth api), ks) (a_users (api_auth api'), a_apiKeys (api_auth api')) \<and>
      (\<not> public_call c \<and> context_of j w r c api = None \<longrightarrow> a_users (api_auth api') = a_users (api_auth api)) \<and>
      kept (api_auth api) (api_auth api')"
  using assms
proof (cases rule: serve_cases)
  case public
  from route_follows [OF public(2)] public(1) show ?thesis
    by (intro exI [of _ "a_apiKeys (api_auth api)"]) (simp add: context_of_def follows_def accounts_def)
next
  case (refused e)
  from authenticateRequest_effect [OF refused(2)] show ?thesis
    by (intro exI [of _ "a_apiKeys (api_auth api')"]) (simp add: policy.unchanged kept_def)
next
  case (served ctx a)
  note e = authenticateRequest_effect [OF served(2)]
  have ctx: "context_of j w r c api = Some ctx"
    using served(1,2) by (simp add: context_of_def)
  have "follows (Some ctx) (after 3 0 w) a (api_auth api')"
    using route_follows [OF served(3)] served(1) by simp
  then have "policy (Some ctx) (new_id w) (new_key w (api_auth api)) (a_users (api_auth api), a_apiKeys a)
      (a_users (api_auth api'), a_apiKeys (api_auth api'))" and "kept (api_auth api) (api_auth api')"
    by (simp_all add: follows_def accounts_def kept_def e new_key_config [OF e(2)])
  with e(4) ctx show ?thesis by (intro exI [of _ "a_apiKeys a"]) simp
qed

text \<open>
  C6. One request and the accounts. Whatever the request is, the users and the keys change as the access policy
  allows: without a context only a new user with the role of a consumer may appear; a caller may change its own
  name, address and activity, but no one may change the roles of a user; it may revoke its own keys and create keys
  of its own, with no more permissions than it has itself; everything else needs the permission
  \<^verbatim>\<open>admin:write\<close>. Before that, the authentication only notes when the key was used. A request that fails
  to authenticate changes no user.
\<close>

theorem auth_policy:
  assumes "serve_request j w r c api = Some (reply, api')"
  shows "\<exists>ks. same_keys (a_apiKeys (api_auth api)) ks \<and>
      policy (context_of j w r c api) (new_id w) (new_key w (api_auth api))
        (a_users (api_auth api), ks) (a_users (api_auth api'), a_apiKeys (api_auth api')) \<and>
      (\<not> public_call c \<and> context_of j w r c api = None \<longrightarrow> a_users (api_auth api') = a_users (api_auth api)) \<and>
      kept (api_auth api) (api_auth api')"
  using assms by (rule serve_policy)

section \<open>Sequences of requests\<close>

text \<open>
  Every key belongs to a user, and every user is filed under its identifier. This is what the handlers rely on
  when they read the user of a context.
\<close>

definition auth_inv :: "accounts \<Rightarrow> bool" where
  "auth_inv s \<longleftrightarrow>
     (\<forall>k key. fmlookup (snd s) k = Some key \<longrightarrow> k_UserID key |\<in>| fmdom (fst s)) \<and>
     (\<forall>i u. fmlookup (fst s) i = Some u \<longrightarrow> u_ID u = i)"

lemma auth_inv_same_keys: "auth_inv (us, ks) \<Longrightarrow> same_keys ks ks' \<Longrightarrow> auth_inv (us, ks')"
  unfolding auth_inv_def fst_conv snd_conv
proof (intro conjI allI impI; (elim conjE)?)
  fix k key
  assume owned: "\<forall>k key. fmlookup ks k = Some key \<longrightarrow> k_UserID key |\<in>| fmdom us"
    and same: "same_keys ks ks'" "fmlookup ks' k = Some key"
  from same obtain key' where "fmlookup ks k = Some key'" "k_UserID key' = k_UserID key"
    by (rule same_keys_Some) (use forget_eqD in blast)
  with owned show "k_UserID key |\<in>| fmdom us" by metis
qed blast

text \<open>A context is in order if its user is the one on file.\<close>

definition ctx_ok :: "(string, User) fmap \<Rightarrow> AuthContext \<Rightarrow> bool" where
  "ctx_ok us c \<longleftrightarrow> (\<exists>u. ctx_User c = Some u \<and> fmlookup us (u_ID u) = Some u)"

lemma auth_inv_policy:
  assumes "policy ctx newID newKey s s'" "auth_inv s" "\<And>c. ctx = Some c \<Longrightarrow> ctx_ok (fst s) c"
  shows "auth_inv s'"
  using assms
proof cases
  case (edit c caller i u u' us ks)
  then show ?thesis using assms(2) by (auto simp: auth_inv_def)
next
  case (remove_user c i us ks P)
  then show ?thesis using assms(2) by (auto simp: auth_inv_def fmdom_drop split: if_splits option.splits)
next
  case (grant c caller key us ks)
  have "k_UserID key |\<in>| fmdom us" using grant assms(3) by (auto simp: ctx_ok_def fmlookup_dom_iff)
  then show ?thesis using grant assms(2) by (auto simp: auth_inv_def)
next
  case (revoke c caller k key us ks)
  then show ?thesis using assms(2) by (auto simp: auth_inv_def split: if_splits)
qed (auto simp: auth_inv_def)

lemma authenticate_cases:
  assumes "authenticateRequest j w r a = (Inr ctx, a')"
  obtains (token) claims user where "HasPrefix (r_Authorization r) ''Bearer ''"
      "ValidateJWT j w (TrimPrefix (r_Authorization r) ''Bearer '') a = Inr claims"
      "GetUser (jc_UserID claims) a = Inr user" "ctx_User ctx = Some user" "ctx_Permissions ctx = jc_Permissions claims" "a' = a"
  | (key) key where "ValidateAPIKey w (r_XAPIKey r) a = (Inr key, a')" "r_XAPIKey r \<noteq> []"
      "ctx_User ctx = (case GetUser (k_UserID key) a' of Inl _ \<Rightarrow> None | Inr user \<Rightarrow> Some user)"
      "ctx_Permissions ctx = k_Permissions key"
proof (cases "r_Authorization r \<noteq> [] \<and> HasPrefix (r_Authorization r) ''Bearer ''")
  case True
  then obtain claims where c: "ValidateJWT j w (TrimPrefix (r_Authorization r) ''Bearer '') a = Inr claims"
    using assms by (cases "ValidateJWT j w (TrimPrefix (r_Authorization r) ''Bearer '') a") (simp_all add: authenticateRequest_def)
  then obtain user where u: "GetUser (jc_UserID claims) a = Inr user"
    using assms True by (cases "GetUser (jc_UserID claims) a") (simp_all add: authenticateRequest_def)
  show thesis
    by (rule token [OF _ c u]) (use assms True c u in \<open>auto simp: authenticateRequest_def\<close>)
next
  case False
  then have x: "r_XAPIKey r \<noteq> []" using assms by (auto simp: authenticateRequest_def split: if_splits)
  obtain res b where v: "ValidateAPIKey w (r_XAPIKey r) a = (res, b)" by fastforce
  then obtain k where k: "res = Inr k" using assms False x by (cases res) (auto simp: authenticateRequest_def)
  have "b = a'" using assms False x v k by (auto simp: authenticateRequest_def)
  show thesis
    by (rule key [of k]) (use assms False x v k in \<open>auto simp: authenticateRequest_def\<close>)
qed

lemma ValidateAPIKey_Inr:
  assumes "ValidateAPIKey w k a = (Inr key, a')"
  obtains key' where "fmlookup (a_apiKeys a) k = Some key'" "key = key'\<lparr>k_LastUsedAt := Some (w_now w 1)\<rparr>"
    "k_Active key'" "\<not> expired (w_now w 0) key'"
proof (cases "fmlookup (a_apiKeys a) k")
  case None
  with assms show thesis by (simp add: ValidateAPIKey_def)
next
  case (Some key')
  with assms show thesis by (intro that [of key']) (auto simp: ValidateAPIKey_def Let_def split: if_splits)
qed

lemma authenticate_ctx_ok:
  assumes "authenticateRequest j w r a = (Inr ctx, a')" "auth_inv (accounts a)"
  shows "ctx_ok (a_users a) ctx"
  using assms(1)
proof (cases rule: authenticate_cases)
  case (token claims user)
  then show ?thesis using assms(2) by (auto simp: ctx_ok_def GetUser_def auth_inv_def accounts_def split: option.splits)
next
  case (key key)
  from key(1) obtain key' where "fmlookup (a_apiKeys a) (r_XAPIKey r) = Some key'" "k_UserID key = k_UserID key'"
    by (rule ValidateAPIKey_Inr) simp
  then obtain u where u: "fmlookup (a_users a) (k_UserID key) = Some u"
    using assms(2) unfolding auth_inv_def accounts_def by (metis fmlookup_dom_iff fst_conv snd_conv)
  then have "u_ID u = k_UserID key" using assms(2) by (auto simp: auth_inv_def accounts_def)
  with key u show ?thesis by (simp add: ctx_ok_def GetUser_def ValidateAPIKey_effect [OF key(1)])
qed

lemma serve_inv:
  assumes "serve_request j w r c api = Some (reply, api')" "auth_inv (accounts (api_auth api))"
  shows "auth_inv (accounts (api_auth api'))" "kept (api_auth api) (api_auth api')"
proof -
  have ok: "ctx_ok (a_users (api_auth api)) ctx" if "context_of j w r c api = Some ctx" for ctx
    using that assms(2) authenticate_ctx_ok [of j w r "api_auth api" ctx]
    by (auto simp: context_of_def split: if_splits sum.splits) (metis prod.collapse)
  show "auth_inv (accounts (api_auth api'))" "kept (api_auth api) (api_auth api')"
    using serve_policy [OF assms(1)] assms(2) ok
    by (auto simp: accounts_def intro: auth_inv_policy auth_inv_same_keys)
qed

fun serve_all ::
  "jwt_lib \<Rightarrow> (auth_env \<times> http_request \<times> auth_call) list \<Rightarrow> AuthAPI \<Rightarrow> (auth_reply list \<times> AuthAPI) option" where
  "serve_all j [] api = Some ([], api)"
| "serve_all j ((w, r, c) # reqs) api =
     (case serve_request j w r c api of
        None \<Rightarrow> None
      | Some (reply, api) \<Rightarrow> map_option (\<lambda>(replies, api). (reply # replies, api)) (serve_all j reqs api))"

lemma serve_all_ConsE:
  assumes "serve_all j ((w, r, c) # reqs) api = Some (replies, api')"
  obtains reply api1 replies' where "serve_request j w r c api = Some (reply, api1)"
    "serve_all j reqs api1 = Some (replies', api')" "replies = reply # replies'"
  using assms by (auto split: option.splits prod.splits)

subsection \<open>No panics\<close>

text \<open>An authenticator that is set up as the handlers expect it.\<close>

definition set_up :: "Authenticator \<Rightarrow> bool" where
  "set_up a \<longleftrightarrow> 0 \<le> ac_APIKeyLength (a_config a) \<and> a_auditLogger a \<noteq> None"

lemma set_up_kept: "kept a a' \<Longrightarrow> set_up a' = set_up a"
  by (simp add: set_up_def kept_def)

lemma GenerateAPIKey_total:
  "0 \<le> ac_APIKeyLength (a_config a) \<Longrightarrow> \<exists>key a'. GenerateAPIKey w i n d ps e a = Some (key, a')"
  by (simp add: GenerateAPIKey_def Let_def)

lemma route_total:
  assumes "set_up a" "public_call c \<or> ctx_User ctx \<noteq> None"
  shows "\<exists>reply a'. route j w ctx c a = Some (reply, a')"
proof (cases c)
  case (Login body)
  then show ?thesis by (auto simp: route_def loginHandler_def Let_def split: option.splits sum.splits prod.splits)
next
  case (CreateKey body)
  with assms(2) obtain caller where caller: "ctx_User ctx = Some caller" by (auto simp: public_call_def)
  have len: "0 \<le> ac_APIKeyLength (a_config a)" using assms(1) by (simp add: set_up_def)
  show ?thesis
  proof (cases body)
    case None
    then show ?thesis by (simp add: CreateKey route_def createAPIKeyHandler_def)
  next
    case (Some req)
    obtain key a' where "GenerateAPIKey w (u_ID caller) (ck_Name req) (ck_Description req) (ck_Permissions req) (ck_ExpiresAt req) a = Some (key, a')"
      using GenerateAPIKey_total [OF len] by blast
    then show ?thesis
      by (simp add: CreateKey Some route_def createAPIKeyHandler_def caller Let_def split: option.split)
  qed
next
  case (AuditLogs query)
  then show ?thesis using assms(1) by (auto simp: route_def getAuditLogsHandler_def set_up_def Let_def)
qed (use assms in \<open>auto simp: route_def public_call_def reading_handlers createUserHandler_def updateUserHandler_def
      deleteUserHandler_def revokeAPIKeyHandler_def Let_def split: option.splits prod.splits sum.splits\<close>)

lemma serve_total:
  assumes "set_up (api_auth api)" "auth_inv (accounts (api_auth api))"
  shows "\<exists>reply api'. serve_request j w r c api = Some (reply, api')"
proof (cases "public_call c")
  case True
  obtain reply a' where "route j w no_context c (api_auth api) = Some (reply, a')"
    using route_total [OF assms(1)] True by blast
  with True show ?thesis by (simp add: serve_request_def)
next
  case False
  obtain res a where auth: "authenticateRequest j w r (api_auth api) = (res, a)" by fastforce
  obtain ok api1 where rl: "rateLimitMiddleware (after 2 0 w) r (api\<lparr>api_auth := a\<rparr>) = (ok, api1)" by fastforce
  then have api1: "api_auth api1 = a" by (auto simp: rateLimitMiddleware_def Let_def split: if_splits prod.splits)
  note e = authenticateRequest_effect [OF auth]
  show ?thesis
  proof (cases res)
    case (Inl err)
    with False auth show ?thesis by (simp add: serve_request_def)
  next
    case (Inr ctx)
    have "ctx_User ctx \<noteq> None"
      using authenticate_ctx_ok [OF _ assms(2), of j w r ctx a] auth Inr by (auto simp: ctx_ok_def)
    moreover have "set_up a" using assms(1) e by (simp add: set_up_def)
    ultimately obtain reply a' where "route j (after 3 0 w) ctx c a = Some (reply, a')"
      using route_total by blast
    with False auth Inr rl api1 show ?thesis by (cases ok) (simp_all add: serve_request_def)
  qed
qed

lemma serve_all_total:
  assumes "set_up (api_auth api)" "auth_inv (accounts (api_auth api))"
  shows "\<exists>replies api'. serve_all j reqs api = Some (replies, api') \<and> length replies = length reqs \<and>
    auth_inv (accounts (api_auth api'))"
  using assms
proof (induction reqs arbitrary: api)
  case (Cons req reqs)
  obtain w r c where req: "req = (w, r, c)" by (cases req)
  obtain reply api1 where s: "serve_request j w r c api = Some (reply, api1)"
    using serve_total [OF Cons.prems] by blast
  note inv = serve_inv [OF s Cons.prems(2)]
  have "set_up (api_auth api1)" using Cons.prems(1) set_up_kept [OF inv(2)] by simp
  from Cons.IH [OF this inv(1)] show ?case by (auto simp: req s)
qed simp

lemma NewAuthenticator_inv:
  assumes "NewAuthenticator w config logger = Some a"
  shows "auth_inv (accounts a)" "a_config a = (case config of None \<Rightarrow> DefaultAuthConfig | Some c \<Rightarrow> c)"
    "a_auditLogger a = None \<longleftrightarrow> logger = None"
proof -
  let ?a0 = "\<lparr>a_config = (case config of None \<Rightarrow> DefaultAuthConfig | Some c \<Rightarrow> c), a_users = fmempty, a_apiKeys = fmempty,
               a_auditLogger = logger\<rparr>"
  obtain u a1 where u: "CreateUser w ''admin'' ''admin@portask.local'' [RoleAdmin] ?a0 = (u, a1)" by fastforce
  obtain key where k: "GenerateAPIKey (after 3 2 w) (u_ID u) ''default-admin-key'' ''Default admin API key''
      [PermissionSystemManage] None a1 = Some (key, a)"
    using assms u by (auto simp: NewAuthenticator_def Let_def)
  note e1 = CreateUser_effect [OF u] and e2 = GenerateAPIKey_effect [OF k]
  show "auth_inv (accounts a)"
    by (auto simp: auth_inv_def accounts_def e1 e2 split: if_splits)
  show "a_config a = (case config of None \<Rightarrow> DefaultAuthConfig | Some c \<Rightarrow> c)"
    "a_auditLogger a = None \<longleftrightarrow> logger = None"
    by (simp_all add: e1 e2)
qed

lemma NewAuthenticator_set_up:
  assumes "NewAuthenticator w config logger = Some a" "logger \<noteq> None"
  shows "set_up a"
proof -
  have "0 \<le> ac_APIKeyLength (a_config a)"
  proof (rule ccontr)
    assume "\<not> ?thesis"
    then have "ac_APIKeyLength (case config of None \<Rightarrow> DefaultAuthConfig | Some c \<Rightarrow> c) < 0"
      by (simp add: NewAuthenticator_inv(2) [OF assms(1)])
    then have "NewAuthenticator w config logger = None"
      by (auto simp: NewAuthenticator_def Let_def GenerateAPIKey_def CreateUser_effect split: prod.split)
    with assms(1) show False by simp
  qed
  then show ?thesis using assms NewAuthenticator_inv(3) [OF assms(1)] by (simp add: set_up_def)
qed

text \<open>
  C11. No request can make the authentication service panic. The handlers read fields of the caller without asking
  whether there is one, and of the audit log. Starting from a new authenticator with a log, every sequence of
  requests, whoever sends them and whatever they ask for, is answered to its end, since at every moment each key
  belongs to a user that exists, which is filed under its own identifier.
\<close>

theorem auth_never_panics:
  assumes "NewAuthenticator w0 config (Some l) = Some a"
  shows "\<exists>replies api. serve_all j reqs (NewAuthAPI a) = Some (replies, api) \<and> length replies = length reqs \<and>
    auth_inv (accounts (api_auth api))"
  using NewAuthenticator_set_up [OF assms] NewAuthenticator_inv(1) [OF assms]
  by (intro serve_all_total) (simp_all add: NewAuthAPI_def)

subsection \<open>Revoked keys\<close>

lemma policy_key_gone:
  assumes "policy ctx newID newKey (us, ks) (us', ks')" "fmlookup ks k = None" "newKey \<noteq> k"
  shows "fmlookup ks' k = None"
  using assms by cases auto

lemma serve_key_gone:
  assumes "serve_request j w r c api = Some (reply, api')" "fmlookup (a_apiKeys (api_auth api)) k = None"
    "new_key w (api_auth api) \<noteq> k"
  shows "fmlookup (a_apiKeys (api_auth api')) k = None"
proof -
  from serve_policy [OF assms(1)] obtain ks where ks: "same_keys (a_apiKeys (api_auth api)) ks"
    "policy (context_of j w r c api) (new_id w) (new_key w (api_auth api))
        (a_users (api_auth api), ks) (a_users (api_auth api'), a_apiKeys (api_auth api'))"
    by blast
  have "fmlookup ks k = None" using same_keys_None [OF ks(1)] assms(2) by simp
  from policy_key_gone [OF ks(2) this assms(3)] show ?thesis .
qed

lemma serve_kept: "serve_request j w r c api = Some (reply, api') \<Longrightarrow> kept (api_auth api) (api_auth api')"
  using serve_policy by blast

lemma serve_new_key: "serve_request j w r c api = Some (reply, api') \<Longrightarrow> new_key w' (api_auth api') = new_key w' (api_auth api)"
  by (drule serve_kept) (simp add: kept_def new_key_def)

lemma serve_all_key_gone:
  assumes "serve_all j reqs api = Some (replies, api')" "fmlookup (a_apiKeys (api_auth api)) k = None"
    "\<forall>(w, r, c) \<in> set reqs. new_key w (api_auth api) \<noteq> k"
  shows "fmlookup (a_apiKeys (api_auth api')) k = None"
  using assms
proof (induction reqs arbitrary: api replies)
  case (Cons req reqs)
  obtain w r c where req: "req = (w, r, c)" by (cases req)
  from Cons.prems(1) obtain reply api1 replies' where s: "serve_request j w r c api = Some (reply, api1)"
    and rest: "serve_all j reqs api1 = Some (replies', api')"
    unfolding req by (rule serve_all_ConsE)
  have "fmlookup (a_apiKeys (api_auth api1)) k = None"
    using serve_key_gone [OF s Cons.prems(2)] Cons.prems(3) by (simp add: req)
  then show ?case using Cons.IH [OF rest] Cons.prems(3) by (simp add: req serve_new_key [OF s])
qed simp

lemma serve_revoke:
  assumes "serve_request j w r (RevokeKey kid) api = Some ((200, b), api')"
    and "fmlookup (a_apiKeys (api_auth api)) k = Some key" "k_ID key = kid"
    and unique: "\<And>k' key'. fmlookup (a_apiKeys (api_auth api)) k' = Some key' \<Longrightarrow> k_ID key' = kid \<Longrightarrow> k' = k"
  shows "fmlookup (a_apiKeys (api_auth api')) k = None"
  using assms(1)
proof (cases rule: serve_cases)
  case public
  then show ?thesis by (simp add: public_call_def)
next
  case (refused e)
  then show ?thesis by simp
next
  case (served ctx a)
  have "same_keys (a_apiKeys (api_auth api)) (a_apiKeys a)" by (rule authenticateRequest_effect(4) [OF served(2)])
  note same = same_keys_Some [OF this]
  have "revokeAPIKeyHandler (after 3 0 w) ctx kid a = Some ((200, b), api_auth api')"
    using served(3) by (simp add: route_def)
  then have "RevokeAPIKey (after 3 0 w) kid a = (None, api_auth api')"
    by (auto simp: revokeAPIKeyHandler_def insufficient_def split: option.splits if_splits prod.splits)
  then obtain k' where k': "find_key (after 3 0 w) kid a = Some k'" "a_apiKeys (api_auth api') = fmdrop k' (a_apiKeys a)"
    by (rule RevokeAPIKey_effect)
  from k'(1) obtain key' where "fmlookup (a_apiKeys a) k' = Some key'" "k_ID key' = kid" by (rule find_key_Some)
  then have "k' = k" by (metis same forget_eqD unique)
  with k'(2) show ?thesis by simp
qed

text \<open>
  C23. A revoked key is dead. Once the request to revoke a key has been answered with success, no request that
  presents its string gets past the authentication, whatever requests came in between, as long as identifiers are
  unique and the generator does not produce the same string again.
\<close>

theorem revoked_key_dead:
  assumes "serve_request j w r (RevokeKey (k_ID key)) api = Some ((200, b), api1)"
    and "fmlookup (a_apiKeys (api_auth api)) k = Some key"
    and "\<forall>k' key'. fmlookup (a_apiKeys (api_auth api)) k' = Some key' \<and> k_ID key' = k_ID key \<longrightarrow> k' = k"
    and "serve_all j reqs api1 = Some (replies, api2)"
    and "\<forall>(w, r, c) \<in> set reqs. new_key w (api_auth api) \<noteq> k"
    and "\<not> public_call c'" "r_XAPIKey r' = k" "\<not> HasPrefix (r_Authorization r') ''Bearer ''"
  shows "serve_request j w' r' c' api2 = Some ((401, ErrorBody ''Unauthorized''), api2)"
proof -
  have "fmlookup (a_apiKeys (api_auth api1)) k = None"
    by (rule serve_revoke [OF assms(1,2)]) (use assms(3) in auto)
  then have "fmlookup (a_apiKeys (api_auth api2)) k = None"
    using serve_all_key_gone [OF assms(4)] assms(5) by (simp add: serve_new_key [OF assms(1)])
  then have "\<exists>e. authenticateRequest j w' r' (api_auth api2) = (Inl e, api_auth api2)"
    using assms(7,8) by (simp add: authenticateRequest_def ValidateAPIKey_def)
  with assms(6) show ?thesis by (auto simp: serve_request_def)
qed

subsection \<open>Requests without privileges\<close>

text \<open>No request of the sequence has the permission to administrate, and new identifiers are new.\<close>

fun unprivileged :: "jwt_lib \<Rightarrow> (auth_env \<times> http_request \<times> auth_call) list \<Rightarrow> AuthAPI \<Rightarrow> bool" where
  "unprivileged j [] api \<longleftrightarrow> True"
| "unprivileged j ((w, r, c) # reqs) api \<longleftrightarrow>
     (case context_of j w r c api of None \<Rightarrow> True | Some ctx \<Rightarrow> \<not> HasPermission ctx PermissionAdminWrite) \<and>
     new_id w |\<notin>| fmdom (a_users (api_auth api)) \<and>
     (case serve_request j w r c api of None \<Rightarrow> True | Some (_, api) \<Rightarrow> unprivileged j reqs api)"

definition harmless :: "accounts \<Rightarrow> accounts \<Rightarrow> bool" where
  "harmless s s' \<longleftrightarrow>
     (\<forall>i u. fmlookup (fst s) i = Some u \<longrightarrow> (\<exists>u'. fmlookup (fst s') i = Some u' \<and> u_Roles u' = u_Roles u)) \<and>
     (\<forall>i u. fmlookup (fst s) i = None \<and> fmlookup (fst s') i = Some u \<longrightarrow> u_Roles u = [RoleConsumer]) \<and>
     (\<forall>k key. fmlookup (snd s') k = Some key \<and> PermissionAdminWrite \<in> set (k_Permissions key) \<longrightarrow>
        (\<exists>key'. fmlookup (snd s) k = Some key' \<and> k_Permissions key' = k_Permissions key \<and> k_UserID key' = k_UserID key))"

lemma harmless_refl [simp]: "harmless s s"
  by (auto simp: harmless_def)

lemma harmless_trans:
  assumes 1: "harmless s1 s2" and 2: "harmless s2 s3"
  shows "harmless s1 s3"
  unfolding harmless_def
proof (intro conjI allI impI; (elim conjE)?)
  fix i u
  assume "fmlookup (fst s1) i = Some u"
  then show "\<exists>u'. fmlookup (fst s3) i = Some u' \<and> u_Roles u' = u_Roles u"
    using 1 2 unfolding harmless_def by metis
next
  fix i u
  assume "fmlookup (fst s1) i = None" "fmlookup (fst s3) i = Some u"
  then show "u_Roles u = [RoleConsumer]"
    using 1 2 unfolding harmless_def by (cases "fmlookup (fst s2) i") (metis option.sel)+
next
  fix k key
  assume "fmlookup (snd s3) k = Some key" "PermissionAdminWrite \<in> set (k_Permissions key)"
  with 2 obtain key' where "fmlookup (snd s2) k = Some key'" "k_Permissions key' = k_Permissions key" "k_UserID key' = k_UserID key"
    unfolding harmless_def by blast
  moreover from this(2) \<open>PermissionAdminWrite \<in> _\<close> have "PermissionAdminWrite \<in> set (k_Permissions key')" by simp
  ultimately show "\<exists>key'. fmlookup (snd s1) k = Some key' \<and> k_Permissions key' = k_Permissions key \<and> k_UserID key' = k_UserID key"
    using 1 unfolding harmless_def by metis
qed

lemma harmless_same_keys: "same_keys ks ks' \<Longrightarrow> harmless (us, ks) (us, ks')"
  unfolding harmless_def fst_conv snd_conv
proof (intro conjI allI impI; (elim conjE)?)
  fix k key
  assume "same_keys ks ks'" "fmlookup ks' k = Some key"
  then obtain key' where "fmlookup ks k = Some key'" "key'\<lparr>k_LastUsedAt := None\<rparr> = key\<lparr>k_LastUsedAt := None\<rparr>"
    by (rule same_keys_Some)
  then show "\<exists>key'. fmlookup ks k = Some key' \<and> k_Permissions key' = k_Permissions key \<and> k_UserID key' = k_UserID key"
    using forget_eqD by blast
qed simp_all

lemma harmless_policy:
  assumes "policy ctx newID newKey s s'" "\<And>c. ctx = Some c \<Longrightarrow> \<not> HasPermission c PermissionAdminWrite"
    "newID |\<notin>| fmdom (fst s)"
  shows "harmless s s'"
  using assms(1)
proof cases
  case (register u us ks)
  then show ?thesis using assms(3) by (auto simp: harmless_def fmlookup_dom_iff)
next
  case (edit c caller i u u' us ks)
  then show ?thesis by (auto simp: harmless_def)
next
  case (grant c caller key us ks)
  then have "PermissionAdminWrite \<notin> set (k_Permissions key)" using assms(2) by (auto simp: HasPermission_iff)
  with grant show ?thesis by (auto simp: harmless_def)
next
  case (revoke c caller k key us ks)
  then show ?thesis by (auto simp: harmless_def split: if_splits)
qed (use assms(2) in auto)

lemma serve_harmless:
  assumes "serve_request j w r c api = Some (reply, api')"
    "case context_of j w r c api of None \<Rightarrow> True | Some ctx \<Rightarrow> \<not> HasPermission ctx PermissionAdminWrite"
    "new_id w |\<notin>| fmdom (a_users (api_auth api))"
  shows "harmless (accounts (api_auth api)) (accounts (api_auth api'))"
proof -
  from serve_policy [OF assms(1)] obtain ks where ks: "same_keys (a_apiKeys (api_auth api)) ks"
    "policy (context_of j w r c api) (new_id w) (new_key w (api_auth api))
        (a_users (api_auth api), ks) (a_users (api_auth api'), a_apiKeys (api_auth api'))"
    by blast
  have "harmless (a_users (api_auth api), ks) (a_users (api_auth api'), a_apiKeys (api_auth api'))"
    by (rule harmless_policy [OF ks(2)]) (use assms(2,3) in \<open>auto split: option.splits\<close>)
  with harmless_same_keys [OF ks(1)] show ?thesis unfolding accounts_def by (rule harmless_trans)
qed

text \<open>
  C10. No rise in privileges through the accounts. Any number of requests none of which has the permission
  \<^verbatim>\<open>admin:write\<close> leave every user in place with its roles, add only users with the role of a consumer, and create no
  key with that permission.
\<close>

theorem no_escalation:
  assumes "serve_all j reqs api = Some (replies, api')" "unprivileged j reqs api"
  shows "harmless (accounts (api_auth api)) (accounts (api_auth api'))"
  using assms
proof (induction reqs arbitrary: api replies)
  case (Cons req reqs)
  obtain w r c where req: "req = (w, r, c)" by (cases req)
  from Cons.prems(1) obtain reply api1 replies' where s: "serve_request j w r c api = Some (reply, api1)"
    and rest: "serve_all j reqs api1 = Some (replies', api')"
    unfolding req by (rule serve_all_ConsE)
  have "harmless (accounts (api_auth api)) (accounts (api_auth api1))"
    by (rule serve_harmless [OF s]) (use Cons.prems(2) in \<open>simp_all add: req\<close>)
  moreover have "harmless (accounts (api_auth api1)) (accounts (api_auth api'))"
    by (rule Cons.IH [OF rest]) (use Cons.prems(2) in \<open>simp add: req s\<close>)
  ultimately show ?case by (rule harmless_trans)
qed simp

subsection \<open>Logging in\<close>

definition ascii :: "string \<Rightarrow> bool" where
  "ascii s = list_all (\<lambda>c. of_char c < (128::nat)) s"

definition ascii_claims :: "JWTClaims \<Rightarrow> bool" where
  "ascii_claims claims \<longleftrightarrow>
     list_all ascii ([jc_UserID claims, jc_Username claims, jc_Issuer claims, jc_Subject claims, jc_ID claims] @
       jc_Roles claims @ jc_Permissions claims)"

text \<open>
  What the library documents: a date is rounded down, and a token that it has signed parses with the same key to
  the same claims and is valid, from the moment it may be used until it expires. Texts that are not encoded
  properly are changed when claims are written as JSON; claims in ASCII are not.
\<close>

definition jwt_ok :: "jwt_lib \<Rightarrow> bool" where
  "jwt_ok j \<longleftrightarrow> (\<forall>t. jwt_NewNumericDate j t \<le> t) \<and>
     (\<forall>claims secret token now key e n.
        jwt_SignedString j claims secret = Inr token \<and> key SigningMethodHMAC = Inr secret \<and> ascii_claims claims \<and>
        jc_ExpiresAt claims = Some e \<and> now < e \<and> jc_NotBefore claims = Some n \<and> n \<le> now \<longrightarrow>
        jwt_ParseWithClaims j now token key = Inr (claims, True))"

lemma jwt_okD:
  assumes "jwt_ok j" "jwt_SignedString j claims secret = Inr token" "key SigningMethodHMAC = Inr secret" "ascii_claims claims"
    "jc_ExpiresAt claims = Some e" "now < e" "jc_NotBefore claims = Some n" "n \<le> now"
  shows "jwt_ParseWithClaims j now token key = Inr (claims, True)"
  using assms unfolding jwt_ok_def by blast

lemma ascii_generateRandomString [simp]: "ascii (generateRandomString rand n)"
proof -
  have "list_all (\<lambda>c. of_char c < (128::nat)) ''0123456789abcdef''" by simp
  then have hex: "of_char (''0123456789abcdef'' ! i) < (128::nat)" if "i < 16" for i
    using that by (simp add: list_all_length)
  have "of_char c < (128::nat)" if c: "c \<in> set (generateRandomString rand n)" for c
  proof -
    from c obtain b :: byte where "c = ''0123456789abcdef'' ! (unat b div 16) \<or> c = ''0123456789abcdef'' ! (unat b mod 16)"
      unfolding generateRandomString_def hex_EncodeToString_def by (auto dest!: in_set_takeD) blast+
    moreover have "unat b div 16 < 16" using unsigned_less [where ?'a = nat, of b] by (simp add: less_mult_imp_div_less)
    ultimately show ?thesis using hex by auto
  qed
  then show ?thesis by (simp add: ascii_def list_all_iff)
qed

lemma ascii_role_permissions: "p \<in> set (role_permissions role) \<Longrightarrow> ascii p"
  by (auto simp: role_permissions_def permission_defs ascii_def split: if_splits)

lemma find_user_Some:
  assumes "find_user w req a = Some u"
  obtains i where "fmlookup (a_users a) i = Some u" "u_Username u = lr_Username req \<or> u_Email u = lr_Email req"
  using assms unfolding find_user_def by (rule find_visit)

lemma loginHandler_cases:
  assumes "loginHandler j w (Some req) a = Some ((200, LoginResponse token e u), a')" "auth_inv (accounts a)"
  shows "GenerateJWT j (after 3 2 w) u a' = Inr token" "fmlookup (a_users a') (u_ID u) = Some u"
    "u_Username u = lr_Username req \<or> u_Email u = lr_Email req" "a_config a' = a_config a"
proof -
  let ?email = "if lr_Email req = [] then lr_Username req @ ''@portask.local'' else lr_Email req"
  define ua where "ua = (case find_user w req a of Some user \<Rightarrow> (user, a) | None \<Rightarrow> CreateUser w (lr_Username req) ?email [RoleConsumer] a)"
  have "ua = (u, a') \<and> GenerateJWT j (after 3 2 w) u a' = Inr token"
    using assms(1) unfolding loginHandler_def ua_def by (auto simp: Let_def split: prod.splits sum.splits split del: if_split)
  then have ua: "ua = (u, a')" and g: "GenerateJWT j (after 3 2 w) u a' = Inr token" by simp_all
  show "GenerateJWT j (after 3 2 w) u a' = Inr token" by (rule g)
  have "fmlookup (a_users a') (u_ID u) = Some u \<and> (u_Username u = lr_Username req \<or> u_Email u = lr_Email req) \<and> a_config a' = a_config a"
  proof (cases "find_user w req a")
    case None
    then have c: "CreateUser w (lr_Username req) ?email [RoleConsumer] a = (u, a')" using ua by (simp add: ua_def)
    from CreateUser_effect [OF c] show ?thesis by simp
  next
    case (Some user)
    then have "user = u" "a' = a" using ua by (simp_all add: ua_def)
    moreover from Some obtain i where "fmlookup (a_users a) i = Some user" "u_Username user = lr_Username req \<or> u_Email user = lr_Email req"
      by (rule find_user_Some)
    moreover have "u_ID user = i" using assms(2) calculation(3) by (simp add: auth_inv_def accounts_def)
    ultimately show ?thesis by auto
  qed
  then show "fmlookup (a_users a') (u_ID u) = Some u"
    "u_Username u = lr_Username req \<or> u_Email u = lr_Email req" "a_config a' = a_config a" by blast+
qed

text \<open>
  C24. From a login to an authenticated request. The token that a login returns is accepted until it expires, for the
  user that the login returned, with exactly the permissions of the roles of that user. The user is any one whose
  name or address is the one given, and the password makes no difference to the answer: whoever knows the name
  \<^verbatim>\<open>admin\<close> gets a token with every permission.
\<close>

theorem login_roundtrip:
  assumes "jwt_ok j" "env_ok w" "auth_inv (accounts a)"
    and "loginHandler j w (Some req) a = Some ((200, LoginResponse token e u), a')"
    and "list_all ascii ([u_ID u, u_Username u] @ u_Roles u)"
    and "r_Authorization r = ''Bearer '' @ token"
    and "w_now w 5 \<le> w_now w' 0" "w_now w' 0 < jwt_NewNumericDate j (w_now w 3 + ac_JWTExpiration (a_config a))"
  shows "\<exists>ctx. authenticateRequest j w' r a' = (Inr ctx, a') \<and> ctx_User ctx = Some u \<and>
      (\<forall>p. HasPermission ctx p \<longleftrightarrow> (\<exists>role \<in> set (u_Roles u). p \<in> set (role_permissions role))) \<and>
      (u_Username u = lr_Username req \<or> u_Email u = lr_Email req) \<and>
      (\<forall>password. loginHandler j w (Some (req\<lparr>lr_Password := password\<rparr>)) a = loginHandler j w (Some req) a)"
proof -
  note l = loginHandler_cases [OF assms(4,3)]
  let ?perms = "getRolePermissions (after 3 2 w) (u_Roles u)"
  have "env_ok (after 3 2 w)" using assms(2) by simp
  note perms = getRolePermissions_spec(2) [OF this, of "u_Roles u"]
  let ?claims = "\<lparr>jc_UserID = u_ID u, jc_Username = u_Username u, jc_Roles = u_Roles u, jc_Permissions = ?perms,
        jc_ExpiresAt = Some (jwt_NewNumericDate j (w_now w 3 + ac_JWTExpiration (a_config a))),
        jc_IssuedAt = Some (jwt_NewNumericDate j (w_now w 4)), jc_NotBefore = Some (jwt_NewNumericDate j (w_now w 5)),
        jc_Issuer = ''portask'', jc_Subject = u_ID u, jc_ID = generateRandomString (w_rand w 2) 16\<rparr>"
  have sign: "jwt_SignedString j ?claims (ac_JWTSecret (a_config a)) = Inr token"
    using l(1) by (simp add: GenerateJWT_def after_def l(4) numeral_2_eq_2)
  have "list_all ascii ?perms" using ascii_role_permissions by (auto simp: list_all_iff perms)
  moreover have "ascii ''portask''" by (simp add: ascii_def)
  ultimately have asc: "ascii_claims ?claims"
    using assms(5) by (simp only: ascii_claims_def list_all_append list.pred_inject append.simps JWTClaims.simps) simp
  have nbf: "jwt_NewNumericDate j (w_now w 5) \<le> w_now w' 0"
    using assms(1,7) unfolding jwt_ok_def by (meson order_trans)
  have "jwt_ParseWithClaims j (w_now w' 0) token (keyfunc a') = Inr (?claims, True)"
    by (rule jwt_okD [OF assms(1) sign _ asc _ assms(8) _ nbf]) (simp_all add: keyfunc_def l(4))
  then have "ValidateJWT j w' token a' = Inr ?claims" by (simp add: ValidateJWT_def)
  then have "\<exists>ctx. authenticateRequest j w' r a' = (Inr ctx, a') \<and> ctx_User ctx = Some u \<and> ctx_Permissions ctx = ?perms"
    using l(2) by (simp add: authenticateRequest_def assms(6) HasPrefix_def TrimPrefix_def GetUser_def)
  then obtain ctx where ctx: "authenticateRequest j w' r a' = (Inr ctx, a')" "ctx_User ctx = Some u" "ctx_Permissions ctx = ?perms"
    by blast
  have "find_user w (req\<lparr>lr_Password := password\<rparr>) a = find_user w req a" for password
    by (simp add: find_user_def)
  then have "loginHandler j w (Some (req\<lparr>lr_Password := password\<rparr>)) a = loginHandler j w (Some req) a" for password
    by (cases "find_user w req a") (simp_all add: loginHandler_def)
  with ctx l(3) show ?thesis by (intro exI [of _ ctx]) (auto simp: HasPermission_iff perms)
qed

section \<open>Concrete runs\<close>

text \<open>A clock that advances by a second with each reading, a generator that repeats a byte, maps visited in order.\<close>

definition demo_auth_env :: "int \<Rightarrow> byte \<Rightarrow> auth_env" where
  "demo_auth_env start b =
     \<lparr>w_now = (\<lambda>k. start + int k * Second), w_rand = (\<lambda>_ _. b), w_users = (\<lambda>m. sorted_list_of_fset (fmdom m)),
      w_keys = (\<lambda>m. sorted_list_of_fset (fmdom m)), w_perms = (\<lambda>m. sorted_list_of_fset (fmdom m))\<rparr>"

lemma range_order_sorted: "range_order (fmlookup m) (sorted_list_of_fset (fmdom m))"
  unfolding range_order_def fmdom.rep_eq [symmetric] sorted_list_of_fset.rep_eq by simp

lemma sorted_list_of_fset_single [simp]: "sorted_list_of_fset {|x|} = [x]"
  by (simp add: sorted_list_of_fset.rep_eq)

lemma demo_env_ok: "env_ok (demo_auth_env s b)"
  by (simp add: env_ok_def demo_auth_env_def range_order_sorted)

definition demo_claims :: JWTClaims where
  "demo_claims =
     \<lparr>jc_UserID = replicate 16 CHR ''1'', jc_Username = ''bob'', jc_Roles = [RoleConsumer],
      jc_Permissions = [PermissionMessageRead, PermissionTopicList],
      jc_ExpiresAt = Some (103 * Second + 24 * Hour), jc_IssuedAt = Some (104 * Second), jc_NotBefore = Some (105 * Second),
      jc_Issuer = ''portask'', jc_Subject = replicate 16 CHR ''1'', jc_ID = replicate 16 CHR ''1''\<rparr>"

text \<open>A library that signs and accepts a single token.\<close>

definition demo_jwt :: jwt_lib where
  "demo_jwt =
     \<lparr>jwt_NewNumericDate = (\<lambda>t. Second * (t div Second)),
      jwt_SignedString = (\<lambda>claims secret. if claims = demo_claims \<and> secret = ac_JWTSecret DefaultAuthConfig then Inr ''token'' else Inl ''unsupported''),
      jwt_ParseWithClaims = (\<lambda>now token key.
        if token = ''token'' \<and> key SigningMethodHMAC = Inr (ac_JWTSecret DefaultAuthConfig) \<and>
           105 * Second \<le> now \<and> now < 103 * Second + 24 * Hour
        then Inr (demo_claims, True) else Inl ''token is invalid'')\<rparr>"

lemma demo_jwt_ok: "jwt_ok demo_jwt"
proof -
  have "Second * (t div Second) \<le> t" for t
    using pos_mod_sign [of Second t] mult_div_mod_eq [of Second t] by (simp add: Second_def)
  then show ?thesis by (auto simp: jwt_ok_def demo_jwt_def demo_claims_def split: if_splits)
qed

lemma demo_random: "generateRandomString (\<lambda>_. 0x11) 16 = replicate 16 CHR ''1''"
  "generateRandomString (\<lambda>_. 0x00) 16 = replicate 16 CHR ''0''"
  "generateRandomString (\<lambda>_. 0x11) 32 = replicate 32 CHR ''1''"
  "generateRandomString (\<lambda>_. 0x00) 32 = replicate 32 CHR ''0''"
  by code_simp+

definition demo_admin :: User where
  "demo_admin = \<lparr>u_ID = replicate 16 CHR ''0'', u_Username = ''admin'', u_Email = ''admin@portask.local'', u_Roles = [RoleAdmin],
     u_Active = True, u_CreatedAt = 0, u_UpdatedAt = Second\<rparr>"

definition demo_key :: APIKey where
  "demo_key = \<lparr>k_ID = replicate 16 CHR ''0'', k_Key = replicate 32 CHR ''0'', k_Name = ''default-admin-key'',
     k_Description = ''Default admin API key'', k_UserID = replicate 16 CHR ''0'', k_Permissions = [PermissionSystemManage],
     k_Active = True, k_ExpiresAt = None, k_CreatedAt = 3 * Second, k_LastUsedAt = None\<rparr>"

definition demo_authenticator :: Authenticator where
  "demo_authenticator = the (NewAuthenticator (demo_auth_env 0 0) None (Some []))"

lemma NewAuthenticator_demo: "NewAuthenticator (demo_auth_env 0 0) None (Some []) = Some demo_authenticator"
  by (simp add: demo_authenticator_def NewAuthenticator_def GenerateAPIKey_def CreateUser_def DefaultAuthConfig_def Let_def)

lemma demo_authenticator_simps:
  "a_users demo_authenticator = fmupd (replicate 16 CHR ''0'') demo_admin fmempty"
  "a_apiKeys demo_authenticator = fmupd (replicate 32 CHR ''0'') demo_key fmempty"
  "a_config demo_authenticator = DefaultAuthConfig"
  by (simp_all add: demo_authenticator_def NewAuthenticator_def GenerateAPIKey_def CreateUser_def DefaultAuthConfig_def Let_def
       demo_auth_env_def demo_random demo_admin_def demo_key_def after_def)

definition plain_request :: http_request where
  "plain_request = \<lparr>r_Authorization = [], r_XAPIKey = [], r_XForwardedFor = [], r_XRealIP = [], r_RemoteAddr = ''10.0.0.1:4711'', r_UserAgent = []\<rparr>"

definition bob :: LoginRequest where
  "bob = \<lparr>lr_Username = ''bob'', lr_Password = ''secret'', lr_Email = []\<rparr>"

lemma demo_find_user: "find_user (demo_auth_env s b) bob demo_authenticator = None"
  by (simp add: find_user_def demo_authenticator_simps demo_auth_env_def visit_def List.map_filter_simps demo_admin_def bob_def)

lemma demo_sorted_perms:
  "sorted_list_of_fset (fmdom (permissionSet [RoleConsumer])) = [PermissionMessageRead, PermissionTopicList]"
  by (simp add: sorted_list_of_fset.rep_eq permissionSet_def role_permissions_def role_defs permission_defs)

definition demo_bob :: "int \<Rightarrow> User" where
  "demo_bob t = \<lparr>u_ID = replicate 16 CHR ''1'', u_Username = ''bob'', u_Email = ''bob@portask.local'', u_Roles = [RoleConsumer],
     u_Active = True, u_CreatedAt = t, u_UpdatedAt = t + Second\<rparr>"

lemma demo_login:
  "\<exists>a'. loginHandler demo_jwt (demo_auth_env (100 * Second) 0x11) (Some bob) demo_authenticator =
     Some ((200, LoginResponse ''token'' (106 * Second + 24 * Hour) (demo_bob (100 * Second))), a')"
  unfolding loginHandler_def option.case demo_find_user
  by (simp add: bob_def CreateUser_def Let_def GenerateJWT_def demo_jwt_def demo_auth_env_def after_def demo_random
        demo_authenticator_simps demo_claims_def demo_bob_def getRolePermissions_def demo_sorted_perms
        DefaultAuthConfig_def Second_def Hour_def)

theorem login_roundtrip_witness:
  "\<exists>a' ctx. loginHandler demo_jwt (demo_auth_env (100 * Second) 0x11) (Some bob) demo_authenticator =
      Some ((200, LoginResponse ''token'' (106 * Second + 24 * Hour) (demo_bob (100 * Second))), a') \<and>
    authenticateRequest demo_jwt (demo_auth_env (200 * Second) 0) (plain_request\<lparr>r_Authorization := ''Bearer token''\<rparr>) a' = (Inr ctx, a') \<and>
    ctx_User ctx = Some (demo_bob (100 * Second)) \<and> HasPermission ctx PermissionMessageRead \<and> \<not> HasPermission ctx PermissionAdminWrite"
proof -
  from demo_login obtain a' where l: "loginHandler demo_jwt (demo_auth_env (100 * Second) 0x11) (Some bob) demo_authenticator =
     Some ((200, LoginResponse ''token'' (106 * Second + 24 * Hour) (demo_bob (100 * Second))), a')" ..
  have "\<exists>ctx. authenticateRequest demo_jwt (demo_auth_env (200 * Second) 0) (plain_request\<lparr>r_Authorization := ''Bearer token''\<rparr>) a' = (Inr ctx, a') \<and>
      ctx_User ctx = Some (demo_bob (100 * Second)) \<and>
      (\<forall>p. HasPermission ctx p \<longleftrightarrow> (\<exists>role \<in> set (u_Roles (demo_bob (100 * Second))). p \<in> set (role_permissions role))) \<and>
      (u_Username (demo_bob (100 * Second)) = lr_Username bob \<or> u_Email (demo_bob (100 * Second)) = lr_Email bob) \<and>
      (\<forall>password. loginHandler demo_jwt (demo_auth_env (100 * Second) 0x11) (Some (bob\<lparr>lr_Password := password\<rparr>)) demo_authenticator =
        loginHandler demo_jwt (demo_auth_env (100 * Second) 0x11) (Some bob) demo_authenticator)"
    by (rule login_roundtrip [OF demo_jwt_ok demo_env_ok NewAuthenticator_inv(1) [OF NewAuthenticator_demo] l])
      (simp_all add: demo_bob_def ascii_def list_all_iff role_defs demo_auth_env_def demo_jwt_def demo_authenticator_simps
        DefaultAuthConfig_def Second_def Hour_def)
  then obtain ctx where ctx: "authenticateRequest demo_jwt (demo_auth_env (200 * Second) 0) (plain_request\<lparr>r_Authorization := ''Bearer token''\<rparr>) a' = (Inr ctx, a')"
      "ctx_User ctx = Some (demo_bob (100 * Second))"
      "\<And>p. HasPermission ctx p \<longleftrightarrow> (\<exists>role \<in> set (u_Roles (demo_bob (100 * Second))). p \<in> set (role_permissions role))"
    by blast
  have "HasPermission ctx PermissionMessageRead" "\<not> HasPermission ctx PermissionAdminWrite"
    unfolding ctx(3) by (simp_all add: demo_bob_def role_permissions_def role_defs permission_defs)
  with l ctx(1,2) show ?thesis by (intro exI conjI)
qed

lemma demo_serve_login:
  "\<exists>reply api'. serve_request demo_jwt (demo_auth_env (100 * Second) 0x11) plain_request (Login (Some bob)) (NewAuthAPI demo_authenticator) = Some (reply, api')"
  using NewAuthenticator_set_up [OF NewAuthenticator_demo] NewAuthenticator_inv(1) [OF NewAuthenticator_demo]
  by (intro serve_total) (simp_all add: NewAuthAPI_def)

theorem auth_policy_witness:
  "\<exists>reply api' ks. serve_request demo_jwt (demo_auth_env (100 * Second) 0x11) plain_request (Login (Some bob)) (NewAuthAPI demo_authenticator) = Some (reply, api') \<and>
     same_keys (fmupd (replicate 32 CHR ''0'') demo_key fmempty) ks \<and>
     policy None (replicate 16 CHR ''1'') (replicate 32 CHR ''1'') (fmupd (replicate 16 CHR ''0'') demo_admin fmempty, ks)
       (a_users (api_auth api'), a_apiKeys (api_auth api'))"
proof -
  from demo_serve_login obtain reply api' where
    s: "serve_request demo_jwt (demo_auth_env (100 * Second) 0x11) plain_request (Login (Some bob)) (NewAuthAPI demo_authenticator) = Some (reply, api')"
    by blast
  have eqs: "context_of demo_jwt (demo_auth_env (100 * Second) 0x11) plain_request (Login (Some bob)) (NewAuthAPI demo_authenticator) = None"
    "generateRandomString (w_rand (demo_auth_env (100 * Second) 0x11) 0) 16 = replicate 16 CHR ''1''"
    "new_key (demo_auth_env (100 * Second) 0x11) demo_authenticator = replicate 32 CHR ''1''"
    "api_auth (NewAuthAPI demo_authenticator) = demo_authenticator"
    by (simp_all add: context_of_def public_call_def demo_auth_env_def new_key_def demo_authenticator_simps DefaultAuthConfig_def
        demo_random NewAuthAPI_def)
  from auth_policy [OF s] obtain ks where "same_keys (fmupd (replicate 32 CHR ''0'') demo_key fmempty) ks"
     "policy None (replicate 16 CHR ''1'') (replicate 32 CHR ''1'') (fmupd (replicate 16 CHR ''0'') demo_admin fmempty, ks)
       (a_users (api_auth api'), a_apiKeys (api_auth api'))"
    unfolding eqs demo_authenticator_simps by (elim exE conjE) (rule that)
  with s show ?thesis by (intro exI conjI)
qed

theorem auth_never_panics_witness:
  "\<exists>replies api. serve_all demo_jwt [(demo_auth_env (100 * Second) 0x11, plain_request, Login (Some bob)),
      (demo_auth_env (200 * Second) 0x22, plain_request\<lparr>r_XAPIKey := replicate 32 CHR ''0''\<rparr>, CreateKey None)] (NewAuthAPI demo_authenticator) = Some (replies, api) \<and>
     length replies = 2"
  using auth_never_panics [OF NewAuthenticator_demo, of demo_jwt "[(demo_auth_env (100 * Second) 0x11, plain_request, Login (Some bob)),
      (demo_auth_env (200 * Second) 0x22, plain_request\<lparr>r_XAPIKey := replicate 32 CHR ''0''\<rparr>, CreateKey None)]"] by (auto simp only: list.size) simp

abbreviation admin_request :: http_request where
  "admin_request \<equiv> plain_request\<lparr>r_XAPIKey := replicate 32 CHR ''0''\<rparr>"

lemma demo_revoke:
  "\<exists>api1. serve_request demo_jwt (demo_auth_env (100 * Second) 0x11) admin_request (RevokeKey (k_ID demo_key)) (NewAuthAPI demo_authenticator) =
     Some ((200, MessageBody ''API key revoked successfully''), api1)"
proof -
  define key where "key = demo_key\<lparr>k_LastUsedAt := Some (101 * Second)\<rparr>"
  define a where "a = demo_authenticator\<lparr>a_apiKeys := fmupd (replicate 32 CHR ''0'') key (a_apiKeys demo_authenticator)\<rparr>"
  let ?w = "demo_auth_env (100 * Second) 0x11"
  have keys: "a_apiKeys a = fmupd (replicate 32 CHR ''0'') key fmempty" by (simp add: a_def demo_authenticator_simps fmupd_twice)
  have users: "a_users a = fmupd (replicate 16 CHR ''0'') demo_admin fmempty" by (simp add: a_def demo_authenticator_simps)
  have v: "ValidateAPIKey ?w (replicate 32 CHR ''0'') demo_authenticator = (Inr key, a)"
    by (simp add: ValidateAPIKey_def demo_authenticator_simps demo_key_def key_def a_def expired_def demo_auth_env_def Let_def)
  have id: "k_ID key = k_ID demo_key" "k_UserID key = u_ID demo_admin" "u_ID demo_admin = replicate 16 CHR ''0''"
    by (simp_all add: key_def demo_key_def demo_admin_def)
  obtain ctx where auth: "authenticateRequest demo_jwt ?w admin_request demo_authenticator = (Inr ctx, a)" "ctx_User ctx = Some demo_admin"
    using v by (simp add: authenticateRequest_def plain_request_def GetUser_def users id)
  have find: "find_key (after 3 0 ?w) (k_ID demo_key) a = Some (replicate 32 CHR ''0'')"
    by (simp add: find_key_def keys demo_auth_env_def after_def id)
  then have "\<exists>a'. revokeAPIKeyHandler (after 3 0 ?w) ctx (k_ID demo_key) a = Some ((200, MessageBody ''API key revoked successfully''), a')"
    unfolding revokeAPIKeyHandler_def find_key_visit by (simp add: keys auth(2) id RevokeAPIKey_def Let_def)
  moreover have "fst (rateLimitMiddleware (after 2 0 ?w) admin_request ((NewAuthAPI demo_authenticator)\<lparr>api_auth := a\<rparr>))"
    "api_auth (snd (rateLimitMiddleware (after 2 0 ?w) admin_request ((NewAuthAPI demo_authenticator)\<lparr>api_auth := a\<rparr>))) = a"
    by (simp_all add: rateLimitMiddleware_def NewAuthAPI_def a_def demo_authenticator_simps DefaultAuthConfig_def Allow_def
        NewRateLimiter_def consumeToken_def refill_def time_sub_def whole_seconds_def wrap64_def maxDuration_def minDuration_def Let_def)
  ultimately show ?thesis
    using auth(1) by (auto simp: serve_request_def public_call_def NewAuthAPI_def route_def split: prod.split bool.split)
qed

theorem revoked_key_dead_witness:
  "\<exists>api1. serve_request demo_jwt (demo_auth_env (100 * Second) 0x11) admin_request (RevokeKey (k_ID demo_key)) (NewAuthAPI demo_authenticator) =
     Some ((200, MessageBody ''API key revoked successfully''), api1) \<and>
     serve_request demo_jwt (demo_auth_env (200 * Second) 0) admin_request ListKeys api1 = Some ((401, ErrorBody ''Unauthorized''), api1)"
proof -
  from demo_revoke obtain api1 where r: "serve_request demo_jwt (demo_auth_env (100 * Second) 0x11) admin_request (RevokeKey (k_ID demo_key))
     (NewAuthAPI demo_authenticator) = Some ((200, MessageBody ''API key revoked successfully''), api1)" ..
  have "serve_request demo_jwt (demo_auth_env (200 * Second) 0) admin_request ListKeys api1 = Some ((401, ErrorBody ''Unauthorized''), api1)"
    by (rule revoked_key_dead [OF r, where reqs = "[]" and k = "replicate 32 CHR ''0''"])
      (simp_all add: NewAuthAPI_def demo_authenticator_simps public_call_def plain_request_def HasPrefix_def split: if_splits)
  with r show ?thesis by blast
qed

theorem no_escalation_witness:
  "\<exists>replies api'. serve_all demo_jwt [(demo_auth_env (100 * Second) 0x11, plain_request, Login (Some bob))] (NewAuthAPI demo_authenticator) =
     Some (replies, api') \<and> harmless (accounts demo_authenticator) (accounts (api_auth api'))"
proof -
  let ?reqs = "[(demo_auth_env (100 * Second) 0x11, plain_request, Login (Some bob))]"
  from demo_serve_login obtain replies api' where s: "serve_all demo_jwt ?reqs (NewAuthAPI demo_authenticator) = Some (replies, api')"
    by auto
  have "replicate 16 CHR ''1'' \<noteq> replicate 16 CHR ''0''" by simp
  then have "generateRandomString (w_rand (demo_auth_env (100 * Second) 0x11) 0) 16 |\<notin>| fmdom (a_users demo_authenticator)"
    by (simp add: demo_auth_env_def demo_random demo_authenticator_simps)
  then have "unprivileged demo_jwt ?reqs (NewAuthAPI demo_authenticator)"
    by (auto simp: context_of_def public_call_def NewAuthAPI_def split: option.split)
  from no_escalation [OF s this] s show ?thesis by (auto simp: NewAuthAPI_def)
qed

end
