(* ===== verification/Auth_Middleware.thy ===== *)
theory Auth_Middleware
  imports Auth_Policy "HOL-Library.Countable"
begin

text \<open>
  The middleware of the web server, \<^verbatim>\<open>src/pkg/auth/middleware.go\<close>: what it lets pass, the guards for roles, and
  the handlers for login and refresh, with what a login and a chain of refreshes are good for.
\<close>

section \<open>Requests of the web framework\<close>

text \<open>What the handlers put into the context of a request, and what they read of it; absent values are empty texts.\<close>

datatype local_value = LClaims JWTClaims | LText string | LRoles "string list"

type_synonym locals = "string \<rightharpoonup> local_value"

record fiber_ctx =
  f_Path :: string
  f_Get :: "string \<Rightarrow> string"
  f_Query :: "string \<Rightarrow> string"
  f_Locals :: locals

text \<open>A middleware passes the request on with its context, or answers it with a status and an error.\<close>

datatype middleware_outcome = Next locals | Reply nat string

section \<open>The middleware\<close>

definition skipPaths :: "string list" where
  "skipPaths = [''/health'', ''/status'', ''/metrics'', ''/api/v1/auth/login'', ''/api/v1/auth/register'']"

definition shouldSkipAuth :: "string \<Rightarrow> bool" where
  "shouldSkipAuth path = list_ex (HasPrefix path) skipPaths"

definition extractToken :: "fiber_ctx \<Rightarrow> string" where
  "extractToken c =
     (let authHeader = f_Get c ''Authorization''; token = TrimPrefix authHeader ''Bearer ''
      in if authHeader \<noteq> [] \<and> token \<noteq> [] then token
         else if f_Get c ''X-Auth-Token'' \<noteq> [] then f_Get c ''X-Auth-Token''
         else f_Query c ''token'')"

definition store_claims :: "JWTClaims \<Rightarrow> locals \<Rightarrow> locals" where
  "store_claims claims l =
     l(''user'' \<mapsto> LClaims claims, ''user_id'' \<mapsto> LText (jc_UserID claims), ''roles'' \<mapsto> LRoles (jc_Roles claims))"

definition FiberAuth :: "jwt_lib \<Rightarrow> auth_env \<Rightarrow> Authenticator \<Rightarrow> fiber_ctx \<Rightarrow> middleware_outcome" where
  "FiberAuth j w a c =
     (if shouldSkipAuth (f_Path c) then Next (f_Locals c)
      else let token = extractToken c
           in if token = [] then Reply 401 ''Missing authentication token''
              else case ValidateToken j w token a of
                Inl e \<Rightarrow> Reply 401 (''Invalid token: '' @ e)
              | Inr claims \<Rightarrow> Next (store_claims claims (f_Locals c)))"

definition HTTPAuth :: "jwt_lib \<Rightarrow> auth_env \<Rightarrow> Authenticator \<Rightarrow> fiber_ctx \<Rightarrow> middleware_outcome" where
  "HTTPAuth j w a c =
     (if shouldSkipAuth (f_Path c) then Next (f_Locals c)
      else let token = TrimPrefix (f_Get c ''Authorization'') ''Bearer ''
           in if token = [] then Reply 401 ''Missing authentication token''
              else case ValidateToken j w token a of
                Inl e \<Rightarrow> Reply 401 (''Invalid token: '' @ e)
              | Inr claims \<Rightarrow> Next (store_claims claims (f_Locals c)))"

definition APIKeyAuth :: "auth_env \<Rightarrow> Authenticator \<Rightarrow> fiber_ctx \<Rightarrow> middleware_outcome \<times> Authenticator" where
  "APIKeyAuth w a c =
     (if shouldSkipAuth (f_Path c) then (Next (f_Locals c), a)
      else let apiKey = (if f_Get c ''X-API-Key'' = [] then f_Query c ''api_key'' else f_Get c ''X-API-Key'')
           in if apiKey = [] then (Reply 401 ''Missing API key'', a)
              else case ValidateAPIKey w apiKey a of
                (Inl _, a) \<Rightarrow> (Reply 401 ''Invalid API key'', a)
              | (Inr key, a) \<Rightarrow>
                  (Next ((f_Locals c)(''user_id'' \<mapsto> LText (k_UserID key), ''auth_type'' \<mapsto> LText ''api_key'')), a))"

definition RequireRole :: "string list \<Rightarrow> fiber_ctx \<Rightarrow> middleware_outcome" where
  "RequireRole roles c =
     (case f_Locals c ''roles'' of
        Some (LRoles userRoles) \<Rightarrow>
          if list_ex (\<lambda>requiredRole. list_ex (\<lambda>userRole. userRole = requiredRole) userRoles) roles
          then Next (f_Locals c) else Reply 403 ''Insufficient permissions''
      | _ \<Rightarrow> Reply 403 ''No roles found'')"

definition OptionalAuth :: "jwt_lib \<Rightarrow> auth_env \<Rightarrow> Authenticator \<Rightarrow> fiber_ctx \<Rightarrow> middleware_outcome" where
  "OptionalAuth j w a c =
     (let token = extractToken c
      in Next (if token = [] then f_Locals c
               else case ValidateToken j w token a of Inl _ \<Rightarrow> f_Locals c | Inr claims \<Rightarrow> store_claims claims (f_Locals c)))"

definition GetUserFromContext :: "fiber_ctx \<Rightarrow> string + JWTClaims" where
  "GetUserFromContext c =
     (case f_Locals c ''user'' of
        None \<Rightarrow> Inl ''user not found in context''
      | Some (LClaims claims) \<Rightarrow> Inr claims
      | Some _ \<Rightarrow> Inl ''invalid user claims'')"

definition GetUserIDFromContext :: "fiber_ctx \<Rightarrow> string + string" where
  "GetUserIDFromContext c =
     (case f_Locals c ''user_id'' of
        None \<Rightarrow> Inl ''user_id not found in context''
      | Some (LText i) \<Rightarrow> Inr i
      | Some _ \<Rightarrow> Inl ''invalid user_id type'')"

section \<open>Login and refresh\<close>

record LoginResponseMiddleware =
  lm_Token :: string
  lm_ExpiresAt :: instant
  lm_User :: "User option"

type_synonym login_reply = "nat \<times> (string + LoginResponseMiddleware)"

definition user_of :: "string \<Rightarrow> Authenticator \<Rightarrow> User option" where
  "user_of userID a = (case GetUser userID a of Inl _ \<Rightarrow> None | Inr user \<Rightarrow> Some user)"

definition HandleLogin :: "jwt_lib \<Rightarrow> auth_env \<Rightarrow> (string \<times> string) option \<Rightarrow> Authenticator \<Rightarrow> login_reply" where
  "HandleLogin j w body a =
     (case body of
        None \<Rightarrow> (400, Inl ''Invalid request body'')
      | Some (username, password) \<Rightarrow>
          (case ValidateCredentials w username password a of
             Inl _ \<Rightarrow> (401, Inl ''Invalid credentials'')
           | Inr userID \<Rightarrow>
               (case GenerateToken j w userID [''user''] a of
                  Inl _ \<Rightarrow> (500, Inl ''Failed to generate token'')
                | Inr (token, expiresAt) \<Rightarrow>
                    (200, Inr \<lparr>lm_Token = token, lm_ExpiresAt = expiresAt, lm_User = user_of userID a\<rparr>))))"

definition HandleRefreshToken :: "jwt_lib \<Rightarrow> auth_env \<Rightarrow> string option \<Rightarrow> Authenticator \<Rightarrow> login_reply" where
  "HandleRefreshToken j w body a =
     (case body of
        None \<Rightarrow> (400, Inl ''Invalid request body'')
      | Some refreshToken \<Rightarrow>
          (case ValidateToken j w refreshToken a of
             Inl _ \<Rightarrow> (401, Inl ''Invalid refresh token'')
           | Inr claims \<Rightarrow>
               (case GenerateToken j (after 2 0 w) (jc_UserID claims) (jc_Roles claims) a of
                  Inl _ \<Rightarrow> (500, Inl ''Failed to generate token'')
                | Inr (token, expiresAt) \<Rightarrow>
                    (200, Inr \<lparr>lm_Token = token, lm_ExpiresAt = expiresAt, lm_User = user_of (jc_UserID claims) a\<rparr>))))"

section \<open>Sessions\<close>

text \<open>A token that the library accepts with these claims at every moment of a span.\<close>

definition session :: "jwt_lib \<Rightarrow> Authenticator \<Rightarrow> string \<Rightarrow> string \<Rightarrow> string list \<Rightarrow> instant \<Rightarrow> instant \<Rightarrow> bool" where
  "session j a token userID roles from until \<longleftrightarrow>
     (\<forall>w. from \<le> w_now w 0 \<and> w_now w 0 < until \<and> w_now w 1 \<le> until \<longrightarrow>
        (\<exists>claims. ValidateToken j w token a = Inr claims \<and> jc_UserID claims = userID \<and> jc_Roles claims = roles))"

lemma GenerateToken_session:
  assumes "jwt_ok j" "GenerateToken j w userID roles a = Inr (token, e)" "list_all ascii (userID # roles)"
    "a_config a' = a_config a"
  shows "session j a' token userID roles (w_now w 2) (jwt_NewNumericDate j (w_now w 0 + ac_JWTExpiration (a_config a)))"
proof -
  let ?until = "jwt_NewNumericDate j (w_now w 0 + ac_JWTExpiration (a_config a))"
  let ?claims = "\<lparr>jc_UserID = userID, jc_Username = [], jc_Roles = roles, jc_Permissions = [],
            jc_ExpiresAt = Some ?until, jc_IssuedAt = Some (jwt_NewNumericDate j (w_now w 1)),
            jc_NotBefore = Some (jwt_NewNumericDate j (w_now w 2)), jc_Issuer = ''portask'', jc_Subject = [], jc_ID = []\<rparr>"
  have sign: "jwt_SignedString j ?claims (ac_JWTSecret (a_config a)) = Inr token"
    using assms(2) by (auto simp: GenerateToken_def Let_def split: sum.splits)
  have asc: "ascii_claims ?claims" using assms(3) by (simp add: ascii_claims_def) (simp add: ascii_def)
  have nbf: "jwt_NewNumericDate j (w_now w 2) \<le> w_now w 2" using assms(1) by (simp add: jwt_ok_def)
  have "jwt_ParseWithClaims j now token (keyfunc a') = Inr (?claims, True)" if "w_now w 2 \<le> now" "now < ?until" for now
    by (rule jwt_okD [OF assms(1) sign _ asc _ that(2) _ order_trans [OF nbf that(1)]]) (simp_all add: keyfunc_def assms(4))
  then show ?thesis unfolding session_def by (auto simp: ValidateToken_def)
qed

lemma ValidateCredentials_Inr:
  assumes "ValidateCredentials w username password a = Inr i"
  obtains u where "fmlookup (a_users a) i = Some u" "u_Username u = username" "u_Active u"
proof -
  from assms have "find (\<lambda>uid. case fmlookup (a_users a) uid of Some user \<Rightarrow> u_Username user = username \<and> u_Active user | None \<Rightarrow> False)
      (w_users w (a_users a)) = Some i"
    by (simp add: ValidateCredentials_def split: option.splits)
  then have "case fmlookup (a_users a) i of Some user \<Rightarrow> u_Username user = username \<and> u_Active user | None \<Rightarrow> False"
    unfolding find_Some_iff by blast
  then show thesis by (cases "fmlookup (a_users a) i") (auto intro: that)
qed

lemma HandleLogin_200:
  assumes "HandleLogin j w (Some (username, password)) a = (200, Inr resp)"
  obtains i u where "fmlookup (a_users a) i = Some u" "u_Username u = username" "u_Active u" "lm_User resp = Some u"
    "GenerateToken j w i [''user''] a = Inr (lm_Token resp, lm_ExpiresAt resp)"
proof (cases "ValidateCredentials w username password a")
  case (Inl e)
  with assms show thesis by (simp add: HandleLogin_def)
next
  case (Inr i)
  then obtain u where u: "fmlookup (a_users a) i = Some u" "u_Username u = username" "u_Active u"
    by (rule ValidateCredentials_Inr)
  with Inr assms show thesis
    by (intro that [OF u]) (auto simp: HandleLogin_def user_of_def GetUser_def split: sum.splits)
qed

text \<open>
  C32. What a login is good for. The token of a login passes the middleware until it expires, also after the
  accounts have changed, and the request then carries the identifier of the user; of the guards that require one
  of some roles exactly those let it pass that accept the role \<^verbatim>\<open>user\<close>, whatever the roles of the user are. So an
  administrator who logs in does not pass a guard for administrators. The password plays no part.
\<close>

theorem fiber_login:
  assumes "jwt_ok j" "auth_inv (accounts a)" "a_config a' = a_config a"
    and "HandleLogin j w (Some (username, password)) a = (200, Inr resp)"
    and "lm_User resp = Some u" "ascii (u_ID u)" "lm_Token resp \<noteq> []"
    and "f_Get c ''Authorization'' = ''Bearer '' @ lm_Token resp" "\<not> shouldSkipAuth (f_Path c)"
    and "w_now w 2 \<le> w_now w' 0" "w_now w' 0 \<le> w_now w' 1"
        "w_now w' 1 < jwt_NewNumericDate j (w_now w 0 + ac_JWTExpiration (a_config a))"
  shows "u_Username u = username \<and> u_Active u \<and>
    (\<exists>l. FiberAuth j w' a' c = Next l \<and> GetUserIDFromContext (c\<lparr>f_Locals := l\<rparr>) = Inr (u_ID u) \<and>
       (\<forall>roles. RequireRole roles (c\<lparr>f_Locals := l\<rparr>) =
          (if ''user'' \<in> set roles then Next l else Reply 403 ''Insufficient permissions''))) \<and>
    HandleLogin j w (Some (username, password')) a = HandleLogin j w (Some (username, password)) a"
proof -
  obtain i where i: "fmlookup (a_users a) i = Some u" "u_Username u = username" "u_Active u"
      "GenerateToken j w i [''user''] a = Inr (lm_Token resp, lm_ExpiresAt resp)"
    using HandleLogin_200 [OF assms(4)] assms(5) by (metis option.inject)
  have id: "u_ID u = i" using assms(2) i(1) by (simp add: auth_inv_def accounts_def)
  have "list_all ascii [i, ''user'']" using assms(6) id by (simp add: ascii_def)
  from GenerateToken_session [OF assms(1) i(4) this assms(3)]
  obtain claims where claims: "ValidateToken j w' (lm_Token resp) a' = Inr claims" "jc_UserID claims = i" "jc_Roles claims = [''user'']"
    using assms(10-12) unfolding session_def by (meson less_imp_le order_le_less_trans)
  have "extractToken c = lm_Token resp"
    using assms(7,8) by (simp add: extractToken_def TrimPrefix_def HasPrefix_def)
  then have "FiberAuth j w' a' c = Next (store_claims claims (f_Locals c))"
    using assms(7,9) claims(1) by (simp add: FiberAuth_def)
  moreover have "GetUserIDFromContext (c\<lparr>f_Locals := store_claims claims (f_Locals c)\<rparr>) = Inr (u_ID u)"
    by (simp add: GetUserIDFromContext_def store_claims_def claims(2) id)
  moreover have "RequireRole roles (c\<lparr>f_Locals := store_claims claims (f_Locals c)\<rparr>) =
      (if ''user'' \<in> set roles then Next (store_claims claims (f_Locals c)) else Reply 403 ''Insufficient permissions'')" for roles
    by (auto simp: RequireRole_def store_claims_def claims(3) list_ex_iff)
  moreover have "HandleLogin j w (Some (username, password')) a = HandleLogin j w (Some (username, password)) a"
    by (simp add: HandleLogin_def ValidateCredentials_def)
  ultimately show ?thesis using i(2,3) by blast
qed

text \<open>A chain of refreshes: each presents the token it got before. The accounts may change in between.\<close>

fun refresh_chain :: "jwt_lib \<Rightarrow> (auth_env \<times> Authenticator) list \<Rightarrow> string \<Rightarrow> string option" where
  "refresh_chain j [] token = Some token"
| "refresh_chain j ((w, a) # rounds) token =
     (case HandleRefreshToken j w (Some token) a of
        (_, Inr resp) \<Rightarrow> refresh_chain j rounds (lm_Token resp)
      | (_, Inl _) \<Rightarrow> None)"

text \<open>Each refresh happens while the last token is valid; \<open>span_of\<close> is the span of the last one.\<close>

fun in_time :: "jwt_lib \<Rightarrow> duration \<Rightarrow> (auth_env \<times> Authenticator) list \<Rightarrow> instant \<times> instant \<Rightarrow> bool" where
  "in_time j d [] win \<longleftrightarrow> True"
| "in_time j d ((w, a) # rounds) (from, until) \<longleftrightarrow>
     from \<le> w_now w 0 \<and> w_now w 0 \<le> w_now w 1 \<and> w_now w 1 < until \<and>
     in_time j d rounds (w_now w 4, jwt_NewNumericDate j (w_now w 2 + d))"

fun span_of :: "jwt_lib \<Rightarrow> duration \<Rightarrow> (auth_env \<times> Authenticator) list \<Rightarrow> instant \<times> instant \<Rightarrow> instant \<times> instant" where
  "span_of j d [] win = win"
| "span_of j d ((w, a) # rounds) win = span_of j d rounds (w_now w 4, jwt_NewNumericDate j (w_now w 2 + d))"

lemma HandleRefreshToken_session:
  assumes "jwt_ok j" "\<And>w. \<exists>t e. GenerateToken j w i roles a = Inr (t, e)"
    and "session j a token i roles from until" "list_all ascii (i # roles)" "a_config a' = a_config a"
    and "from \<le> w_now w 0" "w_now w 0 \<le> w_now w 1" "w_now w 1 < until"
  obtains resp where "HandleRefreshToken j w (Some token) a = (200, Inr resp)"
    "session j a' (lm_Token resp) i roles (w_now w 4) (jwt_NewNumericDate j (w_now w 2 + ac_JWTExpiration (a_config a)))"
proof -
  from assms(3,6-8) obtain claims where claims: "ValidateToken j w token a = Inr claims" "jc_UserID claims = i" "jc_Roles claims = roles"
    unfolding session_def by (meson less_imp_le order_le_less_trans)
  obtain t e where t: "GenerateToken j (after 2 0 w) i roles a = Inr (t, e)" using assms(2) by blast
  have "session j a' t i roles (w_now (after 2 0 w) 2) (jwt_NewNumericDate j (w_now (after 2 0 w) 0 + ac_JWTExpiration (a_config a)))"
    by (rule GenerateToken_session [OF assms(1) t assms(4,5)])
  then have "session j a' t i roles (w_now w 4) (jwt_NewNumericDate j (w_now w 2 + ac_JWTExpiration (a_config a)))"
    by (simp add: after_def eval_nat_numeral)
  then show thesis
    by (intro that [of "\<lparr>lm_Token = t, lm_ExpiresAt = e, lm_User = user_of i a\<rparr>"])
      (simp_all add: HandleRefreshToken_def claims t)
qed

text \<open>
  C31. A session never has to end. Any token that is accepted, also one that was made for access and not for
  refreshing, can be exchanged for a new one with the same user and roles, and this one again, any number of times,
  if each exchange comes before the expiry; the users may change meanwhile in every way, and the user may be
  deleted or deactivated.
\<close>

theorem refresh_forever:
  assumes "jwt_ok j" "\<forall>w a. a_config a = config \<longrightarrow> (\<exists>t e. GenerateToken j w i roles a = Inr (t, e))"
    and "\<forall>a. a_config a = config \<longrightarrow> session j a token i roles (fst win) (snd win)" "list_all ascii (i # roles)"
    and "in_time j (ac_JWTExpiration config) rounds win" "\<forall>(w, a) \<in> set rounds. a_config a = config"
  shows "\<exists>token'. refresh_chain j rounds token = Some token' \<and>
    (\<forall>a. a_config a = config \<longrightarrow>
       session j a token' i roles (fst (span_of j (ac_JWTExpiration config) rounds win)) (snd (span_of j (ac_JWTExpiration config) rounds win)))"
  using assms(3,5,6)
proof (induction rounds arbitrary: token win)
  case (Cons rnd rounds)
  obtain w a where r: "rnd = (w, a)" by (cases rnd)
  obtain t0 t1 where s: "win = (t0, t1)" by (cases win)
  have a: "a_config a = config" using Cons.prems(3) by (simp add: r)
  have "session j a token i roles t0 t1" using Cons.prems(1) a by (simp add: s)
  note refresh = HandleRefreshToken_session [OF assms(1) assms(2) [rule_format, OF a] this assms(4)]
  obtain resp where resp: "HandleRefreshToken j w (Some token) a = (200, Inr resp)"
    using refresh [OF refl] Cons.prems(2) by (auto simp: r s)
  have new: "session j a' (lm_Token resp) i roles (w_now w 4) (jwt_NewNumericDate j (w_now w 2 + ac_JWTExpiration config))"
    if "a_config a' = config" for a'
    using refresh [of a' w] Cons.prems(2) resp a that by (auto simp: r s)
  from Cons.IH [of "lm_Token resp" "(w_now w 4, jwt_NewNumericDate j (w_now w 2 + ac_JWTExpiration config))"]
  show ?case using new Cons.prems(2,3) by (simp add: r s resp)
qed simp

section \<open>A concrete library\<close>

text \<open>It signs the tokens of the administrator; a token is the number of its three dates.\<close>

definition user_claims :: "string \<Rightarrow> int \<Rightarrow> int \<Rightarrow> int \<Rightarrow> JWTClaims" where
  "user_claims i e t n =
     \<lparr>jc_UserID = i, jc_Username = [], jc_Roles = [''user''], jc_Permissions = [], jc_ExpiresAt = Some e, jc_IssuedAt = Some t,
      jc_NotBefore = Some n, jc_Issuer = ''portask'', jc_Subject = [], jc_ID = []\<rparr>"

definition date_token :: "int \<Rightarrow> int \<Rightarrow> int \<Rightarrow> string" where
  "date_token e t n = dec (prod_encode (int_encode e, prod_encode (int_encode t, int_encode n)))"

definition token_dates :: "string \<Rightarrow> int \<times> int \<times> int" where
  "token_dates token =
     (let (e, tn) = prod_decode (undec token); (t, n) = prod_decode tn in (int_decode e, int_decode t, int_decode n))"

lemma token_dates_date_token [simp]: "token_dates (date_token e t n) = (e, t, n)"
  by (simp add: token_dates_def date_token_def undec_dec)

definition date_jwt :: "string \<Rightarrow> jwt_lib" where
  "date_jwt i =
     \<lparr>jwt_NewNumericDate = (\<lambda>t. Second * (t div Second)),
      jwt_SignedString = (\<lambda>claims secret.
        case (jc_ExpiresAt claims, jc_IssuedAt claims, jc_NotBefore claims) of
          (Some e, Some t, Some n) \<Rightarrow>
            if claims = user_claims i e t n \<and> secret = ac_JWTSecret DefaultAuthConfig then Inr (date_token e t n) else Inl ''unsupported''
        | _ \<Rightarrow> Inl ''unsupported''),
      jwt_ParseWithClaims = (\<lambda>now token key.
        let (e, t, n) = token_dates token
        in if key SigningMethodHMAC = Inr (ac_JWTSecret DefaultAuthConfig) \<and> n \<le> now \<and> now < e
           then Inr (user_claims i e t n, True) else Inl ''token is invalid'')\<rparr>"

lemma date_jwt_ok: "jwt_ok (date_jwt i)"
proof -
  have "Second * (t div Second) \<le> t" for t
    using pos_mod_sign [of Second t] mult_div_mod_eq [of Second t] by (simp add: Second_def)
  then show ?thesis by (auto simp: jwt_ok_def date_jwt_def split: if_splits option.splits)
qed

lemma date_jwt_signs:
  "a_config a = DefaultAuthConfig \<Longrightarrow> \<exists>t e. GenerateToken (date_jwt i) w i [''user''] a = Inr (t, e)"
  by (simp add: GenerateToken_def date_jwt_def user_claims_def Let_def)

theorem fiber_login_witness:
  "\<exists>resp l. HandleLogin (date_jwt (replicate 16 CHR ''0'')) (demo_auth_env (100 * Second) 0) (Some (''admin'', [])) demo_authenticator = (200, Inr resp) \<and>
    FiberAuth (date_jwt (replicate 16 CHR ''0'')) (demo_auth_env (200 * Second) 0) demo_authenticator
      \<lparr>f_Path = ''/api/v1/topics'', f_Get = (\<lambda>h. if h = ''Authorization'' then ''Bearer '' @ lm_Token resp else []), f_Query = (\<lambda>_. []), f_Locals = Map.empty\<rparr> = Next l \<and>
    RequireRole [''admin'']
      \<lparr>f_Path = ''/api/v1/topics'', f_Get = (\<lambda>h. if h = ''Authorization'' then ''Bearer '' @ lm_Token resp else []), f_Query = (\<lambda>_. []), f_Locals = l\<rparr> = Reply 403 ''Insufficient permissions''"
proof -
  let ?j = "date_jwt (replicate 16 CHR ''0'')" and ?w = "demo_auth_env (100 * Second) 0" and ?w' = "demo_auth_env (200 * Second) 0"
  let ?i = "replicate 16 CHR ''0''"
  have cred: "ValidateCredentials ?w ''admin'' [] demo_authenticator = Inr ?i"
    by (simp add: ValidateCredentials_def demo_authenticator_simps demo_auth_env_def demo_admin_def)
  obtain t e where t: "GenerateToken ?j ?w ?i [''user''] demo_authenticator = Inr (t, e)"
    using date_jwt_signs demo_authenticator_simps(3) by blast
  have t_eq: "t = date_token (100 * Second + 24 * Hour) (101 * Second) (102 * Second)"
    using t by (simp add: GenerateToken_def date_jwt_def user_claims_def demo_auth_env_def demo_authenticator_simps DefaultAuthConfig_def
        Let_def Second_def Hour_def)
  have "t \<noteq> []" unfolding t_eq date_token_def by (simp add: dec.simps)
  define resp where "resp = \<lparr>lm_Token = t, lm_ExpiresAt = e, lm_User = Some demo_admin\<rparr>"
  have login: "HandleLogin ?j ?w (Some (''admin'', [])) demo_authenticator = (200, Inr resp)"
    by (simp add: HandleLogin_def cred t resp_def user_of_def GetUser_def demo_authenticator_simps)
  define c where "c = \<lparr>f_Path = ''/api/v1/topics'', f_Get = (\<lambda>h. if h = ''Authorization'' then ''Bearer '' @ lm_Token resp else []),
      f_Query = (\<lambda>_. []), f_Locals = Map.empty\<rparr>"
  have "u_Username demo_admin = ''admin'' \<and> u_Active demo_admin \<and>
    (\<exists>l. FiberAuth ?j ?w' demo_authenticator c = Next l \<and> GetUserIDFromContext (c\<lparr>f_Locals := l\<rparr>) = Inr (u_ID demo_admin) \<and>
       (\<forall>roles. RequireRole roles (c\<lparr>f_Locals := l\<rparr>) = (if ''user'' \<in> set roles then Next l else Reply 403 ''Insufficient permissions''))) \<and>
    HandleLogin ?j ?w (Some (''admin'', ''x'')) demo_authenticator = HandleLogin ?j ?w (Some (''admin'', [])) demo_authenticator"
    by (rule fiber_login [OF date_jwt_ok NewAuthenticator_inv(1) [OF NewAuthenticator_demo] refl login])
      (simp_all add: resp_def c_def \<open>t \<noteq> []\<close> ascii_def list_all_iff demo_admin_def shouldSkipAuth_def skipPaths_def HasPrefix_def
        demo_auth_env_def demo_authenticator_simps DefaultAuthConfig_def date_jwt_def Second_def Hour_def)
  then obtain l where "FiberAuth ?j ?w' demo_authenticator c = Next l"
    "\<And>roles. RequireRole roles (c\<lparr>f_Locals := l\<rparr>) = (if ''user'' \<in> set roles then Next l else Reply 403 ''Insufficient permissions'')"
    by blast
  with login show ?thesis by (intro exI [of _ resp] exI [of _ l]) (simp add: c_def)
qed

theorem refresh_forever_witness:
  "\<exists>token'. refresh_chain (date_jwt ''7'') [(demo_auth_env (100 * Second) 0, demo_authenticator), (demo_auth_env (200 * Second) 0, demo_authenticator)]
      (date_token (150 * Second) 0 0) = Some token' \<and>
    session (date_jwt ''7'') demo_authenticator token' ''7'' [''user''] (204 * Second) (202 * Second + 24 * Hour)"
proof -
  let ?rounds = "[(demo_auth_env (100 * Second) 0, demo_authenticator), (demo_auth_env (200 * Second) 0, demo_authenticator)]"
  have start: "\<forall>a. a_config a = DefaultAuthConfig \<longrightarrow>
      session (date_jwt ''7'') a (date_token (150 * Second) 0 0) ''7'' [''user''] (fst (0, 150 * Second)) (snd (0, 150 * Second))"
    by (auto simp: session_def ValidateToken_def date_jwt_def keyfunc_def user_claims_def)
  have sp: "span_of (date_jwt ''7'') (ac_JWTExpiration DefaultAuthConfig) ?rounds (0, 150 * Second) = (204 * Second, 202 * Second + 24 * Hour)"
    "in_time (date_jwt ''7'') (ac_JWTExpiration DefaultAuthConfig) ?rounds (0, 150 * Second)"
    by (simp_all add: demo_auth_env_def date_jwt_def DefaultAuthConfig_def Second_def Hour_def)
  have "\<exists>token'. refresh_chain (date_jwt ''7'') ?rounds (date_token (150 * Second) 0 0) = Some token' \<and>
    (\<forall>a. a_config a = DefaultAuthConfig \<longrightarrow> session (date_jwt ''7'') a token' ''7'' [''user'']
       (fst (span_of (date_jwt ''7'') (ac_JWTExpiration DefaultAuthConfig) ?rounds (0, 150 * Second)))
       (snd (span_of (date_jwt ''7'') (ac_JWTExpiration DefaultAuthConfig) ?rounds (0, 150 * Second))))"
    by (rule refresh_forever [OF date_jwt_ok _ start _ sp(2)])
      (simp_all add: date_jwt_signs ascii_def demo_authenticator_simps)
  then show ?thesis using demo_authenticator_simps(3) unfolding sp(1) fst_conv snd_conv by blast
qed

end
