(* ===== verification/Job_Queue.thy ===== *)
theory Job_Queue
  imports Message_Bus Rate_Limiter
begin

text \<open>
  The job queue, \<^verbatim>\<open>src/pkg/rq\<close>: the adapter that turns jobs into messages of the bus, its queues, statistics and
  events, the scheduler for later jobs, and the workers with the handling of failures and the backoff.

  A job is shared by pointer between worker and scheduler, but no one writes to it after it has been scheduled, so the
  scheduler holds the job as it was then. The state that a worker shows while it processes a job, and the fields of
  jobs and configurations that no operation reads (timeouts, progress, poll intervals), are left out. A clock
  \<open>clk k\<close> gives the reading number \<open>k\<close>. Identifiers come from the package \<^verbatim>\<open>uuid\<close> and are an argument.
\<close>

section \<open>Jobs\<close>

text \<open>A priority is any integer; the three below are named.\<close>

definition rq_PriorityLow :: int where "rq_PriorityLow = 0"
definition rq_PriorityNormal :: int where "rq_PriorityNormal = 1"
definition rq_PriorityHigh :: int where "rq_PriorityHigh = 2"

definition Priority_String :: "int \<Rightarrow> string" where
  "Priority_String p =
     (if p = rq_PriorityLow then ''low'' else if p = rq_PriorityNormal then ''normal''
      else if p = rq_PriorityHigh then ''high'' else ''normal'')"

text \<open>The states of a job are texts; before it is submitted it has none.\<close>

definition JobQueued :: string where "JobQueued = ''queued''"
definition JobStarted :: string where "JobStarted = ''started''"
definition JobFinished :: string where "JobFinished = ''finished''"
definition JobFailed :: string where "JobFailed = ''failed''"
definition JobCanceled :: string where "JobCanceled = ''canceled''"
definition JobScheduled :: string where "JobScheduled = ''scheduled''"

lemmas job_status_defs = JobQueued_def JobStarted_def JobFinished_def JobFailed_def JobCanceled_def JobScheduled_def

definition BackoffLinear :: string where "BackoffLinear = ''linear''"
definition BackoffExponential :: string where "BackoffExponential = ''exponential''"
definition BackoffFixed :: string where "BackoffFixed = ''fixed''"
definition BackoffCustom :: string where "BackoffCustom = ''custom''"

lemmas backoff_defs = BackoffLinear_def BackoffExponential_def BackoffFixed_def BackoffCustom_def

record RetryPolicy =
  rp_MaxRetries :: i64
  rp_RetryIntervals :: "duration list"
  rp_BackoffStrategy :: string
  rp_RetryOnFailure :: bool

text \<open>What the package itself puts into the metadata of a job, and anything else.\<close>

datatype meta_value = MInt i64 | MText string | MTime instant | MOther

record Job =
  job_ID :: string
  job_Function :: string
  job_Args :: "dynval list"
  job_Kwargs :: "dynval go_map"
  job_Queue :: string
  job_Priority :: int
  job_RetryPolicy :: "RetryPolicy option"
  job_ScheduledAt :: "instant option"
  job_CreatedAt :: instant
  job_StartedAt :: "instant option"
  job_FinishedAt :: "instant option"
  job_Status :: string
  job_Result :: dynval
  job_Error :: string
  job_Meta :: "(string \<rightharpoonup> meta_value) option"

record QueueConfig =
  qc_Name :: string
  qc_MaxSize :: int
  qc_Priority :: int
  qc_Persistent :: bool

record WorkerConfig =
  wk_Name :: string
  wk_Queues :: "string list"
  wk_Concurrency :: int
  wk_MaxJobs :: int

record JobStats =
  js_QueueName :: string
  js_Total :: i64
  js_Queued :: i64
  js_Started :: i64
  js_Finished :: i64
  js_Failed :: i64
  js_UpdatedAt :: "instant option"

record RQStats =
  rs_TotalJobs :: i64
  rs_QueuedJobs :: i64
  rs_StartedJobs :: i64
  rs_FinishedJobs :: i64
  rs_FailedJobs :: i64
  rs_Workers :: i64
  rs_Queues :: i64
  rs_QueueStats :: "string \<rightharpoonup> JobStats"
  rs_UpdatedAt :: instant

record JobEvent =
  je_JobID :: string
  je_OldStatus :: string
  je_NewStatus :: string
  je_Timestamp :: instant
  je_Worker :: string
  je_Error :: string

section \<open>The adapter\<close>

record RQQueue =
  rqq_Name :: string
  rqq_Priority :: int
  rqq_Config :: QueueConfig
  rqq_JobCount :: i64

record RQWorker =
  rw_config :: WorkerConfig
  rw_status :: string
  rw_currentJob :: "Job option"
  rw_jobsProcessed :: i64
  rw_startedAt :: instant
  rw_lastSeen :: instant
  rw_cancelled :: bool

text \<open>
  A job function gets the moment of the call, so that it may give different results for the same arguments; an
  error is its text, and \<^const>\<open>None\<close> is a panic.
\<close>

type_synonym JobFunction = "instant \<Rightarrow> dynval list \<Rightarrow> dynval go_map \<Rightarrow> (string + dynval) option"

record RQAdapter =
  rq_messageBus :: MessageBus
  rq_functions :: "string \<rightharpoonup> JobFunction"
  rq_workers :: "string \<rightharpoonup> RQWorker"
  rq_queues :: "string \<rightharpoonup> RQQueue"
  rq_scheduler :: "string \<rightharpoonup> Job \<times> instant"
  rq_stats :: RQStats
  rq_eventChan :: "JobEvent list"
  rq_cancelled :: bool

subsection \<open>Queues\<close>

definition CreateQueue :: "instant \<Rightarrow> QueueConfig \<Rightarrow> RQAdapter \<Rightarrow> string option \<times> RQAdapter" where
  "CreateQueue now config r =
     (if rq_queues r (qc_Name config) \<noteq> None then (Some (''queue already exists: '' @ qc_Name config), r)
      else (None, r\<lparr>rq_queues := (rq_queues r)(qc_Name config \<mapsto>
                \<lparr>rqq_Name = qc_Name config, rqq_Priority = qc_Priority config, rqq_Config = config, rqq_JobCount = 0\<rparr>),
              rq_stats := (rq_stats r)\<lparr>rs_QueueStats := (rs_QueueStats (rq_stats r))(qc_Name config \<mapsto>
                \<lparr>js_QueueName = qc_Name config, js_Total = 0, js_Queued = 0, js_Started = 0, js_Finished = 0, js_Failed = 0,
                 js_UpdatedAt = Some now\<rparr>), rs_Queues := rs_Queues (rq_stats r) + 1\<rparr>\<rparr>))"

definition DeleteQueue :: "string \<Rightarrow> RQAdapter \<Rightarrow> string option \<times> RQAdapter" where
  "DeleteQueue name r =
     (if rq_queues r name = None then (Some (''queue not found: '' @ name), r)
      else (None, r\<lparr>rq_queues := (rq_queues r)(name := None),
              rq_stats := (rq_stats r)\<lparr>rs_QueueStats := (rs_QueueStats (rq_stats r))(name := None),
                rs_Queues := rs_Queues (rq_stats r) - 1\<rparr>\<rparr>))"

definition PurgeQueue :: "string \<Rightarrow> RQAdapter \<Rightarrow> string option \<times> RQAdapter" where
  "PurgeQueue name r =
     (case rq_queues r name of
        None \<Rightarrow> (Some (''queue not found: '' @ name), r)
      | Some q \<Rightarrow> (None, r\<lparr>rq_queues := (rq_queues r)(name \<mapsto> q\<lparr>rqq_JobCount := 0\<rparr>)\<rparr>))"

definition GetQueueLength :: "string \<Rightarrow> RQAdapter \<Rightarrow> string + i64" where
  "GetQueueLength name r =
     (case rq_queues r name of None \<Rightarrow> Inl (''queue not found: '' @ name) | Some q \<Rightarrow> Inr (rqq_JobCount q))"

definition defaultQueues :: "QueueConfig list" where
  "defaultQueues =
     [\<lparr>qc_Name = ''high'', qc_MaxSize = 10000, qc_Priority = rq_PriorityHigh, qc_Persistent = True\<rparr>,
      \<lparr>qc_Name = ''default'', qc_MaxSize = 50000, qc_Priority = rq_PriorityNormal, qc_Persistent = True\<rparr>,
      \<lparr>qc_Name = ''low'', qc_MaxSize = 100000, qc_Priority = rq_PriorityLow, qc_Persistent = True\<rparr>,
      \<lparr>qc_Name = ''failed'', qc_MaxSize = 10000, qc_Priority = rq_PriorityNormal, qc_Persistent = True\<rparr>,
      \<lparr>qc_Name = ''scheduled'', qc_MaxSize = 50000, qc_Priority = rq_PriorityNormal, qc_Persistent = True\<rparr>]"

definition createDefaultQueues :: "instant \<Rightarrow> RQAdapter \<Rightarrow> RQAdapter" where
  "createDefaultQueues now r = foldl (\<lambda>r config. snd (CreateQueue now config r)) r defaultQueues"

definition NewRQAdapter :: "instant \<Rightarrow> MessageBus \<Rightarrow> RQAdapter" where
  "NewRQAdapter now messageBus =
     createDefaultQueues now
       \<lparr>rq_messageBus = messageBus, rq_functions = Map.empty, rq_workers = Map.empty, rq_queues = Map.empty,
        rq_scheduler = Map.empty,
        rq_stats = \<lparr>rs_TotalJobs = 0, rs_QueuedJobs = 0, rs_StartedJobs = 0, rs_FinishedJobs = 0, rs_FailedJobs = 0,
          rs_Workers = 0, rs_Queues = 0, rs_QueueStats = Map.empty, rs_UpdatedAt = now\<rparr>,
        rq_eventChan = [], rq_cancelled = False\<rparr>"

definition RegisterFunction :: "string \<Rightarrow> JobFunction \<Rightarrow> RQAdapter \<Rightarrow> RQAdapter" where
  "RegisterFunction name fn r = r\<lparr>rq_functions := (rq_functions r)(name \<mapsto> fn)\<rparr>"

definition UnregisterFunction :: "string \<Rightarrow> RQAdapter \<Rightarrow> RQAdapter" where
  "UnregisterFunction name r = r\<lparr>rq_functions := (rq_functions r)(name := None)\<rparr>"

definition GetJobStats :: "string \<Rightarrow> RQAdapter \<Rightarrow> string + JobStats" where
  "GetJobStats queueName r =
     (case rs_QueueStats (rq_stats r) queueName of None \<Rightarrow> Inl (''queue not found: '' @ queueName) | Some s \<Rightarrow> Inr s)"

subsection \<open>Statistics and events\<close>

definition updateQueueStats :: "instant \<Rightarrow> string \<Rightarrow> i64 \<Rightarrow> i64 \<Rightarrow> i64 \<Rightarrow> i64 \<Rightarrow> RQAdapter \<Rightarrow> RQAdapter" where
  "updateQueueStats now queueName queued started finished failed r =
     (let g = rq_stats r;
          s = (case rs_QueueStats g queueName of
                 Some s \<Rightarrow> s
               | None \<Rightarrow> \<lparr>js_QueueName = queueName, js_Total = 0, js_Queued = 0, js_Started = 0, js_Finished = 0, js_Failed = 0,
                          js_UpdatedAt = None\<rparr>);
          s = s\<lparr>js_Queued := js_Queued s + queued, js_Started := js_Started s + started,
                js_Finished := js_Finished s + finished, js_Failed := js_Failed s + failed,
                js_Total := js_Total s + (queued + started + finished + failed), js_UpdatedAt := Some now\<rparr>
      in r\<lparr>rq_stats := g\<lparr>rs_QueueStats := (rs_QueueStats g)(queueName \<mapsto> s),
             rs_QueuedJobs := rs_QueuedJobs g + queued, rs_StartedJobs := rs_StartedJobs g + started,
             rs_FinishedJobs := rs_FinishedJobs g + finished, rs_FailedJobs := rs_FailedJobs g + failed,
             rs_TotalJobs := rs_TotalJobs g + (queued + started + finished + failed)\<rparr>\<rparr>)"

text \<open>The channel of events holds 1000; an event that does not fit is dropped.\<close>

definition sendEvent :: "JobEvent \<Rightarrow> RQAdapter \<Rightarrow> RQAdapter" where
  "sendEvent event r =
     (if length (rq_eventChan r) < 1000 then r\<lparr>rq_eventChan := rq_eventChan r @ [event]\<rparr> else r)"

text \<open>One round of \<^verbatim>\<open>eventProcessor\<close>, which only logs.\<close>

definition eventProcessor :: "RQAdapter \<Rightarrow> RQAdapter" where
  "eventProcessor r = r\<lparr>rq_eventChan := tl (rq_eventChan r)\<rparr>"

subsection \<open>Submitting jobs\<close>

definition mapPriority :: "int \<Rightarrow> MessagePriority" where
  "mapPriority p = (if p = rq_PriorityHigh then PriorityHigh else if p = rq_PriorityLow then PriorityLow else PriorityNormal)"

definition serializeJob :: "Job \<Rightarrow> byte list" where
  "serializeJob job = []"

definition Unix :: "instant \<Rightarrow> i64" where
  "Unix t = word_of_int (t div Second)"

definition job_message :: "instant \<Rightarrow> Job \<Rightarrow> PortaskMessage" where
  "job_message now job =
     zero_message\<lparr>m_ID := job_ID job, m_Topic := job_Queue job, m_Timestamp := Unix now, m_Payload := serializeJob job,
       m_Priority := mapPriority (job_Priority job),
       m_Headers := Some [(''job_type'', AnyString ''rq''), (''function'', AnyString (job_Function job)),
         (''status'', AnyString (job_Status job)), (''retry_count'', AnyString ''0'')]\<rparr>"

definition rq_Enqueue ::
  "(nat \<Rightarrow> instant) \<Rightarrow> string \<Rightarrow> Job \<Rightarrow> RQAdapter \<Rightarrow> (go_error option \<times> Job \<times> RQAdapter) option" where
  "rq_Enqueue clk uuid job r =
     (let job = job\<lparr>job_ID := (if job_ID job = [] then uuid else job_ID job), job_Status := JobQueued, job_CreatedAt := clk 0\<rparr>
      in case PublishToPriority (clk 2) (job_message (clk 1) job) (mapPriority (job_Priority job)) (rq_messageBus r) of
           None \<Rightarrow> None
         | Some (Some e, mb) \<Rightarrow>
             Some (Some (Foreign (''failed to enqueue job: '' @ error_text e)), job, r\<lparr>rq_messageBus := mb\<rparr>)
         | Some (None, mb) \<Rightarrow>
             let r = updateQueueStats (clk 3) (job_Queue job) 1 0 0 0 (r\<lparr>rq_messageBus := mb\<rparr>)
             in Some (None, job, sendEvent \<lparr>je_JobID = job_ID job, je_OldStatus = [], je_NewStatus = JobQueued,
                  je_Timestamp = clk 4, je_Worker = [], je_Error = []\<rparr> r))"

subsection \<open>The scheduler\<close>

definition Schedule :: "Job \<Rightarrow> instant \<Rightarrow> RQAdapter \<Rightarrow> RQAdapter" where
  "Schedule job t r = r\<lparr>rq_scheduler := (rq_scheduler r)(job_ID job \<mapsto> (job, t))\<rparr>"

definition EnqueueAt :: "Job \<Rightarrow> instant \<Rightarrow> RQAdapter \<Rightarrow> Job \<times> RQAdapter" where
  "EnqueueAt job t r =
     (let job = job\<lparr>job_ScheduledAt := Some t, job_Status := JobScheduled\<rparr> in (job, Schedule job t r))"

definition EnqueueIn :: "instant \<Rightarrow> Job \<Rightarrow> duration \<Rightarrow> RQAdapter \<Rightarrow> Job \<times> RQAdapter" where
  "EnqueueIn now job delay r = EnqueueAt job (now + delay) r"

definition Scheduler_Cancel :: "string \<Rightarrow> RQAdapter \<Rightarrow> RQAdapter" where
  "Scheduler_Cancel jobID r = r\<lparr>rq_scheduler := (rq_scheduler r)(jobID := None)\<rparr>"

definition GetScheduledJobs :: "string list \<Rightarrow> RQAdapter \<Rightarrow> (Job \<times> instant) list" where
  "GetScheduledJobs order r = List.map_filter (rq_scheduler r) order"

definition due :: "instant \<Rightarrow> Job \<times> instant \<Rightarrow> bool" where
  "due now sj \<longleftrightarrow> snd sj \<le> now"

text \<open>A tick of the scheduler: the jobs it runs, which it only logs, and the scheduler without them.\<close>

definition processScheduledJobs :: "instant \<Rightarrow> string list \<Rightarrow> RQAdapter \<Rightarrow> Job list \<times> RQAdapter" where
  "processScheduledJobs now order r =
     (let jobsToRun = filter (due now) (GetScheduledJobs order r)
      in (map (\<lambda>sj. (fst sj)\<lparr>job_Status := JobQueued, job_ScheduledAt := None\<rparr>) jobsToRun,
          r\<lparr>rq_scheduler := (\<lambda>i. case rq_scheduler r i of
               None \<Rightarrow> None
             | Some sj \<Rightarrow> if i \<in> set order \<and> due now sj then None else Some sj)\<rparr>))"

text \<open>Cancelling a job only sends an event: the scheduler keeps it.\<close>

definition CancelJob :: "instant \<Rightarrow> string \<Rightarrow> RQAdapter \<Rightarrow> RQAdapter" where
  "CancelJob now jobID r =
     sendEvent \<lparr>je_JobID = jobID, je_OldStatus = [], je_NewStatus = JobCanceled, je_Timestamp = now, je_Worker = [], je_Error = []\<rparr> r"

section \<open>Workers\<close>

definition NewWorker :: "instant \<Rightarrow> instant \<Rightarrow> WorkerConfig \<Rightarrow> RQWorker" where
  "NewWorker now now' config =
     \<lparr>rw_config = config, rw_status = ''idle'', rw_currentJob = None, rw_jobsProcessed = 0, rw_startedAt = now,
      rw_lastSeen = now', rw_cancelled = False\<rparr>"

text \<open>What the goroutine of a worker does before it starts its loops.\<close>

definition rw_Start :: "instant \<Rightarrow> RQWorker \<Rightarrow> RQWorker" where
  "rw_Start now w = w\<lparr>rw_status := ''idle'', rw_startedAt := now\<rparr>"

definition rw_Stop :: "RQWorker \<Rightarrow> RQWorker" where
  "rw_Stop w = w\<lparr>rw_status := ''stopped'', rw_cancelled := True\<rparr>"

definition StartWorker :: "(nat \<Rightarrow> instant) \<Rightarrow> WorkerConfig \<Rightarrow> RQAdapter \<Rightarrow> string option \<times> RQAdapter" where
  "StartWorker clk config r =
     (if rq_workers r (wk_Name config) \<noteq> None then (Some (''worker already exists: '' @ wk_Name config), r)
      else (None, r\<lparr>rq_workers := (rq_workers r)(wk_Name config \<mapsto> rw_Start (clk 2) (NewWorker (clk 0) (clk 1) config)),
              rq_stats := (rq_stats r)\<lparr>rs_Workers := rs_Workers (rq_stats r) + 1\<rparr>\<rparr>))"

text \<open>The worker that was stopped is returned as well, since it is no longer in the map.\<close>

definition StopWorker :: "string \<Rightarrow> RQAdapter \<Rightarrow> (string + RQWorker) \<times> RQAdapter" where
  "StopWorker name r =
     (case rq_workers r name of
        None \<Rightarrow> (Inl (''worker not found: '' @ name), r)
      | Some w \<Rightarrow> (Inr (rw_Stop w), r\<lparr>rq_workers := (rq_workers r)(name := None),
              rq_stats := (rq_stats r)\<lparr>rs_Workers := rs_Workers (rq_stats r) - 1\<rparr>\<rparr>))"

definition rq_Stop :: "RQAdapter \<Rightarrow> RQAdapter" where
  "rq_Stop r = r\<lparr>rq_cancelled := True, rq_workers := Map.empty\<rparr>"

definition executeJob :: "instant \<Rightarrow> Job \<Rightarrow> RQAdapter \<Rightarrow> (string + dynval) option" where
  "executeJob now job r =
     (case rq_functions r (job_Function job) of
        None \<Rightarrow> Some (Inl (''function not registered: '' @ job_Function job))
      | Some jobFunc \<Rightarrow> jobFunc now (job_Args job) (job_Kwargs job))"

text \<open>
  The delay before the next attempt. Products of durations wrap around; shifting by a negative count, and taking
  the element at a negative index, panic.
\<close>

definition default_delay :: duration where "default_delay = 30 * Second"

definition base_delay :: "RetryPolicy \<Rightarrow> duration" where
  "base_delay policy = (case rp_RetryIntervals policy of [] \<Rightarrow> default_delay | d # _ \<Rightarrow> d)"

definition calculateRetryDelay :: "RetryPolicy \<Rightarrow> i64 \<Rightarrow> duration option" where
  "calculateRetryDelay policy retryCount =
     (if rp_BackoffStrategy policy = BackoffFixed then Some (base_delay policy)
      else if rp_BackoffStrategy policy = BackoffLinear then Some (wrap64 (sint (retryCount + 1) * base_delay policy))
      else if rp_BackoffStrategy policy = BackoffExponential then
        (if sint retryCount < 0 then None
         else let multiplier = push_bit (unat retryCount) (1 :: i64) in Some (wrap64 (sint multiplier * base_delay policy)))
      else if rp_BackoffStrategy policy = BackoffCustom then
        (let intervals = rp_RetryIntervals policy
         in if int (length intervals) > sint retryCount
            then (if sint retryCount < 0 then None else Some (intervals ! nat (sint retryCount)))
            else if intervals \<noteq> [] then Some (last intervals) else Some default_delay)
      else Some default_delay)"

definition meta_put :: "string \<Rightarrow> meta_value \<Rightarrow> Job \<Rightarrow> Job" where
  "meta_put k v job = job\<lparr>job_Meta := Some ((case job_Meta job of None \<Rightarrow> Map.empty | Some m \<Rightarrow> m)(k \<mapsto> v))\<rparr>"

definition retry_count :: "Job \<Rightarrow> i64" where
  "retry_count job =
     (case job_Meta job of
        Some m \<Rightarrow> (case m ''retry_count'' of Some (MInt n) \<Rightarrow> n | _ \<Rightarrow> 0)
      | None \<Rightarrow> 0)"

text \<open>An error of the last submission is only logged.\<close>

definition moveToFailedQueue :: "(nat \<Rightarrow> instant) \<Rightarrow> string \<Rightarrow> Job \<Rightarrow> RQAdapter \<Rightarrow> (Job \<times> RQAdapter) option" where
  "moveToFailedQueue clk uuid job r =
     (let originalQueue = job_Queue job;
          job = job\<lparr>job_Queue := ''failed'', job_Status := JobFailed\<rparr>;
          job = meta_put ''failed_at'' (MTime (clk 0)) (meta_put ''original_queue'' (MText originalQueue) job)
      in map_option snd (rq_Enqueue (\<lambda>k. clk (k + 1)) uuid job r))"

definition handleJobFailure :: "(nat \<Rightarrow> instant) \<Rightarrow> string \<Rightarrow> string \<Rightarrow> Job \<Rightarrow> RQAdapter \<Rightarrow> (Job \<times> RQAdapter) option" where
  "handleJobFailure clk uuid err job r =
     (case job_RetryPolicy job of
        None \<Rightarrow> moveToFailedQueue clk uuid job r
      | Some policy \<Rightarrow>
          if \<not> rp_RetryOnFailure policy then moveToFailedQueue clk uuid job r
          else let retryCount = retry_count job
               in if sint retryCount \<ge> sint (rp_MaxRetries policy) then moveToFailedQueue clk uuid job r
                  else case calculateRetryDelay policy retryCount of
                    None \<Rightarrow> None
                  | Some delay \<Rightarrow>
                      let job = (meta_put ''retry_reason'' (MText err) (meta_put ''retry_count'' (MInt (retryCount + 1)) job))
                                  \<lparr>job_Status := JobQueued\<rparr>
                      in Some (EnqueueAt job (clk 0 + delay) r))"

definition processJob ::
  "(nat \<Rightarrow> instant) \<Rightarrow> string \<Rightarrow> RQWorker \<Rightarrow> Job \<Rightarrow> RQAdapter \<Rightarrow> (RQWorker \<times> Job \<times> RQAdapter) option" where
  "processJob clk uuid w job r =
     (let job = job\<lparr>job_Status := JobStarted, job_StartedAt := Some (clk 0)\<rparr>;
          r = sendEvent \<lparr>je_JobID = job_ID job, je_OldStatus = JobQueued, je_NewStatus = JobStarted, je_Timestamp = clk 0,
                je_Worker = wk_Name (rw_config w), je_Error = []\<rparr> r
      in case executeJob (clk 0) job r of
           None \<Rightarrow> None
         | Some result \<Rightarrow>
             let job = job\<lparr>job_FinishedAt := Some (clk 1)\<rparr>
             in case (case result of
                        Inl err \<Rightarrow>
                          map_option (\<lambda>(job, r). (job, updateQueueStats (clk 9) (job_Queue job) 0 (- 1) 0 1 r))
                            (handleJobFailure (\<lambda>k. clk (k + 2)) uuid err (job\<lparr>job_Status := JobFailed, job_Error := err\<rparr>) r)
                      | Inr v \<Rightarrow>
                          let job = job\<lparr>job_Status := JobFinished, job_Result := v\<rparr>
                          in Some (job, updateQueueStats (clk 9) (job_Queue job) 0 (- 1) 1 0 r)) of
                  None \<Rightarrow> None
                | Some (job, r) \<Rightarrow>
                    Some (w\<lparr>rw_status := ''idle'', rw_currentJob := None, rw_lastSeen := clk 10,
                            rw_jobsProcessed := rw_jobsProcessed w + 1\<rparr>, job,
                          sendEvent \<lparr>je_JobID = job_ID job, je_OldStatus = JobStarted, je_NewStatus = job_Status job,
                            je_Timestamp = clk 1, je_Worker = wk_Name (rw_config w), je_Error = job_Error job\<rparr> r))"

text \<open>The queues are not looked at: there is never a job.\<close>

definition getNextJob :: "RQWorker \<Rightarrow> RQAdapter \<Rightarrow> Job option" where
  "getNextJob w r = None"

text \<open>One turn of the loop of a worker; \<^const>\<open>True\<close> if the loop goes on. Without a job it waits for the poll interval.\<close>

definition workerLoop :: "(nat \<Rightarrow> instant) \<Rightarrow> string \<Rightarrow> RQWorker \<Rightarrow> RQAdapter \<Rightarrow> (bool \<times> RQWorker \<times> RQAdapter) option" where
  "workerLoop clk uuid w r =
     (if rw_cancelled w then Some (False, w, r)
      else if wk_MaxJobs (rw_config w) > 0 \<and> sint (rw_jobsProcessed w) \<ge> wk_MaxJobs (rw_config w)
      then Some (False, w\<lparr>rw_cancelled := True\<rparr>, r)
      else case getNextJob w r of
        None \<Rightarrow> Some (True, w, r)
      | Some job \<Rightarrow> map_option (\<lambda>(w, _, r). (True, w, r)) (processJob clk uuid w job r))"

section \<open>Backoff\<close>

lemma sint_pow2:
  assumes "n < 63"
  shows "sint (2 ^ n :: i64) = 2 ^ n"
proof -
  have "(2 ^ n :: i64) = of_nat (2 ^ n)" by simp
  moreover have "(2::nat) ^ n < 2 ^ 63" by (rule power_strict_increasing [OF assms]) simp
  ultimately show ?thesis by (simp only: sint_of_nat64) simp
qed

lemma wrap64_mod: "wrap64 n = (n + 2 ^ 63) mod 2 ^ 64 - 2 ^ 63"
  by (simp add: wrap64_def int_word_sint)



section \<open>The bus below the adapter\<close>

text \<open>The queues of the bus are in order, and full queues refuse messages instead of dropping old ones.\<close>

definition bus_ok :: "MessageBus \<Rightarrow> bool" where
  "bus_ok mb \<longleftrightarrow> bus_inv mb \<and> (\<forall>p. q_dropPolicy (prio_queue p mb) \<noteq> DropOldest)"

lemma PublishToPriority_eq:
  "mb_running mb \<Longrightarrow> PublishToPriority now m p mb =
     (case enqueue_or_drop now p (stored (m\<lparr>m_Priority := p\<rparr>)) (count_message (fst (GetSize (m\<lparr>m_Priority := p\<rparr>))) mb) of
        None \<Rightarrow> None
      | Some (_, e, mb) \<Rightarrow> Some (e, mb))"
  by (simp add: PublishToPriority_def Let_def case_prod_beta stored_def)

lemma PublishToPriority_total:
  assumes "bus_ok mb"
  obtains e mb' where "PublishToPriority now m p mb = Some (e, mb')" "bus_ok mb'" "mb_running mb' = mb_running mb"
    "content mb' = (if mb_running mb \<and> has_room p mb
       then (content mb)(place_of p := content mb (place_of p) @ [Some (stored (m\<lparr>m_Priority := p\<rparr>))]) else content mb)"
    "e = None \<longleftrightarrow> mb_running mb \<and> has_room p mb"
proof (cases "mb_running mb")
  case False
  then show thesis using assms by (intro that [of "Some (not_running now)" mb]) (simp_all add: PublishToPriority_def)
next
  case True
  let ?m = "m\<lparr>m_Priority := p\<rparr>" let ?mb = "count_message (fst (GetSize ?m)) mb"
  have inv: "bus_inv mb" and policy: "q_dropPolicy (prio_queue p mb) \<noteq> DropOldest" for p
    using assms by (simp_all add: bus_ok_def)
  have ok: "bus_ok (set_prio_queue p q ?mb)" if "q_inv q" "q_dropPolicy q = q_dropPolicy (prio_queue p mb)" for q
    using that inv policy by (auto simp: bus_ok_def bus_inv_set prio_queue_set)
  show thesis
  proof (cases "has_room p mb")
    case room: True
    then obtain q where q: "Enqueue (prio_queue p mb) (Some (stored ?m)) = Some (True, q)" "q_inv q"
      "q_dropPolicy q = q_dropPolicy (prio_queue p mb)" "q_items q = q_items (prio_queue p mb) @ [Some (stored ?m)]"
      using Enqueue_inv_room [OF bus_inv_prio [OF inv, of p], of "Some (stored ?m)"] unfolding has_room_def by auto
    show thesis
      by (rule that [of None "set_prio_queue p q ?mb"])
        (use True room q ok [OF q(2,3)] in \<open>simp_all add: PublishToPriority_eq enqueue_or_drop_def content_set content_place_of\<close>)
  next
    case full: False
    then have "length (q_items (prio_queue p mb)) = unat (q_capacity (prio_queue p mb))"
      using q_inv_bounded [OF bus_inv_prio [OF inv, of p]] by (simp add: has_room_def)
    from Enqueue_inv_full [OF bus_inv_prio [OF inv] this policy, of "Some (stored ?m)"] obtain q
      where q: "Enqueue (prio_queue p mb) (Some (stored ?m)) = Some (False, q)" "q_inv q"
        "q_dropPolicy q = q_dropPolicy (prio_queue p mb)" "q_items q = q_items (prio_queue p mb)" by auto
    have "content (set_prio_queue p q ?mb) = content mb"
      by (simp add: content_set q(4) fun_upd_idem content_place_of)
    then show thesis
      by (intro that [of "Some (queue_full now q p)" "set_prio_queue p q ?mb"])
        (use True full q policy [of p] ok [OF q(2,3)] in \<open>simp_all add: PublishToPriority_eq enqueue_or_drop_def\<close>)
  qed
qed

section \<open>Submission\<close>

lemma stats_simps [simp]:
  "rq_messageBus (updateQueueStats now q a b c d r) = rq_messageBus r"
  "rq_functions (updateQueueStats now q a b c d r) = rq_functions r"
  "rq_scheduler (updateQueueStats now q a b c d r) = rq_scheduler r"
  "rq_queues (updateQueueStats now q a b c d r) = rq_queues r"
  by (simp_all add: updateQueueStats_def Let_def)

lemma event_simps [simp]:
  "rq_messageBus (sendEvent e r) = rq_messageBus r" "rq_functions (sendEvent e r) = rq_functions r"
  "rq_scheduler (sendEvent e r) = rq_scheduler r" "rq_queues (sendEvent e r) = rq_queues r" "rq_stats (sendEvent e r) = rq_stats r"
  by (simp_all add: sendEvent_def)

lemma EnqueueAt_simps [simp]:
  "rq_messageBus (snd (EnqueueAt job t r)) = rq_messageBus r" "rq_functions (snd (EnqueueAt job t r)) = rq_functions r"
  "rq_queues (snd (EnqueueAt job t r)) = rq_queues r" "rq_stats (snd (EnqueueAt job t r)) = rq_stats r"
  by (simp_all add: EnqueueAt_def Schedule_def Let_def)

lemma rq_Enqueue_total:
  fixes job r uuid and clk :: "nat \<Rightarrow> instant"
  defines "job' \<equiv> job\<lparr>job_ID := (if job_ID job = [] then uuid else job_ID job), job_Status := JobQueued, job_CreatedAt := clk 0\<rparr>"
    and "p \<equiv> mapPriority (job_Priority job)"
  assumes "bus_ok (rq_messageBus r)"
  obtains e r' where "rq_Enqueue clk uuid job r = Some (e, job', r')" "bus_ok (rq_messageBus r')"
    "rq_functions r' = rq_functions r" "rq_queues r' = rq_queues r" "rq_scheduler r' = rq_scheduler r"
    "e = None \<longleftrightarrow> mb_running (rq_messageBus r) \<and> has_room p (rq_messageBus r)"
    "content (rq_messageBus r') = (if e = None
       then (content (rq_messageBus r))(place_of p := content (rq_messageBus r) (place_of p) @
         [Some (stored (job_message (clk 1) job'))]) else content (rq_messageBus r))"
    "rq_stats r' = (if e = None then rq_stats (updateQueueStats (clk 3) (job_Queue job) 1 0 0 0 r) else rq_stats r)"
proof -
  obtain e mb' where pub: "PublishToPriority (clk 2) (job_message (clk 1) job') p (rq_messageBus r) = Some (e, mb')" "bus_ok mb'"
    "content mb' = (if mb_running (rq_messageBus r) \<and> has_room p (rq_messageBus r)
       then (content (rq_messageBus r))(place_of p := content (rq_messageBus r) (place_of p) @
         [Some (stored ((job_message (clk 1) job')\<lparr>m_Priority := p\<rparr>))]) else content (rq_messageBus r))"
    "e = None \<longleftrightarrow> mb_running (rq_messageBus r) \<and> has_room p (rq_messageBus r)"
    by (rule PublishToPriority_total [OF assms(3), of "clk 2" "job_message (clk 1) job'" p]) (rule that)
  have msg: "(job_message (clk 1) job')\<lparr>m_Priority := p\<rparr> = job_message (clk 1) job'"
    by (simp add: job_message_def p_def job'_def)
  note pub = pub [unfolded msg]
  have j: "mapPriority (job_Priority job') = p" "job_Queue job' = job_Queue job" by (simp_all add: job'_def p_def)
  show thesis
  proof (cases e)
    case None
    let ?r = "updateQueueStats (clk 3) (job_Queue job) 1 0 0 0 (r\<lparr>rq_messageBus := mb'\<rparr>)"
    let ?ev = "\<lparr>je_JobID = job_ID job', je_OldStatus = [], je_NewStatus = JobQueued, je_Timestamp = clk 4, je_Worker = [], je_Error = []\<rparr>"
    have enq: "rq_Enqueue clk uuid job r = Some (None, job', sendEvent ?ev ?r)"
      using pub(1) None unfolding rq_Enqueue_def job'_def [symmetric] by (simp add: Let_def j)
    have stats: "rq_stats ?r = rq_stats (updateQueueStats (clk 3) (job_Queue job) 1 0 0 0 r)"
      by (simp add: updateQueueStats_def Let_def)
    show thesis by (rule that [OF enq]) (use pub None in \<open>simp_all add: stats\<close>)
  next
    case (Some err)
    have enq: "rq_Enqueue clk uuid job r =
        Some (Some (Foreign (''failed to enqueue job: '' @ error_text err)), job', r\<lparr>rq_messageBus := mb'\<rparr>)"
      using pub(1) Some unfolding rq_Enqueue_def job'_def [symmetric] by (simp add: Let_def j)
    show thesis by (rule that [OF enq]) (use pub Some in auto)
  qed
qed


section \<open>Attempts\<close>

lemma sint_add_one: "sint (c :: i64) < sint (m :: i64) \<Longrightarrow> sint (c + 1) = sint c + 1"
proof -
  assume "sint c < sint m"
  then have "sint c + 1 < 2 ^ 63" using sint_lt [of m] by simp
  moreover have "- (2 ^ 63) \<le> sint c + 1" using sint_ge [of c] by simp
  ultimately have "wrap64 (sint c + 1) = sint c + 1" by (intro wrap64_id)
  then show ?thesis by (simp add: wrap64_def)
qed

lemma meta_put_simps [simp]:
  "job_Function (meta_put k v job) = job_Function job" "job_RetryPolicy (meta_put k v job) = job_RetryPolicy job"
  "job_Queue (meta_put k v job) = job_Queue job" "job_ID (meta_put k v job) = job_ID job"
  "job_Args (meta_put k v job) = job_Args job" "job_Kwargs (meta_put k v job) = job_Kwargs job"
  "job_Priority (meta_put k v job) = job_Priority job" "job_Error (meta_put k v job) = job_Error job"
  by (simp_all add: meta_put_def)

lemma retry_count_put [simp]:
  "retry_count (meta_put ''retry_count'' (MInt n) job) = n"
  "k \<noteq> ''retry_count'' \<Longrightarrow> retry_count (meta_put k v job) = retry_count job"
  by (auto simp: retry_count_def meta_put_def split: option.splits)

lemma retry_count_update [simp]:
  "retry_count (job\<lparr>job_Status := s\<rparr>) = retry_count job" "retry_count (job\<lparr>job_StartedAt := t\<rparr>) = retry_count job"
  "retry_count (job\<lparr>job_FinishedAt := t\<rparr>) = retry_count job" "retry_count (job\<lparr>job_Error := e\<rparr>) = retry_count job"
  "retry_count (job\<lparr>job_ScheduledAt := t\<rparr>) = retry_count job"
  by (simp_all add: retry_count_def)

text \<open>How many more attempts the policy of a job allows after the next one.\<close>

definition retries_left :: "Job \<Rightarrow> nat" where
  "retries_left job =
     (case job_RetryPolicy job of
        None \<Rightarrow> 0
      | Some policy \<Rightarrow> if rp_RetryOnFailure policy then nat (sint (rp_MaxRetries policy) - sint (retry_count job)) else 0)"

definition may_retry :: "Job \<Rightarrow> bool" where
  "may_retry job \<longleftrightarrow> retries_left job > 0"

lemma calculateRetryDelay_total: "0 \<le> sint c \<Longrightarrow> \<exists>d. calculateRetryDelay policy c = Some d"
  by (auto simp: calculateRetryDelay_def Let_def)

text \<open>What is not changed when a job is processed, apart from the job itself.\<close>

definition same_setting :: "Job \<Rightarrow> Job \<Rightarrow> bool" where
  "same_setting job job' \<longleftrightarrow> job_Function job' = job_Function job \<and> job_RetryPolicy job' = job_RetryPolicy job \<and>
     job_Args job' = job_Args job \<and> job_Kwargs job' = job_Kwargs job"

lemma moveToFailedQueue_total:
  assumes "bus_ok (rq_messageBus r)"
  obtains job' r' where "moveToFailedQueue clk uuid job r = Some (job', r')" "bus_ok (rq_messageBus r')"
    "rq_functions r' = rq_functions r" "rq_queues r' = rq_queues r" "same_setting job job'" "job_Queue job' = ''failed''" "job_Status job' = JobQueued"
    "retry_count job' = retry_count job" "rq_scheduler r' = rq_scheduler r"
    "\<exists>m. job_Meta job' = Some m \<and> m ''original_queue'' = Some (MText (job_Queue job))"
    "rq_stats r' = rq_stats r \<or> rq_stats r' = rq_stats (updateQueueStats (clk 4) ''failed'' 1 0 0 0 r)"
proof -
  let ?job = "meta_put ''failed_at'' (MTime (clk 0)) (meta_put ''original_queue'' (MText (job_Queue job)) (job\<lparr>job_Queue := ''failed'', job_Status := JobFailed\<rparr>))"
  let ?job' = "?job\<lparr>job_ID := (if job_ID ?job = [] then uuid else job_ID ?job), job_Status := JobQueued, job_CreatedAt := clk (0 + 1)\<rparr>"
  obtain e r' where r': "rq_Enqueue (\<lambda>k. clk (k + 1)) uuid ?job r = Some (e, ?job', r')" "bus_ok (rq_messageBus r')"
    "rq_functions r' = rq_functions r" "rq_queues r' = rq_queues r" "rq_scheduler r' = rq_scheduler r"
    "rq_stats r' = (if e = None then rq_stats (updateQueueStats (clk (3 + 1)) (job_Queue ?job) 1 0 0 0 r) else rq_stats r)"
    by (rule rq_Enqueue_total [OF assms, of "\<lambda>k. clk (k + 1)" uuid ?job]) (rule that)
  have m: "moveToFailedQueue clk uuid job r = Some (?job', r')"
    unfolding moveToFailedQueue_def Let_def using r'(1) by simp
  have rc: "retry_count ?job' = retry_count job" and om: "\<exists>m. job_Meta ?job' = Some m \<and> m ''original_queue'' = Some (MText (job_Queue job))"
    by (simp_all add: retry_count_def meta_put_def split: option.splits)
  show thesis
    by (rule that [OF m r'(2-4) _ _ _ rc r'(5) om]) (use r'(6) in \<open>simp_all add: same_setting_def split: if_splits\<close>)
qed

lemma handleJobFailure_total:
  assumes "bus_ok (rq_messageBus r)" "0 \<le> sint (retry_count job)"
  obtains (retried) job' r' where "may_retry job" "handleJobFailure clk uuid err job r = Some (job', r')" "bus_ok (rq_messageBus r')"
      "rq_functions r' = rq_functions r" "rq_queues r' = rq_queues r" "same_setting job job'" "job_Status job' = JobScheduled" "job_Queue job' = job_Queue job"
      "sint (retry_count job') = sint (retry_count job) + 1" "rq_stats r' = rq_stats r"
    | (failed) job' r' where "\<not> may_retry job" "handleJobFailure clk uuid err job r = Some (job', r')" "bus_ok (rq_messageBus r')"
      "rq_functions r' = rq_functions r" "rq_queues r' = rq_queues r" "same_setting job job'" "job_Status job' = JobQueued" "job_Queue job' = ''failed''"
      "retry_count job' = retry_count job" "\<exists>m. job_Meta job' = Some m \<and> m ''original_queue'' = Some (MText (job_Queue job))"
      "rq_stats r' = rq_stats r \<or> rq_stats r' = rq_stats (updateQueueStats (clk 4) ''failed'' 1 0 0 0 r)"
proof (cases "may_retry job")
  case False
  then have "handleJobFailure clk uuid err job r = moveToFailedQueue clk uuid job r"
    by (auto simp: handleJobFailure_def may_retry_def retries_left_def Let_def split: option.splits if_splits)
  with False failed show thesis
    by (metis moveToFailedQueue_total [OF assms(1), where clk = clk and uuid = uuid and job = job])
next
  case True
  then obtain policy where p: "job_RetryPolicy job = Some policy" "rp_RetryOnFailure policy" "sint (retry_count job) < sint (rp_MaxRetries policy)"
    by (auto simp: may_retry_def retries_left_def split: option.splits if_splits)
  obtain d where d: "calculateRetryDelay policy (retry_count job) = Some d"
    using calculateRetryDelay_total [OF assms(2)] by blast
  let ?job = "(meta_put ''retry_reason'' (MText err) (meta_put ''retry_count'' (MInt (retry_count job + 1)) job))\<lparr>job_Status := JobQueued\<rparr>"
  have h: "handleJobFailure clk uuid err job r = Some (fst (EnqueueAt ?job (clk 0 + d) r), snd (EnqueueAt ?job (clk 0 + d) r))"
    using p d by (simp add: handleJobFailure_def Let_def)
  have job': "fst (EnqueueAt ?job t r) = ?job\<lparr>job_ScheduledAt := Some t, job_Status := JobScheduled\<rparr>" for t
    by (simp add: EnqueueAt_def Let_def)
  show thesis
    by (rule retried [OF True h]) (use assms(1) p(3) in \<open>simp_all add: job' same_setting_def sint_add_one\<close>)
qed

lemma same_setting_trans: "same_setting a b \<Longrightarrow> same_setting b c \<Longrightarrow> same_setting a c"
  by (simp add: same_setting_def)

lemma executeJob_cong:
  "same_setting job job' \<Longrightarrow> rq_functions r' = rq_functions r \<Longrightarrow> executeJob now job' r' = executeJob now job r"
  by (auto simp: executeJob_def same_setting_def split: option.split)

text \<open>The three ways in which an attempt ends.\<close>

lemma processJob_total:
  assumes "bus_ok (rq_messageBus r)" "0 \<le> sint (retry_count job)" "executeJob (clk 0) job r = Some res"
  obtains (finished) w' job' r' v where "processJob clk uuid w job r = Some (w', job', r')" "res = Inr v" "bus_ok (rq_messageBus r')"
      "rq_functions r' = rq_functions r" "same_setting job job'" "rw_jobsProcessed w' = rw_jobsProcessed w + 1"
      "job_Status job' = JobFinished" "job_Result job' = v"
    | (retried) w' job' r' err where "processJob clk uuid w job r = Some (w', job', r')" "res = Inl err" "bus_ok (rq_messageBus r')"
      "rq_functions r' = rq_functions r" "same_setting job job'" "rw_jobsProcessed w' = rw_jobsProcessed w + 1" "may_retry job"
      "job_Status job' = JobScheduled" "sint (retry_count job') = sint (retry_count job) + 1" "job_Queue job' = job_Queue job"
    | (failed) w' job' r' err where "processJob clk uuid w job r = Some (w', job', r')" "res = Inl err" "bus_ok (rq_messageBus r')"
      "rq_functions r' = rq_functions r" "same_setting job job'" "rw_jobsProcessed w' = rw_jobsProcessed w + 1" "\<not> may_retry job"
      "job_Status job' = JobQueued" "job_Queue job' = ''failed''"
      "\<exists>m. job_Meta job' = Some m \<and> m ''original_queue'' = Some (MText (job_Queue job))"
proof -
  let ?job1 = "job\<lparr>job_Status := JobStarted, job_StartedAt := Some (clk 0)\<rparr>"
  let ?ev = "\<lparr>je_JobID = job_ID job, je_OldStatus = JobQueued, je_NewStatus = JobStarted, je_Timestamp = clk 0,
                je_Worker = wk_Name (rw_config w), je_Error = []\<rparr>"
  let ?r1 = "sendEvent ?ev r"
  have ex: "executeJob (clk 0) ?job1 ?r1 = Some res"
    using assms(3) by (auto simp: executeJob_def split: option.splits)
  show thesis
  proof (cases res)
    case (Inr v)
    obtain w' job' r' where "processJob clk uuid w job r = Some (w', job', r')" "rw_jobsProcessed w' = rw_jobsProcessed w + 1"
        "job' = ?job1\<lparr>job_FinishedAt := Some (clk 1), job_Status := JobFinished, job_Result := v\<rparr>"
        "rq_messageBus r' = rq_messageBus r" "rq_functions r' = rq_functions r"
      using ex Inr by (simp add: processJob_def Let_def)
    with assms(1) Inr show thesis by (intro finished [of w' job' r' v]) (simp_all add: same_setting_def)
  next
    case (Inl err)
    let ?job2 = "?job1\<lparr>job_FinishedAt := Some (clk 1), job_Status := JobFailed, job_Error := err\<rparr>"
    let ?clk2 = "\<lambda>k. clk (k + 2)"
    have step: "\<exists>w' r'. processJob clk uuid w job r = Some (w', job', r') \<and> rw_jobsProcessed w' = rw_jobsProcessed w + 1 \<and>
        rq_messageBus r' = rq_messageBus r2 \<and> rq_functions r' = rq_functions r2"
      if "handleJobFailure ?clk2 uuid err ?job2 ?r1 = Some (job', r2)" for job' r2
      using ex Inl that by (simp add: processJob_def Let_def)
    have setting: "same_setting job ?job2" "retry_count ?job2 = retry_count job" "may_retry ?job2 = may_retry job" "job_Queue ?job2 = job_Queue job"
      by (auto simp: same_setting_def may_retry_def retries_left_def split: option.split)
    have pre: "bus_ok (rq_messageBus ?r1)" "0 \<le> sint (retry_count ?job2)" using assms(1,2) by simp_all
    from pre show thesis
    proof (cases rule: handleJobFailure_total [where clk = ?clk2 and uuid = uuid and err = err])
      case (retried job' r2)
      with step [OF retried(2)] obtain w' r' where "processJob clk uuid w job r = Some (w', job', r')"
          "rw_jobsProcessed w' = rw_jobsProcessed w + 1" "rq_messageBus r' = rq_messageBus r2" "rq_functions r' = rq_functions r2"
        by blast
      with retried setting Inl show thesis
        by (intro that(2) [of w' job' r' err]) (auto intro: same_setting_trans)
    next
      case (failed job' r2)
      with step [OF failed(2)] obtain w' r' where "processJob clk uuid w job r = Some (w', job', r')"
          "rw_jobsProcessed w' = rw_jobsProcessed w + 1" "rq_messageBus r' = rq_messageBus r2" "rq_functions r' = rq_functions r2"
        by blast
      with failed setting Inl show thesis
        by (intro that(3) [of w' job' r' err]) (auto intro: same_setting_trans)
    qed
  qed
qed

text \<open>
  A job is given to a worker again and again while it is scheduled for a retry, with fuel for the number of attempts.
  The result has the number of attempts it took.
\<close>

fun attempts ::
  "nat \<Rightarrow> (nat \<Rightarrow> nat \<Rightarrow> instant) \<Rightarrow> string \<Rightarrow> RQWorker \<Rightarrow> Job \<Rightarrow> RQAdapter \<Rightarrow> (nat \<times> RQWorker \<times> Job \<times> RQAdapter) option" where
  "attempts 0 clks uuid w job r = None"
| "attempts (Suc n) clks uuid w job r =
     (case processJob (clks 0) uuid w job r of
        None \<Rightarrow> None
      | Some (w, job, r) \<Rightarrow>
          if job_Status job = JobScheduled
          then map_option (\<lambda>(k, x). (Suc k, x)) (attempts n (\<lambda>i. clks (Suc i)) uuid w job r)
          else Some (1, w, job, r))"

lemma retries_left_step:
  assumes "same_setting job job'" "sint (retry_count job') = sint (retry_count job) + 1" "may_retry job"
  shows "retries_left job = Suc (retries_left job')"
  using assms by (auto simp: same_setting_def may_retry_def retries_left_def split: option.splits)

text \<open>A job is settled if it is finished, or among the failed jobs with a note of where it came from.\<close>

definition settled :: "Job \<Rightarrow> Job \<Rightarrow> bool" where
  "settled job job' \<longleftrightarrow> job_Status job' = JobFinished \<or> job_Status job' = JobQueued \<and> job_Queue job' = ''failed'' \<and>
     (\<exists>m. job_Meta job' = Some m \<and> m ''original_queue'' = Some (MText (job_Queue job)))"

definition always_fails :: "Job \<Rightarrow> RQAdapter \<Rightarrow> bool" where
  "always_fails job r \<longleftrightarrow> (\<forall>now. \<exists>err. executeJob now job r = Some (Inl err))"


section \<open>Scheduled jobs\<close>

text \<open>The ticks of the scheduler one after the other, each with an order of the map, and the jobs they run.\<close>

fun run_ticks :: "(instant \<times> string list) list \<Rightarrow> RQAdapter \<Rightarrow> Job list \<times> RQAdapter" where
  "run_ticks [] r = ([], r)"
| "run_ticks ((now, order) # ts) r =
     (let (jobs, r) = processScheduledJobs now order r; (jobs', r) = run_ticks ts r in (jobs @ jobs', r))"

fun tick_orders :: "(instant \<times> string list) list \<Rightarrow> RQAdapter \<Rightarrow> bool" where
  "tick_orders [] r \<longleftrightarrow> True"
| "tick_orders ((now, order) # ts) r \<longleftrightarrow>
     range_order (rq_scheduler r) order \<and> tick_orders ts (snd (processScheduledJobs now order r))"

definition sched_ok :: "RQAdapter \<Rightarrow> bool" where
  "sched_ok r \<longleftrightarrow> (\<forall>i sj. rq_scheduler r i = Some sj \<longrightarrow> job_ID (fst sj) = i)"

definition released :: "Job \<Rightarrow> Job" where
  "released job = job\<lparr>job_Status := JobQueued, job_ScheduledAt := None\<rparr>"

lemma released_ID [simp]: "job_ID (released job) = job_ID job"
  by (simp add: released_def)

lemma filter_due:
  assumes "distinct order" "\<And>k sj. m k = Some sj \<Longrightarrow> job_ID (fst sj) = k"
  shows "filter (\<lambda>j. job_ID j = i) (map (\<lambda>sj. released (fst sj)) (filter P (List.map_filter m order))) =
    (case m i of Some sj \<Rightarrow> if i \<in> set order \<and> P sj then [released (fst sj)] else [] | None \<Rightarrow> [])"
  using assms(1)
proof (induction order)
  case Nil
  then show ?case by (simp add: List.map_filter_simps split: option.split)
next
  case (Cons k order)
  then show ?case
    using assms(2) [of k] by (cases "m k") (auto simp: List.map_filter_simps split: option.splits)
qed

lemma processScheduledJobs_simps:
  "rq_messageBus (snd (processScheduledJobs now order r)) = rq_messageBus r"
  "rq_stats (snd (processScheduledJobs now order r)) = rq_stats r"
  "rq_queues (snd (processScheduledJobs now order r)) = rq_queues r"
  "fst (processScheduledJobs now order r) = map (\<lambda>sj. released (fst sj)) (filter (due now) (List.map_filter (rq_scheduler r) order))"
  by (simp_all add: processScheduledJobs_def GetScheduledJobs_def released_def Let_def)

lemma processScheduledJobs_sched:
  assumes "range_order (rq_scheduler r) order"
  shows "rq_scheduler (snd (processScheduledJobs now order r)) i =
    (case rq_scheduler r i of None \<Rightarrow> None | Some sj \<Rightarrow> if due now sj then None else Some sj)"
  using range_orderD(2) [OF assms] by (auto simp: processScheduledJobs_def Let_def split: option.split)

lemma sched_ok_tick: "sched_ok r \<Longrightarrow> range_order (rq_scheduler r) order \<Longrightarrow> sched_ok (snd (processScheduledJobs now order r))"
  by (auto simp: sched_ok_def processScheduledJobs_sched split: option.splits if_splits)

lemma run_ticks_spec:
  assumes "sched_ok r" "tick_orders ts r"
  shows "filter (\<lambda>j. job_ID j = i) (fst (run_ticks ts r)) =
      (case rq_scheduler r i of
         Some sj \<Rightarrow> if \<exists>(now, _) \<in> set ts. due now sj then [released (fst sj)] else [] | None \<Rightarrow> []) \<and>
    rq_scheduler (snd (run_ticks ts r)) i =
      (case rq_scheduler r i of
         Some sj \<Rightarrow> if \<exists>(now, _) \<in> set ts. due now sj then None else Some sj | None \<Rightarrow> None) \<and>
    rq_messageBus (snd (run_ticks ts r)) = rq_messageBus r \<and> rq_stats (snd (run_ticks ts r)) = rq_stats r"
  using assms
proof (induction ts arbitrary: r)
  case Nil
  then show ?case by (simp split: option.split)
next
  case (Cons t ts)
  obtain now order where t: "t = (now, order)" by (cases t)
  let ?r = "snd (processScheduledJobs now order r)"
  have order: "range_order (rq_scheduler r) order" using Cons.prems(2) by (simp add: t)
  have step: "fst (run_ticks (t # ts) r) = fst (processScheduledJobs now order r) @ fst (run_ticks ts ?r)"
    "snd (run_ticks (t # ts) r) = snd (run_ticks ts ?r)"
    by (simp_all add: t Let_def case_prod_beta)
  have now: "filter (\<lambda>j. job_ID j = i) (fst (processScheduledJobs now order r)) =
      (case rq_scheduler r i of Some sj \<Rightarrow> if due now sj then [released (fst sj)] else [] | None \<Rightarrow> [])"
    unfolding processScheduledJobs_simps
    using filter_due [of order "rq_scheduler r" i "due now"] range_orderD [OF order] Cons.prems(1)
    by (auto simp: sched_ok_def split: option.splits)
  have "tick_orders ts ?r" using Cons.prems(2) by (simp add: t)
  note IH = Cons.IH [OF sched_ok_tick [OF Cons.prems(1) order] this]
  show ?case
    unfolding step filter_append now using IH
    by (auto simp: t processScheduledJobs_simps processScheduledJobs_sched [OF order] split: option.splits if_splits)
qed

text \<open>
  C29. A job for later. A scheduled job is run by the scheduler exactly once, at the first tick at or after its time,
  and is then no longer scheduled; before that it stays. But running it means that it is written to the log: no
  message is put on the bus for it, no counter changes, and no tick ever submits a job.
\<close>

theorem scheduled_once:
  assumes "sched_ok r" "EnqueueAt job t r = (job', r1)" "tick_orders ts r1" "run_ticks ts r1 = (jobs, r2)"
  shows "filter (\<lambda>j. job_ID j = job_ID job) jobs =
      (if \<exists>(now, _) \<in> set ts. t \<le> now then [released job'] else []) \<and>
    rq_scheduler r2 (job_ID job) = (if \<exists>(now, _) \<in> set ts. t \<le> now then None else Some (job', t)) \<and>
    rq_messageBus r2 = rq_messageBus r \<and> rq_stats r2 = rq_stats r"
proof -
  have r1: "rq_scheduler r1 = (rq_scheduler r)(job_ID job \<mapsto> (job', t))" "job_ID job' = job_ID job"
    "rq_messageBus r1 = rq_messageBus r" "rq_stats r1 = rq_stats r"
    using assms(2) by (auto simp: EnqueueAt_def Schedule_def Let_def)
  have "sched_ok r1" using assms(1) r1 by (auto simp: sched_ok_def)
  from run_ticks_spec [OF this assms(3), of "job_ID job"] assms(4) r1 show ?thesis
    by (simp add: due_def)
qed

section \<open>Counters\<close>

text \<open>Everything that can happen to an adapter: its operations, and the bus may be used by others as well.\<close>

inductive rq_step :: "RQAdapter \<Rightarrow> RQAdapter \<Rightarrow> bool" where
  enqueue: "rq_Enqueue clk uuid job r = Some (e, job', r') \<Longrightarrow> rq_step r r'"
| enqueue_at: "rq_step r (snd (EnqueueAt job t r))"
| tick: "rq_step r (snd (processScheduledJobs now order r))"
| unschedule: "rq_step r (Scheduler_Cancel i r)"
| cancel: "rq_step r (CancelJob now i r)"
| attempt: "processJob clk uuid w job r = Some (w', job', r') \<Longrightarrow> rq_step r r'"
| create: "rq_step r (snd (CreateQueue now config r))"
| delete: "rq_step r (snd (DeleteQueue name r))"
| purge: "rq_step r (snd (PurgeQueue name r))"
| register: "rq_step r (RegisterFunction name f r)"
| unregister: "rq_step r (UnregisterFunction name r)"
| start: "rq_step r (snd (StartWorker clk wconfig r))"
| stop: "rq_step r (snd (StopWorker name r))"
| stop_all: "rq_step r (rq_Stop r)"
| event: "rq_step r (eventProcessor r)"
| others: "rq_step r (r\<lparr>rq_messageBus := mb\<rparr>)"

definition balanced :: "RQStats \<Rightarrow> bool" where
  "balanced s \<longleftrightarrow> rs_TotalJobs s = rs_QueuedJobs s \<and> rs_StartedJobs s = - (rs_FinishedJobs s + rs_FailedJobs s)"

definition counters_inv :: "RQAdapter \<Rightarrow> bool" where
  "counters_inv r \<longleftrightarrow> balanced (rq_stats r) \<and> (\<forall>name q. rq_queues r name = Some q \<longrightarrow> rqq_JobCount q = 0)"

lemma balanced_update: "balanced (rq_stats r) \<Longrightarrow> b = - (c + d) \<Longrightarrow> balanced (rq_stats (updateQueueStats now q a b c d r))"
  by (simp add: balanced_def updateQueueStats_def Let_def)

lemma counters_update: "counters_inv r \<Longrightarrow> b = - (c + d) \<Longrightarrow> counters_inv (updateQueueStats now q a b c d r)"
  by (simp add: counters_inv_def balanced_update)

lemma counters_event: "counters_inv (sendEvent e r) = counters_inv r"
  by (simp add: counters_inv_def)

lemma counters_bus: "counters_inv (r\<lparr>rq_messageBus := mb\<rparr>) = counters_inv r"
  by (simp add: counters_inv_def)

lemma counters_enqueue: "rq_Enqueue clk uuid job r = Some (e, job', r') \<Longrightarrow> counters_inv r \<Longrightarrow> counters_inv r'"
  by (auto simp: rq_Enqueue_def Let_def counters_event counters_bus counters_update split: option.splits)

lemma counters_enqueue_at: "counters_inv (snd (EnqueueAt job t r)) = counters_inv r"
  by (simp add: counters_inv_def)

lemma counters_failure:
  assumes "handleJobFailure clk uuid err job r = Some (job', r')" "counters_inv r"
  shows "counters_inv r'"
proof -
  have failed: "moveToFailedQueue clk uuid job r = Some (job', r') \<Longrightarrow> counters_inv r'"
    using assms(2) by (auto simp: moveToFailedQueue_def Let_def intro: counters_enqueue)
  show ?thesis
    using assms failed counters_enqueue_at
    by (auto simp: handleJobFailure_def Let_def split: option.splits if_splits) (metis snd_conv)
qed

lemma counters_process:
  assumes "processJob clk uuid w job r = Some (w', job', r')" "counters_inv r"
  shows "counters_inv r'"
  using assms
  by (auto simp: processJob_def Let_def counters_event split: option.splits sum.splits
        intro!: counters_update elim!: counters_failure)

lemma rq_step_counters: "rq_step r r' \<Longrightarrow> counters_inv r \<Longrightarrow> counters_inv r'"
proof (induction rule: rq_step.induct)
  case (enqueue clk uuid job r e job' r')
  then show ?case by (blast intro: counters_enqueue)
next
  case (enqueue_at r job t)
  then show ?case by (simp add: counters_enqueue_at)
next
  case (attempt clk uuid w job r w' job' r')
  then show ?case by (blast intro: counters_process)
qed (auto simp: counters_inv_def balanced_def processScheduledJobs_simps Scheduler_Cancel_def CancelJob_def CreateQueue_def
       DeleteQueue_def PurgeQueue_def RegisterFunction_def UnregisterFunction_def StartWorker_def StopWorker_def rq_Stop_def
       eventProcessor_def split: option.splits if_splits)

lemma NewRQAdapter_counters: "counters_inv (NewRQAdapter now mb)"
proof -
  have queues: "counters_inv r \<Longrightarrow> counters_inv (foldl (\<lambda>r config. snd (CreateQueue now config r)) r cs)" for r cs
    by (induction cs arbitrary: r) (auto intro: rq_step_counters [OF create])
  show ?thesis
    unfolding NewRQAdapter_def createDefaultQueues_def by (rule queues) (simp add: counters_inv_def balanced_def)
qed


section \<open>Concrete jobs\<close>

definition demo_job :: Job where
  "demo_job =
     \<lparr>job_ID = ''j1'', job_Function = ''f'', job_Args = [AnyString ''x''], job_Kwargs = [], job_Queue = ''default'',
      job_Priority = rq_PriorityNormal,
      job_RetryPolicy = Some \<lparr>rp_MaxRetries = 2, rp_RetryIntervals = [], rp_BackoffStrategy = BackoffFixed, rp_RetryOnFailure = True\<rparr>,
      job_ScheduledAt = None, job_CreatedAt = 0, job_StartedAt = None, job_FinishedAt = None, job_Status = [],
      job_Result = AnyNil, job_Error = [], job_Meta = None\<rparr>"

definition demo_adapter :: RQAdapter where
  "demo_adapter = RegisterFunction ''f'' (\<lambda>_ _ _. Some (Inl ''boom'')) (NewRQAdapter 0 (small_bus Block))"

definition demo_worker :: RQWorker where
  "demo_worker = NewWorker 0 0 \<lparr>wk_Name = ''w'', wk_Queues = [''default''], wk_Concurrency = 1, wk_MaxJobs = 0\<rparr>"

lemma small_bus_ok: "bus_ok (small_bus Block)"
  by (simp add: bus_ok_def small_bus)

lemma demo_adapter_simps:
  "rq_messageBus demo_adapter = small_bus Block" "rq_scheduler demo_adapter = Map.empty"
  "rq_functions demo_adapter ''f'' = Some (\<lambda>_ _ _. Some (Inl ''boom''))"
  by (simp_all add: demo_adapter_def RegisterFunction_def NewRQAdapter_def createDefaultQueues_def defaultQueues_def CreateQueue_def)

lemma demo_room: "has_room p (small_bus Block)"
  using small_bus(2) [of Block "place_of p"] small_bus(5) [where p = p and policy = Block]
  by (simp add: has_room_def flip: content_place_of)



theorem scheduled_once_witness:
  "\<exists>jobs r2. run_ticks [(1, [''j1'']), (5, [''j1'']), (9, [])] (snd (EnqueueAt demo_job 4 demo_adapter)) = (jobs, r2) \<and>
     filter (\<lambda>j. job_ID j = ''j1'') jobs = [released (fst (EnqueueAt demo_job 4 demo_adapter))] \<and> rq_messageBus r2 = small_bus Block"
proof -
  let ?ts = "[(1, [''j1'']), (5, [''j1'']), (9, [])] :: (instant \<times> string list) list"
  obtain job' r1 where e: "EnqueueAt demo_job 4 demo_adapter = (job', r1)" by fastforce
  obtain jobs r2 where j: "run_ticks ?ts r1 = (jobs, r2)" by fastforce
  have sched: "rq_scheduler r1 = [''j1'' \<mapsto> (job', 4)]" "job_ID demo_job = ''j1''"
    using e by (auto simp: EnqueueAt_def Schedule_def Let_def demo_adapter_simps demo_job_def)
  have orders: "tick_orders ?ts r1"
    by (simp add: range_order_def processScheduledJobs_def Let_def sched(1) due_def dom_def)
  have "sched_ok demo_adapter" by (simp add: sched_ok_def demo_adapter_simps)
  from scheduled_once [OF this e orders j] have "filter (\<lambda>j. job_ID j = ''j1'') jobs = [released job']"
    "rq_messageBus r2 = small_bus Block"
    by (simp_all add: sched(2) demo_adapter_simps)
  with e j show ?thesis by simp
qed


end
