(* ===== verification/Spec2Isabelle.thy ===== *)
theory Spec2Isabelle
  imports Prelude Fifo Lock_Free_Queue Errors Ids Message Message_Bus Wal Kafka_Assign Kafka_Groups Kafka_Offsets RW_Locks Kafka_Locks Kafka_Transactions Rate_Limiter Crc32 Kafka_Wire Kafka_Store Wire_Protocol Processor Batch_Writer Kafka_Bridge Kafka_Handlers AMQP_Server AMQP_Delivery Message_Store Native_API Native_Batch Auth Auth_Policy Auth_Middleware Job_Queue
begin

text \<open>
  A verification development for Portask, a message broker written in Go.

  \<^bold>\<open>The program.\<close> Clients reach the broker through three protocols: Portask's own binary and
  JSON protocol (\<^verbatim>\<open>src/pkg/network\<close>), Kafka's (\<^verbatim>\<open>src/pkg/kafka\<close>) and AMQP's
  (\<^verbatim>\<open>src/pkg/amqp\<close>), and through HTTP (\<^verbatim>\<open>src/pkg/api\<close>). Messages
  (\<^verbatim>\<open>src/pkg/types\<close>) pass through a message bus of bounded queues
  (\<^verbatim>\<open>src/pkg/queue\<close>) to workers and into a store (\<^verbatim>\<open>src/pkg/storage\<close>), where a
  write-ahead log makes them durable. Kafka clients are organised in consumer groups, which share out
  partitions and commit offsets, and may produce in transactions.

  \<^bold>\<open>Conventions.\<close> Go's fixed-width integers are words (\<open>i32\<close>, \<open>u64\<close>), so overflow wraps as in
  Go; signed comparisons go through \<open>sint\<close>. Structs are records, errors are values, a panic is
  \<open>None\<close>. A method that changes its receiver returns the changed receiver. The clock is an argument
  (\<open>now\<close>, in nanoseconds), and so is the order in which Go iterates over a map: a list of its keys
  that satisfies \<open>range_order\<close>. A reader is the list of bytes not yet read. Text that is only logged
  is left out.

  \<^bold>\<open>Theories.\<close>
  \<^item> \<open>Prelude\<close>: the shared vocabulary of Go types, byte order (locale \<open>fixed_codec\<close>, interpreted on the
    big and little endian encodings), \<^verbatim>\<open>io.ReadFull\<close>, map iteration, durations.
  \<^item> \<open>Fifo\<close>: the interface of a bounded queue (locale \<open>fifo_queue\<close>) and what a client may
    conclude from it.
  \<^item> \<open>Lock_Free_Queue\<close>: \<^verbatim>\<open>queue/lockfree.go\<close>, the ring buffer with sequence numbers. It
    interprets \<open>fifo_queue\<close>: every sequential run refines a bounded list queue. The drop-oldest policy is
    shown to wedge the queue, a capacity of one to lose messages.
  \<^item> \<open>Errors\<close>, \<open>Ids\<close>, \<open>Message\<close>: \<^verbatim>\<open>types/errors.go\<close>, \<^verbatim>\<open>types/ulid.go\<close> and
    \<^verbatim>\<open>types/message.go\<close>: error classification, ULIDs that sort by time, expiry, retries, batches.
  \<^item> \<open>Message_Bus\<close>: the bus of \<^verbatim>\<open>queue/lockfree.go\<close>, its priority queues, topics and
    workers. Every published and accepted message is processed exactly once; routing, silent drops, the state
    after a restart.
  \<^item> \<open>Crc32\<close>, \<open>Wal\<close>: the IEEE checksum computed bit by bit, with the lemma that it detects every change
    within four consecutive bytes; \<^verbatim>\<open>storage/wal.go\<close> on an explicit file system with volatile and
    durable content: read-back of what was written, corruption, durability after a sync, and the offsets after
    a reopening and a torn write.
  \<^item> \<open>Kafka_Assign\<close>: the four partition assignors of \<^verbatim>\<open>consumer_groups.go\<close> and
    \<^verbatim>\<open>group_coordinator.go\<close> (locale \<open>assignor\<close>): every partition goes to exactly one
    member, round robin is balanced, the two range assignors agree.
  \<^item> \<open>Kafka_Groups\<close>: the two group coordinators as step relations over joins, syncs, heartbeats,
    departures and expiry. Their invariant holds in every reachable state, and old generations are fenced off.
  \<^item> \<open>Kafka_Offsets\<close>: \<^verbatim>\<open>offset_manager.go\<close> and the offset tables of
    \<^verbatim>\<open>protocol.go\<close> (locale \<open>offset_store\<close>, interpreted on all four): the last commit wins;
    what the clean-up removes.
  \<^item> \<open>Kafka_Transactions\<close>: \<^verbatim>\<open>transactions.go\<close>; the producer invariant on sequence numbers,
    and two ways in which transactions go wrong.
  \<^item> \<open>RW_Locks\<close>, \<open>Kafka_Locks\<close>: read-write locks taken by any number of threads, and the lock
    operations of the Kafka package function by function: a lock order rules out deadlocks, except for
    one function, which is shown to deadlock.
  \<^item> \<open>Kafka_Wire\<close>, \<open>Kafka_Store\<close>: framing and dispatch of Kafka requests, and the in-memory log they
    work on: round trips, and a consumer that receives the whole log in order.
  \<^item> \<open>Processor\<close>: \<^verbatim>\<open>processor/processor.go\<close> with the parts of \<^verbatim>\<open>metrics.go\<close> and
    \<^verbatim>\<open>memory/pool.go\<close> it uses: what a worker makes of a message and of a batch.
  \<^item> \<open>Batch_Writer\<close>: \<^verbatim>\<open>processor/batch_writer.go\<close> and \<^verbatim>\<open>parallel_batch_writer.go\<close> over any
    storage that takes batches (locale \<open>batch_backend\<close>); the second as a step relation of its shards.
  \<^item> \<open>Kafka_Bridge\<close>: \<^verbatim>\<open>kafka/translator.go\<close>, \<^verbatim>\<open>kafka/processor_bridge.go\<close> and
    \<^verbatim>\<open>common/idgen.go\<close>. It interprets \<open>batch_backend\<close> on the Kafka log: messages are stored exactly once
    and in order, unless one of them can never be stored or the parallel writer stops.
  \<^item> \<open>Kafka_Handlers\<close>: the request handlers of \<^verbatim>\<open>kafka/handlers.go\<close> and
    \<^verbatim>\<open>handlers_extended.go\<close> and the connection loop, on top of all the Kafka theories: one answer for
    each request, offsets and messages followed from one client's bytes to another's.
  \<^item> \<open>AMQP_Server\<close>, \<open>AMQP_Delivery\<close>: \<^verbatim>\<open>amqp/server.go\<close>, the handshake, the frame loop and the
    handlers on queues, channels and unacknowledged messages: from the bytes of a publisher to those of a
    consumer, the invariant of the channels, what acknowledgements do to the messages held, and how clients
    are misread and channels mixed up.
  \<^item> \<open>Message_Store\<close>: the storage interface of \<^verbatim>\<open>storage/interface.go\<close> and the in-memory stores of
    \<^verbatim>\<open>storage/in_memory.go\<close> and \<^verbatim>\<open>cmd/server/inmemory_store.go\<close> (locale \<open>message_store\<close>, interpreted on both):
    both refine a map from identifiers to messages; what a fetch returns; where the legacy keys end.
  \<^item> \<open>Native_API\<close>, \<open>Native_Batch\<close>: the HTTP handlers of \<^verbatim>\<open>api/consumer_groups_native.go\<close>,
    \<^verbatim>\<open>topics_management.go\<close>, \<^verbatim>\<open>batch_operations.go\<close> and \<^verbatim>\<open>transactions.go\<close> over any storage, with
    their properties on the in-memory store: offsets and lag of a group, joins served at the same time, topics and
    their counts, batches from publishing to acknowledging, and limits.
  \<^item> \<open>Wire_Protocol\<close>: \<^verbatim>\<open>network/protocol.go\<close>, in the state monad: a stream of frames is served
    frame by frame, damaged ones are refused, a closed connection is not noticed.
  \<^item> \<open>Rate_Limiter\<close>: \<^verbatim>\<open>auth/ratelimiter.go\<close>: how many requests a client gets through in an
    interval, across any interleaving with other clients and with clean-ups.
  \<^item> \<open>Auth\<close>, \<open>Auth_Policy\<close>: \<^verbatim>\<open>auth/authenticator.go\<close>, \<^verbatim>\<open>audit.go\<close>, \<^verbatim>\<open>helpers.go\<close> and
    \<^verbatim>\<open>api.go\<close>: users, API keys, tokens, permissions, the audit log and the whole HTTP API of accounts, over any token
    library (\<open>jwt_lib\<close>, with its documented laws in \<open>jwt_ok\<close>). What a request may change is specified by the
    inductive relation \<open>policy\<close>, which every request follows; no request panics; callers without administrative
    rights never raise the rights of a user; a revoked key stays dead; a token from a login is accepted.
  \<^item> \<open>Auth_Middleware\<close>: \<^verbatim>\<open>auth/middleware.go\<close>, the Fiber and net/http middlewares: what a login gives, and
    how long a session can be kept alive by refreshing it.
  \<^item> \<open>Job_Queue\<close>: \<^verbatim>\<open>rq/types.go\<close>, \<^verbatim>\<open>adapter.go\<close>, \<^verbatim>\<open>worker.go\<close> and \<^verbatim>\<open>scheduler.go\<close> on top of the
    message bus: submission, retry delays, the end of the retries of a job that fails, the scheduler, and the
    counters of the queues in every reachable state (\<open>rq_step\<close>).

  \<^bold>\<open>Fuel and bounds.\<close> The loops of the bus workers and the connection loop run until they are
  stopped. Their models take the number of rounds; the theorems on them state the number of rounds that
  is enough (the number of queued messages or of frames) or hold for every number. The attempts at a job
  (\<open>attempts\<close>) take fuel; \<open>retries_left + 1\<close> attempts are shown to be enough. The rate limiter is
  shown correct for rates up to \<open>2 ^ 29\<close>, beyond which its products may overflow. Kafka strings are
  shorter than \<open>2 ^ 15\<close> bytes, frames shorter than \<open>2 ^ 32\<close>, which are the widths of their length fields. The AMQP invariants hold for the first \<open>2 ^ 31\<close> operations of a
  server, which keeps counters and tags from wrapping. An AMQP connection is the list of pieces that its reads
  return, because the server does not put pieces together.

  \<^bold>\<open>Not modelled.\<close>
  \<^item> The interleavings of atomic operations within one queue operation: the queue and the bus are modelled
    at the granularity of whole operations, the Kafka package at that of its locks.
  \<^item> Databases, compressors, encoders, HTTP and cryptography: third-party code the sources call. A request to an
    HTTP handler arrives parsed, and the text of a time is the second it denotes.
  \<^item> Metrics, logging, configuration and the wiring of the server program.
  \<^item> Sockets and listeners: a connection is its bytes, and read deadlines do not expire.
  \<^item> The parts of \<^verbatim>\<open>auth\<close> on encryption, on audit logs in files and on the limiter with fractional rates
    (\<^verbatim>\<open>encryption.go\<close>, \<open>FileAuditLogger\<close>, \<^verbatim>\<open>ratelimiter_middleware.go\<close>): cryptography, files and
    floating-point numbers. The requests of the account API are served one at a time, though the maps of the
    authenticator have no lock.
  \<^item> The placeholders of \<^verbatim>\<open>rq\<close> that return nothing (\<open>GetJob\<close>, \<open>RequeueJob\<close>, \<open>GetQueueJobs\<close>,
    \<open>GetWorkers\<close>), its heartbeats and its periodic statistics.
  \<^item> The memory pools and the cluster membership are parts with logic of their own that the development does not reach.
\<close>

end
